(* ===== verification/Prelude.thy ===== *)
theory Prelude
  imports Complex_Main "HOL-Library.Word" "HOL-Library.List_Lexorder"
begin

section \<open>Prelude: results, strings and ordered maps\<close>

text \<open>
  What every component of the billing-expression library shares.

  \<^item> Results: a JavaScript call either throws or returns, so its model has the type
    \<open>'e + 'a\<close>; \<open>sbind\<close> sequences two calls, and its two inversion rules are
    simplification rules, so that \<open>auto\<close> takes a chain of calls apart.
  \<^item> Strings: a JavaScript string is a list of 16-bit code units (\<open>jsstring\<close>);
    \<open>js\<close> reads an ASCII literal. The order on strings is the lexicographic order of
    code units, which is what the JavaScript operators compare.
  \<^item> Maps and objects: a JavaScript \<open>Map\<close> or object keeps the order of insertion and is
    modelled as an association list; \<open>map_set\<close> overwrites in place or appends.
\<close>

named_theorems js_lits \<open>unfolding of string literals into code units\<close>
named_theorems js_defs \<open>definitions of string and map helpers, for evaluation\<close>

subsection \<open>Results\<close>

fun sbind :: "'e + 'a \<Rightarrow> ('a \<Rightarrow> 'e + 'b) \<Rightarrow> 'e + 'b" where
  "sbind (Inl e) f = Inl e"
| "sbind (Inr x) f = f x"

lemma sbind_eq_Inr [simp]: "sbind m f = Inr y \<longleftrightarrow> (\<exists>x. m = Inr x \<and> f x = Inr y)"
  by (cases m) auto

lemma sbind_eq_Inl [simp]:
  "sbind m f = Inl e \<longleftrightarrow> m = Inl e \<or> (\<exists>x. m = Inr x \<and> f x = Inl e)"
  by (cases m) auto

lemma sbind_assoc [simp]: "sbind (sbind m f) g = sbind m (\<lambda>x. sbind (f x) g)"
  by (cases m) auto

lemma sbind_Inr_right [simp]: "sbind m Inr = m"
  by (cases m) auto

lemma sbind_cong [fundef_cong]:
  "m = m' \<Longrightarrow> (\<And>x. m' = Inr x \<Longrightarrow> f x = g x) \<Longrightarrow> sbind m f = sbind m' g"
  by (cases m') auto

text \<open>A loop \<open>for (const x of xs) state = f(x, state)\<close> whose body may throw.\<close>

fun sfold :: "('a \<Rightarrow> 's \<Rightarrow> 'e + 's) \<Rightarrow> 'a list \<Rightarrow> 's \<Rightarrow> 'e + 's" where
  "sfold f [] s = Inr s"
| "sfold f (x # xs) s = sbind (f x s) (sfold f xs)"

lemma sfold_Nil_eq [simp]: "sfold f [] = Inr"
  by (rule ext) simp

lemma sfold_single [simp]: "sfold f [x] = f x"
  by (rule ext) simp

lemma sfold_append: "sfold f (xs @ ys) s = sbind (sfold f xs s) (sfold f ys)"
  by (induction xs arbitrary: s) (auto intro: sbind_cong)

lemma sfold_cong [fundef_cong]:
  assumes "xs = ys" "s = t" "\<And>x u. x \<in> set ys \<Longrightarrow> f x u = g x u"
  shows "sfold f xs s = sfold g ys t"
proof -
  have "(\<And>x u. x \<in> set ys \<Longrightarrow> f x u = g x u) \<Longrightarrow> sfold f ys t = sfold g ys t"
    by (induction ys arbitrary: t) (auto intro: sbind_cong)
  with assms show ?thesis by blast
qed

text \<open>An invariant kept by every step of a throwing loop is kept by the loop.\<close>

lemma sfold_invariant:
  assumes "sfold f xs s = Inr t" "P s"
    and "\<And>x u v. x \<in> set xs \<Longrightarrow> P u \<Longrightarrow> f x u = Inr v \<Longrightarrow> P v"
  shows "P t"
  using assms by (induction xs arbitrary: s) auto

text \<open>\<open>Array.prototype.map\<close> of a throwing function.\<close>

fun smap :: "('a \<Rightarrow> 'e + 'b) \<Rightarrow> 'a list \<Rightarrow> 'e + 'b list" where
  "smap f [] = Inr []"
| "smap f (x # xs) = sbind (f x) (\<lambda>y. sbind (smap f xs) (\<lambda>ys. Inr (y # ys)))"

lemma smap_cong [fundef_cong]:
  assumes "xs = ys" "\<And>x. x \<in> set ys \<Longrightarrow> f x = g x"
  shows "smap f xs = smap g ys"
proof -
  have "(\<And>x. x \<in> set ys \<Longrightarrow> f x = g x) \<Longrightarrow> smap f ys = smap g ys"
    by (induction ys) (auto intro: sbind_cong)
  with assms show ?thesis by blast
qed

subsection \<open>Strings of 16-bit code units\<close>

type_synonym unit16 = "16 word"
type_synonym jsstring = "16 word list"

definition js :: "string \<Rightarrow> jsstring" where
  [js_lits]: "js s = map (\<lambda>c. word_of_int (of_char c)) s"

lemma uint_code_unit [simp]: "uint (word_of_int (of_char c) :: unit16) = of_char c"
proof -
  have "(of_char c :: nat) < 256" by (rule nat_of_char_less_256)
  then have "int (of_char c) mod 65536 = int (of_char c)" by (intro mod_pos_pos_trivial) linarith+
  then have "(of_char c :: int) mod 65536 = of_char c" by (simp add: of_nat_of_char)
  then show ?thesis by (simp add: uint_word_of_int)
qed

lemma code_unit_eq_iff [simp]:
  "(word_of_int (of_char c) :: unit16) = word_of_int (of_char d) \<longleftrightarrow> c = d"
  by (metis uint_code_unit of_char_eq_iff)

lemma js_eq_iff [simp]: "js a = js b \<longleftrightarrow> a = b"
  unfolding js_def by (rule inj_map_eq_map) (simp add: inj_def)

lemma js_Nil [simp]: "js [] = []"
  by (simp add: js_def)

lemma js_eq_Nil [simp]: "js a = [] \<longleftrightarrow> a = []" "[] = js a \<longleftrightarrow> a = []"
  by (auto simp: js_def)

lemma length_js [simp]: "length (js a) = length a"
  by (simp add: js_def)

lemma js_append: "js (a @ b) = js a @ js b"
  by (simp add: js_def)

text \<open>
  Code units with a role in the grammar, and the character classes of the source's regular
  expressions. \<open>is_space\<close> is the class \<open>\s\<close>, which is also what \<open>trim\<close> removes.
\<close>

abbreviation DQ :: unit16 where "DQ \<equiv> 34"
abbreviation SQ :: unit16 where "SQ \<equiv> 39"
abbreviation BSL :: unit16 where "BSL \<equiv> 92"
abbreviation DOT :: unit16 where "DOT \<equiv> 46"
abbreviation LF :: unit16 where "LF \<equiv> 10"
abbreviation CR :: unit16 where "CR \<equiv> 13"

definition is_space :: "unit16 \<Rightarrow> bool" where
  "is_space c \<longleftrightarrow> (9 \<le> c \<and> c \<le> 13) \<or> c = 32 \<or> c = 0xA0 \<or> c = 0x1680
     \<or> (0x2000 \<le> c \<and> c \<le> 0x200A) \<or> c = 0x2028 \<or> c = 0x2029 \<or> c = 0x202F
     \<or> c = 0x205F \<or> c = 0x3000 \<or> c = 0xFEFF"

definition is_digit :: "unit16 \<Rightarrow> bool" where
  "is_digit c \<longleftrightarrow> 48 \<le> c \<and> c \<le> 57"

definition is_upper :: "unit16 \<Rightarrow> bool" where
  "is_upper c \<longleftrightarrow> 65 \<le> c \<and> c \<le> 90"

definition is_lower :: "unit16 \<Rightarrow> bool" where
  "is_lower c \<longleftrightarrow> 97 \<le> c \<and> c \<le> 122"

definition is_name_start :: "unit16 \<Rightarrow> bool" where
  "is_name_start c \<longleftrightarrow> is_upper c \<or> is_lower c \<or> c = 95"

definition is_word_char :: "unit16 \<Rightarrow> bool" where
  "is_word_char c \<longleftrightarrow> is_name_start c \<or> is_digit c"

definition is_hex :: "unit16 \<Rightarrow> bool" where
  "is_hex c \<longleftrightarrow> is_digit c \<or> (65 \<le> c \<and> c \<le> 70) \<or> (97 \<le> c \<and> c \<le> 102)"

definition hex_value :: "unit16 \<Rightarrow> nat" where
  "hex_value c = (if is_digit c then unat c - 48 else if is_upper c then unat c - 55
     else unat c - 87)"

definition digit_value :: "unit16 \<Rightarrow> int" where
  "digit_value c = uint c - 48"

text \<open>String methods.\<close>

definition js_slice :: "jsstring \<Rightarrow> nat \<Rightarrow> nat \<Rightarrow> jsstring" where
  "js_slice s a b = take (b - a) (drop a s)"

definition js_trim :: "jsstring \<Rightarrow> jsstring" where
  "js_trim s = rev (dropWhile is_space (rev (dropWhile is_space s)))"

definition js_startsWith :: "jsstring \<Rightarrow> jsstring \<Rightarrow> bool" where
  "js_startsWith s p \<longleftrightarrow> take (length p) s = p"

fun js_includes :: "jsstring \<Rightarrow> jsstring \<Rightarrow> bool" where
  "js_includes [] sub = (sub = [])"
| "js_includes (c # s) sub = (js_startsWith (c # s) sub \<or> js_includes s sub)"

fun js_join :: "jsstring list \<Rightarrow> jsstring \<Rightarrow> jsstring" where
  "js_join [] sep = []"
| "js_join [x] sep = x"
| "js_join (x # y # xs) sep = x @ sep @ js_join (y # xs) sep"

lemma length_drop_Cons: "drop n s = c # t \<Longrightarrow> length s = n + Suc (length t)"
proof -
  assume "drop n s = c # t"
  then have "length (drop n s) = Suc (length t)" by (simp only: list.size)
  then show ?thesis by simp
qed

lemma js_slice_self [simp]: "js_slice s 0 (length s) = s"
  by (simp add: js_slice_def)

lemma length_js_slice: "b \<le> length s \<Longrightarrow> length (js_slice s a b) = b - a"
  by (simp add: js_slice_def)

lemma js_slice_append:
  assumes "a \<le> b" "b \<le> c"
  shows "js_slice s a b @ js_slice s b c = js_slice s a c"
proof -
  have "take (b - a) (drop a s) @ take (c - b) (drop (b - a) (drop a s)) = take (c - a) (drop a s)"
    using assms take_add[of "b - a" "c - b" "drop a s"] by simp
  then show ?thesis
    using assms by (simp add: js_slice_def)
qed

lemma js_slice_slice:
  assumes "a \<le> i" "i \<le> j" "j \<le> b"
  shows "js_slice (js_slice s a b) (i - a) (j - a) = js_slice s i j"
  using assms by (simp add: js_slice_def drop_take min_absorb1 diff_le_mono)

lemma js_includes_iff: "js_includes s sub \<longleftrightarrow> (\<exists>a b. s = a @ sub @ b)"
proof (induction s)
  case Nil
  show ?case by auto
next
  case (Cons c s)
  have "js_startsWith (c # s) sub \<longleftrightarrow> (\<exists>b. c # s = sub @ b)"
    unfolding js_startsWith_def by (metis append_eq_conv_conj)
  moreover have "(\<exists>a b. c # s = a @ sub @ b) \<longleftrightarrow>
      (\<exists>b. c # s = sub @ b) \<or> (\<exists>a b. s = a @ sub @ b)"
    by (metis append_Cons append_Nil list.sel(3) neq_Nil_conv)
  ultimately show ?case using Cons.IH by simp
qed

text \<open>A trimmed string has no white space at its two ends.\<close>

definition trimmed :: "jsstring \<Rightarrow> bool" where
  "trimmed s \<longleftrightarrow> s = [] \<or> (\<not> is_space (hd s) \<and> \<not> is_space (last s))"

lemma last_dropWhile: "dropWhile P xs \<noteq> [] \<Longrightarrow> last (dropWhile P xs) = last xs"
  by (induction xs) auto

lemma trimmed_js_trim [simp]: "trimmed (js_trim s)"
proof (cases "js_trim s = []")
  case False
  let ?d = "dropWhile is_space s"
  let ?t = "dropWhile is_space (rev ?d)"
  from False have t: "?t \<noteq> []" by (simp add: js_trim_def)
  then have d: "?d \<noteq> []" by (metis dropWhile.simps(1) rev.simps(1))
  have "last (js_trim s) = hd ?t" using t by (simp add: js_trim_def last_rev)
  moreover have "hd (js_trim s) = hd ?d"
    using t d last_dropWhile[OF t] by (simp add: js_trim_def hd_rev last_rev)
  ultimately show ?thesis
    using hd_dropWhile[OF t] hd_dropWhile[OF d] by (simp add: trimmed_def)
qed (simp add: trimmed_def)

lemma js_trim_trimmed [simp]: "trimmed s \<Longrightarrow> js_trim s = s"
  unfolding trimmed_def js_trim_def
  by (metis Nil_is_rev_conv dropWhile.simps(1) dropWhile_eq_self_iff hd_rev rev_rev_ident)

lemma js_trim_parts:
  "\<exists>a b. s = a @ js_trim s @ b \<and> (\<forall>c \<in> set a \<union> set b. is_space c)"
proof -
  let ?d = "dropWhile is_space s"
  have "rev (takeWhile is_space (rev ?d) @ dropWhile is_space (rev ?d)) = ?d" by simp
  then have "?d = js_trim s @ rev (takeWhile is_space (rev ?d))"
    unfolding js_trim_def by (metis rev_append)
  then have "s = takeWhile is_space s @ js_trim s @ rev (takeWhile is_space (rev ?d))"
    by (metis takeWhile_dropWhile_id)
  moreover have "\<forall>c \<in> set (takeWhile is_space s) \<union> set (rev (takeWhile is_space (rev ?d))). is_space c"
    by (auto dest: set_takeWhileD)
  ultimately show ?thesis by blast
qed

subsection \<open>Ordered maps\<close>

text \<open>\<open>Map.prototype.set\<close> and property assignment: an existing key keeps its place.\<close>

fun map_set :: "'k \<Rightarrow> 'v \<Rightarrow> ('k \<times> 'v) list \<Rightarrow> ('k \<times> 'v) list" where
  "map_set k v [] = [(k, v)]"
| "map_set k v ((a, b) # m) = (if a = k then (k, v) # m else (a, b) # map_set k v m)"

lemma map_of_map_set [simp]: "map_of (map_set k v m) = (map_of m)(k \<mapsto> v)"
  by (induction k v m rule: map_set.induct) auto

lemma map_set_new: "map_of m k = None \<Longrightarrow> map_set k v m = m @ [(k, v)]"
  by (induction k v m rule: map_set.induct) (auto split: if_splits)

lemma keys_map_set: "set (map fst (map_set k v m)) = insert k (set (map fst m))"
  by (induction k v m rule: map_set.induct) auto

lemma distinct_map_set: "distinct (map fst m) \<Longrightarrow> distinct (map fst (map_set k v m))"
  by (induction k v m rule: map_set.induct) (auto simp: keys_map_set[simplified])

text \<open>\<open>Set.prototype.add\<close> on a set kept in insertion order.\<close>

definition set_add :: "'a \<Rightarrow> 'a list \<Rightarrow> 'a list" where
  "set_add x xs = (if x \<in> set xs then xs else xs @ [x])"

lemma set_set_add [simp]: "set (set_add x xs) = insert x (set xs)"
  by (auto simp: set_add_def)

lemma distinct_set_add [simp]: "distinct xs \<Longrightarrow> distinct (set_add x xs)"
  by (auto simp: set_add_def)

end
