(* ===== verification/JsNumber.thy ===== *)
theory JsNumber
  imports Prelude
begin

section \<open>JavaScript numbers\<close>

text \<open>
  The numbers of the program are IEEE-754 binary64 values. A finite non-zero value (and
  \<open>+0\<close>) is \<open>Fin r\<close> with its exact rational value; \<open>-0\<close>, the infinities and NaN
  are constructors of their own. Every arithmetic operation computes the exact rational
  result and rounds it once with \<open>rnd64\<close> (round to nearest, ties to even, gradual
  underflow, overflow to an infinity), which is how IEEE-754 and ECMAScript define them.
  Also here: \<open>Number(text)\<close>, \<open>String(number)\<close> and \<open>toExponential()\<close>.
  Everything is computed on \<open>int\<close> and \<open>rat\<close>, so concrete inputs evaluate in the kernel.
\<close>

named_theorems num_simps \<open>classification of JavaScript numbers\<close>

subsection \<open>Rounding\<close>

function ilog2 :: "int \<Rightarrow> int" where
  "ilog2 n = (if n < 2 then 0 else 1 + ilog2 (n div 2))"
  by pat_completeness auto
termination
  by (relation "measure nat") auto

declare ilog2.simps [simp del]

definition pow2 :: "int \<Rightarrow> rat" where
  "pow2 e = (if 0 \<le> e then of_int (2 ^ nat e) else 1 / of_int (2 ^ nat (- e)))"

text \<open>\<open>flog2 x\<close> is the binary exponent of a positive rational: \<open>2^e \<le> x < 2^(e+1)\<close>.\<close>

definition flog2 :: "rat \<Rightarrow> int" where
  "flog2 x = (let (p, q) = quotient_of x; e = ilog2 p - ilog2 q
     in if x < pow2 e then e - 1 else e)"

definition round_even :: "rat \<Rightarrow> int" where
  "round_even r = (let f = \<lfloor>r\<rfloor>; d = r - of_int f in
     if d < 1 / 2 then f else if d > 1 / 2 then f + 1 else if even f then f else f + 1)"

datatype jsnum = NaN | Infinity | NegInfinity | NegZero | Fin rat

definition rnd64 :: "rat \<Rightarrow> jsnum" where
  "rnd64 x = (if x = 0 then Fin 0 else
     let e = max (flog2 \<bar>x\<bar>) (- 1022);
         q = pow2 (e - 52);
         r = of_int (round_even (x / q)) * q
     in if pow2 1024 \<le> r then Infinity
        else if r \<le> - pow2 1024 then NegInfinity
        else if r = 0 then (if x < 0 then NegZero else Fin 0)
        else Fin r)"

subsection \<open>Arithmetic\<close>

fun num_val :: "jsnum \<Rightarrow> rat" where
  "num_val (Fin r) = r"
| "num_val _ = 0"

fun is_finite :: "jsnum \<Rightarrow> bool" where
  "is_finite (Fin r) = True"
| "is_finite NegZero = True"
| "is_finite _ = False"

fun neg_sign :: "jsnum \<Rightarrow> bool" where
  "neg_sign (Fin r) = (r < 0)"
| "neg_sign NegZero = True"
| "neg_sign NegInfinity = True"
| "neg_sign _ = False"

definition signed_zero :: "bool \<Rightarrow> jsnum" where
  "signed_zero neg = (if neg then NegZero else Fin 0)"

definition signed_inf :: "bool \<Rightarrow> jsnum" where
  "signed_inf neg = (if neg then NegInfinity else Infinity)"

fun js_neg :: "jsnum \<Rightarrow> jsnum" where
  "js_neg NaN = NaN"
| "js_neg Infinity = NegInfinity"
| "js_neg NegInfinity = Infinity"
| "js_neg NegZero = Fin 0"
| "js_neg (Fin r) = (if r = 0 then NegZero else Fin (- r))"

definition js_add :: "jsnum \<Rightarrow> jsnum \<Rightarrow> jsnum" where
  "js_add a b =
    (if a = NaN \<or> b = NaN then NaN
     else if \<not> is_finite a then (if is_finite b \<or> a = b then a else NaN)
     else if \<not> is_finite b then b
     else if a = NegZero \<and> b = NegZero then NegZero
     else rnd64 (num_val a + num_val b))"

definition js_sub :: "jsnum \<Rightarrow> jsnum \<Rightarrow> jsnum" where
  "js_sub a b = js_add a (js_neg b)"

definition js_mul :: "jsnum \<Rightarrow> jsnum \<Rightarrow> jsnum" where
  "js_mul a b = (let neg = (neg_sign a \<noteq> neg_sign b) in
     if a = NaN \<or> b = NaN then NaN
     else if \<not> is_finite a then (if is_finite b \<and> num_val b = 0 then NaN else signed_inf neg)
     else if \<not> is_finite b then (if num_val a = 0 then NaN else signed_inf neg)
     else if num_val a * num_val b = 0 then signed_zero neg
     else rnd64 (num_val a * num_val b))"

definition js_div :: "jsnum \<Rightarrow> jsnum \<Rightarrow> jsnum" where
  "js_div a b = (let neg = (neg_sign a \<noteq> neg_sign b) in
     if a = NaN \<or> b = NaN then NaN
     else if \<not> is_finite a then (if is_finite b then signed_inf neg else NaN)
     else if \<not> is_finite b then signed_zero neg
     else if num_val b = 0 then (if num_val a = 0 then NaN else signed_inf neg)
     else if num_val a = 0 then signed_zero neg
     else rnd64 (num_val a / num_val b))"

text \<open>Truncation towards zero, and the remainder \<open>%\<close> (sign of the dividend, exact).\<close>

definition rat_trunc :: "rat \<Rightarrow> int" where
  "rat_trunc r = (if 0 \<le> r then \<lfloor>r\<rfloor> else - \<lfloor>- r\<rfloor>)"

definition js_rem :: "jsnum \<Rightarrow> jsnum \<Rightarrow> jsnum" where
  "js_rem a b =
    (if a = NaN \<or> b = NaN \<or> \<not> is_finite a then NaN
     else if \<not> is_finite b then a
     else if num_val b = 0 then NaN
     else let r = num_val a - num_val b * of_int (rat_trunc (num_val a / num_val b))
          in if r = 0 then signed_zero (neg_sign a) else Fin r)"

fun js_lt :: "jsnum \<Rightarrow> jsnum \<Rightarrow> bool" where
  "js_lt NaN b = False"
| "js_lt a NaN = False"
| "js_lt Infinity b = False"
| "js_lt a NegInfinity = False"
| "js_lt a Infinity = True"
| "js_lt NegInfinity b = True"
| "js_lt a b = (num_val a < num_val b)"

fun js_num_eq :: "jsnum \<Rightarrow> jsnum \<Rightarrow> bool" where
  "js_num_eq NaN b = False"
| "js_num_eq a NaN = False"
| "js_num_eq Infinity b = (b = Infinity)"
| "js_num_eq NegInfinity b = (b = NegInfinity)"
| "js_num_eq a Infinity = False"
| "js_num_eq a NegInfinity = False"
| "js_num_eq a b = (num_val a = num_val b)"

definition js_le :: "jsnum \<Rightarrow> jsnum \<Rightarrow> bool" where
  "js_le a b \<longleftrightarrow> js_lt a b \<or> js_num_eq a b"

definition math_min :: "jsnum \<Rightarrow> jsnum \<Rightarrow> jsnum" where
  "math_min a b =
    (if a = NaN \<or> b = NaN then NaN
     else if js_lt a b then a else if js_lt b a then b
     else if neg_sign a then a else b)"

definition math_max :: "jsnum \<Rightarrow> jsnum \<Rightarrow> jsnum" where
  "math_max a b =
    (if a = NaN \<or> b = NaN then NaN
     else if js_lt a b then b else if js_lt b a then a
     else if neg_sign a then b else a)"

definition math_abs :: "jsnum \<Rightarrow> jsnum" where
  "math_abs a = (if neg_sign a then js_neg a else a)"

fun math_floor :: "jsnum \<Rightarrow> jsnum" where
  "math_floor (Fin r) = Fin (of_int \<lfloor>r\<rfloor>)"
| "math_floor a = a"

definition math_ceil :: "jsnum \<Rightarrow> jsnum" where
  "math_ceil a = js_neg (math_floor (js_neg a))"

definition is_integer :: "jsnum \<Rightarrow> bool" where
  "is_integer a \<longleftrightarrow> is_finite a \<and> of_int \<lfloor>num_val a\<rfloor> = num_val a"

definition is_safe_integer :: "jsnum \<Rightarrow> bool" where
  "is_safe_integer a \<longleftrightarrow> is_integer a \<and> \<bar>num_val a\<bar> \<le> 9007199254740991"

definition js_int :: "int \<Rightarrow> jsnum" where
  "js_int n = rnd64 (of_int n)"

subsection \<open>Exact integers\<close>

lemma ilog2_bounds: "0 < n \<Longrightarrow> 0 \<le> ilog2 n \<and> 2 ^ nat (ilog2 n) \<le> n \<and> n < 2 * 2 ^ nat (ilog2 n)"
proof (induction n rule: ilog2.induct)
  case (1 n)
  show ?case
  proof (cases "n < 2")
    case True
    then show ?thesis using 1(2) by (simp add: ilog2.simps[of n])
  next
    case False
    then have IH: "0 \<le> ilog2 (n div 2)" "2 ^ nat (ilog2 (n div 2)) \<le> n div 2"
        "n div 2 < 2 * 2 ^ nat (ilog2 (n div 2))"
      using 1(1) by simp_all
    have "ilog2 n = 1 + ilog2 (n div 2)" using False by (simp add: ilog2.simps[of n])
    then have e: "nat (ilog2 n) = Suc (nat (ilog2 (n div 2)))" "0 \<le> ilog2 n" using IH(1) by simp_all
    show ?thesis unfolding e(1) power_Suc using IH e(2) by linarith
  qed
qed

lemma round_even_int [simp]: "round_even (of_int k) = k"
  by (simp add: round_even_def)

lemma flog2_int: "0 < n \<Longrightarrow> flog2 (of_int n) = ilog2 n"
proof -
  assume n: "0 < n"
  have "pow2 (ilog2 n) \<le> of_int n"
    using ilog2_bounds[OF n] unfolding pow2_def by (metis of_int_le_iff)
  moreover have "ilog2 1 = 0" by (simp add: ilog2.simps[of 1])
  ultimately show ?thesis by (simp add: flog2_def Let_def)
qed

lemma pow2_mono: "0 \<le> a \<Longrightarrow> a \<le> b \<Longrightarrow> pow2 a \<le> pow2 b"
proof -
  assume "0 \<le> a" "a \<le> b"
  then have "(2::int) ^ nat a \<le> 2 ^ nat b" by (intro power_increasing) simp_all
  then show ?thesis using \<open>0 \<le> a\<close> \<open>a \<le> b\<close> by (simp only: pow2_def of_int_le_iff if_True order_trans[OF \<open>0 \<le> a\<close> \<open>a \<le> b\<close>])
qed

text \<open>Integers of at most 53 bits are exact.\<close>

lemma rnd64_scaled:
  assumes "x \<noteq> 0" "e = max (flog2 \<bar>x\<bar>) (- 1022)" "x = of_int k * pow2 (e - 52)" "\<bar>x\<bar> < pow2 1024"
  shows "rnd64 x = Fin x"
proof -
  have q: "pow2 (e - 52) \<noteq> 0" by (simp add: pow2_def)
  then have "of_int (round_even (x / pow2 (e - 52))) * pow2 (e - 52) = x"
    by (simp add: assms(3))
  moreover have "\<not> pow2 1024 \<le> x" "\<not> x \<le> - pow2 1024" using assms(4) by linarith+
  ultimately show ?thesis using assms(1) by (simp add: rnd64_def Let_def flip: assms(2))
qed

lemma rnd64_int:
  assumes "\<bar>n\<bar> < 2 ^ 53"
  shows "rnd64 (of_int n) = Fin (of_int n)"
proof (cases "n = 0")
  case False
  define e where "e = ilog2 \<bar>n\<bar>"
  have b: "0 \<le> e" "2 ^ nat e \<le> \<bar>n\<bar>" using ilog2_bounds[of "\<bar>n\<bar>"] False by (auto simp: e_def)
  have "(2::int) ^ nat e < 2 ^ 53" using b(2) assms by linarith
  then have "nat e < 53" by (rule power_less_imp_less_exp[rotated]) simp
  then have le: "e \<le> 52" using b(1) by linarith
  have fl: "flog2 \<bar>of_int n\<bar> = e" using flog2_int[of "\<bar>n\<bar>"] False by (simp add: e_def)
  have "of_int (n * 2 ^ nat (52 - e)) * pow2 (e - 52) = (of_int n :: rat)"
    using le b(1) by (cases "e = 52") (simp_all add: pow2_def)
  moreover have "\<bar>of_int n\<bar> < pow2 1024"
  proof -
    have "of_int \<bar>n\<bar> < (of_int (2 ^ 53) :: rat)" using assms by (simp only: of_int_less_iff)
    also have "of_int (2 ^ 53) = pow2 53" by (simp only: pow2_def zero_le_numeral if_True nat_numeral)
    also have "\<dots> \<le> pow2 1024" by (rule pow2_mono) simp_all
    finally show ?thesis by simp
  qed
  ultimately show ?thesis
    using False fl b(1) by (intro rnd64_scaled[where e = e and k = "n * 2 ^ nat (52 - e)"]) simp_all
qed (simp add: rnd64_def)

text \<open>\<open>num_int a n\<close>: the number \<open>a\<close> is the integer \<open>n\<close> (either zero when \<open>n\<close> is 0).\<close>

definition num_int :: "jsnum \<Rightarrow> int \<Rightarrow> bool" where
  "num_int a n \<longleftrightarrow> is_finite a \<and> num_val a = of_int n"

lemma num_int_Fin [simp]: "num_int (Fin r) n \<longleftrightarrow> r = of_int n"
  by (simp add: num_int_def)

lemma num_int_order:
  assumes "num_int a m" "num_int b n"
  shows "js_lt a b \<longleftrightarrow> m < n" "js_num_eq a b \<longleftrightarrow> m = n" "js_le a b \<longleftrightarrow> m \<le> n"
  using assms by (cases a; cases b; auto simp: num_int_def js_le_def)+

lemma num_int_max: "num_int a m \<Longrightarrow> num_int b n \<Longrightarrow> num_int (math_max a b) (max m n)"
  using num_int_order[of a m b n] num_int_order[of b n a m]
  by (auto simp: math_max_def num_int_def)

lemma num_int_min: "num_int a m \<Longrightarrow> num_int b n \<Longrightarrow> num_int (math_min a b) (min m n)"
  using num_int_order[of a m b n] num_int_order[of b n a m]
  by (auto simp: math_min_def num_int_def)

lemma num_int_add:
  assumes "num_int a m" "num_int b n" "\<bar>m + n\<bar> < 2 ^ 53"
  shows "num_int (js_add a b) (m + n)"
proof -
  have "rnd64 (num_val a + num_val b) = Fin (of_int (m + n))"
    using rnd64_int[OF assms(3)] assms(1,2) by (simp add: num_int_def)
  then show ?thesis using assms(1,2) by (auto simp: js_add_def num_int_def)
qed

end
