(* ===== verification/JsText.thy ===== *)
theory JsText
  imports JsNumber
begin

section \<open>Numbers as text, and dynamic values\<close>

text \<open>
  The conversions between numbers and strings that the program uses: \<open>Number(text)\<close>
  (ECMAScript StringToNumber), \<open>String(number)\<close> (Number::toString, the shortest decimal
  that rounds back to the number) and \<open>toExponential()\<close>. \<open>jsval\<close> is the type of a
  value whose static type is \<open>unknown\<close>: a JSON value or \<open>undefined\<close>; objects keep their
  property order. \<open>strict_eq\<close> is \<open>===\<close> on the values the program compares.
\<close>

subsection \<open>Decimal literals\<close>

definition pow10 :: "int \<Rightarrow> rat" where
  "pow10 e = (if 0 \<le> e then of_int (10 ^ nat e) else 1 / of_int (10 ^ nat (- e)))"

definition digits_int :: "jsstring \<Rightarrow> int" where
  "digits_int s = foldl (\<lambda>n c. 10 * n + digit_value c) 0 s"

text \<open>
  The regular expression \<open>(?:\d+(?:\.\d*)?|\.\d+)(?:[eE][+-]?\d+)?\<close> at the start of a
  string: the length of its match.
\<close>

definition scan_exponent :: "jsstring \<Rightarrow> nat" where
  "scan_exponent s = (case s of [] \<Rightarrow> 0 | e # r \<Rightarrow>
     if e = 101 \<or> e = 69 then
       let sgn = (case r of [] \<Rightarrow> 0 | c # _ \<Rightarrow> if c = 43 \<or> c = 45 then 1 else 0);
           ds = takeWhile is_digit (drop sgn r)
       in if ds = [] then 0 else 1 + sgn + length ds
     else 0)"

definition scan_mantissa :: "jsstring \<Rightarrow> nat option" where
  "scan_mantissa s =
    (let ip = length (takeWhile is_digit s) in
     if 0 < ip then
       (case drop ip s of [] \<Rightarrow> Some ip
        | c # t \<Rightarrow> if c = DOT then Some (ip + 1 + length (takeWhile is_digit t)) else Some ip)
     else
       (case s of [] \<Rightarrow> None
        | c # t \<Rightarrow> if c = DOT \<and> takeWhile is_digit t \<noteq> []
            then Some (1 + length (takeWhile is_digit t)) else None))"

definition scan_decimal :: "jsstring \<Rightarrow> nat option" where
  "scan_decimal s = map_option (\<lambda>m. m + scan_exponent (drop m s)) (scan_mantissa s)"

text \<open>The exact value of a decimal literal.\<close>

definition signed_digits :: "jsstring \<Rightarrow> int" where
  "signed_digits s = (case s of [] \<Rightarrow> 0
     | c # t \<Rightarrow> if c = 45 then - digits_int t else if c = 43 then digits_int t else digits_int s)"

definition decimal_value :: "jsstring \<Rightarrow> rat" where
  "decimal_value s =
    (let ip = takeWhile is_digit s; r = drop (length ip) s;
         fp = (case r of [] \<Rightarrow> [] | c # t \<Rightarrow> if c = DOT then takeWhile is_digit t else []);
         er = (case r of [] \<Rightarrow> [] | c # t \<Rightarrow> if c = DOT then drop (length fp) t else r);
         ex = (case er of [] \<Rightarrow> 0 | _ # t \<Rightarrow> signed_digits t)
     in of_int (digits_int (ip @ fp)) * pow10 (ex - int (length fp)))"

definition radix_value :: "int \<Rightarrow> jsstring \<Rightarrow> jsnum" where
  "radix_value radix ds =
    (if ds \<noteq> [] \<and> list_all (\<lambda>c. is_hex c \<and> int (hex_value c) < radix) ds
     then rnd64 (of_int (foldl (\<lambda>n c. radix * n + int (hex_value c)) 0 ds)) else NaN)"

definition unsigned_number :: "jsstring \<Rightarrow> jsnum" where
  "unsigned_number t =
    (if t = js ''Infinity'' then Infinity
     else if scan_decimal t = Some (length t) then rnd64 (decimal_value t) else NaN)"

text \<open>\<open>Number(text)\<close>.\<close>

definition js_Number :: "jsstring \<Rightarrow> jsnum" where
  "js_Number text = (let t = js_trim text in case t of
       [] \<Rightarrow> Fin 0
     | c # u \<Rightarrow>
        if c = 48 \<and> u \<noteq> [] \<and> (hd u = 120 \<or> hd u = 88) then radix_value 16 (tl u)
        else if c = 48 \<and> u \<noteq> [] \<and> (hd u = 111 \<or> hd u = 79) then radix_value 8 (tl u)
        else if c = 48 \<and> u \<noteq> [] \<and> (hd u = 98 \<or> hd u = 66) then radix_value 2 (tl u)
        else if c = 45 then js_neg (unsigned_number u)
        else if c = 43 then unsigned_number u
        else unsigned_number t)"

subsection \<open>Printing\<close>

function show_nat :: "int \<Rightarrow> jsstring" where
  "show_nat n = (if n < 10 then [word_of_int (48 + n)]
     else show_nat (n div 10) @ [word_of_int (48 + n mod 10)])"
  by pat_completeness auto
termination
  by (relation "measure nat") auto

declare show_nat.simps [simp del]

definition show_int :: "int \<Rightarrow> jsstring" where
  "show_int n = (if n < 0 then 45 # show_nat (- n) else show_nat n)"

text \<open>\<open>dec_exp x\<close> is the \<open>n\<close> with \<open>10^(n-1) \<le> x < 10^n\<close> for positive \<open>x\<close>.\<close>

definition dec_exp :: "rat \<Rightarrow> int" where
  "dec_exp x = (let (p, q) = quotient_of x;
      d = int (length (show_nat p)) - int (length (show_nat q))
    in if x < pow10 d then d else d + 1)"

text \<open>
  The best \<open>k\<close>-digit decimal for \<open>x\<close> that rounds back to \<open>x\<close>: one of the two
  neighbours of \<open>x \<sqdot> 10^(k-n)\<close>, the closer one when both round back.
\<close>

definition digits_at :: "rat \<Rightarrow> int \<Rightarrow> int \<Rightarrow> int option" where
  "digits_at x n k =
    (let t = x * pow10 (k - n); lo = \<lfloor>t\<rfloor>; near = round_even t;
         back = (\<lambda>s. rnd64 (of_int s * pow10 (n - k)) = Fin x)
     in if back near then Some near
        else if back lo then Some lo
        else if back (lo + 1) then Some (lo + 1) else None)"

fun find_digits :: "rat \<Rightarrow> int \<Rightarrow> int \<Rightarrow> nat \<Rightarrow> int \<times> int" where
  "find_digits x n k 0 = (round_even (x * pow10 (k - n)), k)"
| "find_digits x n k (Suc more) =
     (case digits_at x n k of Some s \<Rightarrow> (s, k) | None \<Rightarrow> find_digits x n (k + 1) more)"

text \<open>
  Digits and decimal exponent of a positive number, as Number::toString defines them
  (\<open>k\<close> as small as possible); a rounding up to \<open>10^k\<close> moves the exponent. Seventeen
  digits always suffice for binary64.
\<close>

definition shortest_digits :: "rat \<Rightarrow> jsstring \<times> int" where
  "shortest_digits x =
    (let n = dec_exp x; (s, k) = find_digits x n 1 16
     in if s = 10 ^ nat k then ([49], n + 1) else (show_nat s, n))"

definition zeros :: "int \<Rightarrow> jsstring" where
  "zeros n = replicate (nat n) 48"

definition exponent_text :: "int \<Rightarrow> jsstring" where
  "exponent_text e = 101 # (if e < 0 then 45 else 43) # show_nat \<bar>e\<bar>"

definition mantissa_text :: "jsstring \<Rightarrow> jsstring" where
  "mantissa_text ds = (if length ds = 1 then ds else take 1 ds @ DOT # drop 1 ds)"

definition positive_text :: "rat \<Rightarrow> jsstring" where
  "positive_text x =
    (let (ds, n) = shortest_digits x; k = int (length ds) in
     if k \<le> n \<and> n \<le> 21 then ds @ zeros (n - k)
     else if 0 < n \<and> n \<le> 21 then take (nat n) ds @ DOT # drop (nat n) ds
     else if - 6 < n \<and> n \<le> 0 then 48 # DOT # zeros (- n) @ ds
     else mantissa_text ds @ exponent_text (n - 1))"

text \<open>\<open>String(number)\<close>.\<close>

fun js_String_num :: "jsnum \<Rightarrow> jsstring" where
  "js_String_num NaN = js ''NaN''"
| "js_String_num Infinity = js ''Infinity''"
| "js_String_num NegInfinity = js ''-Infinity''"
| "js_String_num NegZero = js ''0''"
| "js_String_num (Fin r) =
     (if r = 0 then js ''0'' else if r < 0 then 45 # positive_text (- r) else positive_text r)"

text \<open>\<open>value.toExponential().split('e')\<close> for a finite value: the mantissa and exponent.\<close>

definition exponential_parts :: "jsnum \<Rightarrow> jsstring \<times> int" where
  "exponential_parts v = (let r = num_val v in
     if r = 0 then (js ''0'', 0)
     else let (ds, n) = shortest_digits \<bar>r\<bar>
          in ((if r < 0 then [45] else []) @ mantissa_text ds, n - 1))"

subsection \<open>Dynamic values\<close>

datatype jsval =
    VUndefined
  | VNull
  | VBool bool
  | VNum jsnum
  | VStr jsstring
  | VArr "jsval list"
  | VObj "(jsstring \<times> jsval) list"

fun is_num :: "jsval \<Rightarrow> bool" where
  "is_num (VNum n) = True"
| "is_num _ = False"

fun is_str :: "jsval \<Rightarrow> bool" where
  "is_str (VStr s) = True"
| "is_str _ = False"

fun is_bool :: "jsval \<Rightarrow> bool" where
  "is_bool (VBool b) = True"
| "is_bool _ = False"

text \<open>\<open>typeof v === 'object'\<close> for a value other than null.\<close>

fun is_container :: "jsval \<Rightarrow> bool" where
  "is_container (VArr xs) = True"
| "is_container (VObj kvs) = True"
| "is_container _ = False"

fun nullish :: "jsval \<Rightarrow> bool" where
  "nullish VUndefined = True"
| "nullish VNull = True"
| "nullish _ = False"

text \<open>
  \<open>a === b\<close>. Two containers are equal only when they are the same object; the program
  never compares two containers (it throws first), and the model answers False.
\<close>

fun strict_eq :: "jsval \<Rightarrow> jsval \<Rightarrow> bool" where
  "strict_eq VUndefined VUndefined = True"
| "strict_eq VNull VNull = True"
| "strict_eq (VBool a) (VBool b) = (a = b)"
| "strict_eq (VNum a) (VNum b) = js_num_eq a b"
| "strict_eq (VStr a) (VStr b) = (a = b)"
| "strict_eq _ _ = False"

end
