(* ===== verification/BillingTypes.thy ===== *)
theory BillingTypes
  imports JsText
begin

section \<open>Billing expressions: data model and traversal\<close>

text \<open>
  Model of \<^verbatim>\<open>web/src/features/pricing/lib/billing-expression/types.ts\<close>: the registries of
  variables and functions, the syntax tree, diagnostics and failures, the bounded iterative
  traversal \<open>visitExpression\<close> and the dependency collector \<open>expressionDependencies\<close>.

  A thrown JavaScript value is a \<open>thrown\<close>: a \<open>BillingExpressionError\<close> with its
  diagnostic, or an error of the language itself (\<open>NativeError\<close>, with its message).
  \<open>OutOfFuel\<close> marks a model loop that ran out of fuel; the parser theory shows that it never
  occurs. The identity of a syntax node (\<open>===\<close>) is modelled by equality of the tree with
  its source span; in one parsed expression no two nodes are equal (theory BillingSpans).
\<close>

subsection \<open>Registries\<close>

definition TOKEN_VARIABLES :: "jsstring list" where
  "TOKEN_VARIABLES = map js
     [''p'', ''c'', ''len'', ''cr'', ''cc'', ''cc1h'', ''img'', ''img_o'', ''ai'', ''ao'']"

definition CONTEXT_VARIABLES :: "jsstring list" where
  "CONTEXT_VARIABLES = map js [''group'', ''channel'']"

definition TIME_FUNCTIONS :: "jsstring list" where
  "TIME_FUNCTIONS = map js [''hour'', ''minute'', ''weekday'', ''month'', ''day'']"

definition BILLING_FUNCTIONS :: "(jsstring \<times> nat) list" where
  "BILLING_FUNCTIONS =
    [(js ''tier'', 2), (js ''fixed'', 1), (js ''param'', 1), (js ''header'', 1), (js ''has'', 2),
     (js ''u'', 1), (js ''hour'', 1), (js ''minute'', 1), (js ''weekday'', 1), (js ''month'', 1),
     (js ''day'', 1), (js ''min'', 2), (js ''max'', 2), (js ''abs'', 1), (js ''ceil'', 1),
     (js ''floor'', 1)]"

subsection \<open>Syntax trees\<close>

datatype node =
    Literal (literal_value: jsval) (literal_integer: bool) (nstart: nat) (nend: nat)
  | Variable (var_name: jsstring) (nstart: nat) (nend: nat)
  | Context (ctx_name: jsstring) (nstart: nat) (nend: nat)
  | Call (call_name: jsstring) (call_args: "node list") (nstart: nat) (nend: nat)
  | Unary (unary_op: jsstring) (un_operand: node) (nstart: nat) (nend: nat)
  | Binary (binary_op: jsstring) (bin_left: node) (bin_right: node) (nstart: nat) (nend: nat)
  | Conditional (cond_test: node) (cond_yes: node) (cond_no: node) (nstart: nat) (nend: nat)

text \<open>The children in the order in which \<open>visitExpression\<close> pushes them.\<close>

fun children :: "node \<Rightarrow> node list" where
  "children (Call f args s e) = args"
| "children (Unary op a s e) = [a]"
| "children (Binary op a b s e) = [a, b]"
| "children (Conditional c a b s e) = [c, a, b]"
| "children _ = []"

lemma children_size [termination_simp]: "c \<in> set (children n) \<Longrightarrow> size c < size n"
  by (cases n) (auto simp: less_Suc_eq_le dest: size_list_estimation' [of _ _ _ size])

lemma node_children_induct [case_names node]:
  assumes "\<And>n. (\<And>c. c \<in> set (children n) \<Longrightarrow> P c) \<Longrightarrow> P n"
  shows "P n"
  by (induction n rule: measure_induct_rule [of size]) (auto intro: assms children_size)

subsection \<open>Diagnostics\<close>

datatype diagnostic_code = Syntax | Unsupported | MissingContext | TypeError | NumberError | Limit

record diagnostic =
  d_code :: diagnostic_code
  d_detail :: jsstring
  d_position :: "nat option"

datatype thrown = BillingExpressionError diagnostic | NativeError jsstring | OutOfFuel

abbreviation billing_error :: "diagnostic_code \<Rightarrow> jsstring \<Rightarrow> nat option \<Rightarrow> thrown" where
  "billing_error c d p \<equiv> BillingExpressionError \<lparr>d_code = c, d_detail = d, d_position = p\<rparr>"

type_synonym 'a res = "thrown + 'a"

datatype failure_status = SUnsupported | SInvalid | SMissingContext

record failure =
  f_status :: failure_status
  f_diagnostic :: diagnostic

fun thrown_diagnostic :: "thrown \<Rightarrow> diagnostic" where
  "thrown_diagnostic (BillingExpressionError d) = d"
| "thrown_diagnostic (NativeError m) = \<lparr>d_code = Syntax, d_detail = m, d_position = None\<rparr>"
| "thrown_diagnostic OutOfFuel = \<lparr>d_code = Syntax, d_detail = [], d_position = None\<rparr>"

definition expressionFailure :: "thrown \<Rightarrow> failure" where
  "expressionFailure err =
    (let diagnostic = thrown_diagnostic err;
         status = SInvalid;
         status = (if d_code diagnostic = MissingContext then SMissingContext else status);
         status = (if d_code diagnostic = Unsupported \<or> d_code diagnostic = Limit
                   then SUnsupported else status)
     in \<lparr>f_status = status, f_diagnostic = diagnostic\<rparr>)"

subsection \<open>The bounded traversal\<close>

text \<open>
  One entry of the explicit stack: the node, whether its children were pushed, its depth. The
  head of the list is the top of the stack. The visitor updates a state \<open>'s\<close> and may throw.
\<close>

type_synonym stack_entry = "node \<times> bool \<times> nat"

definition depth_limit :: thrown where
  "depth_limit = billing_error Limit (js ''expression depth'') None"

function node_count :: "node \<Rightarrow> nat" where
  "node_count n = Suc (sum_list (map node_count (children n)))"
  by pat_completeness auto
termination
  by (relation "measure size") (auto simp: children_size)

declare node_count.simps [simp del]

fun entry_weight :: "stack_entry \<Rightarrow> nat" where
  "entry_weight (n, visited, d) = (if visited then 1 else 2 * node_count n)"

lemma entry_weight_children:
  "sum_list (map (entry_weight \<circ> (\<lambda>c. (c, False, d))) cs) = 2 * sum_list (map node_count cs)"
  by (induction cs) auto

function (sequential) visit_loop ::
  "(node \<Rightarrow> 's \<Rightarrow> 's res) \<Rightarrow> stack_entry list \<Rightarrow> 's \<Rightarrow> 's res" where
  "visit_loop visitor [] s = Inr s"
| "visit_loop visitor ((n, visited, depth) # stack) s =
     (if int depth > 256 then Inl depth_limit
      else if visited then sbind (visitor n s) (visit_loop visitor stack)
      else visit_loop visitor
             (map (\<lambda>child. (child, False, depth + 1)) (children n)
               @ (n, True, depth) # stack) s)"
  by pat_completeness auto
termination
  by (relation "measure (\<lambda>(v, stack, s). sum_list (map entry_weight stack))")
     (auto simp: entry_weight_children node_count.simps)

definition visitExpression :: "node \<Rightarrow> (node \<Rightarrow> 's \<Rightarrow> 's res) \<Rightarrow> 's \<Rightarrow> 's res" where
  "visitExpression n visitor s = visit_loop visitor [(n, False, 0)] s"

record dependencies =
  dep_variables :: "jsstring list"
  dep_functions :: "jsstring list"

fun collect_dependency :: "node \<Rightarrow> dependencies \<Rightarrow> dependencies res" where
  "collect_dependency (Variable x s e) d = Inr (d\<lparr>dep_variables := set_add x (dep_variables d)\<rparr>)"
| "collect_dependency (Call f args s e) d = Inr (d\<lparr>dep_functions := set_add f (dep_functions d)\<rparr>)"
| "collect_dependency _ d = Inr d"

definition expressionDependencies :: "node \<Rightarrow> dependencies res" where
  "expressionDependencies n =
     visitExpression n collect_dependency \<lparr>dep_variables = [], dep_functions = []\<rparr>"

subsection \<open>Recursive reading of the traversal\<close>

text \<open>
  The specification of the traversal: visit the children one level deeper, then the node,
  and throw as soon as a node lies deeper than 256. \<open>postorder\<close> lists the nodes in the order of
  the visits and \<open>height\<close> is the depth of the deepest node.
\<close>

function visit_rec :: "(node \<Rightarrow> 's \<Rightarrow> 's res) \<Rightarrow> nat \<Rightarrow> node \<Rightarrow> 's \<Rightarrow> 's res" where
  "visit_rec visitor d n s =
     (if int d > 256 then Inl depth_limit
      else sbind (sfold (visit_rec visitor (d + 1)) (children n) s) (visitor n))"
  by pat_completeness auto
termination
  by (relation "measure (\<lambda>(v, d, n, s). size n)") (auto simp: children_size)

declare visit_rec.simps [simp del]

function postorder :: "node \<Rightarrow> node list" where
  "postorder n = concat (map postorder (children n)) @ [n]"
  by pat_completeness auto
termination
  by (relation "measure size") (auto simp: children_size)

declare postorder.simps [simp del]

function height :: "node \<Rightarrow> nat" where
  "height n = (case children n of [] \<Rightarrow> 0 | c # cs \<Rightarrow> Suc (Max (set (map height (children n)))))"
  by pat_completeness auto
termination
  by (relation "measure size") (auto simp: children_size)

declare height.simps [simp del]

lemma height_child: "c \<in> set (children n) \<Longrightarrow> Suc (height c) \<le> height n"
  by (subst (2) height.simps) (auto split: list.splits)

lemma height_leI:
  assumes "\<And>c. c \<in> set (children n) \<Longrightarrow> Suc (height c) \<le> k"
  shows "height n \<le> k"
  using assms by (subst height.simps) (auto simp: Suc_le_eq split: list.splits)

lemma visit_loop_Nil [simp]: "visit_loop v [] = Inr"
  by (rule ext) simp

lemma visit_loop_rec:
  "visit_loop v ((n, False, d) # stack) s = sbind (visit_rec v d n s) (visit_loop v stack)"
proof (induction n arbitrary: d stack s rule: node_children_induct)
  case (node n)
  have kids: "set cs \<subseteq> set (children n) \<Longrightarrow>
      visit_loop v (map (\<lambda>c. (c, False, d + 1)) cs @ (n, True, d) # stack) s =
      sbind (sfold (visit_rec v (d + 1)) cs s) (\<lambda>t. visit_loop v ((n, True, d) # stack) t)" for cs s
  proof (induction cs arbitrary: s)
    case Nil
    then show ?case by simp
  next
    case (Cons c cs)
    then show ?case
      using node.IH[of c "d + 1"] by (auto intro: sbind_cong)
  qed
  show ?case
  proof (cases "d > 256")
    case True
    then show ?thesis by (simp add: visit_rec.simps)
  next
    case False
    then have "visit_loop v ((n, False, d) # stack) s =
        sbind (sfold (visit_rec v (d + 1)) (children n) s) (\<lambda>t. visit_loop v ((n, True, d) # stack) t)"
      using kids[of "children n" s] by simp
    with False show ?thesis by (simp add: visit_rec.simps)
  qed
qed

lemma visitExpression_rec: "visitExpression n v s = visit_rec v 0 n s"
  by (simp only: visitExpression_def visit_loop_rec visit_loop_Nil sbind_Inr_right)

lemma visit_rec_postorder:
  "d + height n \<le> 256 \<Longrightarrow> visit_rec v d n s = sfold v (postorder n) s"
proof (induction n arbitrary: d s rule: node_children_induct)
  case (node n)
  have kids: "set cs \<subseteq> set (children n) \<Longrightarrow>
      sfold (visit_rec v (d + 1)) cs s = sfold v (concat (map postorder cs)) s" for cs s
  proof (induction cs arbitrary: s)
    case (Cons c cs)
    then have "d + 1 + height c \<le> 256"
      using height_child[of c n] node.prems by auto
    with Cons show ?case
      using node.IH[of c "d + 1"] by (auto simp: sfold_append intro: sbind_cong)
  qed simp
  from node.prems have "\<not> d > 256" by simp
  then show ?case
    using kids[of "children n" s]
    by (simp add: visit_rec.simps postorder.simps sfold_append)
qed

text \<open>A node too deep is always an error, whatever the visitor does.\<close>

lemma visit_rec_too_deep:
  assumes "visit_rec v d n s = Inr t"
  shows "d + height n \<le> 256"
  using assms
proof (induction n arbitrary: d s t rule: node_children_induct)
  case (node n)
  have kids: "sfold (visit_rec v (d + 1)) cs s = Inr u \<Longrightarrow> set cs \<subseteq> set (children n) \<Longrightarrow>
      \<forall>c \<in> set cs. d + 1 + height c \<le> 256" for cs s u
  proof (induction cs arbitrary: s)
    case (Cons c cs)
    then show ?case using node.IH[of c "d + 1"] by auto
  qed simp
  from node.prems obtain u where d: "\<not> d > 256"
    and u: "sfold (visit_rec v (d + 1)) (children n) s = Inr u"
    by (auto simp: visit_rec.simps split: if_splits)
  have "height n \<le> 256 - d"
    by (rule height_leI) (use kids[OF u] in fastforce)
  with d show ?case by simp
qed

lemmas visit_simps = visitExpression_rec visit_rec_postorder

subsection \<open>Dependencies\<close>

definition called :: "node list \<Rightarrow> jsstring set" where
  "called ns = {f. \<exists>args s e. Call f args s e \<in> set ns}"

definition used :: "node list \<Rightarrow> jsstring set" where
  "used ns = {x. \<exists>s e. Variable x s e \<in> set ns}"

lemma called_Cons: "called (n # ns) = called [n] \<union> called ns"
  by (auto simp: called_def)

lemma used_Cons: "used (n # ns) = used [n] \<union> used ns"
  by (auto simp: used_def)

lemma collect_dependency_ok:
  "\<exists>d'. collect_dependency n d = Inr d'
     \<and> set (dep_functions d') = set (dep_functions d) \<union> called [n]
     \<and> set (dep_variables d') = set (dep_variables d) \<union> used [n]"
  by (cases n) (auto simp: called_def used_def)

lemma sfold_collect:
  "\<exists>d'. sfold collect_dependency ns d = Inr d'
     \<and> set (dep_functions d') = set (dep_functions d) \<union> called ns
     \<and> set (dep_variables d') = set (dep_variables d) \<union> used ns"
proof (induction ns arbitrary: d)
  case Nil
  show ?case by (simp add: called_def used_def)
next
  case (Cons n ns)
  obtain d1 where "collect_dependency n d = Inr d1"
      "set (dep_functions d1) = set (dep_functions d) \<union> called [n]"
      "set (dep_variables d1) = set (dep_variables d) \<union> used [n]"
    using collect_dependency_ok by blast
  with Cons.IH[of d1] show ?case
    by (simp add: called_Cons[of n ns] used_Cons[of n ns] Un_assoc)
qed

lemma expressionDependencies_ok:
  assumes "height n \<le> 256"
  obtains d where "expressionDependencies n = Inr d"
    and "set (dep_functions d) = called (postorder n)"
    and "set (dep_variables d) = used (postorder n)"
  using sfold_collect[of "postorder n" "\<lparr>dep_variables = [], dep_functions = []\<rparr>"] assms that
  by (auto simp: expressionDependencies_def visit_simps)

lemma expressionDependencies_throws:
  "expressionDependencies n = Inl e \<Longrightarrow> 256 < height n"
  by (metis expressionDependencies_ok linorder_not_le sum.distinct(1))

end
