(* ===== verification/BillingLexer.thy ===== *)
theory BillingLexer
  imports BillingTypes
begin

section \<open>Billing expressions: lexer\<close>

text \<open>
  Model of the lexical part of the class \<open>BillingParser\<close> in
  \<^verbatim>\<open>web/src/features/pricing/lib/billing-expression/parser.ts\<close>: the lexemes, the constructor
  (length limit, version prefix) and \<open>next_lexeme\<close> (the method \<open>next\<close>), which skips white space and reads one number,
  string, name or operator. The private fields of the class are the record \<open>parser\<close>; the
  source text is passed alongside. The regular expressions of the source are written out as
  functions on code units.
\<close>

datatype lexeme_kind = KNumber | KString | KSymbol | KName | KEnd

record lexeme =
  lx_kind :: lexeme_kind
  lx_text :: jsstring
  lx_start :: nat
  lx_end :: nat
  lx_value :: jsval
  lx_integer :: bool

record parser =
  cursor :: nat
  tokens_read :: int
  depth :: int
  current :: lexeme

definition end_lexeme :: "nat \<Rightarrow> lexeme" where
  "end_lexeme pos = \<lparr>lx_kind = KEnd, lx_text = [], lx_start = pos, lx_end = pos,
     lx_value = VUndefined, lx_integer = False\<rparr>"

subsection \<open>Strings\<close>

text \<open>The table \<open>escapes\<close> of one-character escapes.\<close>

definition escapes :: "(unit16 \<times> unit16) list" where
  "escapes = [(110, 10), (114, 13), (116, 9), (98, 8), (102, 12), (118, 11), (92, 92),
     (34, 34), (39, 39), (47, 47)]"

definition hex_code :: "jsstring \<Rightarrow> unit16" where
  "hex_code hex = word_of_nat (foldl (\<lambda>n c. 16 * n + hex_value c) 0 hex)"

datatype string_scan =
    Closed jsstring nat       \<comment> \<open>the value, and the cursor after the closing quote\<close>
  | Unterminated
  | BadEscape nat             \<comment> \<open>the position the diagnostic reports\<close>

text \<open>
  The loop that reads a string after its opening quote. \<open>rest\<close> is the source from the
  cursor on and \<open>value\<close> what was read so far.
\<close>

function (sequential) read_string :: "unit16 \<Rightarrow> nat \<Rightarrow> jsstring \<Rightarrow> jsstring \<Rightarrow> string_scan" where
  "read_string quote pos [] value = Unterminated"
| "read_string quote pos (char # rest) value =
    (if char = quote then Closed value (pos + 1)
     else if char = LF \<or> char = CR then Unterminated
     else if char \<noteq> BSL then read_string quote (pos + 1) rest (value @ [char])
     else
       (case rest of
          [] \<Rightarrow> BadEscape (pos + 1)
        | escaped # rest2 \<Rightarrow>
            (case map_of escapes escaped of
               Some c \<Rightarrow> read_string quote (pos + 2) rest2 (value @ [c])
             | None \<Rightarrow>
                 if escaped = 117 \<or> escaped = 120 then
                   let len = (if escaped = 117 then 4 else 2);
                       hex = take len rest2
                   in if length hex \<noteq> len \<or> \<not> list_all is_hex hex then Unterminated
                      else read_string quote (pos + 2 + len) (drop len rest2) (value @ [hex_code hex])
                 else BadEscape (pos + 1))))"
  by pat_completeness auto
termination
  by (relation "measure (\<lambda>(q, p, r, v). length r)") auto

subsection \<open>Numbers, names and operators\<close>

definition two_char_operators :: "jsstring list" where
  "two_char_operators = map js [''&&'', ''||'', ''=='', ''!='', ''<='', ''>='']"

definition one_char_operators :: jsstring where
  "one_char_operators = js ''+-*/%<>()!?:,''"

text \<open>The regular expression \<open>^(?:&&|\|\||==|!=|<=|>=|[+\-*/%<>()!?:,])\<close>.\<close>

definition match_operator :: "jsstring \<Rightarrow> jsstring option" where
  "match_operator rest =
    (if take 2 rest \<in> set two_char_operators then Some (take 2 rest)
     else case rest of [] \<Rightarrow> None
       | c # _ \<Rightarrow> if c \<in> set one_char_operators then Some [c] else None)"

text \<open>The regular expression \<open>^[A-Za-z_][\w]*\<close>.\<close>

definition match_name :: "jsstring \<Rightarrow> jsstring option" where
  "match_name rest = (case rest of [] \<Rightarrow> None
     | c # _ \<Rightarrow> if is_name_start c then Some (takeWhile is_word_char rest) else None)"

text \<open>\<open>/[.eE]/.test(text)\<close>.\<close>

definition has_point_or_exponent :: "jsstring \<Rightarrow> bool" where
  "has_point_or_exponent text \<longleftrightarrow> list_ex (\<lambda>c. c = DOT \<or> c = 101 \<or> c = 69) text"

definition simple_lexeme :: "lexeme_kind \<Rightarrow> jsstring \<Rightarrow> nat \<Rightarrow> lexeme" where
  "simple_lexeme k text pos = \<lparr>lx_kind = k, lx_text = text, lx_start = pos,
     lx_end = pos + length text, lx_value = VUndefined, lx_integer = False\<rparr>"

definition number_lexeme :: "jsstring \<Rightarrow> nat \<Rightarrow> lexeme res" where
  "number_lexeme text pos =
    (let value = js_Number text; integer = (\<not> has_point_or_exponent text) in
     if \<not> is_finite value then Inl (billing_error NumberError text (Some pos))
     else if integer \<and> \<not> is_safe_integer value
       then Inl (billing_error Unsupported (js ''integer precision'') (Some pos))
     else Inr \<lparr>lx_kind = KNumber, lx_text = text, lx_start = pos, lx_end = pos + length text,
       lx_value = VNum value, lx_integer = integer\<rparr>)"

definition string_lexeme :: "jsstring \<Rightarrow> unit16 \<Rightarrow> jsstring \<Rightarrow> nat \<Rightarrow> lexeme res" where
  "string_lexeme source quote rest pos =
    (case read_string quote (pos + 1) rest [] of
       Closed value stop \<Rightarrow> Inr \<lparr>lx_kind = KString, lx_text = js_slice source pos stop,
         lx_start = pos, lx_end = stop, lx_value = VStr value, lx_integer = False\<rparr>
     | Unterminated \<Rightarrow> Inl (billing_error Syntax (js ''unterminated string'') (Some pos))
     | BadEscape where_at \<Rightarrow> Inl (billing_error Unsupported (js ''string escape'') (Some where_at)))"

text \<open>One lexeme of the text from \<open>pos\<close> on, where \<open>pos\<close> is past all white space.\<close>

definition lexeme_at :: "jsstring \<Rightarrow> nat \<Rightarrow> lexeme res" where
  "lexeme_at source pos =
    (let rest = drop pos source in
     case rest of
       [] \<Rightarrow> Inr (end_lexeme pos)
     | c # cs \<Rightarrow>
        (case scan_decimal rest of
           Some len \<Rightarrow> number_lexeme (take len rest) pos
         | None \<Rightarrow>
             if c = DQ \<or> c = SQ then string_lexeme source c cs pos
             else
               (case match_name rest of
                  Some name \<Rightarrow> Inr (simple_lexeme KName name pos)
                | None \<Rightarrow>
                    (case match_operator rest of
                       Some oper \<Rightarrow> Inr (simple_lexeme KSymbol oper pos)
                     | None \<Rightarrow> Inl (billing_error Unsupported [c] (Some pos))))))"

definition skip_space :: "jsstring \<Rightarrow> nat \<Rightarrow> nat" where
  "skip_space source pos = pos + length (takeWhile is_space (drop pos source))"

definition next_lexeme :: "jsstring \<Rightarrow> parser \<Rightarrow> (lexeme \<times> parser) res" where
  "next_lexeme source st =
    (let st = st\<lparr>tokens_read := tokens_read st + 1\<rparr> in
     if tokens_read st > 10000 then Inl (billing_error Limit (js ''expression tokens'') None)
     else sbind (lexeme_at source (skip_space source (cursor st)))
       (\<lambda>lx. Inr (lx, st\<lparr>cursor := lx_end lx\<rparr>)))"

subsection \<open>The constructor\<close>

text \<open>The regular expression \<open>^\s*v(\d+):\<close>: the whole match and its group.\<close>

definition match_version :: "jsstring \<Rightarrow> (jsstring \<times> jsstring) option" where
  "match_version source =
    (let ws = takeWhile is_space source; r = drop (length ws) source in
     case r of [] \<Rightarrow> None
     | c # t \<Rightarrow>
        let ds = takeWhile is_digit t in
        if c = 118 \<and> ds \<noteq> [] \<and> drop (length ds) t \<noteq> [] \<and> hd (drop (length ds) t) = 58
        then Some (ws @ [118] @ ds @ [58], ds) else None)"

definition new_BillingParser :: "jsstring \<Rightarrow> parser res" where
  "new_BillingParser source =
    (if int (length source) > 65536 then Inl (billing_error Limit (js ''expression length'') None)
     else
       case match_version source of
         Some (whole, version) \<Rightarrow>
           if version \<noteq> js ''1'' then Inl (billing_error Unsupported whole None)
           else sbind (next_lexeme source \<lparr>cursor = length whole, tokens_read = 0, depth = 0,
                                     current = end_lexeme 0\<rparr>)
             (\<lambda>(lx, st). Inr (st\<lparr>current := lx\<rparr>))
       | None \<Rightarrow>
           sbind (next_lexeme source \<lparr>cursor = 0, tokens_read = 0, depth = 0, current = end_lexeme 0\<rparr>)
             (\<lambda>(lx, st). Inr (st\<lparr>current := lx\<rparr>)))"

definition take_lexeme :: "jsstring \<Rightarrow> parser \<Rightarrow> (lexeme \<times> parser) res" where
  "take_lexeme source st =
     sbind (next_lexeme source st) (\<lambda>(lx, st'). Inr (current st, st'\<lparr>current := lx\<rparr>))"

definition expect :: "jsstring \<Rightarrow> jsstring \<Rightarrow> parser \<Rightarrow> (lexeme \<times> parser) res" where
  "expect source text st =
    (if lx_text (current st) \<noteq> text
     then Inl (billing_error Syntax (js ''expected '' @ text) (Some (lx_start (current st))))
     else take_lexeme source st)"

subsection \<open>What a lexeme covers\<close>

text \<open>
  A lexeme covers the part of the source it reports: its text is the slice of its span, only
  the end marker is empty, and it stands at the end of the source. A number lexeme carries a
  finite number, which is a safe integer when it is marked as an integer.
\<close>

definition number_value_ok :: "jsval \<Rightarrow> bool \<Rightarrow> bool" where
  "number_value_ok v integer \<longleftrightarrow>
     (\<exists>n. v = VNum n \<and> is_finite n \<and> (integer \<longrightarrow> is_safe_integer n))"

definition lexeme_ok :: "jsstring \<Rightarrow> lexeme \<Rightarrow> bool" where
  "lexeme_ok source lx \<longleftrightarrow>
     lx_start lx \<le> lx_end lx \<and> lx_end lx \<le> length source
     \<and> lx_text lx = js_slice source (lx_start lx) (lx_end lx)
     \<and> (if lx_kind lx = KEnd then lx_start lx = length source else lx_start lx < lx_end lx)
     \<and> (lx_kind lx = KNumber \<longrightarrow> number_value_ok (lx_value lx) (lx_integer lx))
     \<and> (lx_kind lx = KString \<longrightarrow> is_str (lx_value lx))"

text \<open>The state between two calls of \<open>take\<close>: the cursor is at the end of the current lexeme.\<close>

definition parser_ok :: "jsstring \<Rightarrow> parser \<Rightarrow> bool" where
  "parser_ok source st \<longleftrightarrow> lexeme_ok source (current st) \<and> cursor st = lx_end (current st)"

lemma scan_exponent_le: "scan_exponent s \<le> length s"
proof (cases s)
  case (Cons e r)
  have "k \<le> length r \<Longrightarrow> Suc (k + length (takeWhile is_digit (drop k r))) \<le> length s" for k
    using length_takeWhile_le[of is_digit "drop k r"] Cons by simp
  from this[of 0] this[of 1] show ?thesis
    by (auto simp: scan_exponent_def Cons Let_def split: list.splits)
qed (simp add: scan_exponent_def)

lemma scan_mantissa_bounds: "scan_mantissa s = Some m \<Longrightarrow> 0 < m \<and> m \<le> length s"
proof -
  assume m: "scan_mantissa s = Some m"
  let ?ip = "length (takeWhile is_digit s)"
  have ip: "?ip \<le> length s" by (rule length_takeWhile_le)
  have "drop ?ip s = c # t \<Longrightarrow> ?ip + Suc (length (takeWhile is_digit t)) \<le> length s" for c t
    using length_takeWhile_le[of is_digit t] length_drop_Cons[of ?ip s c t] by simp
  moreover have "s = c # t \<Longrightarrow> Suc (length (takeWhile is_digit t)) \<le> length s" for c t
    using length_takeWhile_le[of is_digit t] by simp
  ultimately show ?thesis
    using m ip by (auto simp: scan_mantissa_def Let_def split: if_splits list.splits)
qed

lemma scan_decimal_bounds: "scan_decimal s = Some n \<Longrightarrow> 0 < n \<and> n \<le> length s"
  using scan_mantissa_bounds[of s] scan_exponent_le
  by (auto simp: scan_decimal_def) (metis le_diff_conv2 length_drop add.commute)

lemma read_string_bounds:
  "read_string q pos rest v = Closed v' stop \<Longrightarrow> pos < stop \<and> stop \<le> pos + length rest"
proof (induction q pos rest v rule: read_string.induct)
  case (2 q pos char rest v)
  show ?case
  proof (cases "char = q \<or> char = LF \<or> char = CR \<or> char \<noteq> BSL")
    case True
    then show ?thesis using 2 by (auto split: if_splits)
  next
    case False
    then show ?thesis
      using 2(2-) by (fastforce simp: Let_def split: if_splits list.splits option.splits)
  qed
qed simp

lemma match_name_text:
  assumes "match_name rest = Some t"
  shows "t = take (length t) rest" "t \<noteq> []"
proof -
  obtain c cs where rest: "rest = c # cs" "is_name_start c" "t = takeWhile is_word_char rest"
    using assms by (auto simp: match_name_def split: list.splits if_splits)
  then show "t = take (length t) rest" by (metis takeWhile_eq_take)
  from rest show "t \<noteq> []" by (auto simp: is_word_char_def)
qed

lemma two_char_length: "t \<in> set two_char_operators \<Longrightarrow> length t = 2"
  by (auto simp: two_char_operators_def)

lemma match_operator_text:
  assumes "match_operator rest = Some t"
  shows "t = take (length t) rest" "t \<noteq> []"
  using assms two_char_length[of "take 2 rest"]
  by (auto simp: match_operator_def split: list.splits if_splits)

lemma slice_prefix: "t = take (length t) (drop pos s) \<Longrightarrow> js_slice s pos (pos + length t) = t"
  unfolding js_slice_def by (simp only: add_diff_cancel_left')

lemma prefix_bound:
  "t = take (length t) (drop pos s) \<Longrightarrow> pos \<le> length s \<Longrightarrow> pos + length t \<le> length s"
proof -
  assume t: "t = take (length t) (drop pos s)" and pos: "pos \<le> length s"
  have "length (take (length t) (drop pos s)) \<le> length s - pos" by simp
  then have "length t \<le> length s - pos" by (simp only: t[symmetric])
  with pos show ?thesis by linarith
qed

lemma simple_lexeme_ok:
  assumes "t = take (length t) (drop pos s)" "t \<noteq> []" "pos \<le> length s"
    "k \<noteq> KEnd" "k \<noteq> KNumber" "k \<noteq> KString"
  shows "lexeme_ok s (simple_lexeme k t pos)"
  using assms slice_prefix[OF assms(1)] prefix_bound[OF assms(1,3)]
  by (auto simp: lexeme_ok_def simple_lexeme_def)

lemma number_lexeme_ok:
  assumes "number_lexeme t pos = Inr lx" "t = take (length t) (drop pos s)" "t \<noteq> []" "pos \<le> length s"
  shows "lexeme_ok s lx \<and> lx_start lx = pos"
  using assms(1,3) slice_prefix[OF assms(2)] prefix_bound[OF assms(2,4)]
  by (auto simp: lexeme_ok_def number_lexeme_def number_value_ok_def Let_def split: if_splits)

lemma string_lexeme_ok:
  assumes "string_lexeme s q cs pos = Inr lx" "drop pos s = c # cs"
  shows "lexeme_ok s lx \<and> lx_start lx = pos"
proof -
  have "length s = pos + Suc (length cs)" by (rule length_drop_Cons[OF assms(2)])
  with assms(1) show ?thesis
    by (auto simp: string_lexeme_def lexeme_ok_def split: string_scan.splits
        dest!: read_string_bounds)
qed

lemma lexeme_at_ok:
  assumes lx: "lexeme_at s pos = Inr lx" and pos: "pos \<le> length s"
  shows "lexeme_ok s lx \<and> lx_start lx = pos"
proof (cases "drop pos s")
  case Nil
  with lx pos show ?thesis
    by (auto simp: lexeme_at_def end_lexeme_def lexeme_ok_def js_slice_def)
next
  case (Cons c cs)
  show ?thesis
  proof (cases "scan_decimal (drop pos s)")
    case (Some n)
    have "0 < n \<and> n \<le> length (drop pos s)" by (rule scan_decimal_bounds[OF Some])
    with lx Cons Some pos show ?thesis
      by (intro number_lexeme_ok[of "take n (drop pos s)"]) (auto simp: lexeme_at_def)
  next
    case None
    consider "c = DQ \<or> c = SQ" | t where "\<not> (c = DQ \<or> c = SQ)" "match_name (drop pos s) = Some t"
      | "\<not> (c = DQ \<or> c = SQ)" "match_name (drop pos s) = None" by (cases "match_name (drop pos s)") auto
    then show ?thesis
    proof cases
      case 1
      with lx Cons None string_lexeme_ok[of s c cs pos lx c] show ?thesis
        by (simp add: lexeme_at_def)
    next
      case 2
      then have "lexeme_ok s (simple_lexeme KName t pos)"
        using match_name_text pos by (intro simple_lexeme_ok) auto
      with 2 lx Cons None show ?thesis by (auto simp: lexeme_at_def simple_lexeme_def)
    next
      case 3
      then obtain t where t: "match_operator (drop pos s) = Some t"
        using lx Cons None by (auto simp: lexeme_at_def split: option.splits)
      then have "lexeme_ok s (simple_lexeme KSymbol t pos)"
        using match_operator_text pos by (intro simple_lexeme_ok) auto
      with 3 t lx Cons None show ?thesis by (auto simp: lexeme_at_def simple_lexeme_def)
    qed
  qed
qed

lemma skip_space_bounds: "pos \<le> length s \<Longrightarrow> pos \<le> skip_space s pos \<and> skip_space s pos \<le> length s"
  using length_takeWhile_le[of is_space "drop pos s"] by (auto simp: skip_space_def)

lemma next_ok:
  assumes "next_lexeme s st = Inr (lx, st')" "cursor st \<le> length s"
  shows "lexeme_ok s lx" "cursor st \<le> lx_start lx" "cursor st' = lx_end lx"
    "depth st' = depth st" "current st' = current st"
  using assms lexeme_at_ok[of s "skip_space s (cursor st)" lx] skip_space_bounds[of "cursor st" s]
  by (auto simp: next_lexeme_def Let_def split: if_splits)

lemma take_lexeme_ok:
  assumes "take_lexeme s st = Inr (lx, st')" "parser_ok s st"
  shows "lx = current st" "parser_ok s st'" "lx_end lx \<le> lx_start (current st')"
    "depth st' = depth st"
proof -
  from assms obtain lx1 st1 where n: "next_lexeme s st = Inr (lx1, st1)"
    and eq: "lx = current st" "st' = st1\<lparr>current := lx1\<rparr>"
    by (auto simp: take_lexeme_def)
  have "cursor st \<le> length s" "cursor st = lx_end (current st)"
    using assms(2) by (auto simp: parser_ok_def lexeme_ok_def)
  with next_ok[OF n] eq show "lx = current st" "parser_ok s st'"
      "lx_end lx \<le> lx_start (current st')" "depth st' = depth st"
    by (auto simp: parser_ok_def)
qed

lemma expect_ok:
  assumes "expect s text st = Inr (lx, st')" "parser_ok s st"
  shows "lx = current st" "parser_ok s st'" "lx_end lx \<le> lx_start (current st')"
    "depth st' = depth st" "lx_text lx = text"
  using assms take_lexeme_ok[of s st lx st'] by (auto simp: expect_def split: if_splits)

lemma match_version_length:
  "match_version s = Some (whole, g) \<Longrightarrow> length whole \<le> length s"
proof -
  assume m: "match_version s = Some (whole, g)"
  let ?w = "length (takeWhile is_space s)"
  obtain c t where ct: "drop ?w s = c # t"
    using m by (auto simp: match_version_def Let_def split: list.splits)
  let ?d = "takeWhile is_digit t"
  have "whole = takeWhile is_space s @ [118] @ ?d @ [58]" "drop (length ?d) t \<noteq> []"
    using m ct by (auto simp: match_version_def Let_def split: if_splits)
  moreover have "length s = ?w + Suc (length t)" by (rule length_drop_Cons[OF ct])
  ultimately show ?thesis by simp
qed

lemma new_BillingParser_ok:
  assumes "new_BillingParser s = Inr st"
  shows "parser_ok s st" "depth st = 0"
proof -
  have start: "next_lexeme s \<lparr>cursor = k, tokens_read = 0, depth = 0, current = end_lexeme 0\<rparr> = Inr (lx, st') \<Longrightarrow>
      k \<le> length s \<Longrightarrow> parser_ok s (st'\<lparr>current := lx\<rparr>) \<and> depth (st'\<lparr>current := lx\<rparr>) = 0" for k lx st'
    using next_ok[of s _ lx st'] by (fastforce simp: parser_ok_def)
  from assms show "parser_ok s st" "depth st = 0"
    using start match_version_length
    by (auto simp: new_BillingParser_def split: if_splits option.splits)
qed

text \<open>The lexer itself never runs out of fuel: its loops are total functions.\<close>

lemma number_lexeme_fuel: "number_lexeme t pos \<noteq> Inl OutOfFuel"
  by (simp add: number_lexeme_def Let_def)

lemma string_lexeme_fuel: "string_lexeme s q cs pos \<noteq> Inl OutOfFuel"
  by (simp add: string_lexeme_def split: string_scan.splits)

lemma lexeme_at_fuel: "lexeme_at s pos \<noteq> Inl OutOfFuel"
  using number_lexeme_fuel string_lexeme_fuel
  by (simp add: lexeme_at_def Let_def split: list.splits option.splits)

lemma take_lexeme_fuel: "take_lexeme s st \<noteq> Inl OutOfFuel"
  using lexeme_at_fuel by (auto simp: take_lexeme_def next_lexeme_def Let_def)

lemma expect_fuel: "expect s text st \<noteq> Inl OutOfFuel"
  using take_lexeme_fuel by (auto simp: expect_def)

lemma new_BillingParser_fuel: "new_BillingParser s \<noteq> Inl OutOfFuel"
  using lexeme_at_fuel by (auto simp: new_BillingParser_def next_lexeme_def Let_def split: option.splits)

end
