(* ===== verification/BillingParser.thy ===== *)
theory BillingParser
  imports BillingLexer
begin

section \<open>Billing expressions: parser\<close>

text \<open>
  Model of the syntactic part of \<open>BillingParser\<close> in
  \<^verbatim>\<open>web/src/features/pricing/lib/billing-expression/parser.ts\<close>: precedence climbing in
  \<open>expression\<close>, \<open>primary\<close> with its calls, and \<open>parse\<close>. The recursion of the source
  follows the lexemes, whose number is not visible in the arguments, so the model spends one unit
  of fuel per call and answers \<open>OutOfFuel\<close> without fuel; \<open>parse_fuel\<close> gives
  \<open>4 n + 2\<close> units for a source of length \<open>n\<close>, and \<open>parse_source_fuel\<close>
  shows that this is always enough.
\<close>

definition PRECEDENCE :: "(jsstring \<times> nat) list" where
  "PRECEDENCE =
    [(js ''||'', 1), (js ''&&'', 2), (js ''=='', 3), (js ''!='', 3), (js ''<'', 4), (js ''<='', 4),
     (js ''>'', 4), (js ''>='', 4), (js ''+'', 5), (js ''-'', 5), (js ''*'', 6), (js ''/'', 6),
     (js ''%'', 6)]"

text \<open>\<open>{ ...node, start, end }\<close>: a parenthesised expression takes the span of its parentheses.\<close>

fun with_span :: "node \<Rightarrow> nat \<Rightarrow> nat \<Rightarrow> node" where
  "with_span (Literal v i s e) s' e' = Literal v i s' e'"
| "with_span (Variable x s e) s' e' = Variable x s' e'"
| "with_span (Context x s e) s' e' = Context x s' e'"
| "with_span (Call f args s e) s' e' = Call f args s' e'"
| "with_span (Unary op a s e) s' e' = Unary op a s' e'"
| "with_span (Binary op a b s e) s' e' = Binary op a b s' e'"
| "with_span (Conditional c a b s e) s' e' = Conditional c a b s' e'"

definition parser_depth_limit :: thrown where
  "parser_depth_limit = billing_error Limit (js ''expression depth'') None"

text \<open>
  The bodies of the methods. Each takes the recursive calls it makes as arguments:
  \<open>rec_expression\<close>, \<open>rec_loop\<close>, \<open>rec_primary\<close>, \<open>rec_arguments\<close>.
  \<open>expression_body\<close> and \<open>primary_body\<close> are the methods \<open>expression\<close> and
  \<open>primary\<close>, \<open>binary_loop_body\<close> is the while loop over binary operators in
  \<open>expression\<close> and \<open>arguments_body\<close> the loop over call arguments in
  \<open>primary\<close>.
\<close>

type_synonym 'a parse_result = "('a \<times> parser) res"

definition expression_body ::
  "(nat \<Rightarrow> parser \<Rightarrow> node parse_result) \<Rightarrow> (nat \<Rightarrow> node \<Rightarrow> parser \<Rightarrow> node parse_result)
   \<Rightarrow> (parser \<Rightarrow> node parse_result) \<Rightarrow> jsstring \<Rightarrow> nat \<Rightarrow> parser \<Rightarrow> node parse_result" where
  "expression_body rec_expression rec_loop rec_primary source minimum st =
    (let st = st\<lparr>depth := depth st + 1\<rparr> in
     if depth st > 128 then Inl parser_depth_limit
     else
       sbind (rec_primary st) (\<lambda>(left, st).
       sbind (rec_loop minimum left st) (\<lambda>(left, st).
       if minimum = 0 \<and> lx_text (current st) = js ''?'' then
         sbind (take_lexeme source st) (\<lambda>(_, st).
         sbind (rec_expression 0 st) (\<lambda>(yes, st).
         sbind (expect source (js '':'') st) (\<lambda>(_, st).
         sbind (rec_expression 0 st) (\<lambda>(no, st).
         Inr (Conditional left yes no (nstart left) (nend no), st\<lparr>depth := depth st - 1\<rparr>)))))
       else Inr (left, st\<lparr>depth := depth st - 1\<rparr>))))"

definition binary_loop_body ::
  "(nat \<Rightarrow> parser \<Rightarrow> node parse_result) \<Rightarrow> (nat \<Rightarrow> node \<Rightarrow> parser \<Rightarrow> node parse_result)
   \<Rightarrow> jsstring \<Rightarrow> nat \<Rightarrow> node \<Rightarrow> parser \<Rightarrow> node parse_result" where
  "binary_loop_body rec_expression rec_loop source minimum left st =
    (case map_of PRECEDENCE (lx_text (current st)) of
       None \<Rightarrow> Inr (left, st)
     | Some prec \<Rightarrow>
         if prec < minimum then Inr (left, st)
         else
           sbind (take_lexeme source st) (\<lambda>(lx, st).
           sbind (rec_expression (prec + 1) st) (\<lambda>(right, st).
           rec_loop minimum
             (Binary (lx_text lx) left right (nstart left) (nend right)) st)))"

text \<open>The part of \<open>primary\<close> after a name that is followed by an opening parenthesis.\<close>

definition call_body ::
  "(node list \<Rightarrow> parser \<Rightarrow> node list parse_result) \<Rightarrow> jsstring \<Rightarrow> lexeme \<Rightarrow> parser
   \<Rightarrow> node parse_result" where
  "call_body rec_arguments source token st =
    (case map_of BILLING_FUNCTIONS (lx_text token) of
       None \<Rightarrow> Inl (billing_error Unsupported (lx_text token) (Some (lx_start token)))
     | Some arity \<Rightarrow>
         sbind (take_lexeme source st) (\<lambda>(_, st).
         sbind (rec_arguments [] st) (\<lambda>(args, st).
         sbind (expect source (js '')'') st) (\<lambda>(close, st).
         if length args \<noteq> arity
         then Inl (billing_error TypeError (lx_text token) (Some (lx_start token)))
         else Inr (Call (lx_text token) args (lx_start token) (lx_end close), st)))))"

definition primary_body ::
  "(nat \<Rightarrow> parser \<Rightarrow> node parse_result) \<Rightarrow> (node list \<Rightarrow> parser \<Rightarrow> node list parse_result)
   \<Rightarrow> jsstring \<Rightarrow> parser \<Rightarrow> node parse_result" where
  "primary_body rec_expression rec_arguments source st =
    sbind (take_lexeme source st) (\<lambda>(token, st).
    let s = lx_start token; e = lx_end token; text = lx_text token in
    if lx_kind token = KNumber then Inr (Literal (lx_value token) (lx_integer token) s e, st)
    else if lx_kind token = KString then Inr (Literal (lx_value token) False s e, st)
    else if text = js ''('' then
      sbind (rec_expression 0 st) (\<lambda>(inner, st).
      sbind (expect source (js '')'') st) (\<lambda>(close, st).
      Inr (with_span inner s (lx_end close), st)))
    else if text \<in> set (map js [''!'', ''+'', ''-'']) then
      sbind (rec_expression 7 st) (\<lambda>(operand, st).
      Inr (Unary text operand s (nend operand), st))
    else if lx_kind token \<noteq> KName then Inl (billing_error Syntax text (Some s))
    else if text = js ''nil'' then Inr (Literal VNull False s e, st)
    else if text = js ''true'' \<or> text = js ''false'' then
      Inr (Literal (VBool (text = js ''true'')) False s e, st)
    else if lx_text (current st) \<noteq> js ''('' then
      if text \<in> set CONTEXT_VARIABLES then Inr (Context text s e, st)
      else if text \<notin> set TOKEN_VARIABLES then Inl (billing_error Unsupported text (Some s))
      else Inr (Variable text s e, st)
    else call_body rec_arguments source token st)"

definition arguments_body ::
  "(nat \<Rightarrow> parser \<Rightarrow> node parse_result) \<Rightarrow> (node list \<Rightarrow> parser \<Rightarrow> node list parse_result)
   \<Rightarrow> jsstring \<Rightarrow> node list \<Rightarrow> parser \<Rightarrow> node list parse_result" where
  "arguments_body rec_expression rec_arguments source args st =
    (if lx_text (current st) = js '')'' then Inr (args, st)
     else
       sbind (rec_expression 0 st) (\<lambda>(arg, st).
       if lx_text (current st) \<noteq> js '','' then Inr (args @ [arg], st)
       else sbind (take_lexeme source st) (\<lambda>(_, st).
            rec_arguments (args @ [arg]) st)))"

fun expression :: "nat \<Rightarrow> jsstring \<Rightarrow> nat \<Rightarrow> parser \<Rightarrow> node parse_result"
and binary_loop :: "nat \<Rightarrow> jsstring \<Rightarrow> nat \<Rightarrow> node \<Rightarrow> parser \<Rightarrow> node parse_result"
and primary :: "nat \<Rightarrow> jsstring \<Rightarrow> parser \<Rightarrow> node parse_result"
and arguments :: "nat \<Rightarrow> jsstring \<Rightarrow> node list \<Rightarrow> parser \<Rightarrow> node list parse_result"
where
  "expression 0 source minimum st = Inl OutOfFuel"
| "expression (Suc fuel) source minimum st =
     expression_body (expression fuel source) (binary_loop fuel source) (primary fuel source)
       source minimum st"
| "binary_loop 0 source minimum left st = Inl OutOfFuel"
| "binary_loop (Suc fuel) source minimum left st =
     binary_loop_body (expression fuel source) (binary_loop fuel source) source minimum left st"
| "primary 0 source st = Inl OutOfFuel"
| "primary (Suc fuel) source st =
     primary_body (expression fuel source) (arguments fuel source) source st"
| "arguments 0 source args st = Inl OutOfFuel"
| "arguments (Suc fuel) source args st =
     arguments_body (expression fuel source) (arguments fuel source) source args st"

definition parse_fuel :: "jsstring \<Rightarrow> nat" where
  "parse_fuel source = 4 * length source + 2"

definition parse :: "jsstring \<Rightarrow> parser \<Rightarrow> node res" where
  "parse source st =
    sbind (expression (parse_fuel source) source 0 st) (\<lambda>(node, st).
    if lx_kind (current st) \<noteq> KEnd
    then Inl (billing_error Unsupported (lx_text (current st)) (Some (lx_start (current st))))
    else Inr node)"

text \<open>\<open>new BillingParser(source).parse()\<close>.\<close>

definition parse_source :: "jsstring \<Rightarrow> node res" where
  "parse_source source = sbind (new_BillingParser source) (parse source)"

end
