(* ===== verification/BillingSpans.thy ===== *)
theory BillingSpans
  imports BillingParser
begin

section \<open>Billing expressions: what the parser returns\<close>

text \<open>
  Invariants of parsed trees, and termination of the parser.

  \<^item> \<open>spans_ok\<close>: every node covers a non-empty part of the source, its children lie inside
    it, in order and without overlap, and no child has the span of its parent. Hence no two nodes
    of one tree are equal (\<open>distinct_postorder\<close>), which is why equality of trees can stand for
    the object identity that the program uses on nodes.
  \<^item> \<open>wf_node\<close>: literals are finite numbers, strings, booleans or nil; names, operators and
    the number of arguments come from the registries.
  \<^item> \<open>parse_source_fuel\<close>: the fuel of the model is always enough.

  The locale \<open>parser_calls\<close> is the contract between the methods of the parser: what each
  method may rely on when it calls the others. Its lemmas show that the method bodies keep the
  contract; the interpretation discharges it for the recursive methods by induction on the fuel.
\<close>

subsection \<open>Invariants of trees\<close>

fun seq_within :: "nat \<Rightarrow> node list \<Rightarrow> nat \<Rightarrow> bool" where
  "seq_within lo [] hi = (lo \<le> hi)"
| "seq_within lo (c # cs) hi = (lo \<le> nstart c \<and> seq_within (nend c) cs hi)"

function spans_ok :: "node \<Rightarrow> bool" where
  "spans_ok n =
    (nstart n < nend n \<and> seq_within (nstart n) (children n) (nend n)
     \<and> list_all (\<lambda>c. (nstart c, nend c) \<noteq> (nstart n, nend n) \<and> spans_ok c) (children n))"
  by pat_completeness auto
termination
  by (relation "measure size") (auto simp: children_size)

declare spans_ok.simps [simp del]

definition literal_ok :: "jsval \<Rightarrow> bool \<Rightarrow> bool" where
  "literal_ok v integer \<longleftrightarrow>
     number_value_ok v integer \<or> (\<not> integer \<and> (is_str v \<or> is_bool v \<or> v = VNull))"

definition unary_operators :: "jsstring list" where
  "unary_operators = map js [''!'', ''+'', ''-'']"

fun wf_node :: "node \<Rightarrow> bool" where
  "wf_node (Literal v i s e) = literal_ok v i"
| "wf_node (Variable x s e) = (x \<in> set TOKEN_VARIABLES)"
| "wf_node (Context x s e) = (x \<in> set CONTEXT_VARIABLES)"
| "wf_node (Call f args s e) =
     (map_of BILLING_FUNCTIONS f = Some (length args) \<and> list_all wf_node args)"
| "wf_node (Unary op a s e) = (op \<in> set unary_operators \<and> wf_node a)"
| "wf_node (Binary op a b s e) = (map_of PRECEDENCE op \<noteq> None \<and> wf_node a \<and> wf_node b)"
| "wf_node (Conditional c a b s e) = (wf_node c \<and> wf_node a \<and> wf_node b)"

lemma wf_children: "wf_node n \<Longrightarrow> c \<in> set (children n) \<Longrightarrow> wf_node c"
  by (cases n) (auto simp: list_all_iff)

lemma wf_postorder: "wf_node n \<Longrightarrow> m \<in> set (postorder n) \<Longrightarrow> wf_node m"
proof (induction n rule: node_children_induct)
  case (node n)
  then show ?case using wf_children[of n] by (auto simp: postorder.simps[of n])
qed

lemma with_span_simps [simp]:
  "nstart (with_span n s e) = s" "nend (with_span n s e) = e"
  "children (with_span n s e) = children n" "wf_node (with_span n s e) = wf_node n"
  by (cases n; simp)+

lemma seq_within_mono:
  "seq_within lo cs hi \<Longrightarrow> lo' \<le> lo \<Longrightarrow> hi \<le> hi' \<Longrightarrow> seq_within lo' cs hi'"
  by (induction lo cs hi arbitrary: lo' rule: seq_within.induct) auto

lemma seq_within_snoc:
  "seq_within lo cs hi \<Longrightarrow> hi \<le> nstart c \<Longrightarrow> nend c \<le> hi' \<Longrightarrow> seq_within lo (cs @ [c]) hi'"
  by (induction lo cs hi rule: seq_within.induct) auto

lemma seq_within_member:
  "seq_within lo cs hi \<Longrightarrow> c \<in> set cs \<Longrightarrow> \<forall>c \<in> set cs. nstart c \<le> nend c \<Longrightarrow>
     lo \<le> nstart c \<and> nend c \<le> hi"
proof (induction lo cs hi rule: seq_within.induct)
  case (2 lo d cs hi)
  have "lo \<le> hi" if "seq_within lo cs hi" "\<forall>c \<in> set cs. nstart c \<le> nend c" for lo cs hi
    using that by (induction lo cs hi rule: seq_within.induct) auto
  with 2 show ?case by fastforce
qed simp

lemma spans_okD:
  assumes "spans_ok n"
  shows "nstart n < nend n" "seq_within (nstart n) (children n) (nend n)"
    "c \<in> set (children n) \<Longrightarrow> spans_ok c"
    "c \<in> set (children n) \<Longrightarrow> nstart n \<le> nstart c \<and> nend c \<le> nend n
       \<and> (nstart c, nend c) \<noteq> (nstart n, nend n)"
proof -
  show s: "nstart n < nend n" "seq_within (nstart n) (children n) (nend n)"
    using assms by (simp_all add: spans_ok.simps[of n])
  show kids: "spans_ok c" if "c \<in> set (children n)" for c
    using assms that by (simp add: spans_ok.simps[of n] list_all_iff)
  have "nstart c \<le> nend c" if "c \<in> set (children n)" for c
    using kids[OF that] by (simp add: spans_ok.simps[of c])
  then show "nstart n \<le> nstart c \<and> nend c \<le> nend n \<and> (nstart c, nend c) \<noteq> (nstart n, nend n)"
    if "c \<in> set (children n)" for c
    using seq_within_member[OF s(2) that] assms that
    by (auto simp: spans_ok.simps[of n] list_all_iff)
qed

lemma spans_okI:
  assumes "nstart n < nend n" "seq_within (nstart n) (children n) (nend n)"
    and "\<And>c. c \<in> set (children n) \<Longrightarrow> spans_ok c"
    and "\<And>c. c \<in> set (children n) \<Longrightarrow> nstart n < nstart c \<or> nend c < nend n"
  shows "spans_ok n"
  using assms by (subst spans_ok.simps) (fastforce simp: list_all_iff)

lemma spans_ok_with_span:
  assumes "spans_ok n" "s \<le> nstart n" "nend n \<le> e"
  shows "spans_ok (with_span n s e)"
proof (rule spans_okI)
  note n = spans_okD[OF assms(1)]
  show "nstart (with_span n s e) < nend (with_span n s e)" using n(1) assms by simp
  show "seq_within (nstart (with_span n s e)) (children (with_span n s e)) (nend (with_span n s e))"
    using seq_within_mono[OF n(2)] assms by simp
  fix c assume "c \<in> set (children (with_span n s e))"
  then have c: "c \<in> set (children n)" by simp
  then show "spans_ok c" by (rule n(3))
  show "nstart (with_span n s e) < nstart c \<or> nend c < nend (with_span n s e)"
    using n(4)[OF c] assms by auto
qed

subsection \<open>Distinct nodes\<close>

text \<open>Every node below \<open>n\<close> lies inside the span of \<open>n\<close>; a proper descendant has another span.\<close>

lemma postorder_inside:
  assumes "spans_ok n" "m \<in> set (postorder n)"
  shows "nstart n \<le> nstart m \<and> nend m \<le> nend n \<and> nstart m < nend m"
  using assms
proof (induction n rule: node_children_induct)
  case (node n)
  note n = spans_okD[OF node.prems(1)]
  from node.prems(2) consider "m = n" | c where "c \<in> set (children n)" "m \<in> set (postorder c)"
    by (auto simp: postorder.simps[of n])
  then show ?case
  proof cases
    case 1
    then show ?thesis using n(1) by simp
  next
    case 2
    then show ?thesis using node.IH[OF 2(1) n(3)[OF 2(1)] 2(2)] n(4)[OF 2(1)] by auto
  qed
qed

lemma postorder_self [simp]: "n \<in> set (postorder n)"
  by (simp add: postorder.simps[of n])

lemma disjoint_siblings:
  assumes "seq_within lo cs hi" "\<forall>c \<in> set cs. spans_ok c \<and> distinct (postorder c)"
  shows "distinct (concat (map postorder cs))
     \<and> (\<forall>m \<in> set (concat (map postorder cs)). lo \<le> nstart m)"
  using assms
proof (induction lo cs hi rule: seq_within.induct)
  case (2 lo c cs hi)
  then have IH: "distinct (concat (map postorder cs))"
      "\<forall>m \<in> set (concat (map postorder cs)). nend c \<le> nstart m" by auto
  have c: "m \<in> set (postorder c) \<Longrightarrow> nstart c \<le> nstart m \<and> nend m \<le> nend c \<and> nstart m < nend m" for m
    using 2(3) postorder_inside[of c m] by simp
  have "m \<notin> set (concat (map postorder cs))" if "m \<in> set (postorder c)" for m
    using c[OF that] IH(2) by (meson leD le_less_trans)
  then have "set (postorder c) \<inter> set (concat (map postorder cs)) = {}" by blast
  then have "distinct (concat (map postorder (c # cs)))" using IH(1) 2(3) by simp
  moreover have "lo \<le> nstart m" if "m \<in> set (concat (map postorder (c # cs)))" for m
  proof -
    from that consider "m \<in> set (postorder c)" | "m \<in> set (concat (map postorder cs))" by auto
    then show ?thesis
    proof cases
      case 1
      then show ?thesis using c[OF 1] 2(2) by simp
    next
      case 2
      then show ?thesis using c[of c] IH(2) \<open>seq_within lo (c # cs) hi\<close> by fastforce
    qed
  qed
  ultimately show ?case by blast
qed simp

lemma distinct_postorder: "spans_ok n \<Longrightarrow> distinct (postorder n)"
proof (induction n rule: node_children_induct)
  case (node n)
  note n = spans_okD[OF node.prems]
  have "distinct (concat (map postorder (children n)))"
    using disjoint_siblings[OF n(2)] node.IH n(3) by blast
  moreover have "n \<notin> set (concat (map postorder (children n)))"
  proof
    assume "n \<in> set (concat (map postorder (children n)))"
    then obtain c where c: "c \<in> set (children n)" "n \<in> set (postorder c)" by auto
    with postorder_inside[OF n(3)[OF c(1)] c(2)] n(4)[OF c(1)] show False by auto
  qed
  ultimately show ?case by (simp add: postorder.simps[of n])
qed

subsection \<open>The contract between the methods\<close>

definition parsed_from :: "jsstring \<Rightarrow> nat \<Rightarrow> int \<Rightarrow> node \<Rightarrow> parser \<Rightarrow> bool" where
  "parsed_from source pos d n st \<longleftrightarrow> parser_ok source st \<and> depth st = d \<and> spans_ok n \<and> wf_node n
     \<and> nstart n = pos \<and> nend n \<le> lx_start (current st)"

definition args_from :: "jsstring \<Rightarrow> nat \<Rightarrow> int \<Rightarrow> node list \<Rightarrow> parser \<Rightarrow> bool" where
  "args_from source lo d args st \<longleftrightarrow> parser_ok source st \<and> depth st = d
     \<and> lo < lx_start (current st)
     \<and> (\<forall>a \<in> set args. spans_ok a \<and> wf_node a \<and> lo < nstart a)
     \<and> seq_within lo args (lx_start (current st))"

lemmas parsed_simps = parsed_from_def args_from_def

lemma parsed_from_nonempty: "parsed_from source pos d n st \<Longrightarrow> nstart n < nend n"
  by (auto simp: parsed_from_def dest: spans_okD)

lemma parsed_binary:
  assumes "parsed_from source pos d left st" "parsed_from source mid d' right st'"
    and "nend left \<le> mid" "map_of PRECEDENCE op \<noteq> None"
  shows "parsed_from source pos d' (Binary op left right (nstart left) (nend right)) st'"
proof -
  have "nstart left < nend left" "nstart right < nend right"
    using assms(1,2) by (auto dest: parsed_from_nonempty)
  with assms have "spans_ok (Binary op left right (nstart left) (nend right))"
    by - (rule spans_okI; auto simp: parsed_from_def)
  with assms show ?thesis by (auto simp: parsed_from_def)
qed

lemma parsed_conditional:
  assumes "parsed_from source pos d c st" "parsed_from source p1 d1 a st1"
    "parsed_from source p2 d2 b st2" and "nend c \<le> p1" "nend a \<le> p2"
  shows "parsed_from source pos d2 (Conditional c a b (nstart c) (nend b)) st2"
proof -
  have "nstart c < nend c" "nstart a < nend a" "nstart b < nend b"
    using assms(1-3) by (auto dest: parsed_from_nonempty)
  with assms have "spans_ok (Conditional c a b (nstart c) (nend b))"
    by - (rule spans_okI; auto simp: parsed_from_def)
  with assms show ?thesis by (auto simp: parsed_from_def)
qed

lemma parsed_unary:
  assumes "parsed_from source mid d a st" "pos < mid" "op \<in> set unary_operators"
  shows "parsed_from source pos d (Unary op a pos (nend a)) st"
proof -
  have "nstart a < nend a" using assms(1) by (rule parsed_from_nonempty)
  with assms have "spans_ok (Unary op a pos (nend a))"
    by - (rule spans_okI; auto simp: parsed_from_def)
  with assms show ?thesis by (auto simp: parsed_from_def)
qed

lemma parsed_leaf:
  assumes "parser_ok source st" "nstart n < nend n" "children n = []" "wf_node n"
    "nend n \<le> lx_start (current st)"
  shows "parsed_from source (nstart n) (depth st) n st"
proof -
  have "spans_ok n" using assms by - (rule spans_okI; auto)
  with assms show ?thesis by (simp add: parsed_from_def)
qed

lemma parsed_call:
  assumes "args_from source pos d args st" "parser_ok source st'" "depth st' = d" "pos < stop"
    "lx_start (current st) < stop" "stop \<le> lx_start (current st')"
    "map_of BILLING_FUNCTIONS f = Some (length args)"
  shows "parsed_from source pos d (Call f args pos stop) st'"
proof -
  have "seq_within pos args stop"
    using assms by (auto simp: args_from_def intro: seq_within_mono)
  with assms have "spans_ok (Call f args pos stop)"
    by - (rule spans_okI; auto simp: args_from_def)
  with assms show ?thesis by (auto simp: parsed_from_def args_from_def list_all_iff)
qed

lemma parsed_depth_update:
  "parsed_from source pos d n st \<Longrightarrow> parsed_from source pos k n (st\<lparr>depth := k\<rparr>)"
  by (auto simp: parsed_from_def parser_ok_def)

locale parser_calls =
  fixes source :: jsstring
    and rec_expression :: "nat \<Rightarrow> parser \<Rightarrow> node parse_result"
    and rec_loop :: "nat \<Rightarrow> node \<Rightarrow> parser \<Rightarrow> node parse_result"
    and rec_primary :: "parser \<Rightarrow> node parse_result"
    and rec_arguments :: "node list \<Rightarrow> parser \<Rightarrow> node list parse_result"
  assumes expression_contract:
      "parser_ok source st \<Longrightarrow> rec_expression m st = Inr (n, st') \<Longrightarrow>
         parsed_from source (lx_start (current st)) (depth st) n st'"
    and loop_contract:
      "parsed_from source pos d l st \<Longrightarrow> rec_loop m l st = Inr (n, st') \<Longrightarrow>
         parsed_from source pos d n st'"
    and primary_contract:
      "parser_ok source st \<Longrightarrow> rec_primary st = Inr (n, st') \<Longrightarrow>
         parsed_from source (lx_start (current st)) (depth st) n st'"
    and arguments_contract:
      "args_from source lo d args st \<Longrightarrow> rec_arguments args st = Inr (args', st') \<Longrightarrow>
         args_from source lo d args' st'"
begin

lemma expression_body_contract:
  assumes ok: "parser_ok source st"
    and res: "expression_body rec_expression rec_loop rec_primary source m st = Inr (n, st')"
  shows "parsed_from source (lx_start (current st)) (depth st) n st'"
proof -
  let ?st = "st\<lparr>depth := depth st + 1\<rparr>"
  have ok0: "parser_ok source ?st" using ok by (simp add: parser_ok_def)
  from res obtain l0 st0 l1 st1 where
      p: "rec_primary ?st = Inr (l0, st0)" and l: "rec_loop m l0 st0 = Inr (l1, st1)"
    by (auto simp: expression_body_def Let_def split: if_splits)
  have l0: "parsed_from source (lx_start (current st)) (depth st + 1) l0 st0"
    using primary_contract[OF ok0 p] by simp
  have l1: "parsed_from source (lx_start (current st)) (depth st + 1) l1 st1"
    by (rule loop_contract[OF l0 l])
  show ?thesis
  proof (cases "m = 0 \<and> lx_text (current st1) = js ''?''")
    case False
    then have "n = l1" "st' = st1\<lparr>depth := depth st1 - 1\<rparr>"
      using res p l by (auto simp: expression_body_def Let_def split: if_splits)
    with l1 parsed_depth_update[OF l1, of "depth st"] show ?thesis by (simp add: parsed_from_def)
  next
    case True
    then obtain lx2 st2 a st3 lx4 st4 b st5 where
        t: "take_lexeme source st1 = Inr (lx2, st2)" and a: "rec_expression 0 st2 = Inr (a, st3)"
      and c: "expect source (js '':'') st3 = Inr (lx4, st4)"
      and b: "rec_expression 0 st4 = Inr (b, st5)"
      and n: "n = Conditional l1 a b (nstart l1) (nend b)" "st' = st5\<lparr>depth := depth st5 - 1\<rparr>"
      using res p l by (auto simp: expression_body_def Let_def split: if_splits)
    have ok1: "parser_ok source st1" "nend l1 \<le> lx_start (current st1)"
      using l1 by (auto simp: parsed_from_def)
    have t': "parser_ok source st2" "nend l1 \<le> lx_start (current st2)" "depth st2 = depth st + 1"
      using take_lexeme_ok[OF t ok1(1)] ok1 l1
      by (auto simp: parsed_from_def parser_ok_def lexeme_ok_def)
    have a': "parsed_from source (lx_start (current st2)) (depth st + 1) a st3"
      using expression_contract[OF t'(1) a] t'(3) by simp
    then have ok3: "parser_ok source st3" by (simp add: parsed_from_def)
    have c': "parser_ok source st4" "nend a \<le> lx_start (current st4)" "depth st4 = depth st + 1"
      using expect_ok[OF c ok3] a' by (auto simp: parsed_from_def parser_ok_def lexeme_ok_def)
    have b': "parsed_from source (lx_start (current st4)) (depth st + 1) b st5"
      using expression_contract[OF c'(1) b] c'(3) by simp
    from parsed_conditional[OF l1 a' b' t'(2) c'(2)] n
    have "parsed_from source (lx_start (current st)) (depth st + 1) n st5" by simp
    moreover have "st' = st5\<lparr>depth := depth st\<rparr>" using n b' by (simp add: parsed_from_def)
    ultimately show ?thesis using parsed_depth_update by simp
  qed
qed

lemma binary_loop_body_contract:
  assumes left: "parsed_from source pos d l st"
    and res: "binary_loop_body rec_expression rec_loop source m l st = Inr (n, st')"
  shows "parsed_from source pos d n st'"
proof (cases "\<exists>prec. map_of PRECEDENCE (lx_text (current st)) = Some prec \<and> m \<le> prec")
  case False
  with left res show ?thesis
    by (auto simp: binary_loop_body_def not_le split: option.splits if_splits)
next
  case True
  then obtain prec lx st1 r st2 where
      prec: "map_of PRECEDENCE (lx_text (current st)) = Some prec"
    and t: "take_lexeme source st = Inr (lx, st1)"
    and r: "rec_expression (prec + 1) st1 = Inr (r, st2)"
    and l: "rec_loop m (Binary (lx_text lx) l r (nstart l) (nend r)) st2 = Inr (n, st')"
    using res by (auto simp: binary_loop_body_def)
  have ok: "parser_ok source st" using left by (simp add: parsed_from_def)
  have t': "parser_ok source st1" "nend l \<le> lx_start (current st1)" "depth st1 = d" "lx = current st"
    using take_lexeme_ok[OF t ok] left by (auto simp: parsed_from_def parser_ok_def lexeme_ok_def)
  have "parsed_from source (lx_start (current st1)) d r st2"
    using expression_contract[OF t'(1) r] t'(3) by simp
  from parsed_binary[OF left this t'(2), of "lx_text lx"] prec t'(4)
  have "parsed_from source pos d (Binary (lx_text lx) l r (nstart l) (nend r)) st2" by simp
  then show ?thesis using l by (rule loop_contract)
qed

lemma arguments_body_contract:
  assumes args: "args_from source lo d args st"
    and res: "arguments_body rec_expression rec_arguments source args st = Inr (args', st')"
  shows "args_from source lo d args' st'"
proof (cases "lx_text (current st) = js '')''")
  case True
  with args res show ?thesis by (simp add: arguments_body_def)
next
  case False
  then obtain a st1 where a: "rec_expression 0 st = Inr (a, st1)"
    using res by (auto simp: arguments_body_def)
  have ok: "parser_ok source st" "depth st = d" using args by (auto simp: args_from_def)
  have a': "parsed_from source (lx_start (current st)) d a st1"
    using expression_contract[OF ok(1) a] ok(2) by simp
  have more: "args_from source lo d (args @ [a]) st1"
    using args a' parsed_from_nonempty[OF a']
      seq_within_snoc[of lo args "lx_start (current st)" a "lx_start (current st1)"]
    by (auto simp: parsed_simps)
  show ?thesis
  proof (cases "lx_text (current st1) = js '',''")
    case False
    with \<open>lx_text (current st) \<noteq> js '')''\<close> a res more show ?thesis by (simp add: arguments_body_def)
  next
    case True
    then obtain lx st2 where t: "take_lexeme source st1 = Inr (lx, st2)"
      and r: "rec_arguments (args @ [a]) st2 = Inr (args', st')"
      using \<open>lx_text (current st) \<noteq> js '')''\<close> a res by (auto simp: arguments_body_def)
    have "parser_ok source st1" using a' by (simp add: parsed_from_def)
    note t' = take_lexeme_ok[OF t this]
    have "lx_start (current st1) \<le> lx_start (current st2)"
      using t' a' by (auto simp: parsed_from_def parser_ok_def lexeme_ok_def)
    then have "args_from source lo d (args @ [a]) st2"
      using more t' seq_within_mono[of lo "args @ [a]" "lx_start (current st1)" lo]
      by (auto simp: args_from_def)
    then show ?thesis using r by (rule arguments_contract)
  qed
qed

lemma call_body_contract:
  assumes ok: "parser_ok source st" and tok: "lexeme_ok source token" "lx_kind token \<noteq> KEnd"
      "lx_end token \<le> lx_start (current st)"
    and res: "call_body rec_arguments source token st = Inr (n, st')"
  shows "parsed_from source (lx_start token) (depth st) n st'"
proof -
  from res obtain arity lx1 st1 args st2 close st3 where
      arity: "map_of BILLING_FUNCTIONS (lx_text token) = Some arity"
    and t: "take_lexeme source st = Inr (lx1, st1)"
    and a: "rec_arguments [] st1 = Inr (args, st2)"
    and c: "expect source (js '')'') st2 = Inr (close, st3)"
    and n: "length args = arity" "n = Call (lx_text token) args (lx_start token) (lx_end close)" "st' = st3"
    by (auto simp: call_body_def split: option.splits if_splits)
  have tok': "lx_start token < lx_end token" using tok by (simp add: lexeme_ok_def)
  have "args_from source (lx_start token) (depth st) [] st1"
    using take_lexeme_ok[OF t ok] ok tok' tok(3)
    by (auto simp: args_from_def parser_ok_def lexeme_ok_def)
  from arguments_contract[OF this a]
  have a': "args_from source (lx_start token) (depth st) args st2" .
  then have ok2: "parser_ok source st2" "depth st2 = depth st" by (auto simp: args_from_def)
  note c' = expect_ok[OF c ok2(1)]
  have "lx_kind close \<noteq> KEnd"
    using c' ok2 by (auto simp: parser_ok_def lexeme_ok_def js_slice_def js_def)
  then have "lx_start (current st2) < lx_end close"
    using c'(1) ok2(1) by (auto simp: parser_ok_def lexeme_ok_def)
  with parsed_call[OF a' c'(2), of "lx_end close" "lx_text token"] c' ok2 n arity a'
  show ?thesis by (auto simp: args_from_def)
qed

lemma primary_body_contract:
  assumes ok: "parser_ok source st"
    and res: "primary_body rec_expression rec_arguments source st = Inr (n, st')"
  shows "parsed_from source (lx_start (current st)) (depth st) n st'"
proof -
  from res obtain token st1 where t: "take_lexeme source st = Inr (token, st1)"
    by (auto simp: primary_body_def)
  note t' = take_lexeme_ok[OF t ok]
  have tok: "lexeme_ok source token" using t'(1) ok by (simp add: parser_ok_def)
  let ?text = "lx_text token" and ?s = "lx_start token" and ?e = "lx_end token"
  have leaf: ?thesis if "n = leaf" "st' = st1" "children leaf = []" "wf_node leaf"
      "nstart leaf = ?s" "nend leaf = ?e" "lx_kind token \<noteq> KEnd" for leaf
    using parsed_leaf[of source st1 leaf] that t' tok by (auto simp: lexeme_ok_def)
  have empty: "?text = []" if "lx_kind token = KEnd"
    using that tok by (auto simp: lexeme_ok_def js_slice_def)
  consider (number) "lx_kind token = KNumber" | (string) "lx_kind token = KString"
    | (paren) "lx_kind token \<noteq> KNumber" "lx_kind token \<noteq> KString" "?text = js ''(''"
    | (unary) "lx_kind token \<noteq> KNumber" "lx_kind token \<noteq> KString" "?text \<noteq> js ''(''"
        "?text \<in> set unary_operators"
    | (name) "?text \<noteq> js ''(''" "?text \<notin> set unary_operators" "lx_kind token = KName"
    | (bad) "lx_kind token \<noteq> KNumber" "lx_kind token \<noteq> KString" "?text \<noteq> js ''(''"
        "?text \<notin> set unary_operators" "lx_kind token \<noteq> KName" by blast
  then show ?thesis
  proof cases
    case number
    then show ?thesis using res t tok
      by (intro leaf[of "Literal (lx_value token) (lx_integer token) ?s ?e"])
         (auto simp: primary_body_def literal_ok_def lexeme_ok_def)
  next
    case string
    then show ?thesis using res t tok
      by (intro leaf[of "Literal (lx_value token) False ?s ?e"])
         (auto simp: primary_body_def literal_ok_def lexeme_ok_def)
  next
    case paren
    then obtain inner st2 close st3 where i: "rec_expression 0 st1 = Inr (inner, st2)"
      and c: "expect source (js '')'') st2 = Inr (close, st3)"
      and n: "n = with_span inner ?s (lx_end close)" "st' = st3"
      using res t by (auto simp: primary_body_def Let_def)
    have i': "parsed_from source (lx_start (current st1)) (depth st) inner st2"
      using expression_contract[OF t'(2) i] t'(4) by simp
    then have ok2: "parser_ok source st2" by (simp add: parsed_from_def)
    note c' = expect_ok[OF c ok2]
    have "?s \<le> nstart inner" "nend inner \<le> lx_end close"
      using t' tok i' c' ok2 by (auto simp: parsed_from_def lexeme_ok_def parser_ok_def)
    with i' c' n t'(1) show ?thesis by (auto simp: parsed_from_def intro: spans_ok_with_span)
  next
    case unary
    then obtain a st2 where a: "rec_expression 7 st1 = Inr (a, st2)"
      and n: "n = Unary ?text a ?s (nend a)" "st' = st2"
      using res t by (auto simp: primary_body_def Let_def unary_operators_def)
    have "?text \<noteq> []" using unary by (auto simp: unary_operators_def)
    then have "lx_kind token \<noteq> KEnd" using empty by blast
    then have "?s < ?e" using tok by (simp add: lexeme_ok_def)
    then have "?s < lx_start (current st1)" using t'(3) by simp
    from parsed_unary[OF expression_contract[OF t'(2) a] this unary(4)] n t'(1,4)
    show ?thesis by simp
  next
    case name
    show ?thesis
    proof (cases "?text = js ''nil'' \<or> ?text = js ''true'' \<or> ?text = js ''false''
        \<or> lx_text (current st1) \<noteq> js ''(''")
      case True
      from name res t True obtain leaf' where "n = leaf'" "st' = st1" "children leaf' = []"
          "wf_node leaf'" "nstart leaf' = ?s" "nend leaf' = ?e"
        by (auto simp: primary_body_def Let_def literal_ok_def unary_operators_def split: if_splits)
      then show ?thesis using name by (intro leaf) auto
    next
      case False
      then have "call_body rec_arguments source token st1 = Inr (n, st')"
        using name res t by (auto simp: primary_body_def Let_def unary_operators_def split: if_splits)
      from call_body_contract[OF t'(2) tok _ t'(3) this] name t'(1,4) show ?thesis by simp
    qed
  next
    case bad
    then show ?thesis using res t by (auto simp: primary_body_def Let_def unary_operators_def)
  qed
qed

end

subsection \<open>The methods keep the contract\<close>

lemma parser_calls_fuel:
  "parser_calls source (expression fuel source) (binary_loop fuel source) (primary fuel source)
     (arguments fuel source)"
proof (induction fuel)
  case 0
  show ?case by unfold_locales auto
next
  case (Suc fuel)
  then show ?case
    by unfold_locales
       (auto intro: parser_calls.expression_body_contract parser_calls.binary_loop_body_contract
         parser_calls.primary_body_contract parser_calls.arguments_body_contract)
qed

interpretation pc: parser_calls source "expression fuel source" "binary_loop fuel source"
  "primary fuel source" "arguments fuel source" for source fuel
  by (rule parser_calls_fuel)

lemma parse_source_ok:
  assumes "parse_source source = Inr n"
  shows "spans_ok n" "wf_node n" "nend n \<le> length source"
proof -
  from assms obtain st st' where st: "new_BillingParser source = Inr st"
    and e: "expression (parse_fuel source) source 0 st = Inr (n, st')"
    by (auto simp: parse_source_def parse_def split: if_splits)
  have "parsed_from source (lx_start (current st)) (depth st) n st'"
    by (rule pc.expression_contract[OF new_BillingParser_ok(1)[OF st] e])
  then show "spans_ok n" "wf_node n" "nend n \<le> length source"
    by (auto simp: parsed_from_def parser_ok_def lexeme_ok_def)
qed

subsection \<open>The fuel is enough\<close>

text \<open>
  \<open>left_over\<close> is the part of the source from the current lexeme on. Taking a lexeme that
  is not the end shrinks it, a successful call of \<open>expression\<close> too, and each method needs
  four units of fuel per code unit left and at most three more.
\<close>

definition left_over :: "jsstring \<Rightarrow> parser \<Rightarrow> nat" where
  "left_over source st = length source - lx_start (current st)"

lemma left_over_depth [simp]: "left_over source (st\<lparr>depth := k\<rparr>) = left_over source st"
  "parser_ok source (st\<lparr>depth := k\<rparr>) = parser_ok source st"
  by (simp_all add: left_over_def parser_ok_def)

lemma text_not_end:
  "parser_ok source st \<Longrightarrow> lx_text (current st) \<noteq> [] \<Longrightarrow> lx_kind (current st) \<noteq> KEnd"
  by (auto simp: parser_ok_def lexeme_ok_def js_slice_def)

lemma take_shrinks:
  assumes "take_lexeme source st = Inr (lx, st')" "parser_ok source st" "lx_kind (current st) \<noteq> KEnd"
  shows "left_over source st' < left_over source st"
  using take_lexeme_ok[OF assms(1,2)] assms(2,3)
  by (auto simp: left_over_def parser_ok_def lexeme_ok_def)

lemma take_grows_not:
  assumes "take_lexeme source st = Inr (lx, st')" "parser_ok source st"
  shows "left_over source st' \<le> left_over source st"
  using take_lexeme_ok[OF assms(1,2)] assms(2)
  by (auto simp: left_over_def parser_ok_def lexeme_ok_def)

lemma parsed_shrinks:
  assumes "parsed_from source (lx_start (current st)) d n st'"
  shows "left_over source st' < left_over source st" "parser_ok source st'"
  using assms parsed_from_nonempty[OF assms]
  by (auto simp: parsed_from_def left_over_def parser_ok_def lexeme_ok_def)

definition enough :: "jsstring \<Rightarrow> nat \<Rightarrow> bool" where
  "enough source fuel \<longleftrightarrow>
    (\<forall>m st. parser_ok source st \<longrightarrow> 4 * left_over source st + 2 \<le> fuel \<longrightarrow>
       expression fuel source m st \<noteq> Inl OutOfFuel)
    \<and> (\<forall>m l st. parser_ok source st \<longrightarrow> 4 * left_over source st + 1 \<le> fuel \<longrightarrow>
       binary_loop fuel source m l st \<noteq> Inl OutOfFuel)
    \<and> (\<forall>st. parser_ok source st \<longrightarrow> 4 * left_over source st + 1 \<le> fuel \<longrightarrow>
       primary fuel source st \<noteq> Inl OutOfFuel)
    \<and> (\<forall>args st. parser_ok source st \<longrightarrow> 4 * left_over source st + 3 \<le> fuel \<longrightarrow>
       arguments fuel source args st \<noteq> Inl OutOfFuel)"

lemma enoughD:
  assumes "enough source fuel" "parser_ok source st"
  shows "4 * left_over source st + 2 \<le> fuel \<Longrightarrow> expression fuel source m st \<noteq> Inl OutOfFuel"
    and "4 * left_over source st + 1 \<le> fuel \<Longrightarrow> binary_loop fuel source m l st \<noteq> Inl OutOfFuel"
    and "4 * left_over source st + 1 \<le> fuel \<Longrightarrow> primary fuel source st \<noteq> Inl OutOfFuel"
    and "4 * left_over source st + 3 \<le> fuel \<Longrightarrow> arguments fuel source args st \<noteq> Inl OutOfFuel"
  using assms unfolding enough_def by blast+

lemma enough_expression:
  assumes IH: "enough source fuel" and ok: "parser_ok source st"
    and fuel: "4 * left_over source st + 2 \<le> Suc fuel"
  shows "expression (Suc fuel) source m st \<noteq> Inl OutOfFuel"
proof
  let ?st = "st\<lparr>depth := depth st + 1\<rparr>"
  assume out: "expression (Suc fuel) source m st = Inl OutOfFuel"
  have "primary fuel source ?st \<noteq> Inl OutOfFuel"
    using enoughD(3)[OF IH, of ?st] ok fuel by simp
  with out obtain l0 st0 where p: "primary fuel source ?st = Inr (l0, st0)"
    by (cases "primary fuel source ?st")
       (auto simp: expression_body_def parser_depth_limit_def Let_def split: if_splits)
  have l0: "parsed_from source (lx_start (current st)) (depth st + 1) l0 st0"
    using pc.primary_contract[OF _ p] ok by simp
  note s0 = parsed_shrinks[OF l0]
  have "binary_loop fuel source m l0 st0 \<noteq> Inl OutOfFuel"
    using enoughD(2)[OF IH s0(2)] s0(1) fuel by simp
  with out p obtain l1 st1 where l: "binary_loop fuel source m l0 st0 = Inr (l1, st1)"
    by (cases "binary_loop fuel source m l0 st0")
       (auto simp: expression_body_def parser_depth_limit_def Let_def split: if_splits)
  note s1 = parsed_shrinks[OF pc.loop_contract[OF l0 l]]
  from out p l obtain lx2 st2 where t: "take_lexeme source st1 = Inr (lx2, st2)"
    and rest: "expression fuel source 0 st2 = Inl OutOfFuel
      \<or> (\<exists>a st3. expression fuel source 0 st2 = Inr (a, st3) \<and>
          (\<exists>lx4 st4. expect source (js '':'') st3 = Inr (lx4, st4)
             \<and> expression fuel source 0 st4 = Inl OutOfFuel))"
    using take_lexeme_fuel expect_fuel
    by (auto simp: expression_body_def parser_depth_limit_def Let_def split: if_splits)
  have ok2: "parser_ok source st2" using take_lexeme_ok(2)[OF t s1(2)] .
  have s2: "left_over source st2 < left_over source st" using take_grows_not[OF t s1(2)] s1(1) by simp
  from rest show False
  proof (elim disjE exE conjE)
    assume "expression fuel source 0 st2 = Inl OutOfFuel"
    then show False using enoughD(1)[OF IH ok2] s2 fuel by simp
  next
    fix a st3 lx4 st4
    assume a: "expression fuel source 0 st2 = Inr (a, st3)"
      and c: "expect source (js '':'') st3 = Inr (lx4, st4)"
      and b: "expression fuel source 0 st4 = Inl OutOfFuel"
    note s3 = parsed_shrinks[OF pc.expression_contract[OF ok2 a]]
    have "take_lexeme source st3 = Inr (lx4, st4)" using c by (simp add: expect_def split: if_splits)
    then have "left_over source st4 < left_over source st"
      using take_grows_not[OF _ s3(2)] s3(1) s2 by force
    then show False using enoughD(1)[OF IH expect_ok(2)[OF c s3(2)]] b fuel by simp
  qed
qed

lemma enough_loop:
  assumes IH: "enough source fuel" and ok: "parser_ok source st"
    and fuel: "4 * left_over source st + 1 \<le> Suc fuel"
  shows "binary_loop (Suc fuel) source m l st \<noteq> Inl OutOfFuel"
proof
  assume "binary_loop (Suc fuel) source m l st = Inl OutOfFuel"
  then obtain prec lx st1 where prec: "map_of PRECEDENCE (lx_text (current st)) = Some prec"
    and t: "take_lexeme source st = Inr (lx, st1)"
    and rest: "expression fuel source (prec + 1) st1 = Inl OutOfFuel
      \<or> (\<exists>r st2. expression fuel source (prec + 1) st1 = Inr (r, st2) \<and>
          binary_loop fuel source m (Binary (lx_text lx) l r (nstart l) (nend r)) st2 = Inl OutOfFuel)"
    using take_lexeme_fuel
    by (auto simp: binary_loop_body_def split: option.splits if_splits)
  have "lx_text (current st) \<noteq> []" using prec by (auto simp: PRECEDENCE_def)
  then have s1: "left_over source st1 < left_over source st"
    using take_shrinks[OF t ok] text_not_end[OF ok] by simp
  have ok1: "parser_ok source st1" using take_lexeme_ok(2)[OF t ok] .
  from rest show False
  proof (elim disjE exE conjE)
    assume "expression fuel source (prec + 1) st1 = Inl OutOfFuel"
    then show False using enoughD(1)[OF IH ok1] s1 fuel by simp
  next
    fix r st2
    assume r: "expression fuel source (prec + 1) st1 = Inr (r, st2)"
      and l: "binary_loop fuel source m (Binary (lx_text lx) l r (nstart l) (nend r)) st2 = Inl OutOfFuel"
    note s2 = parsed_shrinks[OF pc.expression_contract[OF ok1 r]]
    show False using enoughD(2)[OF IH s2(2)] l s1 s2(1) fuel by simp
  qed
qed

lemma call_body_fuel:
  assumes "call_body rec_arguments source token st = Inl OutOfFuel"
  obtains lx st1 where "take_lexeme source st = Inr (lx, st1)" "rec_arguments [] st1 = Inl OutOfFuel"
  using assms take_lexeme_fuel expect_fuel
  by (auto simp: call_body_def split: option.splits if_splits)

lemma enough_primary:
  assumes IH: "enough source fuel" and ok: "parser_ok source st"
    and fuel: "4 * left_over source st + 1 \<le> Suc fuel"
  shows "primary (Suc fuel) source st \<noteq> Inl OutOfFuel"
proof
  assume out: "primary (Suc fuel) source st = Inl OutOfFuel"
  then obtain token st1 where t: "take_lexeme source st = Inr (token, st1)"
    using take_lexeme_fuel by (auto simp: primary_body_def)
  note t' = take_lexeme_ok[OF t ok]
  from out t consider (sub) m where "expression fuel source m st1 = Inl OutOfFuel" "lx_text token \<noteq> []"
    | (call) "call_body (arguments fuel source) source token st1 = Inl OutOfFuel" "lx_kind token = KName"
    using expect_fuel
    by (auto simp: primary_body_def Let_def split: if_splits)
  then show False
  proof cases
    case sub
    then have "left_over source st1 < left_over source st"
      using take_shrinks[OF t ok] text_not_end[OF ok] t'(1) by simp
    then show False using enoughD(1)[OF IH t'(2)] sub fuel by simp
  next
    case call
    then have s1: "left_over source st1 < left_over source st"
      using take_shrinks[OF t ok] t'(1) by simp
    obtain lx st2 where t2: "take_lexeme source st1 = Inr (lx, st2)"
      and a: "arguments fuel source [] st2 = Inl OutOfFuel"
      using call_body_fuel[OF call(1)] .
    have "left_over source st2 < left_over source st"
      using take_grows_not[OF t2 t'(2)] s1 by simp
    then show False using enoughD(4)[OF IH take_lexeme_ok(2)[OF t2 t'(2)]] a fuel by simp
  qed
qed

lemma enough_arguments:
  assumes IH: "enough source fuel" and ok: "parser_ok source st"
    and fuel: "4 * left_over source st + 3 \<le> Suc fuel"
  shows "arguments (Suc fuel) source args st \<noteq> Inl OutOfFuel"
proof
  assume "arguments (Suc fuel) source args st = Inl OutOfFuel"
  moreover have "expression fuel source 0 st \<noteq> Inl OutOfFuel"
    using enoughD(1)[OF IH ok] fuel by simp
  ultimately obtain a st1 lx st2 where a: "expression fuel source 0 st = Inr (a, st1)"
    and t: "take_lexeme source st1 = Inr (lx, st2)"
    and r: "arguments fuel source (args @ [a]) st2 = Inl OutOfFuel"
    using take_lexeme_fuel by (auto simp: arguments_body_def split: if_splits)
  note s1 = parsed_shrinks[OF pc.expression_contract[OF ok a]]
  have "left_over source st2 < left_over source st" using take_grows_not[OF t s1(2)] s1(1) by simp
  then show False using enoughD(4)[OF IH take_lexeme_ok(2)[OF t s1(2)]] r fuel by simp
qed

lemma enough_all: "enough source fuel"
proof (induction fuel)
  case 0
  show ?case by (simp add: enough_def)
next
  case (Suc fuel)
  show ?case
    unfolding enough_def
    using enough_expression[OF Suc] enough_loop[OF Suc] enough_primary[OF Suc]
      enough_arguments[OF Suc] by blast
qed

lemma parse_source_fuel: "parse_source source \<noteq> Inl OutOfFuel"
proof
  assume out: "parse_source source = Inl OutOfFuel"
  then obtain st where st: "new_BillingParser source = Inr st"
    and e: "expression (parse_fuel source) source 0 st = Inl OutOfFuel"
    using new_BillingParser_fuel by (auto simp: parse_source_def parse_def split: if_splits)
  have "4 * left_over source st + 2 \<le> parse_fuel source"
    by (simp add: left_over_def parse_fuel_def)
  then show False
    using enoughD(1)[OF enough_all new_BillingParser_ok(1)[OF st]] e by simp
qed

end
