(* ===== verification/BillingCheck.thy ===== *)
theory BillingCheck
  imports BillingTypes
begin

section \<open>Billing expressions: static types\<close>

text \<open>
  Model of \<open>checkExpressionTypes\<close> in
  \<^verbatim>\<open>web/src/features/pricing/lib/billing-expression/parser.ts\<close>. The checker visits the tree in
  postorder and records a type for every node in a map; \<open>node_type\<close> is what the visitor
  computes for one node from the types of its children, including every type error it throws.
  \<open>infer\<close> is the same computation by recursion on the tree; \<open>check_infer\<close> shows that the
  traversal with its mutable map computes exactly that. The specification is separate from both:
  \<open>typing\<close> is an inductive judgement with one rule per form of expression, written without the
  checker's functions, and \<open>infer_typing\<close> shows that inference is sound and complete for it.
\<close>

datatype expression_type = TNumber | TString | TBoolean | TNil | TDynamic

fun type_text :: "expression_type \<Rightarrow> jsstring" where
  "type_text TNumber = js ''number''"
| "type_text TString = js ''string''"
| "type_text TBoolean = js ''boolean''"
| "type_text TNil = js ''nil''"
| "type_text TDynamic = js ''dynamic''"

type_synonym type_map = "(node \<times> expression_type) list"

text \<open>The error of reading a property of a missing argument (\<open>undefined\<close>).\<close>

definition undefined_read :: "string \<Rightarrow> thrown" where
  "undefined_read prop = NativeError
     (js ''Cannot read properties of undefined (reading '' @ [SQ] @ js prop @ [SQ] @ js '')'')"

definition requireType ::
  "(node \<Rightarrow> expression_type option) \<Rightarrow> node \<Rightarrow> expression_type \<Rightarrow> unit res" where
  "requireType get child expected =
    (if get child = Some expected \<or> get child = Some TDynamic then Inr ()
     else Inl (billing_error TypeError (type_text expected @ js '' operand'') (Some (nstart child))))"

text \<open>\<open>requireType(node.args[i], expected)\<close>.\<close>

definition require_arg ::
  "(node \<Rightarrow> expression_type option) \<Rightarrow> node list \<Rightarrow> nat \<Rightarrow> expression_type \<Rightarrow> unit res" where
  "require_arg get args i expected =
    (if i < length args then requireType get (args ! i) expected else Inl (undefined_read ''start''))"

definition call_type ::
  "(node \<Rightarrow> expression_type option) \<Rightarrow> jsstring \<Rightarrow> node list \<Rightarrow> expression_type res" where
  "call_type get name args =
    sbind (if name \<in> set (map js [''param'', ''header'', ''u'']) \<union> set TIME_FUNCTIONS
           then require_arg get args 0 TString else Inr ()) (\<lambda>_.
    if name = js ''header'' then Inr TString
    else if name = js ''has'' then sbind (require_arg get args 1 TString) (\<lambda>_. Inr TBoolean)
    else if name = js ''tier'' then
      sbind (require_arg get args 0 TString) (\<lambda>_.
      sbind (require_arg get args 1 TNumber) (\<lambda>_. Inr TNumber))
    else if name \<in> set TIME_FUNCTIONS then Inr TNumber
    else if name \<in> set (map js [''fixed'', ''min'', ''max'', ''abs'', ''ceil'', ''floor'']) then
      sbind (sfold (\<lambda>arg _. requireType get arg TNumber) args ()) (\<lambda>_. Inr TNumber)
    else Inr TDynamic)"

definition binary_type ::
  "(node \<Rightarrow> expression_type option) \<Rightarrow> jsstring \<Rightarrow> node \<Rightarrow> node \<Rightarrow> expression_type res" where
  "binary_type get op a b =
    (if op \<in> set (map js [''&&'', ''||'']) then
       sbind (requireType get a TBoolean) (\<lambda>_.
       sbind (requireType get b TBoolean) (\<lambda>_. Inr TBoolean))
     else if op \<in> set (map js [''=='', ''!='', ''<'', ''<='', ''>'', ''>='']) then Inr TBoolean
     else if op = js ''+'' \<and> get a = Some TString \<and> get b = Some TString then Inr TString
     else
       sbind (requireType get a TNumber) (\<lambda>_.
       sbind (requireType get b TNumber) (\<lambda>_. Inr TNumber)))"

fun literal_type :: "jsval \<Rightarrow> expression_type" where
  "literal_type VNull = TNil"
| "literal_type (VNum n) = TNumber"
| "literal_type (VStr s) = TString"
| "literal_type _ = TBoolean"

fun node_type :: "(node \<Rightarrow> expression_type option) \<Rightarrow> node \<Rightarrow> expression_type res" where
  "node_type get (Literal v i s e) = Inr (literal_type v)"
| "node_type get (Variable x s e) = Inr TNumber"
| "node_type get (Context x s e) = Inr TDynamic"
| "node_type get (Unary op a s e) =
    (let result = (if op = js ''!'' then TBoolean else TNumber)
     in sbind (requireType get a result) (\<lambda>_. Inr result))"
| "node_type get (Conditional c a b s e) =
    sbind (requireType get c TBoolean) (\<lambda>_.
    if get a = get b then Inr (case get a of Some t \<Rightarrow> t | None \<Rightarrow> TDynamic) else Inr TDynamic)"
| "node_type get (Binary op a b s e) = binary_type get op a b"
| "node_type get (Call f args s e) = call_type get f args"

definition check_visitor :: "node \<Rightarrow> type_map \<Rightarrow> type_map res" where
  "check_visitor n types = sbind (node_type (map_of types) n) (\<lambda>result. Inr ((n, result) # types))"

definition checkExpressionTypes :: "node \<Rightarrow> unit res" where
  "checkExpressionTypes ast = sbind (visitExpression ast check_visitor []) (\<lambda>_. Inr ())"

subsection \<open>Recursive reading\<close>

function infer :: "node \<Rightarrow> expression_type res" where
  "infer n = sbind (smap infer (children n)) (\<lambda>ts. node_type (map_of (zip (children n) ts)) n)"
  by pat_completeness auto
termination
  by (relation "measure size") (auto simp: children_size)

declare infer.simps [simp del]

lemma require_arg_cong:
  "(\<And>c. c \<in> set args \<Longrightarrow> g c = h c) \<Longrightarrow> require_arg g args i t = require_arg h args i t"
  by (simp add: require_arg_def requireType_def)

lemma require_all_cong:
  "(\<And>c. c \<in> set args \<Longrightarrow> g c = h c) \<Longrightarrow>
     sfold (\<lambda>arg _. requireType g arg t) args u = sfold (\<lambda>arg _. requireType h arg t) args u"
  by (rule sfold_cong) (auto simp: requireType_def)

lemma node_type_cong:
  "(\<And>c. c \<in> set (children n) \<Longrightarrow> g c = h c) \<Longrightarrow> node_type g n = node_type h n"
proof (cases n)
  case (Call f args s e)
  assume eq: "\<And>c. c \<in> set (children n) \<Longrightarrow> g c = h c"
  then have "require_arg g args i t = require_arg h args i t"
      "sfold (\<lambda>arg _. requireType g arg t) args u = sfold (\<lambda>arg _. requireType h arg t) args u"
    for i t u using Call by (auto intro: require_arg_cong require_all_cong)
  then show ?thesis by (simp only: Call node_type.simps call_type_def)
qed (auto simp: requireType_def binary_type_def Let_def)

definition consistent :: "type_map \<Rightarrow> bool" where
  "consistent T \<longleftrightarrow> (\<forall>m t. map_of T m = Some t \<longrightarrow> infer m = Inr t)"

lemma smap_infer_lookup:
  assumes "smap infer cs = Inr ts" "c \<in> set cs"
  shows "\<exists>t. map_of (zip cs ts) c = Some t \<and> infer c = Inr t"
  using assms by (induction cs arbitrary: ts) auto

lemma check_visit_infer:
  assumes "consistent T"
  shows "case infer n of
      Inl e \<Rightarrow> sfold check_visitor (postorder n) T = Inl e
    | Inr t \<Rightarrow> \<exists>T'. sfold check_visitor (postorder n) T = Inr T' \<and> consistent T'
        \<and> dom (map_of T) \<subseteq> dom (map_of T') \<and> map_of T' n = Some t"
  using assms
proof (induction n arbitrary: T rule: node_children_induct)
  case (node n)
  have kids: "set cs \<subseteq> set (children n) \<Longrightarrow> consistent T \<Longrightarrow> (case smap infer cs of
      Inl e \<Rightarrow> sfold check_visitor (concat (map postorder cs)) T = Inl e
    | Inr ts \<Rightarrow> \<exists>T'. sfold check_visitor (concat (map postorder cs)) T = Inr T' \<and> consistent T'
        \<and> dom (map_of T) \<subseteq> dom (map_of T') \<and> set cs \<subseteq> dom (map_of T'))" for cs T
  proof (induction cs arbitrary: T)
    case (Cons c cs)
    show ?case
    proof (cases "infer c")
      case (Inl e)
      with node.IH[of c T] Cons.prems show ?thesis by (auto simp: sfold_append)
    next
      case (Inr t)
      with node.IH[of c T] Cons.prems obtain T1 where T1: "consistent T1" "map_of T1 c = Some t"
          "dom (map_of T) \<subseteq> dom (map_of T1)" "sfold check_visitor (postorder c) T = Inr T1"
        by auto
      with Cons.IH[OF _ T1(1)] Cons.prems Inr show ?thesis
        by (cases "smap infer cs") (auto simp: sfold_append, blast+)
    qed
  qed simp
  show ?case
  proof (cases "smap infer (children n)")
    case (Inl e)
    with kids[of "children n" T] node.prems show ?thesis
      by (simp add: infer.simps[of n] postorder.simps[of n] sfold_append)
  next
    case (Inr ts)
    with kids[of "children n" T] node.prems obtain T1 where T1: "consistent T1"
        "sfold check_visitor (concat (map postorder (children n))) T = Inr T1"
        "dom (map_of T) \<subseteq> dom (map_of T1)" "set (children n) \<subseteq> dom (map_of T1)" by auto
    have "map_of (zip (children n) ts) c = map_of T1 c" if "c \<in> set (children n)" for c
      using smap_infer_lookup[OF Inr that] T1(1,4) that by (force simp: consistent_def)
    then have "node_type (map_of T1) n = infer n"
      using Inr node_type_cong[of n "map_of T1" "map_of (zip (children n) ts)"]
      by (simp add: infer.simps[of n])
    with T1 show ?thesis
      by (cases "infer n")
         (auto simp: postorder.simps[of n] sfold_append check_visitor_def consistent_def)
  qed
qed

lemma check_infer:
  assumes "height ast \<le> 256"
  shows "checkExpressionTypes ast = sbind (infer ast) (\<lambda>_. Inr ())"
  using check_visit_infer[of "[]" ast] assms
  by (cases "infer ast")
     (auto simp: checkExpressionTypes_def visit_simps consistent_def)

lemma check_height: "checkExpressionTypes ast = Inr u \<Longrightarrow> height ast \<le> 256"
  using visit_rec_too_deep[of check_visitor 0 ast "[]"]
  by (auto simp: checkExpressionTypes_def visitExpression_rec)

lemma check_ok_infer:
  "checkExpressionTypes ast = Inr u \<Longrightarrow> \<exists>t. infer ast = Inr t"
  using check_infer[OF check_height[of ast u]] by (cases "infer ast") auto

text \<open>The types of the parts of a well-typed expression.\<close>

lemma infer_child:
  assumes "infer n = Inr t" "c \<in> set (children n)"
  shows "\<exists>t'. infer c = Inr t'"
  using assms smap_infer_lookup by (fastforce simp: infer.simps[of n])

lemma infer_children:
  assumes "infer n = Inr t"
  shows "node_type (\<lambda>c. case infer c of Inr t \<Rightarrow> Some t | Inl _ \<Rightarrow> None) n = Inr t"
proof -
  from assms obtain ts where ts: "smap infer (children n) = Inr ts"
    and t: "node_type (map_of (zip (children n) ts)) n = Inr t"
    by (auto simp: infer.simps[of n])
  have "map_of (zip (children n) ts) c = (case infer c of Inr t \<Rightarrow> Some t | Inl _ \<Rightarrow> None)"
    if "c \<in> set (children n)" for c
    using smap_infer_lookup[OF ts that] by auto
  with t node_type_cong[of n] show ?thesis by metis
qed

subsection \<open>Typing rules\<close>

text \<open>
  The type system that the checker enforces, as a judgement: what a well-typed expression of each form
  looks like. A dynamic operand fits every expected type.
\<close>

definition fits :: "expression_type \<Rightarrow> expression_type \<Rightarrow> bool" where
  "fits t expected \<longleftrightarrow> t = expected \<or> t = TDynamic"

inductive typing :: "node \<Rightarrow> expression_type \<Rightarrow> bool" where
  number_literal: "typing (Literal (VNum x) i s e) TNumber"
| string_literal: "typing (Literal (VStr x) i s e) TString"
| nil_literal: "typing (Literal VNull i s e) TNil"
| other_literal: "v \<noteq> VNull \<Longrightarrow> (\<forall>x. v \<noteq> VNum x) \<Longrightarrow> (\<forall>x. v \<noteq> VStr x) \<Longrightarrow>
    typing (Literal v i s e) TBoolean"
| variable: "typing (Variable x s e) TNumber"
| context_value: "typing (Context x s e) TDynamic"
| negation: "typing a t \<Longrightarrow> fits t TBoolean \<Longrightarrow> typing (Unary (js ''!'') a s e) TBoolean"
| sign: "op \<noteq> js ''!'' \<Longrightarrow> typing a t \<Longrightarrow> fits t TNumber \<Longrightarrow> typing (Unary op a s e) TNumber"
| choice: "typing c t \<Longrightarrow> fits t TBoolean \<Longrightarrow> typing a u \<Longrightarrow> typing b u \<Longrightarrow>
    typing (Conditional c a b s e) u"
| mixed_choice: "typing c t \<Longrightarrow> fits t TBoolean \<Longrightarrow> typing a u \<Longrightarrow> typing b v \<Longrightarrow> u \<noteq> v \<Longrightarrow>
    typing (Conditional c a b s e) TDynamic"
| logic: "op = js ''&&'' \<or> op = js ''||'' \<Longrightarrow> typing a t \<Longrightarrow> fits t TBoolean \<Longrightarrow>
    typing b u \<Longrightarrow> fits u TBoolean \<Longrightarrow> typing (Binary op a b s e) TBoolean"
| comparison: "op \<in> {js ''=='', js ''!='', js ''<'', js ''<='', js ''>'', js ''>=''} \<Longrightarrow>
    typing a t \<Longrightarrow> typing b u \<Longrightarrow> typing (Binary op a b s e) TBoolean"
| concatenation: "typing a TString \<Longrightarrow> typing b TString \<Longrightarrow> typing (Binary (js ''+'') a b s e) TString"
| arithmetic: "op \<notin> {js ''&&'', js ''||'', js ''=='', js ''!='', js ''<'', js ''<='', js ''>'', js ''>=''} \<Longrightarrow>
    typing a t \<Longrightarrow> fits t TNumber \<Longrightarrow> typing b u \<Longrightarrow> fits u TNumber \<Longrightarrow>
    typing (Binary op a b s e) TNumber"
| lookup: "f = js ''param'' \<or> f = js ''u'' \<Longrightarrow> list_all2 typing args (t # ts) \<Longrightarrow> fits t TString \<Longrightarrow>
    typing (Call f args s e) TDynamic"
| header: "list_all2 typing args (t # ts) \<Longrightarrow> fits t TString \<Longrightarrow>
    typing (Call (js ''header'') args s e) TString"
| clock: "f \<in> {js ''hour'', js ''minute'', js ''weekday'', js ''month'', js ''day''} \<Longrightarrow>
    list_all2 typing args (t # ts) \<Longrightarrow> fits t TString \<Longrightarrow> typing (Call f args s e) TNumber"
| has: "list_all2 typing args (t # u # ts) \<Longrightarrow> fits u TString \<Longrightarrow>
    typing (Call (js ''has'') args s e) TBoolean"
| tier: "list_all2 typing args (t # u # ts) \<Longrightarrow> fits t TString \<Longrightarrow> fits u TNumber \<Longrightarrow>
    typing (Call (js ''tier'') args s e) TNumber"
| amount: "f \<in> {js ''fixed'', js ''min'', js ''max'', js ''abs'', js ''ceil'', js ''floor''} \<Longrightarrow>
    list_all2 typing args ts \<Longrightarrow> list_all (\<lambda>t. fits t TNumber) ts \<Longrightarrow> typing (Call f args s e) TNumber"
| other_call: "f \<notin> {js ''param'', js ''u'', js ''header'', js ''hour'', js ''minute'', js ''weekday'', js ''month'',
      js ''day'', js ''has'', js ''tier'', js ''fixed'', js ''min'', js ''max'', js ''abs'', js ''ceil'', js ''floor''} \<Longrightarrow>
    list_all2 typing args ts \<Longrightarrow> typing (Call f args s e) TDynamic"

inductive_simps typing_simps:
  "typing (Literal v i s e) t" "typing (Variable x s e) t" "typing (Context x s e) t"
  "typing (Unary op a s e) t" "typing (Conditional c a b s e) t" "typing (Binary op a b s e) t"

inductive_simps typing_Call: "typing (Call f args s e) t"

text \<open>Inference is sound and complete for the rules, one form of expression at a time.\<close>

abbreviation type_of :: "node \<Rightarrow> expression_type option" where
  "type_of c \<equiv> case infer c of Inr t \<Rightarrow> Some t | Inl _ \<Rightarrow> None"

lemma infer_Inr:
  "infer n = Inr t \<longleftrightarrow> (\<exists>ts. smap infer (children n) = Inr ts) \<and> node_type type_of n = Inr t"
proof -
  have "node_type (map_of (zip (children n) ts)) n = node_type type_of n"
    if "smap infer (children n) = Inr ts" for ts
    using smap_infer_lookup[OF that] by (intro node_type_cong) fastforce
  then show ?thesis by (auto simp: infer.simps[of n])
qed

lemma smap_infer_typing:
  assumes "\<And>c t. c \<in> set cs \<Longrightarrow> infer c = Inr t \<longleftrightarrow> typing c t"
  shows "smap infer cs = Inr ts \<longleftrightarrow> list_all2 typing cs ts"
  using assms
  by (induction cs arbitrary: ts) (auto simp: list_all2_Cons1)

lemma requireType_fits:
  "requireType get c t = Inr u \<longleftrightarrow> (\<exists>t'. get c = Some t' \<and> fits t' t)"
  by (auto simp: requireType_def fits_def)

lemma smap_types:
  "smap infer cs = Inr ts \<longleftrightarrow> map type_of cs = map Some ts"
  by (induction cs arbitrary: ts) (auto simp: Cons_eq_map_conv split: sum.splits)

lemma require_arg_fits:
  assumes "map get args = map Some ts"
  shows "require_arg get args i t = Inr u \<longleftrightarrow> i < length ts \<and> fits (ts ! i) t"
  using assms by (auto simp: require_arg_def requireType_fits list_eq_iff_nth_eq)

lemma require_all_fits:
  "map get args = map Some ts \<Longrightarrow>
    sfold (\<lambda>arg _. requireType get arg t) args u = Inr u' \<longleftrightarrow> list_all (\<lambda>t'. fits t' t) ts"
  by (induction args arbitrary: ts u) (auto simp: Cons_eq_map_conv requireType_fits)

lemma call_type_typing:
  assumes kids: "\<And>c t. c \<in> set args \<Longrightarrow> infer c = Inr t \<longleftrightarrow> typing c t"
    and ts: "smap infer args = Inr ts"
  shows "call_type type_of f args = Inr t \<longleftrightarrow> typing (Call f args s e) t"
proof -
  have all: "list_all2 typing args us \<longleftrightarrow> us = ts" for us
    using smap_infer_typing[OF kids, of args us] ts by auto
  have m: "map type_of args = map Some ts" using ts by (simp only: smap_types)
  have nth: "(\<exists>t'. (\<exists>ts'. t' # ts' = ts) \<and> P t') \<longleftrightarrow> 0 < length ts \<and> P (ts ! 0)"
    "(\<exists>t' u. (\<exists>ts'. t' # u # ts' = ts) \<and> Q t' u) \<longleftrightarrow> 1 < length ts \<and> Q (ts ! 0) (ts ! 1)" for P Q
    by (cases ts; auto simp: neq_Nil_conv; cases "tl ts"; auto)+
  show ?thesis
    by (auto simp: call_type_def require_arg_fits[OF m] require_all_fits[OF m] typing_Call all nth TIME_FUNCTIONS_def)
qed

lemma binary_type_typing:
  assumes "get a = Some ta" "get b = Some tb" "\<And>u. typing a u \<longleftrightarrow> u = ta" "\<And>u. typing b u \<longleftrightarrow> u = tb"
  shows "binary_type get op a b = Inr t \<longleftrightarrow> typing (Binary op a b s e) t"
proof -
  have expected: "requireType get a u = Inr r \<longleftrightarrow> fits ta u" "requireType get b u = Inr r \<longleftrightarrow> fits tb u" for u r
    by (simp_all add: requireType_fits assms)
  have strings: "get a = Some TString \<longleftrightarrow> ta = TString" "get b = Some TString \<longleftrightarrow> tb = TString"
    by (simp_all add: assms)
  have typed: "Ex (typing a)" "Ex (typing b)" using assms(3,4) by blast+
  consider "op = js ''&&'' \<or> op = js ''||''"
    | "op \<in> set (map js [''=='', ''!='', ''<'', ''<='', ''>'', ''>=''])"
    | "op = js ''+''"
    | "op \<notin> set (map js [''&&'', ''||'', ''=='', ''!='', ''<'', ''<='', ''>'', ''>='', ''+''])"
    by auto
  then show ?thesis
  proof cases
    case 1
    then show ?thesis by (elim disjE) (auto simp: typing_simps assms(3,4) binary_type_def expected)
  next
    case 2
    then have "op \<noteq> js ''&&''" "op \<noteq> js ''||''" "op \<noteq> js ''+''" by auto
    with 2 typed show ?thesis by (simp add: typing_simps assms(3,4) binary_type_def) blast
  next
    case 3
    then show ?thesis by (auto simp: typing_simps assms(3,4) binary_type_def expected strings fits_def)
  next
    case 4
    then show ?thesis by (auto simp: typing_simps assms(3,4) binary_type_def expected)
  qed
qed

lemma node_type_typing:
  assumes kids: "\<And>c t. c \<in> set (children n) \<Longrightarrow> infer c = Inr t \<longleftrightarrow> typing c t"
    and ts: "smap infer (children n) = Inr ts"
  shows "node_type type_of n = Inr t \<longleftrightarrow> typing n t"
proof -
  have child: "\<exists>t. infer c = Inr t \<and> (\<forall>u. typing c u \<longleftrightarrow> u = t)" if "c \<in> set (children n)" for c
    using smap_infer_lookup[OF ts that] kids[OF that] by (metis sum.inject(2))
  show ?thesis
  proof (cases n)
    case (Literal v i s e)
    then show ?thesis by (cases v) (auto simp: typing_simps)
  next
    case (Unary op a s e)
    then show ?thesis using child[of a] by (auto simp: typing_simps requireType_fits Let_def)
  next
    case (Conditional c a b s e)
    then show ?thesis using child[of c] child[of a] child[of b]
      by (auto simp: typing_simps requireType_fits)
  next
    case (Binary op a b s e)
    then obtain ta tb where "infer a = Inr ta" "infer b = Inr tb"
        "\<And>u. typing a u \<longleftrightarrow> u = ta" "\<And>u. typing b u \<longleftrightarrow> u = tb"
      using child[of a] child[of b] by auto
    then show ?thesis using binary_type_typing[of type_of a ta b tb op t s e] Binary by simp
  next
    case (Call f args s e)
    then show ?thesis using call_type_typing[of args ts f t s e] kids ts by simp
  qed (auto simp: typing_simps)
qed

lemma typing_child: "typing n t \<Longrightarrow> c \<in> set (children n) \<Longrightarrow> \<exists>u. typing c u"
  by (induction rule: typing.induct) (fastforce simp: in_set_conv_nth list_all2_conv_all_nth)+

theorem infer_typing: "infer n = Inr t \<longleftrightarrow> typing n t"
proof (induction n arbitrary: t rule: node_children_induct)
  case (node n)
  have "\<exists>ts. smap infer cs = Inr ts" if "typing n t" "set cs \<subseteq> set (children n)" for cs
    using that(2)
  proof (induction cs)
    case (Cons c cs)
    then show ?case using typing_child[OF that(1)] node by force
  qed simp
  then show ?case using node_type_typing[of n _ t] node by (auto simp: infer_Inr[of n])
qed

end
