(* ===== verification/BillingCompile.thy ===== *)
theory BillingCompile
  imports BillingSpans BillingCheck
begin

section \<open>Billing expressions: compilation and its cache\<close>

text \<open>
  Model of \<open>validateFixedPricingTree\<close> and \<open>compileBillingExpression\<close> in
  \<^verbatim>\<open>web/src/features/pricing/lib/billing-expression/parser.ts\<close>. \<open>compile_fresh\<close> is the
  body of the \<open>try\<close> statement with its \<open>catch\<close>; the module-level cache
  \<open>compiledCache\<close> is an explicit state, an association list in order of insertion.
\<close>

subsection \<open>Compiled expressions\<close>

record request_rule =
  rr_node :: node
  rr_condition :: node
  rr_multiplier :: jsnum
  rr_cond :: jsstring

record compiled =
  c_source :: jsstring
  c_version :: int
  c_ast :: node
  c_variables :: "jsstring list"
  c_functions :: "jsstring list"
  c_requestRules :: "request_rule list"

datatype compilation = Ready compiled | Failed failure

subsection \<open>Fixed prices\<close>

definition containsPricingMarker :: "node \<Rightarrow> bool res" where
  "containsPricingMarker n =
    sbind (expressionDependencies n) (\<lambda>d.
    Inr (js ''tier'' \<in> set (dep_functions d) \<or> js ''fixed'' \<in> set (dep_functions d)))"

definition fixed_price_message :: jsstring where
  "fixed_price_message = js ''Use tier(name, fixed(amount)) with a finite, non-negative numeric literal; combine pricing branches only with conditions and request multipliers.''"

definition fixed_price_error :: "node \<Rightarrow> thrown" where
  "fixed_price_error n = billing_error TypeError fixed_price_message (Some (nstart n))"

text \<open>\<open>rules.find((candidate) => candidate.node === factor)\<close>.\<close>

definition find_rule :: "request_rule list \<Rightarrow> node \<Rightarrow> request_rule option" where
  "find_rule rules factor = find (\<lambda>rule. rr_node rule = factor) rules"

text \<open>
  Whether \<open>factor\<close> is a request multiplier that may stand beside a price: a recorded rule
  with a non-negative multiplier whose condition contains no price.
\<close>

definition is_multiplier :: "request_rule list \<Rightarrow> node \<Rightarrow> bool res" where
  "is_multiplier rules factor =
    (case find_rule rules factor of
       None \<Rightarrow> Inr False
     | Some rule \<Rightarrow>
         if js_le (Fin 0) (rr_multiplier rule)
         then sbind (containsPricingMarker (rr_condition rule)) (\<lambda>marked. Inr (\<not> marked))
         else Inr False)"

text \<open>The last test of the function: a call \<open>tier(name, price)\<close> with an acceptable price.\<close>

definition fixed_amount_ok :: "node \<Rightarrow> bool" where
  "fixed_amount_ok amount =
    (case amount of
       Literal (VNum v) i s e \<Rightarrow> js_le (Fin 0) v \<and> is_finite (js_mul v (Fin 1000000))
     | _ \<Rightarrow> False)"

definition tier_price_ok :: "node \<Rightarrow> bool res" where
  "tier_price_ok price =
    (case price of
       Call g amounts s e \<Rightarrow>
         if g = js ''fixed'' then
           (case amounts of
              amount # _ \<Rightarrow> Inr (fixed_amount_ok amount)
            | [] \<Rightarrow> Inl (undefined_read ''kind''))
         else sbind (containsPricingMarker price) (\<lambda>marked. Inr (\<not> marked))
     | _ \<Rightarrow> sbind (containsPricingMarker price) (\<lambda>marked. Inr (\<not> marked)))"

definition tier_leaf_ok :: "node \<Rightarrow> bool res" where
  "tier_leaf_ok n =
    (case n of
       Call f args s e \<Rightarrow>
         if f \<noteq> js ''tier'' then Inr False
         else
           (case args of
              [] \<Rightarrow> Inl (undefined_read ''kind'')
            | label # rest \<Rightarrow>
                sbind (containsPricingMarker label) (\<lambda>marked.
                if marked then Inr False
                else
                  (case rest of
                     [] \<Rightarrow> Inl (undefined_read ''kind'')
                   | price # _ \<Rightarrow> tier_price_ok price)))
     | _ \<Rightarrow> Inr False)"

definition finish_fixed :: "node \<Rightarrow> unit res" where
  "finish_fixed n = sbind (tier_leaf_ok n) (\<lambda>ok. if ok then Inr () else Inl (fixed_price_error n))"

fun validateFixedPricingTree :: "request_rule list \<Rightarrow> node \<Rightarrow> unit res" where
  "validateFixedPricingTree rules (Conditional c a b s e) =
    sbind (containsPricingMarker c) (\<lambda>marked.
    if \<not> marked then
      sbind (validateFixedPricingTree rules a) (\<lambda>_. validateFixedPricingTree rules b)
    else finish_fixed (Conditional c a b s e))"
| "validateFixedPricingTree rules (Binary op a b s e) =
    (if op = js ''*'' then
       sbind (is_multiplier rules b) (\<lambda>right_rule.
       if right_rule then validateFixedPricingTree rules a
       else
         sbind (is_multiplier rules a) (\<lambda>left_rule.
         if left_rule then validateFixedPricingTree rules b
         else finish_fixed (Binary op a b s e)))
     else finish_fixed (Binary op a b s e))"
| "validateFixedPricingTree rules n = finish_fixed n"

subsection \<open>Compilation\<close>

text \<open>The visitor that records request rules.\<close>

definition request_probes :: "jsstring list" where
  "request_probes = map js [''param'', ''header''] @ TIME_FUNCTIONS"

fun is_one :: "node \<Rightarrow> bool" where
  "is_one (Literal (VNum v) i s e) = js_num_eq v (Fin 1)"
| "is_one _ = False"

fun rule_visitor :: "jsstring \<Rightarrow> node \<Rightarrow> request_rule list \<Rightarrow> request_rule list res" where
  "rule_visitor source (Conditional c (Literal (VNum m) i s1 e1) b s e) rules =
    (if \<not> is_one b then Inr rules
     else
       sbind (expressionDependencies c) (\<lambda>d.
       if \<not> list_ex (\<lambda>name. name \<in> set request_probes) (dep_functions d) then Inr rules
       else Inr (rules @ [\<lparr>rr_node = Conditional c (Literal (VNum m) i s1 e1) b s e,
         rr_condition = c, rr_multiplier = m, rr_cond = js_slice source (nstart c) (nend c)\<rparr>])))"
| "rule_visitor source n rules = Inr rules"

definition compile_try :: "jsstring \<Rightarrow> compiled res" where
  "compile_try source =
    sbind (parse_source source) (\<lambda>ast.
    sbind (checkExpressionTypes ast) (\<lambda>_.
    sbind (expressionDependencies ast) (\<lambda>dependencies.
    sbind (visitExpression ast (rule_visitor source) []) (\<lambda>requestRules.
    sbind (if js ''fixed'' \<in> set (dep_functions dependencies)
           then validateFixedPricingTree requestRules ast else Inr ()) (\<lambda>_.
    Inr \<lparr>c_source = source, c_version = 1, c_ast = ast,
      c_variables = dep_variables dependencies, c_functions = dep_functions dependencies,
      c_requestRules = requestRules\<rparr>)))))"

definition compile_fresh :: "jsstring \<Rightarrow> compilation" where
  "compile_fresh source =
    (case compile_try source of
       Inr c \<Rightarrow> Ready c
     | Inl err \<Rightarrow> Failed (expressionFailure err))"

type_synonym cache = "(jsstring \<times> compilation) list"

definition compileBillingExpression :: "jsstring \<Rightarrow> cache \<Rightarrow> compilation \<times> cache" where
  "compileBillingExpression source compiledCache =
    (case map_of compiledCache source of
       Some cached \<Rightarrow> (cached, compiledCache)
     | None \<Rightarrow>
         let result = compile_fresh source;
             evicted = (case compiledCache of
                 [] \<Rightarrow> []
               | (oldest, _) # rest \<Rightarrow>
                   if int (length compiledCache) \<ge> 128 then rest else compiledCache)
         in (result, map_set source result evicted))"

subsection \<open>What a ready expression satisfies\<close>

lemma compile_fresh_Ready:
  "compile_fresh source = Ready c \<longleftrightarrow> compile_try source = Inr c"
  by (auto simp: compile_fresh_def split: sum.splits)

lemma compile_try_parts:
  assumes "compile_try source = Inr c"
  shows "parse_source source = Inr (c_ast c)" "checkExpressionTypes (c_ast c) = Inr ()"
    "c_source c = source" "height (c_ast c) \<le> 256"
    "visitExpression (c_ast c) (rule_visitor source) [] = Inr (c_requestRules c)"
    "set (c_functions c) = called (postorder (c_ast c))"
    "set (c_variables c) = used (postorder (c_ast c))"
    "js ''fixed'' \<in> set (c_functions c) \<Longrightarrow>
       validateFixedPricingTree (c_requestRules c) (c_ast c) = Inr ()"
proof -
  from assms obtain ast deps rules where
      p: "parse_source source = Inr ast" and t: "checkExpressionTypes ast = Inr ()"
    and d: "expressionDependencies ast = Inr deps"
    and v: "visitExpression ast (rule_visitor source) [] = Inr rules"
    and f: "(if js ''fixed'' \<in> set (dep_functions deps) then validateFixedPricingTree rules ast
             else Inr ()) = Inr ()"
    and c: "c = \<lparr>c_source = source, c_version = 1, c_ast = ast, c_variables = dep_variables deps,
             c_functions = dep_functions deps, c_requestRules = rules\<rparr>"
    unfolding compile_try_def by auto
  have h: "height ast \<le> 256" by (rule check_height[OF t])
  show "parse_source source = Inr (c_ast c)" "checkExpressionTypes (c_ast c) = Inr ()"
    "c_source c = source" "height (c_ast c) \<le> 256"
    "visitExpression (c_ast c) (rule_visitor source) [] = Inr (c_requestRules c)"
    using p t h v c by simp_all
  from expressionDependencies_ok[OF h] d
  show "set (c_functions c) = called (postorder (c_ast c))"
    "set (c_variables c) = used (postorder (c_ast c))" using c by auto
  show "validateFixedPricingTree (c_requestRules c) (c_ast c) = Inr ()"
    if "js ''fixed'' \<in> set (c_functions c)" using that f c by simp
qed

lemma compile_try_ast:
  assumes "compile_try source = Inr c"
  shows "spans_ok (c_ast c)" "wf_node (c_ast c)" "nend (c_ast c) \<le> length source"
    "\<exists>t. infer (c_ast c) = Inr t"
  using parse_source_ok[OF compile_try_parts(1)[OF assms]]
    check_ok_infer[OF compile_try_parts(2)[OF assms]] by auto

subsection \<open>Request rules\<close>

text \<open>A recorded rule is a conditional of the tree with a numeric multiplier and fallback 1.\<close>

definition rule_ok :: "jsstring \<Rightarrow> node list \<Rightarrow> request_rule \<Rightarrow> bool" where
  "rule_ok source nodes r \<longleftrightarrow> rr_node r \<in> set nodes
     \<and> (\<exists>i s1 e1 b s e. rr_node r =
          Conditional (rr_condition r) (Literal (VNum (rr_multiplier r)) i s1 e1) b s e \<and> is_one b)
     \<and> rr_cond r = js_slice source (nstart (rr_condition r)) (nend (rr_condition r))"

lemma rule_visitor_cases:
  assumes "rule_visitor source n rules = Inr rules'"
  shows "rules' = rules \<or> (\<exists>r. rules' = rules @ [r] \<and> rr_node r = n \<and> rule_ok source [n] r)"
  using assms
  by (cases "(source, n, rules)" rule: rule_visitor.cases)
     (auto simp: rule_ok_def split: if_splits)

lemma rules_of_nodes:
  assumes "sfold (rule_visitor source) nodes rules = Inr rules'"
  shows "\<exists>new. rules' = rules @ new \<and> (\<forall>r \<in> set new. rule_ok source nodes r)
     \<and> (distinct nodes \<longrightarrow> distinct (map rr_node new))"
  using assms
proof (induction nodes arbitrary: rules)
  case (Cons n nodes)
  then obtain rules1 where v: "rule_visitor source n rules = Inr rules1"
    and f: "sfold (rule_visitor source) nodes rules1 = Inr rules'" by auto
  obtain new where new: "rules' = rules1 @ new" "\<forall>r \<in> set new. rule_ok source nodes r"
      "distinct nodes \<longrightarrow> distinct (map rr_node new)"
    using Cons.IH[OF f] by blast
  have old: "rule_ok source (n # nodes) r" if "r \<in> set new" for r
    using new(2) that by (auto simp: rule_ok_def)
  from rule_visitor_cases[OF v] show ?case
  proof
    assume "rules1 = rules"
    then show ?thesis using new old by auto
  next
    assume "\<exists>r. rules1 = rules @ [r] \<and> rr_node r = n \<and> rule_ok source [n] r"
    then obtain r where r: "rules1 = rules @ [r]" "rr_node r = n" "rule_ok source [n] r" by blast
    then have "rule_ok source (n # nodes) r" by (auto simp: rule_ok_def)
    moreover have "n \<notin> set (map rr_node new)" if "n \<notin> set nodes"
      using new(2) that by (auto simp: rule_ok_def)
    ultimately show ?thesis
      using new old r by (intro exI[of _ "r # new"]) auto
  qed
qed simp

lemma compiled_rules:
  assumes "compile_try source = Inr c"
  shows "\<forall>r \<in> set (c_requestRules c). rule_ok source (postorder (c_ast c)) r"
    "distinct (map rr_node (c_requestRules c))"
  using rules_of_nodes[of source "postorder (c_ast c)" "[]" "c_requestRules c"]
    compile_try_parts(4,5)[OF assms] distinct_postorder[OF compile_try_ast(1)[OF assms]]
  by (auto simp: visit_simps)

subsection \<open>The cache\<close>

text \<open>
  The interface of a bounded first-in first-out memo table over a function \<open>compute\<close>, and
  what its users may rely on: answers are those of \<open>compute\<close>, and the table stays bounded.
\<close>

inductive table_reachable :: "('k \<Rightarrow> 'c \<Rightarrow> 'v \<times> 'c) \<Rightarrow> 'c \<Rightarrow> 'c \<Rightarrow> bool"
  for step :: "'k \<Rightarrow> 'c \<Rightarrow> 'v \<times> 'c" and init :: 'c where
  start: "table_reachable step init init"
| call: "table_reachable step init c \<Longrightarrow> table_reachable step init (snd (step k c))"

locale memo_table =
  fixes compute :: "'k \<Rightarrow> 'v"
    and step :: "'k \<Rightarrow> ('k \<times> 'v) list \<Rightarrow> 'v \<times> ('k \<times> 'v) list"
    and capacity :: nat
  assumes capacity_pos: "0 < capacity"
    and hit: "map_of c k = Some v \<Longrightarrow> step k c = (v, c)"
    and miss: "map_of c k = None \<Longrightarrow>
      step k c = (compute k, (if capacity \<le> length c then tl c else c) @ [(k, compute k)])"
begin

definition sound_table :: "('k \<times> 'v) list \<Rightarrow> bool" where
  "sound_table c \<longleftrightarrow> (\<forall>(k, v) \<in> set c. v = compute k) \<and> length c \<le> capacity \<and> distinct (map fst c)"

lemma sound_answer: "sound_table c \<Longrightarrow> fst (step k c) = compute k"
  by (cases "map_of c k") (auto simp: hit miss sound_table_def dest!: map_of_SomeD)

lemma sound_step: "sound_table c \<Longrightarrow> sound_table (snd (step k c))"
proof (cases "map_of c k")
  case None
  assume c: "sound_table c"
  let ?e = "if capacity \<le> length c then tl c else c"
  have "set ?e \<subseteq> set c" by (cases c) auto
  moreover have "distinct (map fst ?e)" "length ?e < capacity"
    using c capacity_pos by (auto simp: sound_table_def map_tl distinct_tl)
  moreover have "k \<notin> fst ` set c" using None by (simp add: map_of_eq_None_iff)
  ultimately show ?thesis
    using c None by (auto simp: miss sound_table_def)
qed (simp add: hit)

lemma reachable_sound: "table_reachable step [] c \<Longrightarrow> sound_table c"
  by (induction rule: table_reachable.induct) (auto simp: sound_step, simp add: sound_table_def)

lemma reachable_answer: "table_reachable step [] c \<Longrightarrow> fst (step k c) = compute k"
  by (rule sound_answer[OF reachable_sound])

lemma reachable_bounded: "table_reachable step [] c \<Longrightarrow> length c \<le> capacity \<and> distinct (map fst c)"
  using reachable_sound by (auto simp: sound_table_def)

text \<open>A second call with the same key is a hit.\<close>

lemma repeat_hit: "step k (snd (step k c)) = (fst (step k c), snd (step k c))"
proof (cases "map_of c k")
  case None
  let ?e = "if capacity \<le> length c then tl c else c"
  have "map_of ?e k = None"
    using None by (cases c) (auto split: if_splits)
  then have "map_of (?e @ [(k, compute k)]) k = Some (compute k)"
    by (simp add: map_add_def)
  then show ?thesis using None by (simp add: miss hit)
qed (simp add: hit)

end

interpretation cc: memo_table compile_fresh compileBillingExpression 128
proof
  fix c :: cache and k v
  show "map_of c k = Some v \<Longrightarrow> compileBillingExpression k c = (v, c)"
    by (simp add: compileBillingExpression_def)
  assume none: "map_of c k = None"
  have "map_set k (compile_fresh k) e = e @ [(k, compile_fresh k)]" if "set e \<subseteq> set c" for e
    using none that by (intro map_set_new) (auto simp: map_of_eq_None_iff)
  moreover have "set (tl c) \<subseteq> set c" by (cases c) auto
  ultimately show "compileBillingExpression k c =
      (compile_fresh k, (if 128 \<le> length c then tl c else c) @ [(k, compile_fresh k)])"
    using none by (cases c) (auto simp: compileBillingExpression_def Let_def)
qed simp

end
