(* ===== verification/BillingRuntime.thy ===== *)
theory BillingRuntime
  imports BillingCompile
begin

section \<open>Billing expressions: the interpreter\<close>

text \<open>
  Model of \<^verbatim>\<open>web/src/features/pricing/lib/billing-expression/runtime.ts\<close>: the path reader
  \<open>readRequestPath\<close>, \<open>billingString\<close>, \<open>timeInBillingZone\<close>, the class
  \<open>BillingRuntime\<close> and the two entry points \<open>evaluateBillingCondition\<close> and
  \<open>evaluateBillingExpression\<close>.

  The mutable fields of \<open>BillingRuntime\<close> are the record \<open>runtime\<close>, threaded through the
  evaluation; its read-only fields are the record \<open>environment\<close>. What the engine supplies
  from its own tables is the parameter \<open>host\<close>: the clock, the Unicode case mapping of
  \<open>toLowerCase\<close>, and the time zone data behind \<open>Intl.DateTimeFormat\<close> (no formatter for
  an unknown zone, otherwise the resolved zone name and the parts of a formatted instant). A date is
  its time value in milliseconds, \<open>None\<close> for an invalid date.
\<close>

subsection \<open>Host, context and results\<close>

record host =
  host_clock :: "int option"
  host_toLowerCase :: "jsstring \<Rightarrow> jsstring"
  host_DateTimeFormat :: "jsstring \<Rightarrow> (jsstring \<times> (int \<Rightarrow> (jsstring \<times> jsstring) list)) option"

record request =
  req_body :: jsval
  req_headers :: "(jsstring \<times> jsval) list option"

record simulation_context =
  ctx_tokens :: "(jsstring \<times> jsval) list option"
  ctx_request :: "request option"
  ctx_usage :: "(jsstring \<times> jsval) list option"
  ctx_now :: "int option option"
  ctx_context :: "(jsstring \<times> jsval) list option"

record rule_trace =
  tr_cond :: jsstring
  tr_multiplier :: jsnum
  tr_matched :: bool

datatype billing_unit = TokenUnit | RequestUnit

record success =
  s_cost :: jsnum
  s_billingUnit :: billing_unit
  s_fixedPrice :: "jsnum option"
  s_matchedTier :: jsstring
  s_requestRules :: "rule_trace list"

datatype evaluation = Evaluated success | EvaluationFailed failure

subsection \<open>Request paths\<close>

definition path_unsupported :: "jsstring \<Rightarrow> thrown" where
  "path_unsupported path = billing_error Unsupported path None"

definition path_specials :: jsstring where
  "path_specials = js ''*?[]()|@!''"

text \<open>The loop that splits a path at its unescaped dots.\<close>

fun split_path :: "jsstring \<Rightarrow> jsstring \<Rightarrow> jsstring \<Rightarrow> jsstring list \<Rightarrow> jsstring list res" where
  "split_path path [] part parts = Inr (parts @ [part])"
| "split_path path (char # rest) part parts =
    (if char = BSL then
       (case rest of
          [] \<Rightarrow> Inl (path_unsupported path)
        | escaped # rest2 \<Rightarrow> split_path path rest2 (part @ [escaped]) parts)
     else if char = DOT then split_path path rest [] (parts @ [part])
     else if char \<in> set path_specials then Inl (path_unsupported path)
     else split_path path rest (part @ [char]) parts)"

text \<open>\<open>value[index]\<close> for the numeric index \<open>Number(key)\<close>, \<open>undefined\<close> out of range.\<close>

definition array_at :: "jsval list \<Rightarrow> jsstring \<Rightarrow> jsval" where
  "array_at xs key =
    (let index = js_Number key in
     if is_safe_integer index \<and> \<lfloor>num_val index\<rfloor> < int (length xs)
     then xs ! nat \<lfloor>num_val index\<rfloor> else VUndefined)"

fun walk_path :: "jsstring \<Rightarrow> jsval \<Rightarrow> jsstring list \<Rightarrow> jsval res" where
  "walk_path path v [] = Inr (if nullish v then VNull else v)"
| "walk_path path (VArr xs) (key # keys) =
    (if key = js ''#'' \<and> keys = [] then Inr (VNum (js_int (int (length xs))))
     else if key = js ''#'' then Inl (path_unsupported path)
     else if key = [] \<or> \<not> list_all is_digit key then Inr VNull
     else walk_path path (array_at xs key) keys)"
| "walk_path path (VObj kvs) (key # keys) =
    (case map_of kvs key of
       Some v \<Rightarrow> walk_path path v keys
     | None \<Rightarrow> Inr VNull)"
| "walk_path path v (key # keys) = Inr VNull"

definition readRequestPath :: "jsval \<Rightarrow> jsstring \<Rightarrow> jsval res" where
  "readRequestPath body rawPath =
    (let path = js_trim rawPath in
     if path = [] then Inr VNull
     else sbind (split_path path path [] []) (walk_path path body))"

subsection \<open>Strings of request values\<close>

definition pad2 :: "jsstring \<Rightarrow> jsstring" where
  "pad2 s = replicate (2 - length s) 48 @ s"

definition number_billingString :: "jsnum \<Rightarrow> jsstring res" where
  "number_billingString v =
    (if \<not> is_finite v then Inl (billing_error NumberError (js ''request number'') None)
     else if v = NegZero then Inr (js ''-0'')
     else
       let (mantissa, ex) = exponential_parts v in
       if 6 \<le> ex \<or> ex < - 4
       then Inr (mantissa @ [101, if ex < 0 then 45 else 43] @ pad2 (show_nat \<bar>ex\<bar>))
       else Inr (js_String_num v))"

lemma object_value_size [termination_simp]:
  "(k, v) \<in> set kvs \<Longrightarrow> size v < Suc (size_list (size_prod (\<lambda>_. 0) size) kvs)"
  by (induction kvs) auto

lemma array_value_size [termination_simp]:
  "v \<in> set xs \<Longrightarrow> size v < Suc (size_list size xs)"
  by (induction xs) auto

function (sequential) billingString :: "jsval \<Rightarrow> int \<Rightarrow> jsstring res" where
  "billingString v level =
    (if level > 128 then Inl (billing_error Limit (js ''request value depth'') None)
     else case v of
       VUndefined \<Rightarrow> Inr (js ''<nil>'')
     | VNull \<Rightarrow> Inr (js ''<nil>'')
     | VArr xs \<Rightarrow>
         sbind (smap (\<lambda>item. billingString item (level + 1)) xs) (\<lambda>items.
         Inr (js ''['' @ js_join items (js '' '') @ js '']''))
     | VObj kvs \<Rightarrow>
         sbind (smap (\<lambda>(key, item).
                  sbind (billingString item (level + 1)) (\<lambda>text. Inr (key @ js '':'' @ text)))
                (sort_key fst kvs)) (\<lambda>items.
         Inr (js ''map['' @ js_join items (js '' '') @ js '']''))
     | VNum x \<Rightarrow> number_billingString x
     | VStr s \<Rightarrow> Inr s
     | VBool b \<Rightarrow> Inr (if b then js ''true'' else js ''false''))"
  by pat_completeness auto
termination
  by (relation "measure (\<lambda>(v, d). size v)") (auto simp: array_value_size object_value_size)

declare billingString.simps [simp del]

subsection \<open>Time\<close>

record time_values =
  t_hour :: jsnum
  t_minute :: jsnum
  t_weekday :: jsnum
  t_month :: jsnum
  t_day :: jsnum

text \<open>Month and day of the proleptic Gregorian calendar for a number of days since 1970-01-01.\<close>

definition civil_month_day :: "int \<Rightarrow> int \<times> int" where
  "civil_month_day days =
    (let z = days + 719468;
         era = z div 146097;
         doe = z - era * 146097;
         yoe = (doe - doe div 1460 + doe div 36524 - doe div 146096) div 365;
         doy = doe - (365 * yoe + yoe div 4 - yoe div 100);
         mp = (5 * doy + 2) div 153
     in (if mp < 10 then mp + 3 else mp - 9, doy - (153 * mp + 2) div 5 + 1))"

definition utc_values :: "int \<Rightarrow> time_values" where
  "utc_values ms =
    (let days = ms div 86400000; (month, day) = civil_month_day days in
     \<lparr>t_hour = js_int ((ms div 3600000) mod 24), t_minute = js_int ((ms div 60000) mod 60),
      t_weekday = js_int ((days + 4) mod 7), t_month = js_int month, t_day = js_int day\<rparr>)"

fun split_at_unit :: "unit16 \<Rightarrow> jsstring \<Rightarrow> jsstring list" where
  "split_at_unit d [] = [[]]"
| "split_at_unit d (c # s) =
    (if c = d then [] # split_at_unit d s
     else case split_at_unit d s of p # ps \<Rightarrow> (c # p) # ps | [] \<Rightarrow> [[c]])"

definition zone_segment :: "jsstring \<Rightarrow> bool" where
  "zone_segment s = (case s of [] \<Rightarrow> False
     | c # t \<Rightarrow> is_upper c \<and> list_all (\<lambda>x. is_word_char x \<or> x = 43 \<or> x = 45) t)"

text \<open>The regular expression \<open>^[A-Z][A-Za-z0-9_+-]*(?:\/[A-Z][A-Za-z0-9_+-]*)*$\<close>.\<close>

definition zone_syntax :: "jsstring \<Rightarrow> bool" where
  "zone_syntax s = list_all zone_segment (split_at_unit 47 s)"

definition part_number :: "(jsstring \<times> jsstring) list \<Rightarrow> string \<Rightarrow> jsnum" where
  "part_number parts key =
     (case map_of (rev parts) (js key) of Some v \<Rightarrow> js_Number v | None \<Rightarrow> NaN)"

definition weekday_names :: "jsstring list" where
  "weekday_names = map js [''Sun'', ''Mon'', ''Tue'', ''Wed'', ''Thu'', ''Fri'', ''Sat'']"

fun index_of :: "'a \<Rightarrow> 'a list \<Rightarrow> int \<Rightarrow> int" where
  "index_of x [] i = - 1"
| "index_of x (y # ys) i = (if y = x then i else index_of x ys (i + 1))"

text \<open>The formatter of the \<open>try\<close> block, \<open>None\<close> where the block throws.\<close>

definition zone_formatter :: "host \<Rightarrow> jsstring \<Rightarrow> (int \<Rightarrow> (jsstring \<times> jsstring) list) option" where
  "zone_formatter h timezone =
    (if \<not> zone_syntax timezone then None
     else
       case host_DateTimeFormat h timezone of
         None \<Rightarrow> None
       | Some (resolved, format) \<Rightarrow>
           if host_toLowerCase h resolved = host_toLowerCase h timezone \<and> resolved \<noteq> timezone
           then None else Some format)"

definition timeInBillingZone :: "host \<Rightarrow> int option \<Rightarrow> jsstring \<Rightarrow> time_values res" where
  "timeInBillingZone h now zone =
    (case now of
       None \<Rightarrow> Inl (billing_error TypeError (js ''simulation time'') None)
     | Some ms \<Rightarrow>
         let timezone = (if js_trim zone = [] then js ''UTC'' else js_trim zone) in
         if timezone = js ''Local''
         then Inl (billing_error Unsupported (js ''server Local timezone'') None)
         else
           case zone_formatter h timezone of
             None \<Rightarrow> Inr (utc_values ms)
           | Some format \<Rightarrow>
               let parts = format ms in
               Inr \<lparr>t_hour = part_number parts ''hour'', t_minute = part_number parts ''minute'',
                 t_weekday = (case map_of (rev parts) (js ''weekday'') of
                    Some name \<Rightarrow> js_int (index_of name weekday_names 0) | None \<Rightarrow> js_int (- 1)),
                 t_month = part_number parts ''month'', t_day = part_number parts ''day''\<rparr>)"

definition time_value :: "time_values \<Rightarrow> jsstring \<Rightarrow> jsnum" where
  "time_value v name =
    (if name = js ''hour'' then t_hour v else if name = js ''minute'' then t_minute v
     else if name = js ''weekday'' then t_weekday v else if name = js ''month'' then t_month v
     else t_day v)"

subsection \<open>The runtime object\<close>

text \<open>The mutable fields of \<open>BillingRuntime\<close>, and its read-only ones.\<close>

record runtime =
  r_requestRules :: "rule_trace list"
  r_matchedTier :: jsstring
  r_billingUnit :: billing_unit
  r_fixedPrice :: "jsnum option"
  r_timeValues :: "(jsstring \<times> time_values) list"
  r_depth :: int

record environment =
  e_compiled :: compiled
  e_context :: simulation_context
  e_now :: "int option"
  e_headers :: "(jsstring \<times> jsstring) list"
  e_host :: host

type_synonym rtvalue = "jsval \<times> bool"
type_synonym 'a eval = "runtime \<Rightarrow> ('a \<times> runtime) res"

definition add_header ::
  "host \<Rightarrow> jsstring \<times> jsval \<Rightarrow> (jsstring \<times> jsstring) list \<Rightarrow> (jsstring \<times> jsstring) list res" where
  "add_header h entry headers =
    (case entry of
       (name, VStr rawValue) \<Rightarrow>
         let key = host_toLowerCase h (js_trim name); v = js_trim rawValue
         in Inr (if key \<noteq> [] \<and> v \<noteq> [] then map_set key v headers else headers)
     | _ \<Rightarrow> Inl (billing_error TypeError (js ''request header'') None))"

definition request_headers :: "simulation_context \<Rightarrow> (jsstring \<times> jsval) list" where
  "request_headers ctx =
    (case ctx_request ctx of None \<Rightarrow> []
     | Some r \<Rightarrow> (case req_headers r of None \<Rightarrow> [] | Some hs \<Rightarrow> hs))"

definition new_BillingRuntime ::
  "host \<Rightarrow> compiled \<Rightarrow> simulation_context \<Rightarrow> (environment \<times> runtime) res" where
  "new_BillingRuntime h compiled ctx =
    sbind (sfold (add_header h) (request_headers ctx) []) (\<lambda>headers.
    Inr (\<lparr>e_compiled = compiled, e_context = ctx,
           e_now = (case ctx_now ctx of Some d \<Rightarrow> d | None \<Rightarrow> host_clock h),
           e_headers = headers, e_host = h\<rparr>,
         \<lparr>r_requestRules = map (\<lambda>rule. \<lparr>tr_cond = rr_cond rule,
             tr_multiplier = rr_multiplier rule, tr_matched = False\<rparr>) (c_requestRules compiled),
          r_matchedTier = [], r_billingUnit = TokenUnit, r_fixedPrice = None,
          r_timeValues = [], r_depth = 0\<rparr>))"

subsection \<open>Typed reads of an operand\<close>

definition rt_boolean :: "(node \<Rightarrow> rtvalue eval) \<Rightarrow> node \<Rightarrow> bool eval" where
  "rt_boolean evaluate n rt =
    sbind (evaluate n rt) (\<lambda>((v, _), rt1).
    case v of VBool b \<Rightarrow> Inr (b, rt1)
    | _ \<Rightarrow> Inl (billing_error TypeError (js ''boolean condition'') (Some (nstart n))))"

definition rt_numeric :: "(node \<Rightarrow> rtvalue eval) \<Rightarrow> node \<Rightarrow> (jsnum \<times> bool) eval" where
  "rt_numeric evaluate n rt =
    sbind (evaluate n rt) (\<lambda>((v, integer), rt1).
    case v of VNum x \<Rightarrow> Inr ((x, integer), rt1)
    | _ \<Rightarrow> Inl (billing_error TypeError (js ''numeric operand'') (Some (nstart n))))"

definition rt_string :: "(node \<Rightarrow> rtvalue eval) \<Rightarrow> node \<Rightarrow> jsstring eval" where
  "rt_string evaluate n rt =
    sbind (evaluate n rt) (\<lambda>((v, _), rt1).
    case v of VStr s \<Rightarrow> Inr (s, rt1)
    | _ \<Rightarrow> Inl (billing_error TypeError (js ''string argument'') (Some (nstart n))))"

text \<open>A method applied to \<open>args[i]\<close>; a missing argument makes \<open>node.kind\<close> throw.\<close>

definition with_arg :: "node list \<Rightarrow> nat \<Rightarrow> (node \<Rightarrow> 'a eval) \<Rightarrow> 'a eval" where
  "with_arg args i f rt =
    (if i < length args then f (args ! i) rt else Inl (undefined_read ''kind''))"

subsection \<open>Operators\<close>

definition comparison :: "jsstring \<Rightarrow> bool \<Rightarrow> bool \<Rightarrow> bool \<Rightarrow> bool \<Rightarrow> bool option" where
  "comparison op lt le gt ge =
    (if op = js ''<'' then Some lt else if op = js ''<='' then Some le
     else if op = js ''>'' then Some gt else if op = js ''>='' then Some ge else None)"

text \<open>The relational operators on two numbers or two strings, \<open>None\<close> when the switch falls through.\<close>

definition relational :: "jsstring \<Rightarrow> jsval \<Rightarrow> jsval \<Rightarrow> bool option" where
  "relational op a b =
    (case (a, b) of
       (VNum x, VNum y) \<Rightarrow> comparison op (js_lt x y) (js_le x y) (js_lt y x) (js_le y x)
     | (VStr s, VStr t) \<Rightarrow> comparison op (s < t) (s \<le> t) (t < s) (t \<le> s)
     | _ \<Rightarrow> None)"

definition arithmetic :: "jsstring \<Rightarrow> jsnum \<Rightarrow> jsnum \<Rightarrow> bool \<Rightarrow> nat \<Rightarrow> rtvalue res" where
  "arithmetic op a b integer pos =
    (if op = js ''+'' then Inr (VNum (js_add a b), integer)
     else if op = js ''-'' then Inr (VNum (js_sub a b), integer)
     else if op = js ''*'' then Inr (VNum (js_mul a b), integer)
     else if op = js ''/'' then Inr (VNum (js_div a b), False)
     else if op = js ''%'' then
       if \<not> integer then Inl (billing_error TypeError (js ''integer modulo'') (Some pos))
       else Inr (VNum (js_rem a b), True)
     else Inl (billing_error Unsupported op (Some pos)))"

text \<open>\<open>binary\<close> after both operands have been evaluated.\<close>

definition binary_values :: "jsstring \<Rightarrow> rtvalue \<Rightarrow> rtvalue \<Rightarrow> nat \<Rightarrow> rtvalue res" where
  "binary_values op l r pos =
    (case (l, r) of ((a, li), (b, ri)) \<Rightarrow>
       if op = js ''=='' \<or> op = js ''!='' then
         if a \<noteq> VNull \<and> b \<noteq> VNull \<and> (is_container a \<or> is_container b)
         then Inl (billing_error Unsupported (js ''object comparison'') (Some pos))
         else Inr (VBool (if op = js ''=='' then strict_eq a b else \<not> strict_eq a b), False)
       else
         (case (a, b) of
            (VStr s, VStr t) \<Rightarrow>
              if op = js ''+'' then Inr (VStr (s @ t), False)
              else (case relational op a b of Some v \<Rightarrow> Inr (VBool v, False)
                    | None \<Rightarrow> Inl (billing_error TypeError op (Some pos)))
          | (VNum x, VNum y) \<Rightarrow>
              (case relational op a b of Some v \<Rightarrow> Inr (VBool v, False)
               | None \<Rightarrow> arithmetic op x y (li \<and> ri) pos)
          | _ \<Rightarrow> Inl (billing_error TypeError op (Some pos))))"

definition rt_binary :: "(node \<Rightarrow> rtvalue eval) \<Rightarrow> jsstring \<Rightarrow> node \<Rightarrow> node \<Rightarrow> nat \<Rightarrow> rtvalue eval" where
  "rt_binary evaluate op l r pos rt =
    (if op = js ''&&'' then
       sbind (rt_boolean evaluate l rt) (\<lambda>(b, rt1).
       if b then sbind (rt_boolean evaluate r rt1) (\<lambda>(b2, rt2). Inr ((VBool b2, False), rt2))
       else Inr ((VBool False, False), rt1))
     else if op = js ''||'' then
       sbind (rt_boolean evaluate l rt) (\<lambda>(b, rt1).
       if b then Inr ((VBool True, False), rt1)
       else sbind (rt_boolean evaluate r rt1) (\<lambda>(b2, rt2). Inr ((VBool b2, False), rt2)))
     else
       sbind (evaluate l rt) (\<lambda>(a, rt1).
       sbind (evaluate r rt1) (\<lambda>(b, rt2).
       sbind (binary_values op a b pos) (\<lambda>v. Inr (v, rt2)))))"

subsection \<open>Calls\<close>

definition numeric_arg :: "(node \<Rightarrow> rtvalue eval) \<Rightarrow> node list \<Rightarrow> nat \<Rightarrow> jsnum eval" where
  "numeric_arg evaluate args i rt =
    sbind (with_arg args i (rt_numeric evaluate) rt) (\<lambda>((x, _), rt1). Inr (x, rt1))"

definition string_arg :: "(node \<Rightarrow> rtvalue eval) \<Rightarrow> node list \<Rightarrow> nat \<Rightarrow> jsstring eval" where
  "string_arg evaluate args i = with_arg args i (rt_string evaluate)"

definition call_fixed :: "(node \<Rightarrow> rtvalue eval) \<Rightarrow> node list \<Rightarrow> rtvalue eval" where
  "call_fixed evaluate args rt =
    sbind (numeric_arg evaluate args 0 rt) (\<lambda>(amount, rt1).
    Inr ((VNum (js_mul amount (Fin 1000000)), False),
         rt1\<lparr>r_billingUnit := RequestUnit, r_fixedPrice := Some amount\<rparr>))"

definition call_tier :: "(node \<Rightarrow> rtvalue eval) \<Rightarrow> node list \<Rightarrow> rtvalue eval" where
  "call_tier evaluate args rt =
    sbind (string_arg evaluate args 0 rt) (\<lambda>(name, rt1).
    sbind (numeric_arg evaluate args 1 rt1) (\<lambda>(v, rt2).
    Inr ((VNum v, False), rt2\<lparr>r_matchedTier := name\<rparr>)))"

definition missing_context :: "jsstring \<Rightarrow> nat \<Rightarrow> thrown" where
  "missing_context what pos = billing_error MissingContext what (Some pos)"

definition call_param ::
  "environment \<Rightarrow> (node \<Rightarrow> rtvalue eval) \<Rightarrow> node list \<Rightarrow> nat \<Rightarrow> rtvalue eval" where
  "call_param env evaluate args pos rt =
    sbind (string_arg evaluate args 0 rt) (\<lambda>(path, rt1).
    case ctx_request (e_context env) of
      None \<Rightarrow> Inl (missing_context (js ''request body'') pos)
    | Some r \<Rightarrow> sbind (readRequestPath (req_body r) path) (\<lambda>v. Inr ((v, False), rt1)))"

definition call_header ::
  "environment \<Rightarrow> (node \<Rightarrow> rtvalue eval) \<Rightarrow> node list \<Rightarrow> nat \<Rightarrow> rtvalue eval" where
  "call_header env evaluate args pos rt =
    sbind (string_arg evaluate args 0 rt) (\<lambda>(raw, rt1).
    let name = host_toLowerCase (e_host env) (js_trim raw) in
    case ctx_request (e_context env) of
      None \<Rightarrow> Inl (missing_context (js ''request headers'') pos)
    | Some r \<Rightarrow>
        Inr ((VStr (case map_of (e_headers env) name of Some v \<Rightarrow> v | None \<Rightarrow> []), False), rt1))"

definition call_usage ::
  "environment \<Rightarrow> (node \<Rightarrow> rtvalue eval) \<Rightarrow> node list \<Rightarrow> nat \<Rightarrow> rtvalue eval" where
  "call_usage env evaluate args pos rt =
    sbind (string_arg evaluate args 0 rt) (\<lambda>(name, rt1).
    case ctx_usage (e_context env) of
      None \<Rightarrow> Inl (missing_context (js ''task usage'') pos)
    | Some usage \<Rightarrow>
        Inr ((case map_of usage name of Some v \<Rightarrow> v | None \<Rightarrow> VNull, False), rt1))"

definition call_has :: "(node \<Rightarrow> rtvalue eval) \<Rightarrow> node list \<Rightarrow> rtvalue eval" where
  "call_has evaluate args rt =
    sbind (with_arg args 0 evaluate rt) (\<lambda>((source, _), rt1).
    sbind (string_arg evaluate args 1 rt1) (\<lambda>(substring, rt2).
    if nullish source \<or> substring = [] then Inr ((VBool False, False), rt2)
    else sbind (billingString source 0) (\<lambda>text.
         Inr ((VBool (js_includes text substring), False), rt2))))"

definition call_math1 ::
  "(jsnum \<Rightarrow> jsnum) \<Rightarrow> (node \<Rightarrow> rtvalue eval) \<Rightarrow> node list \<Rightarrow> rtvalue eval" where
  "call_math1 f evaluate args rt =
    sbind (numeric_arg evaluate args 0 rt) (\<lambda>(x, rt1). Inr ((VNum (f x), False), rt1))"

definition call_math2 ::
  "(jsnum \<Rightarrow> jsnum \<Rightarrow> jsnum) \<Rightarrow> (node \<Rightarrow> rtvalue eval) \<Rightarrow> node list \<Rightarrow> rtvalue eval" where
  "call_math2 f evaluate args rt =
    sbind (numeric_arg evaluate args 0 rt) (\<lambda>(x, rt1).
    sbind (numeric_arg evaluate args 1 rt1) (\<lambda>(y, rt2). Inr ((VNum (f x y), False), rt2)))"

definition call_time ::
  "environment \<Rightarrow> (node \<Rightarrow> rtvalue eval) \<Rightarrow> jsstring \<Rightarrow> node list \<Rightarrow> rtvalue eval" where
  "call_time env evaluate name args rt =
    sbind (string_arg evaluate args 0 rt) (\<lambda>(raw, rt1).
    let zone = js_trim raw in
    case map_of (r_timeValues rt1) zone of
      Some values \<Rightarrow> Inr ((VNum (time_value values name), True), rt1)
    | None \<Rightarrow>
        sbind (timeInBillingZone (e_host env) (e_now env) zone) (\<lambda>values.
        Inr ((VNum (time_value values name), True),
             rt1\<lparr>r_timeValues := map_set zone values (r_timeValues rt1)\<rparr>)))"

definition rt_call ::
  "environment \<Rightarrow> (node \<Rightarrow> rtvalue eval) \<Rightarrow> jsstring \<Rightarrow> node list \<Rightarrow> nat \<Rightarrow> rtvalue eval" where
  "rt_call env evaluate name args pos =
    (if name = js ''fixed'' then call_fixed evaluate args
     else if name = js ''tier'' then call_tier evaluate args
     else if name = js ''param'' then call_param env evaluate args pos
     else if name = js ''header'' then call_header env evaluate args pos
     else if name = js ''u'' then call_usage env evaluate args pos
     else if name = js ''has'' then call_has evaluate args
     else if name = js ''min'' then call_math2 math_min evaluate args
     else if name = js ''max'' then call_math2 math_max evaluate args
     else if name = js ''abs'' then call_math1 math_abs evaluate args
     else if name = js ''floor'' then call_math1 math_floor evaluate args
     else if name = js ''ceil'' then call_math1 math_ceil evaluate args
     else if name \<notin> set TIME_FUNCTIONS then (\<lambda>rt. Inl (billing_error Unsupported name None))
     else call_time env evaluate name args)"

subsection \<open>Evaluation\<close>

definition read_variable :: "environment \<Rightarrow> jsstring \<Rightarrow> nat \<Rightarrow> rtvalue res" where
  "read_variable env name pos =
    (case (case ctx_tokens (e_context env) of None \<Rightarrow> None | Some ts \<Rightarrow> map_of ts name) of
       None \<Rightarrow> Inl (missing_context name pos)
     | Some VUndefined \<Rightarrow> Inl (missing_context name pos)
     | Some (VNum x) \<Rightarrow>
         if js_lt x (Fin 0) then Inl (billing_error NumberError name (Some pos))
         else Inr (VNum x, False)
     | Some _ \<Rightarrow> Inl (billing_error NumberError name (Some pos)))"

definition read_context :: "environment \<Rightarrow> jsstring \<Rightarrow> rtvalue" where
  "read_context env name =
    (let provided = (case ctx_context (e_context env) of None \<Rightarrow> VUndefined
           | Some c \<Rightarrow> (case map_of c name of Some v \<Rightarrow> v | None \<Rightarrow> VUndefined))
     in (if nullish provided
         then (if name = js ''channel'' then VNum (Fin (- 1)) else VStr [])
         else provided, False))"

text \<open>\<open>requestRules.findIndex((rule) => rule.node === node)\<close>.\<close>

fun rule_index :: "request_rule list \<Rightarrow> node \<Rightarrow> nat option" where
  "rule_index [] n = None"
| "rule_index (r # rs) n = (if rr_node r = n then Some 0 else map_option Suc (rule_index rs n))"

definition mark_rule :: "environment \<Rightarrow> node \<Rightarrow> bool \<Rightarrow> runtime \<Rightarrow> runtime" where
  "mark_rule env n taken rt =
    (case rule_index (c_requestRules (e_compiled env)) n of
       Some i \<Rightarrow>
         if taken then rt\<lparr>r_requestRules := (r_requestRules rt)
              [i := (r_requestRules rt ! i)\<lparr>tr_matched := True\<rparr>]\<rparr>
         else rt
     | None \<Rightarrow> rt)"

fun evaluateNode :: "environment \<Rightarrow> (node \<Rightarrow> rtvalue eval) \<Rightarrow> node \<Rightarrow> rtvalue eval" where
  "evaluateNode env evaluate (Literal v i s e) rt = Inr ((v, i), rt)"
| "evaluateNode env evaluate (Variable x s e) rt =
    sbind (read_variable env x s) (\<lambda>v. Inr (v, rt))"
| "evaluateNode env evaluate (Context x s e) rt = Inr (read_context env x, rt)"
| "evaluateNode env evaluate (Conditional c a b s e) rt =
    sbind (rt_boolean evaluate c rt) (\<lambda>(taken, rt1).
    evaluate (if taken then a else b) (mark_rule env (Conditional c a b s e) taken rt1))"
| "evaluateNode env evaluate (Unary op a s e) rt =
    (if op = js ''!'' then
       sbind (rt_boolean evaluate a rt) (\<lambda>(b, rt1). Inr ((VBool (\<not> b), False), rt1))
     else
       sbind (rt_numeric evaluate a rt) (\<lambda>((x, integer), rt1).
       Inr ((VNum (if op = js ''-'' then js_neg x else x), integer), rt1)))"
| "evaluateNode env evaluate (Binary op a b s e) rt = rt_binary evaluate op a b s rt"
| "evaluateNode env evaluate (Call f args s e) rt = rt_call env evaluate f args s rt"

text \<open>The checks of \<open>evaluate\<close> on the value of a node.\<close>

definition check_value :: "nat \<Rightarrow> rtvalue \<Rightarrow> unit res" where
  "check_value pos v =
    (case v of
       (VNum x, integer) \<Rightarrow>
         if \<not> is_finite x
         then Inl (billing_error NumberError (js ''non-finite result'') (Some pos))
         else if integer \<and> \<not> is_safe_integer x
         then Inl (billing_error Unsupported (js ''integer precision'') (Some pos))
         else Inr ()
     | _ \<Rightarrow> Inr ())"

lemma nth_child [simp]: "i < length args \<Longrightarrow> args ! i \<in> set args"
  by simp

lemma typed_read_cong:
  assumes "\<And>rt. f n rt = g n rt"
  shows "rt_boolean f n = rt_boolean g n" "rt_numeric f n = rt_numeric g n"
    "rt_string f n = rt_string g n"
  using assms by (auto simp: fun_eq_iff rt_boolean_def rt_numeric_def rt_string_def)

lemma with_arg_cong:
  assumes "\<And>c. c \<in> set args \<Longrightarrow> f c = g c"
  shows "with_arg args i f = with_arg args i g"
  using assms by (auto simp: fun_eq_iff with_arg_def)

lemma arg_cong_eval:
  assumes "\<And>c rt. c \<in> set args \<Longrightarrow> f c rt = g c rt"
  shows "numeric_arg f args i = numeric_arg g args i" "string_arg f args i = string_arg g args i"
    "with_arg args i f = with_arg args i g"
proof -
  have "with_arg args i (rt_numeric f) = with_arg args i (rt_numeric g)"
    by (rule with_arg_cong) (use assms in \<open>auto intro: typed_read_cong\<close>)
  then show "numeric_arg f args i = numeric_arg g args i"
    by (simp add: fun_eq_iff numeric_arg_def)
  show "string_arg f args i = string_arg g args i" unfolding string_arg_def
    by (rule with_arg_cong) (use assms in \<open>auto intro: typed_read_cong\<close>)
  show "with_arg args i f = with_arg args i g"
    by (rule with_arg_cong) (use assms in auto)
qed

lemma rt_call_cong:
  assumes "\<And>c rt. c \<in> set args \<Longrightarrow> f c rt = g c rt"
  shows "rt_call env f name args pos = rt_call env g name args pos"
proof -
  have "call_fixed f args = call_fixed g args" "call_tier f args = call_tier g args"
    "call_param env f args pos = call_param env g args pos"
    "call_header env f args pos = call_header env g args pos"
    "call_usage env f args pos = call_usage env g args pos" "call_has f args = call_has g args"
    "call_math1 h1 f args = call_math1 h1 g args" "call_math2 h2 f args = call_math2 h2 g args"
    "call_time env f name args = call_time env g name args" for h1 h2
    by (simp_all only: fun_eq_iff call_fixed_def call_tier_def call_param_def call_header_def
        call_usage_def call_has_def call_math1_def call_math2_def call_time_def
        arg_cong_eval[OF assms] simp_thms)
  then show ?thesis by (simp only: rt_call_def)
qed

lemma evaluateNode_cong [fundef_cong]:
  assumes "env = env'" "n = n'" "rt = rt'"
    and "\<And>c rt. c \<in> set (children n') \<Longrightarrow> f c rt = g c rt"
  shows "evaluateNode env f n rt = evaluateNode env' g n' rt'"
  using assms
  by (cases n')
     (simp_all add: rt_binary_def typed_read_cong[of f _ g] rt_call_cong[of _ f g] cong: if_cong)

text \<open>
  The method \<open>evaluate\<close>. On the error path the runtime object is abandoned by every caller,
  so an error carries no state; the \<open>finally\<close> block matters on the normal path, where it
  restores the depth.
\<close>

function evaluate :: "environment \<Rightarrow> node \<Rightarrow> rtvalue eval" where
  "evaluate env n rt =
    (if r_depth rt + 1 > 256 then Inl (billing_error Limit (js ''evaluation depth'') None)
     else
       sbind (evaluateNode env (evaluate env) n (rt\<lparr>r_depth := r_depth rt + 1\<rparr>)) (\<lambda>(v, rt1).
       sbind (check_value (nstart n) v) (\<lambda>_.
       Inr (v, rt1\<lparr>r_depth := r_depth rt1 - 1\<rparr>))))"
  by pat_completeness auto
termination
  by (relation "measure (\<lambda>(env, n, rt). size n)") (auto simp: children_size)

declare evaluate.simps [simp del]

subsection \<open>Entry points\<close>

definition empty_context :: simulation_context where
  "empty_context = \<lparr>ctx_tokens = None, ctx_request = None, ctx_usage = None, ctx_now = None,
     ctx_context = None\<rparr>"

definition evaluateBillingCondition :: "host \<Rightarrow> compiled \<Rightarrow> node \<Rightarrow> int option \<Rightarrow> bool option" where
  "evaluateBillingCondition h compiled n now =
    (case sbind (new_BillingRuntime h compiled (empty_context\<lparr>ctx_now := Some now\<rparr>))
            (\<lambda>(env, rt). evaluate env n rt) of
       Inr ((VBool b, _), _) \<Rightarrow> Some b
     | _ \<Rightarrow> None)"

text \<open>The loop over \<open>Object.entries(context.tokens ?? {})\<close>.\<close>

definition check_token :: "jsstring \<times> jsval \<Rightarrow> unit \<Rightarrow> unit res" where
  "check_token entry u =
    (case entry of
       (name, VNum x) \<Rightarrow>
         if \<not> is_finite x \<or> js_lt x (Fin 0) then Inl (billing_error NumberError name None)
         else Inr ()
     | (name, _) \<Rightarrow> Inl (billing_error NumberError name None))"

text \<open>The check of the result and the object returned for it.\<close>

definition billing_result :: "jsval \<Rightarrow> runtime \<Rightarrow> success res" where
  "billing_result result rt =
    (case result of
       VNum cost \<Rightarrow>
         if \<not> is_finite cost \<or> js_lt cost (Fin 0)
         then Inl (billing_error NumberError (js ''billing result'') None)
         else Inr \<lparr>s_cost = cost, s_billingUnit = r_billingUnit rt,
                s_fixedPrice = r_fixedPrice rt, s_matchedTier = r_matchedTier rt,
                s_requestRules = r_requestRules rt\<rparr>
     | _ \<Rightarrow> Inl (billing_error NumberError (js ''billing result'') None))"

definition evaluate_try :: "host \<Rightarrow> compiled \<Rightarrow> simulation_context \<Rightarrow> success res" where
  "evaluate_try h compiled ctx =
    sbind (sfold check_token (case ctx_tokens ctx of None \<Rightarrow> [] | Some ts \<Rightarrow> ts) ()) (\<lambda>_.
    sbind (new_BillingRuntime h compiled ctx) (\<lambda>(env, rt).
    sbind (evaluate env (c_ast compiled) rt) (\<lambda>((result, _), rt1). billing_result result rt1)))"

definition evaluate_compiled :: "host \<Rightarrow> compilation \<Rightarrow> simulation_context \<Rightarrow> evaluation" where
  "evaluate_compiled h compilation ctx =
    (case compilation of
       Failed f \<Rightarrow> EvaluationFailed f
     | Ready compiled \<Rightarrow>
         (case evaluate_try h compiled ctx of
            Inr s \<Rightarrow> Evaluated s
          | Inl err \<Rightarrow> EvaluationFailed (expressionFailure err)))"

text \<open>Called with a string, the function compiles it first, through the cache.\<close>

definition evaluateBillingExpression ::
  "host \<Rightarrow> jsstring \<Rightarrow> simulation_context \<Rightarrow> cache \<Rightarrow> evaluation \<times> cache" where
  "evaluateBillingExpression h source ctx compiledCache =
    (let (compilation, cache1) = compileBillingExpression source compiledCache
     in (evaluate_compiled h compilation ctx, cache1))"

end
