(* ===== verification/BillingMeaning.thy ===== *)
theory BillingMeaning
  imports BillingRuntime
begin

section \<open>Billing expressions: what an expression means\<close>

text \<open>
  An abstract specification of the interpreter in
  \<^verbatim>\<open>web/src/features/pricing/lib/billing-expression/runtime.ts\<close>. \<open>meaning env n\<close> is the
  value of the node together with the list of pricing events of its evaluation, in order: a
  conditional whose condition held, a tier that was priced, a fixed price that was set. It has no
  depth counter, no memo table for time zones and no mutable trace.

  \<open>evaluate_refines\<close> shows that the interpreter computes exactly this: the same value, the
  same error, and a trace that is the fold of the events over the initial one. The only other
  outcome is the depth limit, which a tree of height at most 255 never reaches. The locale
  \<open>interpreter_calls\<close> is the contract of the recursive call of \<open>evaluate\<close>; the
  lemmas about the methods of the class are proved once inside it.
\<close>

subsection \<open>Events\<close>

datatype event = RuleTaken node | TierHit jsstring | FixedHit jsnum

type_synonym 'a emitting = "('a \<times> event list) res"

definition wbind :: "'a emitting \<Rightarrow> ('a \<Rightarrow> 'b emitting) \<Rightarrow> 'b emitting" where
  "wbind m k = sbind m (\<lambda>(v, ev1). sbind (k v) (\<lambda>(w, ev2). Inr (w, ev1 @ ev2)))"

definition pure :: "'a \<Rightarrow> 'a emitting" where
  "pure v = Inr (v, [])"

definition silent :: "'a res \<Rightarrow> 'a emitting" where
  "silent m = sbind m pure"

definition emit :: "event \<Rightarrow> unit emitting" where
  "emit e = Inr ((), [e])"

fun apply_event :: "environment \<Rightarrow> event \<Rightarrow> runtime \<Rightarrow> runtime" where
  "apply_event env (RuleTaken n) rt = mark_rule env n True rt"
| "apply_event env (TierHit name) rt = rt\<lparr>r_matchedTier := name\<rparr>"
| "apply_event env (FixedHit x) rt = rt\<lparr>r_billingUnit := RequestUnit, r_fixedPrice := Some x\<rparr>"

subsection \<open>The specification\<close>

definition m_boolean :: "(node \<Rightarrow> rtvalue emitting) \<Rightarrow> node \<Rightarrow> bool emitting" where
  "m_boolean f n = wbind (f n) (\<lambda>(v, _). case v of VBool b \<Rightarrow> pure b
     | _ \<Rightarrow> Inl (billing_error TypeError (js ''boolean condition'') (Some (nstart n))))"

definition m_numeric :: "(node \<Rightarrow> rtvalue emitting) \<Rightarrow> node \<Rightarrow> (jsnum \<times> bool) emitting" where
  "m_numeric f n = wbind (f n) (\<lambda>(v, i). case v of VNum x \<Rightarrow> pure (x, i)
     | _ \<Rightarrow> Inl (billing_error TypeError (js ''numeric operand'') (Some (nstart n))))"

definition m_string :: "(node \<Rightarrow> rtvalue emitting) \<Rightarrow> node \<Rightarrow> jsstring emitting" where
  "m_string f n = wbind (f n) (\<lambda>(v, _). case v of VStr s \<Rightarrow> pure s
     | _ \<Rightarrow> Inl (billing_error TypeError (js ''string argument'') (Some (nstart n))))"

definition m_arg :: "(node \<Rightarrow> 'a emitting) \<Rightarrow> node list \<Rightarrow> nat \<Rightarrow> 'a emitting" where
  "m_arg f args i = (if i < length args then f (args ! i) else Inl (undefined_read ''kind''))"

definition m_number_arg :: "(node \<Rightarrow> rtvalue emitting) \<Rightarrow> node list \<Rightarrow> nat \<Rightarrow> jsnum emitting" where
  "m_number_arg f args i = wbind (m_arg (m_numeric f) args i) (\<lambda>(x, _). pure x)"

definition m_binary ::
  "(node \<Rightarrow> rtvalue emitting) \<Rightarrow> jsstring \<Rightarrow> node \<Rightarrow> node \<Rightarrow> nat \<Rightarrow> rtvalue emitting" where
  "m_binary f op l r pos =
    (if op = js ''&&'' then
       wbind (m_boolean f l) (\<lambda>b. if b then wbind (m_boolean f r) (\<lambda>b2. pure (VBool b2, False))
         else pure (VBool False, False))
     else if op = js ''||'' then
       wbind (m_boolean f l) (\<lambda>b. if b then pure (VBool True, False)
         else wbind (m_boolean f r) (\<lambda>b2. pure (VBool b2, False)))
     else wbind (f l) (\<lambda>a. wbind (f r) (\<lambda>b. silent (binary_values op a b pos))))"

text \<open>Functions of the request: they read a string and the context, and emit nothing themselves.\<close>

definition request_value :: "environment \<Rightarrow> jsstring \<Rightarrow> nat \<Rightarrow> jsstring \<Rightarrow> rtvalue res" where
  "request_value env name pos arg =
    (if name = js ''param'' then
       (case ctx_request (e_context env) of
          None \<Rightarrow> Inl (missing_context (js ''request body'') pos)
        | Some r \<Rightarrow> sbind (readRequestPath (req_body r) arg) (\<lambda>v. Inr (v, False)))
     else if name = js ''header'' then
       (case ctx_request (e_context env) of
          None \<Rightarrow> Inl (missing_context (js ''request headers'') pos)
        | Some r \<Rightarrow> Inr (VStr (case map_of (e_headers env)
            (host_toLowerCase (e_host env) (js_trim arg)) of Some v \<Rightarrow> v | None \<Rightarrow> []), False))
     else if name = js ''u'' then
       (case ctx_usage (e_context env) of
          None \<Rightarrow> Inl (missing_context (js ''task usage'') pos)
        | Some usage \<Rightarrow> Inr (case map_of usage arg of Some v \<Rightarrow> v | None \<Rightarrow> VNull, False))
     else
       sbind (timeInBillingZone (e_host env) (e_now env) (js_trim arg)) (\<lambda>values.
       Inr (VNum (time_value values name), True)))"

definition math_function :: "jsstring \<Rightarrow> (jsnum \<Rightarrow> jsnum \<Rightarrow> jsnum) + (jsnum \<Rightarrow> jsnum)" where
  "math_function name =
    (if name = js ''min'' then Inl math_min else if name = js ''max'' then Inl math_max
     else if name = js ''abs'' then Inr math_abs else if name = js ''floor'' then Inr math_floor
     else Inr math_ceil)"

definition m_call ::
  "environment \<Rightarrow> (node \<Rightarrow> rtvalue emitting) \<Rightarrow> jsstring \<Rightarrow> node list \<Rightarrow> nat \<Rightarrow> rtvalue emitting" where
  "m_call env f name args pos =
    (if name = js ''fixed'' then
       wbind (m_number_arg f args 0) (\<lambda>x. wbind (emit (FixedHit x)) (\<lambda>_.
       pure (VNum (js_mul x (Fin 1000000)), False)))
     else if name = js ''tier'' then
       wbind (m_arg (m_string f) args 0) (\<lambda>label. wbind (m_number_arg f args 1) (\<lambda>x.
       wbind (emit (TierHit label)) (\<lambda>_. pure (VNum x, False))))
     else if name = js ''has'' then
       wbind (m_arg f args 0) (\<lambda>(source, _). wbind (m_arg (m_string f) args 1) (\<lambda>substring.
       if nullish source \<or> substring = [] then pure (VBool False, False)
       else silent (sbind (billingString source 0) (\<lambda>text.
              Inr (VBool (js_includes text substring), False)))))
     else if name \<in> set (map js [''min'', ''max'', ''abs'', ''floor'', ''ceil'']) then
       wbind (m_number_arg f args 0) (\<lambda>x. case math_function name of
           Inr g \<Rightarrow> pure (VNum (g x), False)
         | Inl g \<Rightarrow> wbind (m_number_arg f args 1) (\<lambda>y. pure (VNum (g x y), False)))
     else if name \<in> set (map js [''param'', ''header'', ''u'']) \<union> set TIME_FUNCTIONS then
       wbind (m_arg (m_string f) args 0) (\<lambda>s. silent (request_value env name pos s))
     else Inl (billing_error Unsupported name None))"

fun m_node :: "environment \<Rightarrow> (node \<Rightarrow> rtvalue emitting) \<Rightarrow> node \<Rightarrow> rtvalue emitting" where
  "m_node env f (Literal v i s e) = pure (v, i)"
| "m_node env f (Variable x s e) = silent (read_variable env x s)"
| "m_node env f (Context x s e) = pure (read_context env x)"
| "m_node env f (Conditional c a b s e) =
    wbind (m_boolean f c) (\<lambda>taken.
    if taken then wbind (emit (RuleTaken (Conditional c a b s e))) (\<lambda>_. f a) else f b)"
| "m_node env f (Unary op a s e) =
    (if op = js ''!'' then wbind (m_boolean f a) (\<lambda>b. pure (VBool (\<not> b), False))
     else wbind (m_numeric f a) (\<lambda>(x, i). pure (VNum (if op = js ''-'' then js_neg x else x), i)))"
| "m_node env f (Binary op a b s e) = m_binary f op a b s"
| "m_node env f (Call g args s e) = m_call env f g args s"

lemma m_read_cong:
  assumes "f n = g n"
  shows "m_boolean f n = m_boolean g n" "m_numeric f n = m_numeric g n"
    "m_string f n = m_string g n"
  using assms by (simp_all add: m_boolean_def m_numeric_def m_string_def)

lemma m_arg_cong:
  assumes "\<And>c. c \<in> set args \<Longrightarrow> f c = g c"
  shows "m_arg f args i = m_arg g args i" "m_number_arg f args i = m_number_arg g args i"
    "m_arg (m_string f) args i = m_arg (m_string g) args i"
  using assms by (auto simp: m_arg_def m_number_arg_def m_read_cong[of f _ g])

lemma m_call_cong:
  assumes "\<And>c. c \<in> set args \<Longrightarrow> f c = g c"
  shows "m_call env f name args pos = m_call env g name args pos"
  by (simp only: m_call_def m_arg_cong[OF assms])

lemma m_node_cong [fundef_cong]:
  assumes "env = env'" "n = n'" "\<And>c. c \<in> set (children n') \<Longrightarrow> f c = g c"
  shows "m_node env f n = m_node env' g n'"
  using assms
  by (cases n') (simp_all add: m_binary_def m_read_cong[of f _ g] m_call_cong[of _ f g] cong: if_cong)

function meaning :: "environment \<Rightarrow> node \<Rightarrow> rtvalue emitting" where
  "meaning env n =
    wbind (m_node env (meaning env) n) (\<lambda>v.
    wbind (silent (check_value (nstart n) v)) (\<lambda>_. pure v))"
  by pat_completeness auto
termination
  by (relation "measure (\<lambda>(env, n). size n)") (auto simp: children_size)

declare meaning.simps [simp del]

subsection \<open>Refinement\<close>

text \<open>The memo table of time zones holds what \<open>timeInBillingZone\<close> returns.\<close>

definition times_ok :: "environment \<Rightarrow> runtime \<Rightarrow> bool" where
  "times_ok env rt \<longleftrightarrow> (\<forall>zone values. map_of (r_timeValues rt) zone = Some values \<longrightarrow>
     timeInBillingZone (e_host env) (e_now env) zone = Inr values)"

text \<open>What the result of an evaluation shows of the runtime: everything but the table and the depth.\<close>

definition observed :: "runtime \<Rightarrow> runtime" where
  "observed rt = rt\<lparr>r_timeValues := [], r_depth := 0\<rparr>"

lemma observed_simps [simp]:
  "observed (rt\<lparr>r_timeValues := t\<rparr>) = observed rt" "observed (rt\<lparr>r_depth := d\<rparr>) = observed rt"
  by (simp_all add: observed_def)

lemma observed_apply [simp]: "observed (apply_event env e rt) = apply_event env e (observed rt)"
  by (cases e) (auto simp: observed_def mark_rule_def split: option.splits)

lemma observed_fold: "observed (fold (apply_event env) ev rt) = fold (apply_event env) ev (observed rt)"
  by (induction ev arbitrary: rt) auto

definition depth_error :: thrown where
  "depth_error = billing_error Limit (js ''evaluation depth'') None"

text \<open>
  \<open>f\<close> refines \<open>m\<close> at depth \<open>d\<close>; \<open>P\<close> excludes the depth error.
\<close>

definition refines :: "environment \<Rightarrow> bool \<Rightarrow> int \<Rightarrow> 'a eval \<Rightarrow> 'a emitting \<Rightarrow> bool" where
  "refines env P d f m \<longleftrightarrow> (\<forall>rt. times_ok env rt \<longrightarrow> r_depth rt = d \<longrightarrow>
     (case f rt of
        Inl e \<Rightarrow> m = Inl e \<or> (\<not> P \<and> e = depth_error)
      | Inr (v, rt') \<Rightarrow> \<exists>ev. m = Inr (v, ev) \<and> times_ok env rt' \<and> r_depth rt' = d
          \<and> observed rt' = fold (apply_event env) ev (observed rt)))"

lemma mark_rule_False [simp]: "mark_rule env n False rt = rt"
  by (simp add: mark_rule_def split: option.splits)

lemma refines_bind:
  assumes f: "refines env P d f m" and k: "\<And>v. refines env P d (k v) (l v)"
  shows "refines env P d (\<lambda>rt. sbind (f rt) (\<lambda>(v, rt1). k v rt1)) (wbind m l)"
  unfolding refines_def
proof (intro allI impI)
  fix rt assume rt: "times_ok env rt" "r_depth rt = d"
  show "case sbind (f rt) (\<lambda>(v, rt1). k v rt1) of
        Inl e \<Rightarrow> wbind m l = Inl e \<or> (\<not> P \<and> e = depth_error)
      | Inr (v, rt') \<Rightarrow> \<exists>ev. wbind m l = Inr (v, ev) \<and> times_ok env rt' \<and> r_depth rt' = d
          \<and> observed rt' = fold (apply_event env) ev (observed rt)"
  proof (cases "f rt")
    case (Inl e)
    then show ?thesis using f rt by (fastforce simp: refines_def wbind_def)
  next
    case (Inr p)
    obtain v rt1 where p: "p = (v, rt1)" by (cases p)
    obtain ev where ev: "m = Inr (v, ev)" "times_ok env rt1" "r_depth rt1 = d"
        "observed rt1 = fold (apply_event env) ev (observed rt)"
      using f rt Inr p by (fastforce simp: refines_def)
    have k': "case k v rt1 of
          Inl e \<Rightarrow> l v = Inl e \<or> (\<not> P \<and> e = depth_error)
        | Inr (w, rt') \<Rightarrow> \<exists>ev. l v = Inr (w, ev) \<and> times_ok env rt' \<and> r_depth rt' = d
            \<and> observed rt' = fold (apply_event env) ev (observed rt1)"
      using k[of v] ev(2,3) unfolding refines_def by blast
    show ?thesis
      using k' by (cases "k v rt1") (auto simp: Inr p ev wbind_def)
  qed
qed

lemma refines_error [simp]: "refines env P d (\<lambda>rt. Inl e) (Inl e)"
  by (simp add: refines_def)

lemma refines_pure [simp]: "refines env P d (\<lambda>rt. Inr (v, rt)) (pure v)"
  by (simp add: refines_def pure_def)

lemma refines_silent [simp]: "refines env P d (\<lambda>rt. sbind m (\<lambda>v. Inr (v, rt))) (silent m)"
  by (auto simp: refines_def silent_def pure_def split: sum.splits)

lemma refines_emit:
  assumes "\<And>rt. f rt = Inr (v, apply_event env e rt)"
  shows "refines env P d f (wbind (emit e) (\<lambda>_. pure v))"
  using assms
  by (cases e) (auto simp: refines_def wbind_def emit_def pure_def times_ok_def mark_rule_def
      observed_def split: option.splits)

lemma evaluateNode_fun:
  "evaluateNode env f (Literal v i s e) = (\<lambda>rt. Inr ((v, i), rt))"
  "evaluateNode env f (Variable x s e) = (\<lambda>rt. sbind (read_variable env x s) (\<lambda>v. Inr (v, rt)))"
  "evaluateNode env f (Context x s e) = (\<lambda>rt. Inr (read_context env x, rt))"
  "evaluateNode env f (Conditional c a b s e) = (\<lambda>rt. sbind (rt_boolean f c rt) (\<lambda>(taken, rt1).
     f (if taken then a else b) (mark_rule env (Conditional c a b s e) taken rt1)))"
  "evaluateNode env f (Unary op a s e) = (if op = js ''!''
     then (\<lambda>rt. sbind (rt_boolean f a rt) (\<lambda>(b, rt1). Inr ((VBool (\<not> b), False), rt1)))
     else (\<lambda>rt. sbind (rt_numeric f a rt) (\<lambda>((x, integer), rt1).
       Inr ((VNum (if op = js ''-'' then js_neg x else x), integer), rt1))))"
  "evaluateNode env f (Binary op a b s e) = rt_binary f op a b s"
  "evaluateNode env f (Call g args s e) = rt_call env f g args s"
  by (auto simp: fun_eq_iff)

text \<open>The contract of the recursive call, for the children of a node.\<close>

locale interpreter_calls =
  fixes env :: environment and P :: bool and d :: int and kids :: "node set"
    and rec_evaluate :: "node \<Rightarrow> rtvalue eval" and rec_meaning :: "node \<Rightarrow> rtvalue emitting"
  assumes child: "c \<in> kids \<Longrightarrow> refines env P d (rec_evaluate c) (rec_meaning c)"
begin

lemma boolean_refines: "c \<in> kids \<Longrightarrow> refines env P d (rt_boolean rec_evaluate c) (m_boolean rec_meaning c)"
  unfolding rt_boolean_def [abs_def] m_boolean_def
  by (rule refines_bind[OF child]) (auto split: jsval.splits)

lemma numeric_refines: "c \<in> kids \<Longrightarrow> refines env P d (rt_numeric rec_evaluate c) (m_numeric rec_meaning c)"
  unfolding rt_numeric_def [abs_def] m_numeric_def
  by (rule refines_bind[OF child]) (auto split: jsval.splits)

lemma string_refines: "c \<in> kids \<Longrightarrow> refines env P d (rt_string rec_evaluate c) (m_string rec_meaning c)"
  unfolding rt_string_def [abs_def] m_string_def
  by (rule refines_bind[OF child]) (auto split: jsval.splits)

lemma arg_refines:
  assumes "set args \<subseteq> kids"
  shows "refines env P d (with_arg args i rec_evaluate) (m_arg rec_meaning args i)"
    "refines env P d (string_arg rec_evaluate args i) (m_arg (m_string rec_meaning) args i)"
    "refines env P d (numeric_arg rec_evaluate args i) (m_number_arg rec_meaning args i)"
proof -
  have kid: "i < length args \<Longrightarrow> args ! i \<in> kids" using assms by auto
  have num: "refines env P d (with_arg args i (rt_numeric rec_evaluate))
      (m_arg (m_numeric rec_meaning) args i)"
    using kid numeric_refines by (cases "i < length args") (auto simp: with_arg_def [abs_def] m_arg_def)
  show "refines env P d (with_arg args i rec_evaluate) (m_arg rec_meaning args i)"
    "refines env P d (string_arg rec_evaluate args i) (m_arg (m_string rec_meaning) args i)"
    using kid child string_refines
    by (cases "i < length args"; auto simp: string_arg_def with_arg_def [abs_def] m_arg_def)+
  show "refines env P d (numeric_arg rec_evaluate args i) (m_number_arg rec_meaning args i)"
    unfolding numeric_arg_def [abs_def] m_number_arg_def
    by (rule refines_bind[OF num]) auto
qed

lemma binary_refines:
  assumes "l \<in> kids" "r \<in> kids"
  shows "refines env P d (rt_binary rec_evaluate op l r pos) (m_binary rec_meaning op l r pos)"
proof -
  have bools: "refines env P d (\<lambda>rt. sbind (rt_boolean rec_evaluate r rt)
        (\<lambda>(b, rt1). Inr ((VBool b, False), rt1)))
      (wbind (m_boolean rec_meaning r) (\<lambda>b. pure (VBool b, False)))"
    by (rule refines_bind[OF boolean_refines[OF assms(2)]]) simp
  have conj: "refines env P d (\<lambda>rt. sbind (rt_boolean rec_evaluate l rt) (\<lambda>(b, rt1).
        if b then sbind (rt_boolean rec_evaluate r rt1) (\<lambda>(b2, rt2). Inr ((VBool b2, False), rt2))
        else Inr ((VBool False, False), rt1)))
      (wbind (m_boolean rec_meaning l) (\<lambda>b. if b
        then wbind (m_boolean rec_meaning r) (\<lambda>b2. pure (VBool b2, False))
        else pure (VBool False, False)))"
    by (rule refines_bind[OF boolean_refines[OF assms(1)]]) (use bools in auto)
  have disj: "refines env P d (\<lambda>rt. sbind (rt_boolean rec_evaluate l rt) (\<lambda>(b, rt1).
        if b then Inr ((VBool True, False), rt1)
        else sbind (rt_boolean rec_evaluate r rt1) (\<lambda>(b2, rt2). Inr ((VBool b2, False), rt2))))
      (wbind (m_boolean rec_meaning l) (\<lambda>b. if b then pure (VBool True, False)
        else wbind (m_boolean rec_meaning r) (\<lambda>b2. pure (VBool b2, False))))"
    by (rule refines_bind[OF boolean_refines[OF assms(1)]]) (use bools in auto)
  have both: "refines env P d (\<lambda>rt. sbind (rec_evaluate l rt) (\<lambda>(a, rt1).
        sbind (rec_evaluate r rt1) (\<lambda>(b, rt2).
        sbind (binary_values op a b pos) (\<lambda>v. Inr (v, rt2)))))
      (wbind (rec_meaning l) (\<lambda>a. wbind (rec_meaning r) (\<lambda>b. silent (binary_values op a b pos))))"
    by (intro refines_bind child assms) simp
  show ?thesis
    unfolding rt_binary_def [abs_def] m_binary_def using conj disj both by simp
qed

lemma math_refines:
  assumes "set args \<subseteq> kids"
  shows "refines env P d (call_math1 g rec_evaluate args)
      (wbind (m_number_arg rec_meaning args 0) (\<lambda>x. pure (VNum (g x), False)))"
    "refines env P d (call_math2 g2 rec_evaluate args)
      (wbind (m_number_arg rec_meaning args 0) (\<lambda>x. wbind (m_number_arg rec_meaning args 1) (\<lambda>y.
         pure (VNum (g2 x y), False))))"
  unfolding call_math1_def [abs_def] call_math2_def [abs_def]
  by (intro refines_bind arg_refines assms; simp)+

lemma pricing_refines:
  assumes "set args \<subseteq> kids"
  shows "refines env P d (call_fixed rec_evaluate args)
      (wbind (m_number_arg rec_meaning args 0) (\<lambda>x. wbind (emit (FixedHit x)) (\<lambda>_.
       pure (VNum (js_mul x (Fin 1000000)), False))))"
    "refines env P d (call_tier rec_evaluate args)
      (wbind (m_arg (m_string rec_meaning) args 0) (\<lambda>label.
       wbind (m_number_arg rec_meaning args 1) (\<lambda>x.
       wbind (emit (TierHit label)) (\<lambda>_. pure (VNum x, False)))))"
  unfolding call_fixed_def [abs_def] call_tier_def [abs_def]
  by (intro refines_bind arg_refines assms refines_emit; simp)+

lemma has_refines:
  assumes "set args \<subseteq> kids"
  shows "refines env P d (call_has rec_evaluate args)
      (wbind (m_arg rec_meaning args 0) (\<lambda>(source, _).
       wbind (m_arg (m_string rec_meaning) args 1) (\<lambda>substring.
       if nullish source \<or> substring = [] then pure (VBool False, False)
       else silent (sbind (billingString source 0) (\<lambda>text.
              Inr (VBool (js_includes text substring), False))))))"
proof -
  have last: "refines env P d (\<lambda>rt. if b then Inr ((VBool False, False), rt)
        else sbind (billingString source 0) (\<lambda>text.
             Inr ((VBool (js_includes text substring), False), rt)))
      (if b then pure (VBool False, False)
       else silent (sbind (billingString source 0) (\<lambda>text.
              Inr (VBool (js_includes text substring), False))))" for b source substring
    using refines_silent[of env P d "sbind (billingString source 0) (\<lambda>text.
              Inr (VBool (js_includes text substring), False))"] by simp
  show ?thesis unfolding call_has_def [abs_def]
    by (rule refines_bind[OF arg_refines(1)[OF assms]], clarsimp)
       (rule refines_bind[OF arg_refines(2)[OF assms]], rule last)
qed

lemma time_refines:
  assumes "set args \<subseteq> kids"
  shows "refines env P d (call_time env rec_evaluate name args)
      (wbind (m_arg (m_string rec_meaning) args 0) (\<lambda>raw. silent
        (sbind (timeInBillingZone (e_host env) (e_now env) (js_trim raw)) (\<lambda>values.
         Inr (VNum (time_value values name), True)))))"
  unfolding call_time_def [abs_def]
  by (rule refines_bind[OF arg_refines(2)[OF assms]])
     (auto simp: refines_def Let_def silent_def pure_def times_ok_def split: option.splits sum.splits)

lemma request_refines:
  assumes "set args \<subseteq> kids" "name \<in> set (map js [''param'', ''header'', ''u'']) \<union> set TIME_FUNCTIONS"
  shows "refines env P d (rt_call env rec_evaluate name args pos)
      (wbind (m_arg (m_string rec_meaning) args 0) (\<lambda>s. silent (request_value env name pos s)))"
proof -
  note read = refines_bind[OF arg_refines(2)[OF assms(1)]]
  consider (param) "name = js ''param''" | (header) "name = js ''header''" | (usage) "name = js ''u''"
    | (time) "name \<in> set TIME_FUNCTIONS" using assms(2) by auto
  then show ?thesis
  proof cases
    case param
    have "refines env P d (call_param env rec_evaluate args pos)
      (wbind (m_arg (m_string rec_meaning) args 0) (\<lambda>s. silent (request_value env name pos s)))"
      unfolding call_param_def [abs_def]
      by (rule read) (auto simp: param request_value_def refines_def silent_def pure_def
          split: option.splits sum.splits)
    then show ?thesis using param by (simp add: rt_call_def)
  next
    case header
    have "refines env P d (call_header env rec_evaluate args pos)
      (wbind (m_arg (m_string rec_meaning) args 0) (\<lambda>s. silent (request_value env name pos s)))"
      unfolding call_header_def [abs_def]
      by (rule read) (auto simp: header request_value_def refines_def silent_def pure_def Let_def
          split: option.splits sum.splits)
    then show ?thesis using header by (simp add: rt_call_def)
  next
    case usage
    have "refines env P d (call_usage env rec_evaluate args pos)
      (wbind (m_arg (m_string rec_meaning) args 0) (\<lambda>s. silent (request_value env name pos s)))"
      unfolding call_usage_def [abs_def]
      by (rule read) (auto simp: usage request_value_def refines_def silent_def pure_def
          split: option.splits sum.splits)
    then show ?thesis using usage by (simp add: rt_call_def)
  next
    case time
    then show ?thesis using time_refines[OF assms(1), of name]
      by (auto simp: rt_call_def TIME_FUNCTIONS_def request_value_def)
  qed
qed

lemma call_refines:
  assumes "set args \<subseteq> kids"
  shows "refines env P d (rt_call env rec_evaluate name args pos) (m_call env rec_meaning name args pos)"
proof (cases "name \<in> set (map js [''param'', ''header'', ''u'']) \<union> set TIME_FUNCTIONS")
  case True
  then show ?thesis using request_refines[OF assms True, of pos]
    by (auto simp: m_call_def TIME_FUNCTIONS_def)
next
  case False
  then show ?thesis
    using math_refines[OF assms] pricing_refines[OF assms] has_refines[OF assms]
    by (auto simp: m_call_def rt_call_def math_function_def)
qed

lemma node_refines:
  assumes "set (children n) \<subseteq> kids"
  shows "refines env P d (evaluateNode env rec_evaluate n) (m_node env rec_meaning n)"
proof (cases n)
  case (Conditional c a b s e)
  have "refines env P d (\<lambda>rt. rec_evaluate (if taken then a else b) (mark_rule env n taken rt))
      (if taken then wbind (emit (RuleTaken n)) (\<lambda>_. rec_meaning a) else rec_meaning b)" for taken
  proof (cases taken)
    case True
    have "refines env P d (\<lambda>rt. sbind (Inr ((), mark_rule env n True rt)) (\<lambda>(v, rt1). rec_evaluate a rt1))
        (wbind (wbind (emit (RuleTaken n)) (\<lambda>_. pure ())) (\<lambda>_. rec_meaning a))"
      by (rule refines_bind[OF refines_emit]) (use assms Conditional child in auto)
    then show ?thesis using True by (simp add: wbind_def emit_def pure_def)
  next
    case False
    then show ?thesis using assms Conditional child by auto
  qed
  then show ?thesis using assms boolean_refines[of c] Conditional
    by (auto simp: evaluateNode_fun intro!: refines_bind)
next
  case (Unary op a s e)
  then show ?thesis using assms boolean_refines[of a] numeric_refines[of a]
    by (auto simp: evaluateNode_fun intro!: refines_bind)
next
  case (Binary op a b s e)
  then show ?thesis using assms binary_refines by (auto simp: evaluateNode_fun)
next
  case (Call f args s e)
  then show ?thesis using assms call_refines by (auto simp: evaluateNode_fun)
qed (auto simp: evaluateNode_fun)

end

lemma refines_enter:
  assumes "refines env P (d + 1) f m" "P \<longrightarrow> d + 1 \<le> 256"
  shows "refines env P d (\<lambda>rt. if r_depth rt + 1 > 256 then Inl depth_error
      else sbind (f (rt\<lparr>r_depth := r_depth rt + 1\<rparr>)) (\<lambda>(v, rt1).
        sbind (check_value pos v) (\<lambda>_. Inr (v, rt1\<lparr>r_depth := r_depth rt1 - 1\<rparr>))))
    (wbind m (\<lambda>v. wbind (silent (check_value pos v)) (\<lambda>_. pure v)))"
  unfolding refines_def
proof (intro allI impI)
  fix rt assume rt: "times_ok env rt" "r_depth rt = d"
  let ?rt = "rt\<lparr>r_depth := d + 1\<rparr>"
  have "times_ok env ?rt" using rt by (simp add: times_ok_def)
  then have f: "case f ?rt of
        Inl e \<Rightarrow> m = Inl e \<or> (\<not> P \<and> e = depth_error)
      | Inr (v, rt') \<Rightarrow> \<exists>ev. m = Inr (v, ev) \<and> times_ok env rt' \<and> r_depth rt' = d + 1
          \<and> observed rt' = fold (apply_event env) ev (observed rt)"
    using assms(1)[unfolded refines_def, rule_format, of ?rt] by (cases "f ?rt") auto
  show "case if r_depth rt + 1 > 256 then Inl depth_error
      else sbind (f (rt\<lparr>r_depth := r_depth rt + 1\<rparr>)) (\<lambda>(v, rt1).
        sbind (check_value pos v) (\<lambda>_. Inr (v, rt1\<lparr>r_depth := r_depth rt1 - 1\<rparr>))) of
      Inl e \<Rightarrow> wbind m (\<lambda>v. wbind (silent (check_value pos v)) (\<lambda>_. pure v)) = Inl e
        \<or> (\<not> P \<and> e = depth_error)
    | Inr (v, rt') \<Rightarrow> \<exists>ev. wbind m (\<lambda>v. wbind (silent (check_value pos v)) (\<lambda>_. pure v)) = Inr (v, ev)
        \<and> times_ok env rt' \<and> r_depth rt' = d
        \<and> observed rt' = fold (apply_event env) ev (observed rt)"
  proof (cases "f ?rt")
    case (Inl e)
    then show ?thesis using f rt assms(2) by (auto simp: wbind_def)
  next
    case (Inr p)
    then show ?thesis using f rt assms(2)
      by (cases p; cases "check_value pos (fst p)")
         (auto simp: wbind_def silent_def pure_def times_ok_def)
  qed
qed

lemma evaluate_refines:
  "(P \<longrightarrow> d + int (height n) \<le> 255) \<Longrightarrow> refines env P d (evaluate env n) (meaning env n)"
proof (induction n arbitrary: d rule: node_children_induct)
  case (node n)
  have step: "evaluate env n = (\<lambda>rt. if r_depth rt + 1 > 256 then Inl depth_error
      else sbind (evaluateNode env (evaluate env) n (rt\<lparr>r_depth := r_depth rt + 1\<rparr>)) (\<lambda>(v, rt1).
        sbind (check_value (nstart n) v) (\<lambda>_. Inr (v, rt1\<lparr>r_depth := r_depth rt1 - 1\<rparr>))))"
    by (rule ext) (simp add: evaluate.simps[of env n] depth_error_def)
  have calls: "interpreter_calls env P (d + 1) (set (children n)) (evaluate env) (meaning env)"
    by unfold_locales (use node height_child in force)
  show ?case
    unfolding step meaning.simps[of env n]
    by (rule refines_enter[OF interpreter_calls.node_refines[OF calls order.refl]])
       (use node.prems in auto)
qed

text \<open>The interpreter meets the contract at every depth.\<close>

interpretation ic: interpreter_calls env False d UNIV "evaluate env" "meaning env" for env d
  by unfold_locales (rule evaluate_refines, simp)

end
