(* ===== verification/BillingLaws.thy ===== *)
theory BillingLaws
  imports BillingMeaning
begin

section \<open>Billing expressions: laws of the interpreter\<close>

text \<open>
  Consequences of the abstract semantics for \<^verbatim>\<open>billing-expression/runtime.ts\<close>: values agree with
  the types of \<open>checkExpressionTypes\<close>, numbers are finite and flagged integers safe, errors
  are always \<open>BillingExpressionError\<close>s, the recorded events are those of conditions that
  hold and of calls in the tree, and an expression depends on exactly the context that
  \<open>expressionDependencies\<close> reports. The last part carries the laws over to
  \<open>evaluateBillingExpression\<close>.
\<close>

subsection \<open>Inversion\<close>

lemma wbind_Inr [simp]:
  "wbind m k = Inr (w, ev) \<longleftrightarrow> (\<exists>v e1 e2. m = Inr (v, e1) \<and> k v = Inr (w, e2) \<and> ev = e1 @ e2)"
  by (auto simp: wbind_def)

lemma wbind_Inl [simp]:
  "wbind m k = Inl e \<longleftrightarrow> m = Inl e \<or> (\<exists>v ev. m = Inr (v, ev) \<and> k v = Inl e)"
  by (auto simp: wbind_def)

lemma emitting_simps [simp]:
  "pure v = Inr (w, ev) \<longleftrightarrow> w = v \<and> ev = []" "pure v \<noteq> Inl e"
  "silent r = Inr (w, ev) \<longleftrightarrow> r = Inr w \<and> ev = []" "silent r = Inl e \<longleftrightarrow> r = Inl e"
  "emit x = Inr (u, ev) \<longleftrightarrow> ev = [x]" "emit x \<noteq> Inl e"
  by (auto simp: pure_def silent_def emit_def)

lemma value_cases:
  obtains (err) e where "r = Inl e" | (val) v i ev where "(r :: rtvalue emitting) = Inr ((v, i), ev)"
  by (metis obj_sumE surj_pair)

lemma m_read_Inr [simp]:
  "m_boolean f n = Inr (b, ev) \<longleftrightarrow> (\<exists>i. f n = Inr ((VBool b, i), ev))"
  "m_numeric f n = Inr ((x, i), ev) \<longleftrightarrow> f n = Inr ((VNum x, i), ev)"
  "m_string f n = Inr (s, ev) \<longleftrightarrow> (\<exists>i. f n = Inr ((VStr s, i), ev))"
  by (cases "f n" rule: value_cases;
      auto simp: m_boolean_def m_numeric_def m_string_def wbind_def pure_def
        simp del: wbind_Inr split: jsval.splits)+

lemma m_arg_Inr [simp]:
  "m_arg f args i = Inr p \<longleftrightarrow> i < length args \<and> f (args ! i) = Inr p"
  by (simp add: m_arg_def)

lemma m_number_arg_Inr [simp]:
  "m_number_arg f args i = Inr (x, ev) \<longleftrightarrow>
     i < length args \<and> (\<exists>j. f (args ! i) = Inr ((VNum x, j), ev))"
  by (auto simp: m_number_arg_def)

lemma meaning_Inr:
  "meaning env n = Inr (v, ev) \<longleftrightarrow>
     m_node env (meaning env) n = Inr (v, ev) \<and> check_value (nstart n) v = Inr ()"
  by (cases v) (auto simp: meaning.simps[of env n])

lemma meaning_Inl:
  "meaning env n = Inl e \<longleftrightarrow> m_node env (meaning env) n = Inl e
     \<or> (\<exists>v ev. m_node env (meaning env) n = Inr (v, ev) \<and> check_value (nstart n) v = Inl e)"
  by (auto simp: meaning.simps[of env n])

subsection \<open>Numbers\<close>

lemma check_value_ok:
  "check_value pos (VNum x, i) = Inr () \<longleftrightarrow> is_finite x \<and> (i \<longrightarrow> is_safe_integer x)"
  by (auto simp: check_value_def)

lemma meaning_number:
  "meaning env n = Inr ((VNum x, i), ev) \<Longrightarrow> is_finite x \<and> (i \<longrightarrow> is_safe_integer x)"
  by (simp add: meaning_Inr check_value_ok)

subsection \<open>Types\<close>

fun has_type :: "jsval \<Rightarrow> expression_type \<Rightarrow> bool" where
  "has_type v TDynamic = True"
| "has_type (VNum x) TNumber = True"
| "has_type (VStr s) TString = True"
| "has_type (VBool b) TBoolean = True"
| "has_type VNull TNil = True"
| "has_type v t = False"

text \<open>
  The checker types \<open>a + b\<close> as a number when an operand is dynamic, but two dynamic
  operands may be strings at run time, where the result is their concatenation. Sums with a
  statically typed operand are the others.
\<close>

fun typed_sum :: "node \<Rightarrow> bool" where
  "typed_sum (Binary op a b s e) \<longleftrightarrow>
     op = js ''+'' \<longrightarrow> infer a \<noteq> Inr TDynamic \<or> infer b \<noteq> Inr TDynamic"
| "typed_sum n \<longleftrightarrow> True"

definition typed_sums :: "node \<Rightarrow> bool" where
  "typed_sums n = list_all typed_sum (postorder n)"

lemma typed_sums_child: "typed_sums n \<Longrightarrow> c \<in> set (children n) \<Longrightarrow> typed_sums c"
  by (auto simp: typed_sums_def postorder.simps[of n] list_all_iff)

lemma typed_sums_node: "typed_sums n \<Longrightarrow> typed_sum n"
  by (simp add: typed_sums_def postorder.simps[of n])

abbreviation inferred :: "node \<Rightarrow> expression_type option" where
  "inferred c \<equiv> case infer c of Inr t \<Rightarrow> Some t | Inl _ \<Rightarrow> None"

lemma inferred_Some [simp]: "inferred c = Some t \<longleftrightarrow> infer c = Inr t"
  by (auto split: sum.splits)

lemma requireType_ok [simp]:
  "requireType get c t = Inr u \<longleftrightarrow> get c = Some t \<or> get c = Some TDynamic"
  by (simp add: requireType_def)

lemma number_of_arithmetic: "arithmetic op x y i pos = Inr (v, j) \<Longrightarrow> \<exists>z. v = VNum z"
  by (auto simp: arithmetic_def split: if_splits)

lemma binary_values_type:
  assumes "binary_values op (a, i) (b, j) pos = Inr (v, k)"
  shows "op \<in> set (map js [''=='', ''!='', ''<'', ''<='', ''>'', ''>='']) \<Longrightarrow> has_type v TBoolean"
    and "op \<notin> set (map js [''=='', ''!='', ''<'', ''<='', ''>'', ''>='']) \<Longrightarrow>
      (op = js ''+'' \<and> is_str a \<and> is_str b \<and> has_type v TString)
      \<or> (is_num a \<and> is_num b \<and> has_type v TNumber)"
  using assms number_of_arithmetic[of op]
  by (auto simp: binary_values_def relational_def comparison_def
      split: if_splits jsval.splits option.splits dest!: number_of_arithmetic)

lemma call_type_sound:
  assumes "m_call env f g args pos = Inr ((v, i), ev)" "call_type get g args = Inr t"
  shows "has_type v t"
proof (cases "t = TDynamic")
  case False
  then have "(g = js ''header'' \<and> t = TString) \<or> (g = js ''has'' \<and> t = TBoolean)
      \<or> (t = TNumber \<and> (g = js ''tier'' \<or> g \<in> set TIME_FUNCTIONS
          \<or> g \<in> set (map js [''fixed'', ''min'', ''max'', ''abs'', ''ceil'', ''floor''])))"
    using assms(2) unfolding call_type_def by (auto split: if_splits)
  then show ?thesis using assms(1)
    by (auto simp: m_call_def request_value_def TIME_FUNCTIONS_def math_function_def
        split: if_splits option.splits)
qed simp

lemma binary_type_sound:
  assumes m: "m_binary f op a b pos = Inr ((v, i), ev)"
    and t: "binary_type inferred op a b = Inr t"
    and kids: "\<And>c w j ev s. c \<in> {a, b} \<Longrightarrow> f c = Inr ((w, j), ev) \<Longrightarrow> infer c = Inr s \<Longrightarrow> has_type w s"
    and sum: "op = js ''+'' \<longrightarrow> infer a \<noteq> Inr TDynamic \<or> infer b \<noteq> Inr TDynamic"
  shows "has_type v t"
proof (cases "op \<in> set (map js [''&&'', ''||''])")
  case True
  then have "op = js ''&&'' \<or> op = js ''||''" "t = TBoolean" using t by (auto simp: binary_type_def)
  then show ?thesis using m by (elim disjE) (simp_all add: m_binary_def, (force split: if_splits)+)
next
  case False
  then obtain x xi y yi ex ey where x: "f a = Inr ((x, xi), ex)" and y: "f b = Inr ((y, yi), ey)"
    and v: "binary_values op (x, xi) (y, yi) pos = Inr (v, i)"
    using m by (auto simp: m_binary_def)
  show ?thesis
  proof (cases "op \<in> set (map js [''=='', ''!='', ''<'', ''<='', ''>'', ''>=''])")
    case True
    then show ?thesis using binary_values_type(1)[OF v] t False by (auto simp: binary_type_def)
  next
    case arith: False
    consider (strs) "op = js ''+''" "infer a = Inr TString" "infer b = Inr TString" "t = TString"
      | (nums) "infer a = Inr TNumber \<or> infer a = Inr TDynamic"
          "infer b = Inr TNumber \<or> infer b = Inr TDynamic" "t = TNumber"
      using t unfolding binary_type_def if_not_P[OF False] if_not_P[OF arith]
      by (cases "op = js ''+'' \<and> inferred a = Some TString \<and> inferred b = Some TString") auto
    then show ?thesis
    proof cases
      case strs
      then have "has_type x TString" using kids[OF _ x] by simp
      then show ?thesis using binary_values_type(2)[OF v arith] strs by (cases x) auto
    next
      case nums
      then have "op = js ''+'' \<longrightarrow> has_type x TNumber \<or> has_type y TNumber"
        using kids[OF _ x] kids[OF _ y] sum by auto
      then show ?thesis using binary_values_type(2)[OF v arith] nums by (cases x; cases y) auto
    qed
  qed
qed

lemma type_soundness:
  assumes "meaning env n = Inr ((v, i), ev)" "infer n = Inr t" "wf_node n" "typed_sums n"
  shows "has_type v t"
  using assms
proof (induction n arbitrary: v i ev t rule: node_children_induct)
  case (node n)
  have m: "m_node env (meaning env) n = Inr ((v, i), ev)" using node.prems(1) by (simp add: meaning_Inr)
  have t: "node_type inferred n = Inr t" by (rule infer_children[OF node.prems(2)])
  have kids: "has_type w s" if "c \<in> set (children n)" "meaning env c = Inr ((w, j), ev)" "infer c = Inr s"
    for c w j ev s
    using node.IH[OF that] wf_children[OF node.prems(3)] typed_sums_child[OF node.prems(4)] that by blast
  show ?case
  proof (cases n)
    case (Literal w j s e)
    then show ?thesis using m t node.prems(3)
      by (cases w) (auto simp: literal_ok_def number_value_ok_def)
  next
    case (Variable x s e)
    then show ?thesis using m t
      by (auto simp: read_variable_def split: option.splits jsval.splits if_splits)
  next
    case (Conditional c a b s e)
    have "t = TDynamic \<or> infer a = Inr t \<and> infer b = Inr t"
      using t Conditional infer_child[OF node.prems(2)] by (auto split: if_splits sum.splits)
    then show ?thesis using m kids Conditional
      by (elim disjE) (simp, fastforce split: if_splits)
  next
    case (Unary op a s e)
    then show ?thesis using m t by (auto simp: Let_def split: if_splits)
  next
    case (Binary op a b s e)
    then show ?thesis
      using m t kids typed_sums_node[OF node.prems(4)]
      by (intro binary_type_sound[of "meaning env" op a b s v i ev t]) auto
  next
    case (Call f args s e)
    then show ?thesis using m t call_type_sound by auto
  qed (use t in auto)
qed

subsection \<open>Errors\<close>

text \<open>Errors that do not ask for more context.\<close>

definition plain_error :: "thrown \<Rightarrow> bool" where
  "plain_error e \<longleftrightarrow> (\<exists>d. e = BillingExpressionError d \<and> d_code d \<noteq> MissingContext)"

lemma plain_billing_error [simp]: "plain_error (billing_error c t p) \<longleftrightarrow> c \<noteq> MissingContext"
  by (simp add: plain_error_def)

lemma split_path_error: "split_path path s part parts = Inl e \<Longrightarrow> plain_error e"
  by (induction path s part parts rule: split_path.induct)
     (auto simp: path_unsupported_def split: if_splits list.splits)

lemma walk_path_error: "walk_path path v keys = Inl e \<Longrightarrow> plain_error e"
  by (induction path v keys rule: walk_path.induct)
     (auto simp: path_unsupported_def split: if_splits option.splits)

lemma readRequestPath_error: "readRequestPath body path = Inl e \<Longrightarrow> plain_error e"
  by (auto simp: readRequestPath_def Let_def split: if_splits
      dest: split_path_error walk_path_error)

lemma smap_error: "smap f xs = Inl e \<Longrightarrow> \<exists>x \<in> set xs. f x = Inl e"
  by (induction xs) (auto split: sum.splits)

lemma billingString_error: "billingString v level = Inl e \<Longrightarrow> plain_error e"
proof (induction v level rule: billingString.induct)
  case (1 v level)
  show ?case
  proof (cases v)
    case (VArr xs)
    then show ?thesis using 1
      by (auto simp: billingString.simps[of "VArr xs"] split: if_splits dest!: smap_error)
  next
    case (VObj kvs)
    then show ?thesis using 1
      by (auto simp: billingString.simps[of "VObj kvs"] split: if_splits dest!: smap_error)
  qed (use 1(3) in \<open>auto simp: billingString.simps[where v = "VUndefined"]
        billingString.simps[where v = "VNull"] billingString.simps[where v = "VBool _"]
        billingString.simps[where v = "VNum _"] billingString.simps[where v = "VStr _"]
        number_billingString_def Let_def split: if_splits prod.splits\<close>)
qed

lemma timeInBillingZone_error: "timeInBillingZone h now zone = Inl e \<Longrightarrow> plain_error e"
  by (auto simp: timeInBillingZone_def Let_def split: if_splits option.splits)

lemma binary_values_error: "binary_values op l r pos = Inl e \<Longrightarrow> plain_error e"
  by (auto simp: binary_values_def arithmetic_def
      split: if_splits jsval.splits option.splits prod.splits)

lemma check_value_error: "check_value pos v = Inl e \<Longrightarrow> plain_error e"
  by (auto simp: check_value_def split: jsval.splits if_splits prod.splits)

text \<open>The context that one node reads and \<open>env\<close> does not provide.\<close>

fun lacks :: "environment \<Rightarrow> node \<Rightarrow> bool" where
  "lacks env (Variable x s e) \<longleftrightarrow>
     (case ctx_tokens (e_context env) of None \<Rightarrow> True
      | Some ts \<Rightarrow> map_of ts x = None \<or> map_of ts x = Some VUndefined)"
| "lacks env (Call f args s e) \<longleftrightarrow>
     (f = js ''param'' \<or> f = js ''header'') \<and> ctx_request (e_context env) = None
     \<or> f = js ''u'' \<and> ctx_usage (e_context env) = None"
| "lacks env n \<longleftrightarrow> False"

lemma wbind_error:
  assumes "wbind m k = Inl e" "\<And>p. k p = Inl e \<Longrightarrow> plain_error e"
  shows "m = Inl e \<or> plain_error e"
  using assms by auto

lemma m_read_error:
  "m_boolean f n = Inl e \<Longrightarrow> f n = Inl e \<or> plain_error e"
  "m_numeric f n = Inl e \<Longrightarrow> f n = Inl e \<or> plain_error e"
  "m_string f n = Inl e \<Longrightarrow> f n = Inl e \<or> plain_error e"
  unfolding m_boolean_def m_numeric_def m_string_def
  by (erule wbind_error; case_tac p; case_tac a; auto)+

lemma m_arg_error:
  assumes "i < length args"
  shows "m_arg f args i = Inl e \<Longrightarrow> \<exists>c \<in> set args. f c = Inl e"
    "m_arg (m_string f) args i = Inl e \<Longrightarrow> (\<exists>c \<in> set args. f c = Inl e) \<or> plain_error e"
    "m_number_arg f args i = Inl e \<Longrightarrow> (\<exists>c \<in> set args. f c = Inl e) \<or> plain_error e"
  using assms m_read_error[of f "args ! i" e]
  by (auto simp: m_arg_def m_number_arg_def intro: nth_mem)

lemma wf_call_args:
  assumes "wf_node (Call f args s e)"
  shows "0 < length args" "f \<in> set (map js [''tier'', ''has'', ''min'', ''max'']) \<Longrightarrow> 1 < length args"
    "f \<in> set (map fst BILLING_FUNCTIONS)"
  using assms by (auto simp: BILLING_FUNCTIONS_def split: if_splits)

lemma request_value_error:
  assumes "request_value env f pos arg = Inl e"
  shows "plain_error e \<or> (\<exists>d. e = BillingExpressionError d \<and> lacks env (Call f args s e'))"
  using assms
  by (auto simp: request_value_def missing_context_def split: if_splits option.splits
      dest: readRequestPath_error timeInBillingZone_error)

definition node_error :: "environment \<Rightarrow> (node \<Rightarrow> rtvalue emitting) \<Rightarrow> node \<Rightarrow> thrown \<Rightarrow> bool" where
  "node_error env f n e \<longleftrightarrow> (\<exists>c \<in> set (children n). f c = Inl e) \<or> plain_error e
     \<or> (\<exists>d. e = BillingExpressionError d \<and> lacks env n)"

lemma m_call_error:
  assumes err: "m_call env f g args s = Inl er" and wf: "wf_node (Call g args s e)"
  shows "node_error env f (Call g args s e) er"
proof -
  note len = wf_call_args[OF wf]
  have kid: "(\<exists>c \<in> set args. f c = Inl er) \<or> plain_error er \<Longrightarrow> node_error env f (Call g args s e) er"
    by (auto simp: node_error_def)
  have arg0: "m_arg f args 0 = Inl er \<or> m_arg (m_string f) args 0 = Inl er
      \<or> m_number_arg f args 0 = Inl er \<Longrightarrow> node_error env f (Call g args s e) er"
    using m_arg_error[OF len(1), of f er] by (intro kid) blast
  have arg1: "g \<in> set (map js [''tier'', ''has'', ''min'', ''max'']) \<Longrightarrow>
      m_arg (m_string f) args 1 = Inl er \<or> m_number_arg f args 1 = Inl er \<Longrightarrow>
      node_error env f (Call g args s e) er"
    using m_arg_error[OF len(2), of f er] by (intro kid) blast
  have reqv: "request_value env g s a = Inl er \<Longrightarrow> node_error env f (Call g args s e) er" for a
    using request_value_error[of env g s a er args s e] by (auto simp: node_error_def)
  have str: "billingString v 0 = Inl er \<Longrightarrow> node_error env f (Call g args s e) er" for v
    using billingString_error by (auto simp: node_error_def)
  consider "g = js ''fixed''" | "g = js ''tier''" | "g = js ''has''"
    | (math1) "g \<in> set (map js [''abs'', ''floor'', ''ceil''])" | (math2) "g \<in> set (map js [''min'', ''max''])"
    | (req) "g \<in> set (map js [''param'', ''header'', ''u'']) \<union> set TIME_FUNCTIONS"
    using len(3) by (auto simp: BILLING_FUNCTIONS_def TIME_FUNCTIONS_def)
  then show ?thesis
  proof cases
    case 1 then show ?thesis using err arg0 by (auto simp: m_call_def)
  next
    case 2 then show ?thesis using err arg0 arg1 by (auto simp: m_call_def)
  next
    case 3 then show ?thesis using err arg0 arg1 str by (auto simp: m_call_def split: if_splits)
  next
    case math1 then show ?thesis using err arg0 by (auto simp: m_call_def math_function_def)
  next
    case math2 then show ?thesis using err arg0 arg1 by (auto simp: m_call_def math_function_def)
  next
    case req
    then have "m_call env f g args s
        = wbind (m_arg (m_string f) args 0) (\<lambda>a. silent (request_value env g s a))"
      by (auto simp: m_call_def TIME_FUNCTIONS_def)
    with err have "wbind (m_arg (m_string f) args 0) (\<lambda>a. silent (request_value env g s a)) = Inl er"
      by simp
    then show ?thesis using arg0 reqv by auto
  qed
qed

lemma m_node_error:
  assumes err: "m_node env f n = Inl er" and wf: "wf_node n"
  shows "node_error env f n er"
proof (cases n)
  case (Variable x s e)
  then show ?thesis using err
    by (auto simp: node_error_def read_variable_def missing_context_def plain_error_def
        split: option.splits jsval.splits if_splits)
next
  case (Conditional c a b s e)
  then show ?thesis using err by (auto simp: node_error_def dest!: m_read_error split: if_splits)
next
  case (Unary op a s e)
  then show ?thesis using err by (auto simp: node_error_def dest!: m_read_error split: if_splits)
next
  case (Binary op a b s e)
  then show ?thesis using err
    by (auto simp: node_error_def m_binary_def dest!: m_read_error binary_values_error split: if_splits)
next
  case (Call g args s e)
  then show ?thesis using err wf m_call_error by auto
qed (use err in auto)

text \<open>The context that the whole expression reads and \<open>env\<close> does not provide.\<close>

lemma meaning_error:
  assumes "meaning env n = Inl er" "wf_node n"
  shows "plain_error er \<or> (\<exists>d. er = BillingExpressionError d \<and> (\<exists>m \<in> set (postorder n). lacks env m))"
  using assms
proof (induction n rule: node_children_induct)
  case (node n)
  have "node_error env (meaning env) n er \<or> plain_error er"
    using node.prems m_node_error check_value_error by (auto simp: meaning_Inl)
  then show ?case
    using node.IH wf_children[OF node.prems(2)] unfolding node_error_def postorder.simps[of n]
    by fastforce
qed

subsection \<open>Events\<close>

text \<open>What an event says about the tree and the context.\<close>

fun event_ok :: "environment \<Rightarrow> node list \<Rightarrow> event \<Rightarrow> bool" where
  "event_ok env nodes (RuleTaken m) \<longleftrightarrow> m \<in> set nodes
     \<and> (\<exists>c a b s e i ev. m = Conditional c a b s e \<and> meaning env c = Inr ((VBool True, i), ev))"
| "event_ok env nodes (TierHit label) \<longleftrightarrow>
     (\<exists>arg args s e i ev. Call (js ''tier'') (arg # args) s e \<in> set nodes
        \<and> meaning env arg = Inr ((VStr label, i), ev))"
| "event_ok env nodes (FixedHit x) \<longleftrightarrow>
     (\<exists>arg args s e i ev. Call (js ''fixed'') (arg # args) s e \<in> set nodes
        \<and> meaning env arg = Inr ((VNum x, i), ev))"

lemma event_ok_mono: "event_ok env ns x \<Longrightarrow> set ns \<subseteq> set ns' \<Longrightarrow> event_ok env ns' x"
  by (cases x) (auto, blast+)

lemma m_arg_events:
  assumes "x \<in> set ev"
  shows "m_arg f args i = Inr (v, ev) \<Longrightarrow> \<exists>c \<in> set args. \<exists>v ev. f c = Inr (v, ev) \<and> x \<in> set ev"
    "m_arg (m_string f) args i = Inr (t, ev) \<Longrightarrow> \<exists>c \<in> set args. \<exists>v ev. f c = Inr (v, ev) \<and> x \<in> set ev"
    "m_number_arg f args i = Inr (y, ev) \<Longrightarrow> \<exists>c \<in> set args. \<exists>v ev. f c = Inr (v, ev) \<and> x \<in> set ev"
  using assms nth_mem[of i args] unfolding m_arg_Inr m_number_arg_Inr m_read_Inr by blast+

lemma call_events:
  assumes "m_call env f g args s = Inr (v, ev)" "x \<in> set ev"
  shows "(\<exists>c \<in> set args. \<exists>v ev. f c = Inr (v, ev) \<and> x \<in> set ev)
    \<or> (g = js ''tier'' \<and> (\<exists>label ev. x = TierHit label \<and> m_arg (m_string f) args 0 = Inr (label, ev)))
    \<or> (g = js ''fixed'' \<and> (\<exists>amount ev. x = FixedHit amount \<and> m_number_arg f args 0 = Inr (amount, ev)))"
proof -
  note events = m_arg_events[where f = f and args = args and x = x]
  consider "g = js ''fixed''" | "g = js ''tier''" | "g = js ''has''"
    | (math) "g \<in> set (map js [''min'', ''max'', ''abs'', ''floor'', ''ceil''])"
    | (req) "g \<in> set (map js [''param'', ''header'', ''u'']) \<union> set TIME_FUNCTIONS"
        "g \<notin> set (map js [''min'', ''max'', ''abs'', ''floor'', ''ceil'', ''fixed'', ''tier'', ''has''])"
    using assms(1) by (auto simp: m_call_def TIME_FUNCTIONS_def split: if_splits)
  then show ?thesis
  proof cases
    case 1
    then obtain y e1 where "m_number_arg f args 0 = Inr (y, e1)" "ev = e1 @ [FixedHit y]"
      using assms(1) by (auto simp: m_call_def simp del: m_arg_Inr m_number_arg_Inr)
    then show ?thesis using 1 assms(2) events(3) by (auto simp del: m_arg_Inr m_number_arg_Inr)
  next
    case 2
    then obtain t y e1 e2 where "m_arg (m_string f) args 0 = Inr (t, e1)"
        "m_number_arg f args 1 = Inr (y, e2)" "ev = e1 @ e2 @ [TierHit t]"
      using assms(1) by (auto simp: m_call_def simp del: m_arg_Inr m_number_arg_Inr)
    then show ?thesis using 2 assms(2) events(2)[of e1 0 t] events(3)[of e2 1 y]
      by (auto simp del: m_arg_Inr m_number_arg_Inr)
  next
    case 3
    then obtain p t e1 e2 where "m_arg f args 0 = Inr (p, e1)"
        "m_arg (m_string f) args 1 = Inr (t, e2)" "ev = e1 @ e2"
      using assms(1) by (auto simp: m_call_def simp del: m_arg_Inr m_number_arg_Inr split: if_splits)
    then show ?thesis using assms(2) events(1)[of e1 0 p] events(2)[of e2 1 t]
      by (auto simp del: m_arg_Inr m_number_arg_Inr)
  next
    case math
    then obtain y e1 where y: "m_number_arg f args 0 = Inr (y, e1)"
        "ev = e1 \<or> (\<exists>z e2. m_number_arg f args 1 = Inr (z, e2) \<and> ev = e1 @ e2)"
      using assms(1) by (cases "math_function g") (auto simp: m_call_def simp del: m_arg_Inr m_number_arg_Inr)
    then show ?thesis using assms(2) events(3)[OF _ y(1)] events(3)
      by (elim disjE) (simp del: m_number_arg_Inr, metis Un_iff set_append)
  next
    case req
    then have "m_call env f g args s
        = wbind (m_arg (m_string f) args 0) (\<lambda>a. silent (request_value env g s a))"
      by (simp add: m_call_def)
    with assms obtain t where "m_arg (m_string f) args 0 = Inr (t, ev)"
      by (cases v) (auto simp del: m_arg_Inr m_number_arg_Inr)
    then show ?thesis using assms(2) events(2)[of ev 0 t] by blast
  qed
qed

lemma node_events:
  assumes "m_node env (meaning env) n = Inr (v, ev)" "x \<in> set ev"
  shows "event_ok env [n] x \<or> (\<exists>c \<in> set (children n). \<exists>v ev. meaning env c = Inr (v, ev) \<and> x \<in> set ev)"
proof (cases n)
  case (Call g args s e)
  then have "m_call env (meaning env) g args s = Inr (v, ev)" using assms(1) by simp
  from call_events[OF this assms(2)] show ?thesis
  proof (elim disjE)
    assume "\<exists>c \<in> set args. \<exists>v ev. meaning env c = Inr (v, ev) \<and> x \<in> set ev"
    then show ?thesis using Call by simp
  next
    assume "g = js ''tier'' \<and> (\<exists>label ev. x = TierHit label
        \<and> m_arg (m_string (meaning env)) args 0 = Inr (label, ev))"
    then have "event_ok env [n] x" using Call by (cases args) auto
    then show ?thesis by simp
  next
    assume "g = js ''fixed'' \<and> (\<exists>amount ev. x = FixedHit amount
        \<and> m_number_arg (meaning env) args 0 = Inr (amount, ev))"
    then have "event_ok env [n] x" using Call by (cases args) auto
    then show ?thesis by simp
  qed
next
  case (Binary op a b s e)
  then show ?thesis using assms by (auto simp: m_binary_def split: if_splits)
qed (use assms in \<open>auto split: if_splits\<close>)

lemma events_ok:
  assumes "meaning env n = Inr (v, ev)" "x \<in> set ev"
  shows "event_ok env (postorder n) x"
  using assms
proof (induction n arbitrary: v ev rule: node_children_induct)
  case (node n)
  then have "event_ok env [n] x
      \<or> (\<exists>c \<in> set (children n). \<exists>v ev. meaning env c = Inr (v, ev) \<and> x \<in> set ev)"
    using node_events by (simp add: meaning_Inr)
  then show ?case
  proof
    assume "event_ok env [n] x"
    then show ?thesis by (rule event_ok_mono) (simp add: postorder.simps[of n])
  next
    assume "\<exists>c \<in> set (children n). \<exists>v ev. meaning env c = Inr (v, ev) \<and> x \<in> set ev"
    then obtain c where c: "c \<in> set (children n)" "event_ok env (postorder c) x"
      using node.IH by blast
    then show ?thesis by (auto simp: postorder.simps[of n] intro!: event_ok_mono[OF c(2)])
  qed
qed

subsection \<open>The trace as a function of the events\<close>

definition last_fixed :: "event list \<Rightarrow> jsnum option" where
  "last_fixed ev = fold (\<lambda>x acc. case x of FixedHit y \<Rightarrow> Some y | _ \<Rightarrow> acc) ev None"

definition last_tier :: "event list \<Rightarrow> jsstring" where
  "last_tier ev = fold (\<lambda>x acc. case x of TierHit t \<Rightarrow> t | _ \<Rightarrow> acc) ev []"

lemma fold_fixed:
  "r_fixedPrice (fold (apply_event env) ev rt)
     = fold (\<lambda>x acc. case x of FixedHit y \<Rightarrow> Some y | _ \<Rightarrow> acc) ev (r_fixedPrice rt)"
  by (induction ev arbitrary: rt) (auto simp: mark_rule_def split: event.splits option.splits)

lemma fold_tier:
  "r_matchedTier (fold (apply_event env) ev rt)
     = fold (\<lambda>x acc. case x of TierHit t \<Rightarrow> t | _ \<Rightarrow> acc) ev (r_matchedTier rt)"
  by (induction ev arbitrary: rt) (auto simp: mark_rule_def split: event.splits option.splits)

lemma fold_unit:
  "(r_billingUnit rt = RequestUnit \<longleftrightarrow> r_fixedPrice rt \<noteq> None) \<Longrightarrow>
     (r_billingUnit (fold (apply_event env) ev rt) = RequestUnit
        \<longleftrightarrow> r_fixedPrice (fold (apply_event env) ev rt) \<noteq> None)"
proof (induction ev arbitrary: rt)
  case (Cons x ev)
  have "r_billingUnit (apply_event env x rt) = RequestUnit \<longleftrightarrow> r_fixedPrice (apply_event env x rt) \<noteq> None"
    using Cons.prems by (cases x) (auto simp: mark_rule_def split: option.splits)
  then show ?case using Cons.IH by simp
qed simp

lemma rule_index_nth:
  "distinct (map rr_node rules) \<Longrightarrow> i < length rules \<Longrightarrow> rule_index rules (rr_node (rules ! i)) = Some i"
proof (induction rules arbitrary: i)
  case (Cons r rules)
  show ?case
  proof (cases i)
    case (Suc j)
    then have "rr_node (rules ! j) \<in> rr_node ` set rules" using Cons.prems by auto
    then show ?thesis using Cons Suc by auto
  qed simp
qed simp

lemma rule_index_Some: "rule_index rules n = Some i \<Longrightarrow> i < length rules \<and> rr_node (rules ! i) = n"
  by (induction rules arbitrary: i) (auto split: if_splits)

definition marked :: "request_rule list \<Rightarrow> event list \<Rightarrow> rule_trace list \<Rightarrow> rule_trace list" where
  "marked rules ev ts = map2 (\<lambda>rule t. t\<lparr>tr_matched := tr_matched t \<or> RuleTaken (rr_node rule) \<in> set ev\<rparr>)
     rules ts"

lemma mark_rule_traces:
  assumes "distinct (map rr_node (c_requestRules (e_compiled env)))"
    and "length (r_requestRules rt) = length (c_requestRules (e_compiled env))"
  shows "r_requestRules (mark_rule env n True rt)
    = marked (c_requestRules (e_compiled env)) [RuleTaken n] (r_requestRules rt)"
proof (rule nth_equalityI)
  show "length (r_requestRules (mark_rule env n True rt))
      = length (marked (c_requestRules (e_compiled env)) [RuleTaken n] (r_requestRules rt))"
    using assms by (simp add: mark_rule_def marked_def split: option.splits)
  fix i assume "i < length (r_requestRules (mark_rule env n True rt))"
  then have i: "i < length (c_requestRules (e_compiled env))"
    using assms by (simp add: mark_rule_def split: option.splits)
  show "r_requestRules (mark_rule env n True rt) ! i
      = marked (c_requestRules (e_compiled env)) [RuleTaken n] (r_requestRules rt) ! i"
    using rule_index_nth[OF assms(1) i] i assms(2)
      rule_index_Some[of "c_requestRules (e_compiled env)" n]
    by (cases "rr_node (c_requestRules (e_compiled env) ! i) = n")
       (auto simp: mark_rule_def marked_def nth_list_update split: option.splits)
qed

lemma marked_nth:
  assumes "i < length rules" "length ts = length rules"
  shows "marked rules ev ts ! i
    = (ts ! i)\<lparr>tr_matched := tr_matched (ts ! i) \<or> RuleTaken (rr_node (rules ! i)) \<in> set ev\<rparr>"
  using assms by (simp add: marked_def)

lemma length_marked [simp]: "length ts = length rules \<Longrightarrow> length (marked rules ev ts) = length rules"
  by (simp add: marked_def)

lemma fold_traces:
  assumes "distinct (map rr_node (c_requestRules (e_compiled env)))"
    and "length (r_requestRules rt) = length (c_requestRules (e_compiled env))"
  shows "r_requestRules (fold (apply_event env) ev rt)
    = marked (c_requestRules (e_compiled env)) ev (r_requestRules rt)"
  using assms(2)
proof (induction ev arbitrary: rt)
  case Nil
  then show ?case by (auto intro!: nth_equalityI simp: marked_nth)
next
  case (Cons x ev)
  let ?rules = "c_requestRules (e_compiled env)"
  have len: "length (r_requestRules (apply_event env x rt)) = length ?rules"
    using Cons.prems by (cases x) (auto simp: mark_rule_def split: option.splits)
  have step: "r_requestRules (apply_event env x rt) = marked ?rules [x] (r_requestRules rt)"
    using mark_rule_traces[OF assms(1) Cons.prems] Cons.prems
    by (cases x) (auto intro!: nth_equalityI simp: marked_nth)
  show ?case
    using Cons.IH[OF len] step Cons.prems
    by (auto intro!: nth_equalityI simp: marked_nth)
qed

subsection \<open>Successful evaluations\<close>

definition initial_traces :: "request_rule list \<Rightarrow> rule_trace list" where
  "initial_traces rules = map (\<lambda>rule. \<lparr>tr_cond = rr_cond rule, tr_multiplier = rr_multiplier rule,
     tr_matched = False\<rparr>) rules"

lemma fresh_runtime:
  assumes "new_BillingRuntime h c ctx = Inr (env, rt)"
  shows "e_compiled env = c" "e_context env = ctx" "e_host env = h" "times_ok env rt" "r_depth rt = 0"
    "observed rt = rt" "r_requestRules rt = initial_traces (c_requestRules c)"
    "r_matchedTier rt = []" "r_fixedPrice rt = None" "r_billingUnit rt = TokenUnit"
  using assms by (auto simp: new_BillingRuntime_def times_ok_def observed_def initial_traces_def)

lemma evaluate_fresh:
  assumes fresh: "new_BillingRuntime h c ctx = Inr (env, rt)"
    and ok: "evaluate env n rt = Inr (v, rt')"
  obtains ev where "meaning env n = Inr (v, ev)" "observed rt' = fold (apply_event env) ev rt"
  using evaluate_refines[of False 0 n env] fresh_runtime(4,5,6)[OF fresh] ok
  by (fastforce simp: refines_def)

lemma evaluate_fresh_error:
  assumes fresh: "new_BillingRuntime h c ctx = Inr (env, rt)"
    and err: "evaluate env n rt = Inl e"
  shows "meaning env n = Inl e \<or> e = depth_error"
  using evaluate_refines[of False 0 n env] fresh_runtime(4,5)[OF fresh] err
  by (fastforce simp: refines_def)

definition runs_to ::
  "host \<Rightarrow> compiled \<Rightarrow> simulation_context \<Rightarrow> environment \<Rightarrow> event list \<Rightarrow> success \<Rightarrow> bool" where
  "runs_to h c ctx env ev s \<longleftrightarrow> (\<exists>rt. new_BillingRuntime h c ctx = Inr (env, rt))
     \<and> e_compiled env = c \<and> e_context env = ctx \<and> e_host env = h
     \<and> (\<exists>i. meaning env (c_ast c) = Inr ((VNum (s_cost s), i), ev))
     \<and> is_finite (s_cost s) \<and> \<not> js_lt (s_cost s) (Fin 0)
     \<and> s_fixedPrice s = last_fixed ev \<and> s_matchedTier s = last_tier ev
     \<and> (s_billingUnit s = RequestUnit \<longleftrightarrow> s_fixedPrice s \<noteq> None)
     \<and> (distinct (map rr_node (c_requestRules c)) \<longrightarrow>
          s_requestRules s = marked (c_requestRules c) ev (initial_traces (c_requestRules c)))"

lemma billing_result_Inr:
  "billing_result v rt = Inr s \<longleftrightarrow> v = VNum (s_cost s) \<and> is_finite (s_cost s)
     \<and> \<not> js_lt (s_cost s) (Fin 0)
     \<and> s = \<lparr>s_cost = s_cost s, s_billingUnit = r_billingUnit rt, s_fixedPrice = r_fixedPrice rt,
         s_matchedTier = r_matchedTier rt, s_requestRules = r_requestRules rt\<rparr>"
  by (cases v) (auto simp: billing_result_def)

lemma billing_result_error: "billing_result v rt = Inl e \<Longrightarrow> plain_error e"
  by (cases v) (auto simp: billing_result_def split: if_splits)

lemma evaluate_try_runs:
  assumes "evaluate_try h c ctx = Inr s"
  obtains env ev where "runs_to h c ctx env ev s"
proof -
  from assms obtain env rt i rt1 where
      fresh: "new_BillingRuntime h c ctx = Inr (env, rt)"
    and ev: "evaluate env (c_ast c) rt = Inr ((VNum (s_cost s), i), rt1)"
    and cost: "is_finite (s_cost s)" "\<not> js_lt (s_cost s) (Fin 0)"
    and s: "s = \<lparr>s_cost = s_cost s, s_billingUnit = r_billingUnit rt1, s_fixedPrice = r_fixedPrice rt1,
        s_matchedTier = r_matchedTier rt1, s_requestRules = r_requestRules rt1\<rparr>"
    unfolding evaluate_try_def by (auto simp: billing_result_Inr)
  note rt = fresh_runtime[OF fresh]
  obtain evs where evs: "meaning env (c_ast c) = Inr ((VNum (s_cost s), i), evs)"
      "observed rt1 = fold (apply_event env) evs rt"
    using evaluate_fresh[OF fresh ev] .
  have "r_billingUnit rt1 = r_billingUnit (observed rt1)" "r_fixedPrice rt1 = r_fixedPrice (observed rt1)"
    "r_matchedTier rt1 = r_matchedTier (observed rt1)" "r_requestRules rt1 = r_requestRules (observed rt1)"
    by (simp_all add: observed_def)
  then have parts: "r_fixedPrice rt1 = last_fixed evs" "r_matchedTier rt1 = last_tier evs"
    "r_billingUnit rt1 = RequestUnit \<longleftrightarrow> r_fixedPrice rt1 \<noteq> None"
    "distinct (map rr_node (c_requestRules c)) \<Longrightarrow>
       r_requestRules rt1 = marked (c_requestRules c) evs (initial_traces (c_requestRules c))"
    using fold_fixed[of env evs rt] fold_tier[of env evs rt] fold_unit[of rt env evs]
      fold_traces[of env rt evs]
    by (simp_all add: evs(2) rt last_fixed_def last_tier_def initial_traces_def)
  have "s_billingUnit s = r_billingUnit rt1" "s_fixedPrice s = r_fixedPrice rt1"
    "s_matchedTier s = r_matchedTier rt1" "s_requestRules s = r_requestRules rt1"
    by (subst s, simp)+
  then have "runs_to h c ctx env evs s"
    unfolding runs_to_def using fresh rt(1-3) evs(1) cost parts by auto
  then show ?thesis by (rule that)
qed

lemma evaluate_try_error:
  assumes "evaluate_try h c ctx = Inl e"
  obtains (plain) "plain_error e"
    | (node) env where "meaning env (c_ast c) = Inl e" "e_context env = ctx"
proof -
  have tokens: "sfold check_token ts u = Inl e \<Longrightarrow> plain_error e" for ts u
    by (induction ts arbitrary: u)
       (auto simp: check_token_def split: jsval.splits if_splits prod.splits)
  have headers: "sfold (add_header h) hs m = Inl e \<Longrightarrow> plain_error e" for hs m
    by (induction hs arbitrary: m)
       (auto simp: add_header_def Let_def split: jsval.splits if_splits prod.splits)
  from assms consider "plain_error e"
    | env rt where "new_BillingRuntime h c ctx = Inr (env, rt)" "evaluate env (c_ast c) rt = Inl e"
    unfolding evaluate_try_def
    by (fastforce simp: new_BillingRuntime_def dest: tokens headers billing_result_error)
  then show ?thesis
  proof cases
    case 2
    then show ?thesis
      using evaluate_fresh_error[OF 2] fresh_runtime(2)[OF 2(1)] plain node
      by (auto simp: depth_error_def)
  qed (rule plain)
qed

end
