(* ===== verification/BillingFixed.thy ===== *)
theory BillingFixed
  imports BillingLaws
begin

section \<open>Billing expressions: fixed prices\<close>

text \<open>
  What \<open>validateFixedPricingTree\<close> in
  \<^verbatim>\<open>web/src/features/pricing/lib/billing-expression/parser.ts\<close> guarantees of every run of an
  accepted expression: exactly one tier is priced, at most one fixed price is set, and that price is
  a finite non-negative literal of the source.
\<close>

fun pricing :: "event \<Rightarrow> bool" where
  "pricing (RuleTaken m) = False"
| "pricing (TierHit t) = True"
| "pricing (FixedHit x) = True"

text \<open>The pricing events of one run of an accepted tree.\<close>

definition priced_once :: "event list \<Rightarrow> bool" where
  "priced_once ev \<longleftrightarrow> (\<exists>label. filter pricing ev = [TierHit label]
     \<or> (\<exists>x. filter pricing ev = [FixedHit x, TierHit label] \<and> js_le (Fin 0) x \<and> is_finite x))"

lemma unmarked_no_calls:
  assumes "containsPricingMarker n = Inr False"
  shows "js ''tier'' \<notin> called (postorder n)" "js ''fixed'' \<notin> called (postorder n)"
proof -
  from assms obtain d where d: "expressionDependencies n = Inr d"
      "js ''tier'' \<notin> set (dep_functions d)" "js ''fixed'' \<notin> set (dep_functions d)"
    by (auto simp: containsPricingMarker_def)
  then have "height n \<le> 256"
    using visit_rec_too_deep[of collect_dependency 0 n]
    by (auto simp: expressionDependencies_def visitExpression_rec)
  from expressionDependencies_ok[OF this] d
  show "js ''tier'' \<notin> called (postorder n)" "js ''fixed'' \<notin> called (postorder n)" by auto
qed

lemma unmarked_events:
  assumes "containsPricingMarker n = Inr False" "meaning env n = Inr (v, ev)"
  shows "filter pricing ev = []"
proof -
  have "\<not> pricing x" if "x \<in> set ev" for x
    using events_ok[OF assms(2) that] unmarked_no_calls[OF assms(1)]
    by (cases x) (auto simp: called_def)
  then show ?thesis by (simp add: filter_empty_conv)
qed

lemma meaning_Conditional:
  assumes "meaning env (Conditional c a b s e) = Inr (v, ev)"
  obtains t i e1 e2 where "meaning env c = Inr ((VBool t, i), e1)"
    "meaning env (if t then a else b) = Inr (v, e2)" "filter pricing ev = filter pricing (e1 @ e2)"
proof -
  from assms have "m_node env (meaning env) (Conditional c a b s e) = Inr (v, ev)"
    by (simp add: meaning_Inr)
  then obtain t i e1 e2 where "meaning env c = Inr ((VBool t, i), e1)" "ev = e1 @ e2"
      "(if t then wbind (emit (RuleTaken (Conditional c a b s e))) (\<lambda>_. meaning env a)
        else meaning env b) = Inr (v, e2)"
    by (cases v) auto
  then show ?thesis by (cases t; cases v) (auto intro: that)
qed

text \<open>A recorded rule is a conditional between two literals.\<close>

definition rule_shape :: "request_rule \<Rightarrow> bool" where
  "rule_shape r \<longleftrightarrow> (\<exists>i s1 e1 b s e. rr_node r =
     Conditional (rr_condition r) (Literal (VNum (rr_multiplier r)) i s1 e1) b s e \<and> is_one b)"

lemma multiplier_events:
  assumes "is_multiplier rules n = Inr True" "list_all rule_shape rules"
    and m: "meaning env n = Inr (v, ev)"
  shows "filter pricing ev = []" "rules \<noteq> []"
proof -
  from assms(1) obtain r where r: "find_rule rules n = Some r"
      "containsPricingMarker (rr_condition r) = Inr False"
    by (auto simp: is_multiplier_def split: option.splits if_splits)
  then have "r \<in> set rules" "rr_node r = n" by (auto simp: find_rule_def find_Some_iff)
  then have "rule_shape r" using assms(2) by (simp add: list_all_iff)
  then obtain a b s e where n: "n = Conditional (rr_condition r) a b s e"
    and lits: "\<exists>w i s e. a = Literal w i s e" "\<exists>w i s e. b = Literal w i s e"
    using \<open>rr_node r = n\<close> unfolding rule_shape_def by (metis is_one.elims(2))
  have lit: "filter pricing ev = []" if "meaning env l = Inr (w, ev)" "\<exists>w i s e. l = Literal w i s e"
    for l w ev using that by (auto simp: meaning_Inr)
  obtain t i e1 e2 where c: "meaning env (rr_condition r) = Inr ((VBool t, i), e1)"
      "meaning env (if t then a else b) = Inr (v, e2)" "filter pricing ev = filter pricing (e1 @ e2)"
    using meaning_Conditional[OF m[unfolded n]] .
  have "filter pricing e2 = []" using lit[OF c(2)] lits by (cases t) auto
  then show "filter pricing ev = []" using unmarked_events[OF r(2) c(1)] c(3) by simp
  show "rules \<noteq> []" using \<open>r \<in> set rules\<close> by auto
qed

lemma tier_leaf_priced:
  assumes ok: "tier_leaf_ok n = Inr True" and m: "meaning env n = Inr (v, ev)"
  shows "priced_once ev"
    "filter pricing ev = [FixedHit x, TierHit label] \<Longrightarrow> v = (VNum (js_mul x (Fin 1000000)), False)"
proof -
  from ok obtain lb price rest s e where n: "n = Call (js ''tier'') (lb # price # rest) s e"
    and lb: "containsPricingMarker lb = Inr False" and price: "tier_price_ok price = Inr True"
    by (auto simp: tier_leaf_ok_def split: node.splits if_splits list.splits)
  from m have "m_node env (meaning env) n = Inr (v, ev)" by (simp add: meaning_Inr)
  with n obtain t i e1 y j e2 where
      parts: "meaning env lb = Inr ((VStr t, i), e1)" "meaning env price = Inr ((VNum y, j), e2)"
    and ev: "ev = e1 @ e2 @ [TierHit t]" and v: "v = (VNum y, False)"
    by (cases v) (auto simp: m_call_def)
  have none: "filter pricing e1 = []" by (rule unmarked_events[OF lb parts(1)])
  have both: "(filter pricing e2 = [] \<or> (\<exists>z. filter pricing e2 = [FixedHit z] \<and> js_le (Fin 0) z
      \<and> is_finite z \<and> y = js_mul z (Fin 1000000)))"
  proof (cases "\<exists>amounts s e. price = Call (js ''fixed'') amounts s e")
    case True
    then obtain amount rest s e where p: "price = Call (js ''fixed'') (amount # rest) s e"
      and a: "fixed_amount_ok amount"
      using price by (auto simp: tier_price_ok_def split: list.splits)
    from a obtain z i s' e' where z: "amount = Literal (VNum z) i s' e'" "js_le (Fin 0) z"
      by (auto simp: fixed_amount_ok_def split: node.splits jsval.splits)
    then show ?thesis using parts(2) p by (auto simp: meaning_Inr m_call_def check_value_ok)
  next
    case False
    then have "containsPricingMarker price = Inr False"
      using price by (auto simp: tier_price_ok_def split: node.splits if_splits)
    then show ?thesis using unmarked_events parts(2) by blast
  qed
  show "priced_once ev" using both none ev by (auto simp: priced_once_def)
  show "filter pricing ev = [FixedHit x, TierHit label] \<Longrightarrow> v = (VNum (js_mul x (Fin 1000000)), False)"
    using both none ev v by auto
qed

lemma finish_fixed_ok: "finish_fixed n = Inr u \<Longrightarrow> tier_leaf_ok n = Inr True"
  by (auto simp: finish_fixed_def split: if_splits)

lemma product_events:
  assumes "meaning env (Binary (js ''*'') a b s e) = Inr (v, ev)"
  obtains va ea vb eb where "meaning env a = Inr (va, ea)" "meaning env b = Inr (vb, eb)" "ev = ea @ eb"
proof -
  from assms have "m_node env (meaning env) (Binary (js ''*'') a b s e) = Inr (v, ev)"
    by (simp add: meaning_Inr)
  then show ?thesis by (cases v) (auto simp: m_binary_def intro: that)
qed

lemma validated_priced_once:
  assumes "validateFixedPricingTree rules n = Inr ()" "list_all rule_shape rules"
    and "meaning env n = Inr (v, ev)"
  shows "priced_once ev \<and> (rules = [] \<longrightarrow> (\<forall>x label. filter pricing ev = [FixedHit x, TierHit label] \<longrightarrow>
      fst v = VNum (js_mul x (Fin 1000000))))"
  using assms
proof (induction rules n arbitrary: v ev rule: validateFixedPricingTree.induct)
  case (1 rules c a b s e)
  show ?case
  proof (cases "containsPricingMarker c = Inr False")
    case True
    obtain t i e1 e2 where parts: "meaning env c = Inr ((VBool t, i), e1)"
        "meaning env (if t then a else b) = Inr (v, e2)" "filter pricing ev = filter pricing (e1 @ e2)"
      using meaning_Conditional[OF 1(5)] .
    have none: "filter pricing e1 = []" by (rule unmarked_events[OF True parts(1)])
    have ok: "validateFixedPricingTree rules a = Inr ()" "validateFixedPricingTree rules b = Inr ()"
      using 1(3) True by auto
    show ?thesis
      using 1(1)[of False v e2, simplified, OF True ok(1) 1(4)] 1(2)[of False "()" v e2, simplified, OF True ok 1(4)]
        parts none by (cases t) (auto simp: priced_once_def)
  next
    case False
    then have "tier_leaf_ok (Conditional c a b s e) = Inr True"
      using 1(3) by (auto split: if_splits intro: finish_fixed_ok)
    then show ?thesis by (simp add: tier_leaf_ok_def)
  qed
next
  case (2 rules op a b s e)
  have leaf: "tier_leaf_ok (Binary op a b s e) \<noteq> Inr True" by (simp add: tier_leaf_ok_def)
  have op: "op = js ''*''" using 2(3) leaf by (auto split: if_splits dest: finish_fixed_ok)
  obtain va ea vb eb where parts: "meaning env a = Inr (va, ea)" "meaning env b = Inr (vb, eb)"
      "ev = ea @ eb" using product_events[OF 2(5)[unfolded op]] .
  consider (right) "is_multiplier rules b = Inr True" "validateFixedPricingTree rules a = Inr ()"
    | (left) "is_multiplier rules b = Inr False" "is_multiplier rules a = Inr True"
        "validateFixedPricingTree rules b = Inr ()"
    using 2(3) leaf op by (auto split: if_splits dest: finish_fixed_ok)
  then show ?case
  proof cases
    case right
    have "filter pricing eb = []" "rules \<noteq> []" by (rule multiplier_events[OF right(1) 2(4) parts(2)])+
    then show ?thesis using 2(1)[OF op right(1) _ right(2) 2(4) parts(1)] parts(3)
      by (auto simp: priced_once_def)
  next
    case left
    have "filter pricing ea = []" "rules \<noteq> []" by (rule multiplier_events[OF left(2) 2(4) parts(1)])+
    then show ?thesis using 2(2)[OF op left(1) _ left(2) _ left(3) 2(4) parts(2)] parts(3)
      by (auto simp: priced_once_def)
  qed
qed (use tier_leaf_priced finish_fixed_ok in fastforce)+

end
