(* ===== verification/BillingContracts.thy ===== *)
theory BillingContracts
  imports BillingFixed
begin

section \<open>Billing expressions: the contract of the module\<close>

text \<open>
  What \<^verbatim>\<open>web/src/features/pricing/lib/billing-expression\<close> promises its callers: the display
  code, the editors and the cost simulator. Every property is stated on the exported functions
  (\<open>compileBillingExpression\<close>, \<open>evaluateBillingExpression\<close>, \<open>visitExpression\<close>) or
  on the methods they are made of, and rests on the theories of the parser, the checker, the
  compiler and the interpreter.
\<close>

subsection \<open>A sample expression\<close>

definition ex_host :: host where
  "ex_host = \<lparr>host_clock = Some 0, host_toLowerCase = (\<lambda>s. s), host_DateTimeFormat = (\<lambda>_. None)\<rparr>"

definition ex_source :: jsstring where
  "ex_source = js ''tier('' @ [DQ] @ js ''base'' @ [DQ] @ js '', p * 2) * (param('' @ [DQ]
     @ js ''fast'' @ [DQ] @ js '') == true ? 3 : 1)''"

definition ex_condition :: node where
  "ex_condition = Binary (js ''=='')
     (Call (js ''param'') [Literal (VStr (js ''fast'')) False 29 35] 23 36)
     (Literal (VBool True) False 40 44) 23 44"

definition ex_rule :: node where
  "ex_rule = Conditional ex_condition (Literal (VNum (Fin 3)) True 47 48)
     (Literal (VNum (Fin 1)) True 51 52) 22 53"

definition ex_ast :: node where
  "ex_ast = Binary (js ''*'')
     (Call (js ''tier'') [Literal (VStr (js ''base'')) False 5 11,
        Binary (js ''*'') (Variable (js ''p'') 13 14) (Literal (VNum (Fin 2)) True 17 18) 13 18] 0 19)
     ex_rule 0 53"

definition ex_compiled :: compiled where
  "ex_compiled = \<lparr>c_source = ex_source, c_version = 1, c_ast = ex_ast, c_variables = [js ''p''],
     c_functions = map js [''tier'', ''param''],
     c_requestRules = [\<lparr>rr_node = ex_rule, rr_condition = ex_condition, rr_multiplier = Fin 3,
       rr_cond = js ''param('' @ [DQ] @ js ''fast'' @ [DQ] @ js '') == true''\<rparr>]\<rparr>"

definition ex_context :: simulation_context where
  "ex_context = \<lparr>ctx_tokens = Some [(js ''p'', VNum (Fin 5))],
     ctx_request = Some \<lparr>req_body = VObj [(js ''fast'', VBool True)], req_headers = None\<rparr>,
     ctx_usage = None, ctx_now = None, ctx_context = None\<rparr>"

definition ex_success :: success where
  "ex_success = \<lparr>s_cost = Fin 30, s_billingUnit = TokenUnit, s_fixedPrice = None,
     s_matchedTier = js ''base'', s_requestRules = [\<lparr>tr_cond = js ''param('' @ [DQ] @ js ''fast'' @ [DQ]
       @ js '') == true'', tr_multiplier = Fin 3, tr_matched = True\<rparr>]\<rparr>"

lemma ex_parse: "parse_source ex_source = Inr ex_ast"
  by code_simp

lemma ex_ready: "compile_fresh ex_source = Ready ex_compiled"
  by code_simp

lemma ex_evaluated: "evaluate_compiled ex_host (Ready ex_compiled) ex_context = Evaluated ex_success"
  by code_simp

lemma ex_evaluate_run:
  "evaluateBillingExpression ex_host ex_source ex_context [] = (Evaluated ex_success, [(ex_source, Ready ex_compiled)])"
  by (simp add: evaluateBillingExpression_def compileBillingExpression_def Let_def ex_ready ex_evaluated)

subsection \<open>Parsing\<close>

text \<open>
  C3: The recursive descent of \<open>BillingParser.parse\<close> ends on every source: the fuel of the
  model, which bounds the number of nested method calls by the number of lexemes, is never exhausted,
  so the parser always returns a tree or throws one of its own errors.
\<close>
theorem parse_terminates: "parse_source source \<noteq> Inl OutOfFuel"
  by (rule parse_source_fuel)

text \<open>
  C4: Every tree that \<open>parse\<close> returns has nested source spans inside the source, with the
  children of a node in order; its names, operators and argument counts come from the registries;
  and no two of its nodes are equal, so that comparing nodes with \<open>===\<close> identifies them.
\<close>
theorem parse_tree_invariant:
  assumes "parse_source source = Inr ast"
  shows "spans_ok ast \<and> wf_node ast \<and> nend ast \<le> length source \<and> distinct (postorder ast)"
  using parse_source_ok[OF assms] distinct_postorder by auto

theorem parse_tree_invariant_witness:
  "spans_ok ex_ast \<and> wf_node ex_ast \<and> nend ex_ast \<le> length ex_source \<and> distinct (postorder ex_ast)"
  by (rule parse_tree_invariant[OF ex_parse])

text \<open>
  C11: The explicit-stack loop of \<open>visitExpression\<close> visits exactly the nodes of the tree in
  postorder, left to right, and completes exactly when no node lies deeper than 256 and no visit
  throws.
\<close>
theorem visitExpression_postorder:
  "visitExpression n visitor s = Inr t \<longleftrightarrow> height n \<le> 256 \<and> sfold visitor (postorder n) s = Inr t"
  using visit_rec_too_deep[of visitor 0 n s t]
  by (cases "height n \<le> 256") (auto simp: visitExpression_rec visit_rec_postorder)

text \<open>
  C12: \<open>checkExpressionTypes\<close>, which keeps the types of visited nodes in a mutable map,
  accepts a tree exactly when no node lies deeper than 256 and the typing rules (the inductive
  judgement \<open>typing\<close>, one rule per form of expression) give the tree a type.
\<close>
theorem checkExpressionTypes_iff:
  "checkExpressionTypes ast = Inr () \<longleftrightarrow> height ast \<le> 256 \<and> (\<exists>t. typing ast t)"
  using check_infer[of ast] check_height[of ast "()"] check_ok_infer[of ast "()"]
  unfolding infer_typing[symmetric] by auto

subsection \<open>Compilation\<close>

text \<open>
  C9: In every state that calls can bring the module-level cache to, a call of
  \<open>compileBillingExpression\<close> answers what compiling the source afresh would answer, the cache
  never holds more than 128 sources nor a source twice, and repeating the call is a hit that changes
  nothing.
\<close>
theorem compile_cache_transparent:
  assumes "table_reachable compileBillingExpression [] cache"
  shows "fst (compileBillingExpression source cache) = compile_fresh source
    \<and> length cache \<le> 128 \<and> distinct (map fst cache)
    \<and> compileBillingExpression source (snd (compileBillingExpression source cache))
        = compileBillingExpression source cache"
  using cc.reachable_answer[OF assms, of source] cc.reachable_bounded[OF assms]
    cc.repeat_hit[of source cache] by (simp add: prod_eq_iff)

theorem compile_cache_transparent_witness:
  "fst (compileBillingExpression ex_source []) = Ready ex_compiled
    \<and> compileBillingExpression ex_source (snd (compileBillingExpression ex_source []))
        = compileBillingExpression ex_source []"
  using compile_cache_transparent[OF table_reachable.start, of ex_source] by (simp add: ex_ready)

text \<open>
  The request rules of a compiled expression are distinct conditionals of its tree, each
  \<open>condition ? multiplier : 1\<close> with a numeric literal multiplier, reported with the source
  text of its condition.
\<close>
theorem compiled_request_rules:
  assumes "compile_fresh source = Ready c"
  shows "list_all (rule_ok source (postorder (c_ast c))) (c_requestRules c)
    \<and> distinct (map rr_node (c_requestRules c))"
  using compiled_rules[of source c] assms by (simp add: compile_fresh_Ready list_all_iff)

theorem compiled_request_rules_witness:
  "list_all (rule_ok ex_source (postorder ex_ast)) (c_requestRules ex_compiled)
    \<and> distinct (map rr_node (c_requestRules ex_compiled))"
  using compiled_request_rules[OF ex_ready] by (simp add: ex_compiled_def)

subsection \<open>Evaluation\<close>

lemma evaluated_compiled:
  assumes "table_reachable compileBillingExpression [] cache"
    and "evaluateBillingExpression h source ctx cache = (Evaluated s, cache')"
  obtains c where "compile_try source = Inr c" "evaluate_try h c ctx = Inr s"
proof -
  have "fst (compileBillingExpression source cache) = compile_fresh source"
    by (rule cc.reachable_answer[OF assms(1)])
  then have "evaluate_compiled h (compile_fresh source) ctx = Evaluated s"
    using assms(2) by (auto simp: evaluateBillingExpression_def split: prod.splits)
  then show ?thesis
    by (auto simp: evaluate_compiled_def compile_fresh_Ready split: compilation.splits sum.splits
        intro: that)
qed

lemma ex_runtime:
  "new_BillingRuntime ex_host ex_compiled ex_context =
     Inr (\<lparr>e_compiled = ex_compiled, e_context = ex_context, e_now = Some 0, e_headers = [], e_host = ex_host\<rparr>,
       \<lparr>r_requestRules = initial_traces (c_requestRules ex_compiled), r_matchedTier = [],
        r_billingUnit = TokenUnit, r_fixedPrice = None, r_timeValues = [], r_depth = 0\<rparr>)"
  by (simp add: new_BillingRuntime_def request_headers_def ex_context_def ex_host_def initial_traces_def)

lemma ex_height: "height ex_ast \<le> 255"
  by (simp add: ex_ast_def ex_rule_def ex_condition_def height.simps)

text \<open>
  C1: The interpreter implements the abstract semantics. Started on a fresh runtime object, on a
  tree of height at most 255, \<open>evaluate\<close> throws exactly the error that the semantics gives,
  or returns exactly its value, with the depth counter restored and with the tier, unit, fixed price
  and rule flags that the pricing events of the semantics produce in order. The memo table of time
  zones is invisible.
\<close>
theorem evaluate_implements_meaning:
  assumes "new_BillingRuntime h c ctx = Inr (env, rt)" "height n \<le> 255"
  shows "case evaluate env n rt of
      Inl e \<Rightarrow> meaning env n = Inl e
    | Inr (v, rt') \<Rightarrow> \<exists>ev. meaning env n = Inr (v, ev) \<and> r_depth rt' = 0
        \<and> observed rt' = fold (apply_event env) ev rt"
  using evaluate_refines[of True 0 n env] fresh_runtime(4,5,6)[OF assms(1)] assms(2)
  by (cases "evaluate env n rt") (force simp: refines_def)+

theorem evaluate_implements_meaning_witness:
  "\<exists>env rt. new_BillingRuntime ex_host ex_compiled ex_context = Inr (env, rt)
    \<and> (case evaluate env ex_ast rt of
      Inl e \<Rightarrow> meaning env ex_ast = Inl e
    | Inr (v, rt') \<Rightarrow> \<exists>ev. meaning env ex_ast = Inr (v, ev) \<and> r_depth rt' = 0
        \<and> observed rt' = fold (apply_event env) ev rt)"
  using evaluate_implements_meaning[OF ex_runtime ex_height] ex_runtime by blast

text \<open>
  C2: A successful evaluation reports a finite, non-negative cost; it is billed per request exactly
  when a fixed price is reported.
\<close>
theorem evaluation_result_sound:
  assumes "table_reachable compileBillingExpression [] cache"
    and "evaluateBillingExpression h source ctx cache = (Evaluated s, cache')"
  shows "is_finite (s_cost s) \<and> js_le (Fin 0) (s_cost s)
    \<and> (s_billingUnit s = RequestUnit \<longleftrightarrow> s_fixedPrice s \<noteq> None)"
proof -
  obtain c where "evaluate_try h c ctx = Inr s" using evaluated_compiled[OF assms] .
  then obtain env ev where r: "runs_to h c ctx env ev s" by (rule evaluate_try_runs)
  then have "is_finite (s_cost s)" "\<not> js_lt (s_cost s) (Fin 0)" by (simp_all add: runs_to_def)
  then have "js_le (Fin 0) (s_cost s)" by (cases "s_cost s") (auto simp: js_le_def)
  with r show ?thesis by (simp add: runs_to_def)
qed

theorem evaluation_result_sound_witness:
  "is_finite (s_cost ex_success) \<and> js_le (Fin 0) (s_cost ex_success)
    \<and> (s_billingUnit ex_success = RequestUnit \<longleftrightarrow> s_fixedPrice ex_success \<noteq> None)"
  by (rule evaluation_result_sound[OF table_reachable.start ex_evaluate_run])

text \<open>
  C6: A successful evaluation lists the request rules of the expression in order, with their
  condition text and multiplier; and a rule is flagged as matched only if its condition evaluates to
  true in the environment of that very run: the one that the constructor of the runtime object builds
  from the compiled expression, the given context, the headers of the request and the clock.
\<close>
theorem matched_rules_hold:
  assumes "table_reachable compileBillingExpression [] cache"
    and "evaluateBillingExpression h source ctx cache = (Evaluated s, cache')"
  shows "\<exists>c env rt. compile_fresh source = Ready c \<and> new_BillingRuntime h c ctx = Inr (env, rt)
    \<and> map tr_cond (s_requestRules s) = map rr_cond (c_requestRules c)
    \<and> map tr_multiplier (s_requestRules s) = map rr_multiplier (c_requestRules c)
    \<and> (\<forall>i < length (c_requestRules c). tr_matched (s_requestRules s ! i) \<longrightarrow>
        (\<exists>j ev. meaning env (rr_condition (c_requestRules c ! i)) = Inr ((VBool True, j), ev)))"
proof -
  obtain c where c: "compile_try source = Inr c" "evaluate_try h c ctx = Inr s"
    using evaluated_compiled[OF assms] .
  from c(2) obtain env ev where r: "runs_to h c ctx env ev s" by (rule evaluate_try_runs)
  let ?rules = "c_requestRules c"
  have traces: "s_requestRules s = marked ?rules ev (initial_traces ?rules)"
    using r compiled_rules(2)[OF c(1)] by (simp add: runs_to_def)
  have shapes: "map tr_cond (s_requestRules s) = map rr_cond ?rules"
    "map tr_multiplier (s_requestRules s) = map rr_multiplier ?rules"
    by (auto simp: traces initial_traces_def marked_nth intro!: nth_equalityI)
  have "\<exists>j ev. meaning env (rr_condition (?rules ! i)) = Inr ((VBool True, j), ev)"
    if i: "i < length ?rules" and m: "tr_matched (s_requestRules s ! i)" for i
  proof -
    have "RuleTaken (rr_node (?rules ! i)) \<in> set ev"
      using m i by (simp add: traces marked_nth initial_traces_def)
    then have "event_ok env (postorder (c_ast c)) (RuleTaken (rr_node (?rules ! i)))"
      using events_ok r unfolding runs_to_def by blast
    moreover have "rule_ok source (postorder (c_ast c)) (?rules ! i)"
      using compiled_rules(1)[OF c(1)] i by simp
    ultimately show ?thesis by (auto simp: rule_ok_def)
  qed
  then show ?thesis using c(1) r shapes by (auto simp: compile_fresh_Ready runs_to_def)
qed

theorem matched_rules_hold_witness:
  "\<exists>env rt j ev. new_BillingRuntime ex_host ex_compiled ex_context = Inr (env, rt)
     \<and> meaning env ex_condition = Inr ((VBool True, j), ev)"
proof -
  obtain env rt where "new_BillingRuntime ex_host ex_compiled ex_context = Inr (env, rt)"
      "tr_matched (s_requestRules ex_success ! 0) \<longrightarrow>
        (\<exists>j ev. meaning env (rr_condition (c_requestRules ex_compiled ! 0)) = Inr ((VBool True, j), ev))"
    using matched_rules_hold[OF table_reachable.start ex_evaluate_run]
    by (fastforce simp: ex_ready ex_compiled_def)
  then show ?thesis by (auto simp: ex_success_def ex_compiled_def)
qed

text \<open>
  C10: Evaluating a compiled expression never fails with an error of the language itself, such as
  reading a property of a missing argument: whatever the context, every failure is one of the
  module's own diagnostics.
\<close>
theorem evaluation_errors_are_diagnostics:
  assumes "compile_fresh source = Ready c" "evaluate_try h c ctx = Inl e"
  shows "\<exists>d. e = BillingExpressionError d"
  using assms(2)
proof (cases rule: evaluate_try_error)
  case plain
  then show ?thesis by (auto simp: plain_error_def)
next
  case (node env)
  then show ?thesis
    using meaning_error[of env "c_ast c" e] compile_try_ast(2)[of source c] assms(1)
    by (auto simp: compile_fresh_Ready plain_error_def)
qed

theorem evaluation_errors_are_diagnostics_witness:
  "\<exists>d. billing_error MissingContext (js ''p'') (Some 13) = BillingExpressionError d"
proof (rule evaluation_errors_are_diagnostics[OF ex_ready])
  show "evaluate_try ex_host ex_compiled empty_context
      = Inl (billing_error MissingContext (js ''p'') (Some 13))" by code_simp
qed

text \<open>
  C7: The dependencies reported for a compiled expression are enough. If the context gives a value
  for every listed variable, a request when \<open>param\<close> or \<open>header\<close> is listed, and task
  usage when \<open>u\<close> is listed, then no evaluation fails for lack of context.
\<close>
theorem dependencies_suffice:
  assumes "compile_fresh source = Ready c"
    and "\<forall>x \<in> set (c_variables c). \<exists>ts v. ctx_tokens ctx = Some ts \<and> map_of ts x = Some v \<and> v \<noteq> VUndefined"
    and "js ''param'' \<in> set (c_functions c) \<or> js ''header'' \<in> set (c_functions c) \<longrightarrow> ctx_request ctx \<noteq> None"
    and "js ''u'' \<in> set (c_functions c) \<longrightarrow> ctx_usage ctx \<noteq> None"
    and "evaluate_compiled h (Ready c) ctx = EvaluationFailed f"
  shows "f_status f \<noteq> SMissingContext"
proof -
  have c: "compile_try source = Inr c" using assms(1) by (simp add: compile_fresh_Ready)
  obtain e where e: "evaluate_try h c ctx = Inl e" "f = expressionFailure e"
    using assms(5) by (auto simp: evaluate_compiled_def split: sum.splits)
  have "plain_error e"
    using e(1)
  proof (cases rule: evaluate_try_error)
    case (node env)
    have "\<not> lacks env m" if m: "m \<in> set (postorder (c_ast c))" for m
    proof (cases m)
      case (Variable x s e)
      then have "x \<in> set (c_variables c)" using m compile_try_parts(7)[OF c] by (auto simp: used_def)
      then show ?thesis using assms(2) node(2) Variable by fastforce
    next
      case (Call g args s e)
      then have "g \<in> set (c_functions c)" using m compile_try_parts(6)[OF c] by (auto simp: called_def)
      then show ?thesis using assms(3,4) node(2) Call by auto
    qed simp_all
    then show ?thesis
      using meaning_error[OF node(1) compile_try_ast(2)[OF c]] by auto
  qed
  then show ?thesis using e(2) by (auto simp: plain_error_def expressionFailure_def Let_def)
qed

definition ex_negative :: simulation_context where
  "ex_negative = ex_context\<lparr>ctx_tokens := Some [(js ''p'', VNum (Fin (- 1)))]\<rparr>"

theorem dependencies_suffice_witness: "f_status (expressionFailure (billing_error NumberError (js ''p'') None)) \<noteq> SMissingContext"
proof (rule dependencies_suffice[OF ex_ready])
  show "evaluate_compiled ex_host (Ready ex_compiled) ex_negative
      = EvaluationFailed (expressionFailure (billing_error NumberError (js ''p'') None))" by code_simp
qed (auto simp: ex_compiled_def ex_negative_def ex_context_def)

text \<open>
  C8: Static types are sound for trees in which every sum has an operand that is not dynamic: when
  \<open>evaluate\<close> returns a value for such a parsed tree and the typing rules give the tree type
  number, string, boolean or nil, the value has that type.
\<close>
theorem evaluate_type_sound:
  assumes "parse_source source = Inr n" "typing n t" "typed_sums n"
    and "new_BillingRuntime h c ctx = Inr (env, rt)" "evaluate env n rt = Inr ((v, i), rt')"
  shows "has_type v t"
proof -
  obtain ev where "meaning env n = Inr ((v, i), ev)" using evaluate_fresh[OF assms(4,5)] .
  moreover have "infer n = Inr t" using assms(2) by (simp only: infer_typing)
  ultimately show ?thesis using type_soundness assms(3) parse_source_ok(2)[OF assms(1)] by blast
qed

theorem evaluate_type_sound_witness:
  "\<exists>env rt v i rt'. evaluate env ex_ast rt = Inr ((v, i), rt') \<and> has_type v TNumber"
proof -
  have "infer ex_ast = Inr TNumber" by code_simp
  then have t: "typing ex_ast TNumber" by (simp only: infer_typing)
  have s: "typed_sums ex_ast" by code_simp
  obtain env rt where r: "new_BillingRuntime ex_host ex_compiled ex_context = Inr (env, rt)"
    using ex_runtime by blast
  have "evaluate_try ex_host ex_compiled ex_context = Inr ex_success"
    using ex_evaluated by (simp add: evaluate_compiled_def split: sum.splits)
  then obtain p rt' where "evaluate env ex_ast rt = Inr (p, rt')"
    using r by (auto simp: evaluate_try_def ex_compiled_def)
  then show ?thesis using evaluate_type_sound[OF ex_parse t s r] by (cases p) blast
qed

subsection \<open>Independence\<close>

definition token :: "simulation_context \<Rightarrow> jsstring \<Rightarrow> jsval option" where
  "token ctx x = (case ctx_tokens ctx of None \<Rightarrow> None | Some ts \<Rightarrow> map_of ts x)"

definition with_tokens :: "environment \<Rightarrow> (jsstring \<times> jsval) list option \<Rightarrow> environment" where
  "with_tokens env ts = env\<lparr>e_context := (e_context env)\<lparr>ctx_tokens := ts\<rparr>\<rparr>"

lemma with_tokens_simps [simp]:
  "e_compiled (with_tokens env ts) = e_compiled env" "e_now (with_tokens env ts) = e_now env"
  "e_headers (with_tokens env ts) = e_headers env" "e_host (with_tokens env ts) = e_host env"
  "ctx_request (e_context (with_tokens env ts)) = ctx_request (e_context env)"
  "ctx_usage (e_context (with_tokens env ts)) = ctx_usage (e_context env)"
  "ctx_context (e_context (with_tokens env ts)) = ctx_context (e_context env)"
  by (simp_all add: with_tokens_def)

lemma rt_call_tokens: "rt_call (with_tokens env ts) = rt_call env"
proof -
  have "call_param (with_tokens env ts) = call_param env" "call_header (with_tokens env ts) = call_header env"
    "call_usage (with_tokens env ts) = call_usage env" "call_time (with_tokens env ts) = call_time env"
    unfolding call_param_def [abs_def] call_header_def [abs_def] call_usage_def [abs_def]
      call_time_def [abs_def] with_tokens_simps by (rule refl)+
  then show ?thesis by (simp add: fun_eq_iff rt_call_def)
qed

lemma read_variable_token:
  "token (e_context env) x = token (e_context env') x \<Longrightarrow> read_variable env x s = read_variable env' x s"
  by (simp add: read_variable_def token_def)

lemma evaluate_tokens:
  assumes "\<forall>x \<in> used (postorder n). token (e_context (with_tokens env ts)) x = token (e_context env) x"
  shows "evaluate (with_tokens env ts) n rt = evaluate env n rt"
  using assms
proof (induction n arbitrary: rt rule: node_children_induct)
  case (node n)
  have "used (postorder c) \<subseteq> used (postorder n)" if "c \<in> set (children n)" for c
    using that by (auto simp: used_def postorder.simps[of n])
  then have kids: "evaluate (with_tokens env ts) c rt = evaluate env c rt" if "c \<in> set (children n)" for c rt
    using node.IH[OF that] node.prems that by blast
  have "evaluateNode (with_tokens env ts) f n rt = evaluateNode env f n rt" for f rt
  proof (cases n)
    case (Variable x s e)
    then have "x \<in> used (postorder n)" by (auto simp: used_def postorder.simps[of "Variable x s e"])
    then show ?thesis using node.prems Variable read_variable_token[of "with_tokens env ts" x env] by simp
  next
    case (Conditional c a b s e)
    then show ?thesis by (simp add: mark_rule_def)
  next
    case (Call f args s e)
    then show ?thesis by (simp add: rt_call_tokens)
  qed (simp_all add: read_context_def)
  then have "evaluateNode (with_tokens env ts) (evaluate (with_tokens env ts)) n rt
      = evaluateNode env (evaluate env) n rt" for rt
    using evaluateNode_cong[of env env n n rt rt "evaluate (with_tokens env ts)" "evaluate env"] kids by simp
  then show ?case by (simp add: evaluate.simps[of _ n])
qed

lemma new_runtime_tokens:
  "new_BillingRuntime h c (ctx\<lparr>ctx_tokens := ts\<rparr>)
     = sbind (new_BillingRuntime h c ctx) (\<lambda>(env, rt). Inr (with_tokens env ts, rt))"
  by (auto simp: new_BillingRuntime_def request_headers_def with_tokens_def intro!: sbind_cong)

text \<open>
  The result depends on no token variable outside the reported ones: two contexts with valid
  token counts that differ only in variables the expression does not list give the same result,
  success or failure.
\<close>
theorem unused_tokens_irrelevant:
  assumes "compile_fresh source = Ready c"
    and "\<forall>x \<in> set (c_variables c). map_of ts x = map_of ts' x"
    and "sfold check_token ts () = Inr ()" "sfold check_token ts' () = Inr ()"
  shows "evaluate_compiled h (Ready c) (ctx\<lparr>ctx_tokens := Some ts\<rparr>)
    = evaluate_compiled h (Ready c) (ctx\<lparr>ctx_tokens := Some ts'\<rparr>)"
proof -
  have vars: "set (c_variables c) = used (postorder (c_ast c))"
    using compile_try_parts(7) assms(1) by (simp add: compile_fresh_Ready)
  have same: "evaluate (with_tokens env (Some ts)) (c_ast c) rt = evaluate (with_tokens env (Some ts')) (c_ast c) rt"
    for env rt
    using evaluate_tokens[of "c_ast c" "with_tokens env (Some ts')" "Some ts" rt] vars assms(2)
    by (simp add: token_def with_tokens_def)
  then show ?thesis
    using assms(3,4)
    by (simp add: evaluate_compiled_def evaluate_try_def new_runtime_tokens case_prod_unfold)
qed

theorem unused_tokens_irrelevant_witness:
  "evaluate_compiled ex_host (Ready ex_compiled) (ex_context\<lparr>ctx_tokens := Some [(js ''p'', VNum (Fin 5))]\<rparr>)
    = evaluate_compiled ex_host (Ready ex_compiled)
        (ex_context\<lparr>ctx_tokens := Some [(js ''c'', VNum (Fin 7)), (js ''p'', VNum (Fin 5))]\<rparr>)"
  by (rule unused_tokens_irrelevant[OF ex_ready]) (simp_all add: ex_compiled_def check_token_def)

subsection \<open>Fixed prices\<close>

definition fx_source :: jsstring where
  "fx_source = js ''tier('' @ [DQ] @ js ''a'' @ [DQ] @ js '', fixed(0.5))''"

definition fx_ast :: node where
  "fx_ast = Call (js ''tier'') [Literal (VStr (js ''a'')) False 5 8,
     Call (js ''fixed'') [Literal (VNum (Fin (1 / 2))) False 16 19] 10 20] 0 21"

definition fx_compiled :: compiled where
  "fx_compiled = \<lparr>c_source = fx_source, c_version = 1, c_ast = fx_ast, c_variables = [],
     c_functions = map js [''fixed'', ''tier''], c_requestRules = []\<rparr>"

definition fx_success :: success where
  "fx_success = \<lparr>s_cost = Fin 500000, s_billingUnit = RequestUnit, s_fixedPrice = Some (Fin (1 / 2)),
     s_matchedTier = js ''a'', s_requestRules = []\<rparr>"

lemma fx_ready: "compile_fresh fx_source = Ready fx_compiled"
  by code_simp

lemma fx_evaluated: "evaluate_compiled ex_host (Ready fx_compiled) empty_context = Evaluated fx_success"
  by code_simp

lemma fx_run:
  "evaluateBillingExpression ex_host fx_source empty_context [] = (Evaluated fx_success, [(fx_source, Ready fx_compiled)])"
  by (simp add: evaluateBillingExpression_def compileBillingExpression_def Let_def fx_ready fx_evaluated)

lemma compiled_rule_shape:
  assumes "compile_try source = Inr c"
  shows "list_all rule_shape (c_requestRules c)"
  using compiled_rules(1)[OF assms] by (auto simp: list_all_iff rule_ok_def rule_shape_def)

lemma last_events:
  "last_fixed ev = last_fixed (filter pricing ev)" "last_tier ev = last_tier (filter pricing ev)"
proof -
  have "fold (\<lambda>x acc. case x of FixedHit y \<Rightarrow> Some y | _ \<Rightarrow> acc) ev a
      = fold (\<lambda>x acc. case x of FixedHit y \<Rightarrow> Some y | _ \<Rightarrow> acc) (filter pricing ev) a" for a
    by (induction ev arbitrary: a) (auto split: event.splits)
  moreover have "fold (\<lambda>x acc. case x of TierHit t \<Rightarrow> t | _ \<Rightarrow> acc) ev a
      = fold (\<lambda>x acc. case x of TierHit t \<Rightarrow> t | _ \<Rightarrow> acc) (filter pricing ev) a" for a
    by (induction ev arbitrary: a) (auto split: event.splits)
  ultimately show "last_fixed ev = last_fixed (filter pricing ev)" "last_tier ev = last_tier (filter pricing ev)"
    by (simp_all add: last_fixed_def last_tier_def)
qed

text \<open>
  C5: Every successful run of an expression that uses \<open>fixed\<close> prices exactly one tier: in the
  environment of that run the events contain one tier, preceded by at most one fixed price, and the
  result reports that tier and that price, or no price when the tier taken is not a fixed one. A
  price that is reported is finite and not negative, and without request multipliers the cost is the
  price scaled to one million.
\<close>
theorem fixed_price_run:
  assumes "table_reachable compileBillingExpression [] cache"
    and "compile_fresh source = Ready c" "js ''fixed'' \<in> set (c_functions c)"
    and "evaluateBillingExpression h source ctx cache = (Evaluated s, cache')"
  shows "\<exists>env rt ev j. new_BillingRuntime h c ctx = Inr (env, rt)
    \<and> meaning env (c_ast c) = Inr ((VNum (s_cost s), j), ev)
    \<and> (s_fixedPrice s = None \<and> filter pricing ev = [TierHit (s_matchedTier s)]
      \<or> (\<exists>x. s_fixedPrice s = Some x \<and> filter pricing ev = [FixedHit x, TierHit (s_matchedTier s)]
          \<and> js_le (Fin 0) x \<and> is_finite x
          \<and> (c_requestRules c = [] \<longrightarrow> s_cost s = js_mul x (Fin 1000000))))"
proof -
  have c: "compile_try source = Inr c" using assms(2) by (simp add: compile_fresh_Ready)
  have "evaluate_try h c ctx = Inr s"
    using evaluated_compiled[OF assms(1,4)] c by auto
  then obtain env ev where r: "runs_to h c ctx env ev s" by (rule evaluate_try_runs)
  then obtain j where m: "meaning env (c_ast c) = Inr ((VNum (s_cost s), j), ev)"
    by (auto simp: runs_to_def)
  have once: "priced_once ev" "c_requestRules c = [] \<Longrightarrow>
      filter pricing ev = [FixedHit x, TierHit l] \<Longrightarrow> s_cost s = js_mul x (Fin 1000000)" for x l
    using validated_priced_once[OF compile_try_parts(8)[OF c assms(3)] compiled_rule_shape[OF c] m] by auto
  have last: "s_fixedPrice s = last_fixed (filter pricing ev)" "s_matchedTier s = last_tier (filter pricing ev)"
    using r last_events[of ev] by (simp_all add: runs_to_def)
  have "s_fixedPrice s = None \<and> filter pricing ev = [TierHit (s_matchedTier s)]
      \<or> (\<exists>x. s_fixedPrice s = Some x \<and> filter pricing ev = [FixedHit x, TierHit (s_matchedTier s)]
          \<and> js_le (Fin 0) x \<and> is_finite x
          \<and> (c_requestRules c = [] \<longrightarrow> s_cost s = js_mul x (Fin 1000000)))"
    using once last unfolding priced_once_def last_fixed_def last_tier_def by fastforce
  then show ?thesis using m r by (auto simp: runs_to_def)
qed

theorem fixed_price_run_witness:
  "\<exists>env rt ev j. new_BillingRuntime ex_host fx_compiled empty_context = Inr (env, rt)
     \<and> meaning env fx_ast = Inr ((VNum (Fin 500000), j), ev)
     \<and> filter pricing ev = [FixedHit (Fin (1 / 2)), TierHit (js ''a'')]
     \<and> js_mul (Fin (1 / 2)) (Fin 1000000) = Fin 500000"
  using fixed_price_run[OF table_reachable.start fx_ready _ fx_run]
  by (force simp: fx_compiled_def fx_success_def)

end
