(* ===== verification/BillingStructure.thy ===== *)
theory BillingStructure
  imports Prelude
begin

section \<open>Billing expressions: lossless source helpers\<close>

text \<open>
  Model of \<^verbatim>\<open>web/src/features/pricing/lib/billing-expression/structure.ts\<close>:
  \<open>splitExpressionAtTopLevel\<close> and \<open>unwrapExpressionParens\<close>. The index loops are recursions
  on the rest of the source; \<open>cur\<close> is \<open>source.slice(start, i)\<close>, \<open>quote\<close> the open
  quotation mark if any. Both scanners read strings and brackets the same way (\<open>scan_unit\<close>).
  The operator is not empty at any call site; an empty one would make the program loop.
\<close>

subsection \<open>Splitting\<close>

definition opens :: "unit16 \<Rightarrow> bool" where
  "opens c \<longleftrightarrow> c = 40 \<or> c = 91 \<or> c = 123"

definition closes :: "unit16 \<Rightarrow> bool" where
  "closes c \<longleftrightarrow> c = 41 \<or> c = 93 \<or> c = 125"

definition step_depth :: "unit16 \<Rightarrow> int \<Rightarrow> int" where
  "step_depth c d = (let d = (if opens c then d + 1 else d) in if closes c then d - 1 else d)"

fun split_scan ::
  "jsstring \<Rightarrow> jsstring \<Rightarrow> jsstring \<Rightarrow> int \<Rightarrow> unit16 option \<Rightarrow> jsstring list \<Rightarrow> jsstring list option" where
  "split_scan op [] cur d quote parts = Some (parts @ [cur])"
| "split_scan op (c # s) cur d (Some q) parts =
    (if c = BSL then
       (case s of
          [] \<Rightarrow> Some (parts @ [cur @ [c]])
        | e # s2 \<Rightarrow> split_scan op s2 (cur @ [c, e]) d (Some q) parts)
     else split_scan op s (cur @ [c]) d (if c = q then None else Some q) parts)"
| "split_scan op (c # s) cur d None parts =
    (if c = DQ \<or> c = SQ then split_scan op s (cur @ [c]) d (Some c) parts
     else
       let d2 = step_depth c d in
       if d2 \<noteq> 0 then split_scan op s (cur @ [c]) d2 None parts
       else if c = 63 then None
       else if js_startsWith (c # s) op
       then split_scan op (drop (length op - 1) s) [] d2 None (parts @ [cur])
       else split_scan op s (cur @ [c]) d2 None parts)"

definition splitExpressionAtTopLevel :: "jsstring \<Rightarrow> jsstring \<Rightarrow> jsstring list" where
  "splitExpressionAtTopLevel source op =
    (case split_scan op source [] 0 None [] of
       None \<Rightarrow> [js_trim source]
     | Some parts \<Rightarrow> filter (\<lambda>p. p \<noteq> []) (map js_trim parts))"

subsection \<open>Unwrapping\<close>

text \<open>Whether the bracket depth first returns to 0 at the last character.\<close>

fun closes_at_end :: "jsstring \<Rightarrow> int \<Rightarrow> unit16 option \<Rightarrow> bool" where
  "closes_at_end [] d quote = False"
| "closes_at_end (c # s) d (Some q) =
    (if c = BSL then (case s of [] \<Rightarrow> False | e # s2 \<Rightarrow> closes_at_end s2 d (Some q))
     else closes_at_end s d (if c = q then None else Some q))"
| "closes_at_end (c # s) d None =
    (if c = DQ \<or> c = SQ then closes_at_end s d (Some c)
     else
       let d2 = (if c = 40 then d + 1 else d); d3 = (if c = 41 then d2 - 1 else d2) in
       if d3 = 0 then s = [] else closes_at_end s d3 None)"

definition wrapped :: "jsstring \<Rightarrow> bool" where
  "wrapped e \<longleftrightarrow> e \<noteq> [] \<and> hd e = 40 \<and> last e = 41 \<and> closes_at_end e 0 None"

lemma length_js_trim: "length (js_trim s) \<le> length s"
  unfolding js_trim_def using length_dropWhile_le[of is_space] by (metis length_rev order_trans)

lemma wrapped_length: "wrapped e \<Longrightarrow> 2 \<le> length e"
  by (cases e; cases "tl e") (auto simp: wrapped_def)

function unwrap_loop :: "jsstring \<Rightarrow> jsstring" where
  "unwrap_loop e = (if wrapped e then unwrap_loop (js_trim (tl (butlast e))) else e)"
  by pat_completeness auto
termination
proof (relation "measure length", simp)
  fix e assume "wrapped e"
  then show "(js_trim (tl (butlast e)), e) \<in> measure length"
    using length_js_trim[of "tl (butlast e)"] wrapped_length[of e] by simp
qed

declare unwrap_loop.simps [simp del]

definition unwrapExpressionParens :: "jsstring \<Rightarrow> jsstring" where
  "unwrapExpressionParens source = unwrap_loop (js_trim source)"

subsection \<open>Splitting loses only white space and operators\<close>

lemma js_join_snoc:
  "parts \<noteq> [] \<Longrightarrow> js_join (parts @ [x]) sep = js_join parts sep @ sep @ x"
  by (induction parts sep rule: js_join.induct) auto

lemma js_join_last:
  "js_join (parts @ [x @ y]) sep = js_join (parts @ [x]) sep @ y"
  by (cases "parts = []") (auto simp: js_join_snoc)

lemma startsWith_drop:
  assumes "js_startsWith (c # s) op" "op \<noteq> []"
  shows "c # s = op @ drop (length op - 1) s"
  using assms unfolding js_startsWith_def by (cases op) (auto, metis append_take_drop_id)

lemma split_scan_join:
  "op \<noteq> [] \<Longrightarrow> split_scan op s cur d quote parts = Some raw \<Longrightarrow>
     js_join raw op = js_join (parts @ [cur]) op @ s"
proof (induction op s cur d quote parts rule: split_scan.induct)
  case (2 op c s cur d q parts)
  then show ?case
    by (auto simp: js_join_last[of _ cur] split: if_splits list.splits)
next
  case (3 op c s cur d parts)
  show ?case
  proof (cases "c \<noteq> DQ \<and> c \<noteq> SQ \<and> step_depth c d = 0 \<and> c \<noteq> 63 \<and> js_startsWith (c # s) op")
    case True
    then have eq: "c # s = op @ drop (length op - 1) s" using startsWith_drop 3(5) by blast
    have "split_scan op (drop (length op - 1) s) [] 0 None (parts @ [cur]) = Some raw"
      using 3(6) True by (simp add: Let_def)
    then have "js_join raw op = js_join ((parts @ [cur]) @ [[]]) op @ drop (length op - 1) s"
      using 3(3)[of 0] True 3(5) by simp
    then show ?thesis using eq js_join_snoc[of "parts @ [cur]" "[]" op] by simp
  next
    case False
    then show ?thesis using 3 by (auto simp: js_join_last[of _ cur] Let_def split: if_splits)
  qed
qed simp

lemma split_scan_shift:
  "split_scan op s cur d quote parts
     = map_option (\<lambda>raw. parts @ (cur @ hd raw) # tl raw) (split_scan op s [] d quote [])"
proof (induction "length s" arbitrary: s cur d quote parts rule: less_induct)
  case less
  show ?case
  proof (cases s)
    case (Cons c t)
    have step: "split_scan op u (cur @ x) d2 q2 parts
        = map_option (\<lambda>raw. parts @ (cur @ hd raw) # tl raw) (split_scan op u x d2 q2 [])"
      if u: "length u < length s" for u x d2 q2
    proof -
      have "split_scan op u (cur @ x) d2 q2 parts
          = map_option (\<lambda>raw. parts @ ((cur @ x) @ hd raw) # tl raw) (split_scan op u [] d2 q2 [])"
        by (rule less[OF u])
      moreover have "split_scan op u x d2 q2 []
          = map_option (\<lambda>raw. [] @ (x @ hd raw) # tl raw) (split_scan op u [] d2 q2 [])"
        by (rule less[OF u])
      ultimately show ?thesis by (simp only: option.map_comp) (simp add: comp_def)
    qed
    have cut: "split_scan op u [] d2 q2 (parts @ [cur])
        = map_option (\<lambda>raw. parts @ (cur @ hd raw) # tl raw) (split_scan op u [] d2 q2 [[]])"
      if u: "length u < length s" for u d2 q2
    proof -
      have "split_scan op u [] d2 q2 (parts @ [cur])
          = map_option (\<lambda>raw. (parts @ [cur]) @ ([] @ hd raw) # tl raw) (split_scan op u [] d2 q2 [])"
        by (rule less[OF u])
      moreover have "split_scan op u [] d2 q2 [[]]
          = map_option (\<lambda>raw. [[]] @ ([] @ hd raw) # tl raw) (split_scan op u [] d2 q2 [])"
        by (rule less[OF u])
      ultimately show ?thesis by (simp only: option.map_comp) (simp add: comp_def)
    qed
    show ?thesis
    proof (cases quote)
      case None
      have "length (drop (length op - 1) t) < length s" using Cons by simp
      with None show ?thesis using step[of t "[c]"] cut by (simp add: Cons Let_def)
    next
      case (Some q)
      then show ?thesis using step[of t "[c]"] step[of "tl t" "[c, hd t]"]
        by (cases t; cases "c = BSL") (simp_all add: Cons)
    qed
  qed simp
qed

text \<open>
  \<open>atom op d quote s\<close>: scanning \<open>s\<close> from depth \<open>d\<close> meets neither the operator
  nor a question mark at the top level.
\<close>

definition atom :: "jsstring \<Rightarrow> int \<Rightarrow> unit16 option \<Rightarrow> jsstring \<Rightarrow> bool" where
  "atom op d quote s \<longleftrightarrow> split_scan op s [] d quote [] = Some [s]"

lemma split_scan_nonempty: "split_scan op s cur d quote parts = Some raw \<Longrightarrow> raw \<noteq> []"
  by (induction op s cur d quote parts rule: split_scan.induct)
     (auto simp: Let_def split: if_splits list.splits)

lemma scan_cur:
  "split_scan op s [c] d quote [] = Some raw \<longleftrightarrow>
     (\<exists>seg rest. raw = (c # seg) # rest \<and> split_scan op s [] d quote [] = Some (seg # rest))"
proof -
  have "split_scan op s [c] d quote [] = map_option (\<lambda>raw. (c # hd raw) # tl raw) (split_scan op s [] d quote [])"
    using split_scan_shift[of op s "[c]" d quote "[]"] by simp
  then show ?thesis
    using split_scan_nonempty[of op s "[]" d quote "[]"]
    by (cases "split_scan op s [] d quote []") (auto simp: neq_Nil_conv)
qed

lemma scan_cut:
  "split_scan op s [] d quote [[]] = Some raw \<longleftrightarrow>
     (\<exists>rest. raw = [] # rest \<and> split_scan op s [] d quote [] = Some rest)"
proof -
  have "split_scan op s [] d quote [[]] = map_option (\<lambda>raw. [] # hd raw # tl raw) (split_scan op s [] d quote [])"
    using split_scan_shift[of op s "[]" d quote "[[]]"] by simp
  then show ?thesis
    using split_scan_nonempty[of op s "[]" d quote "[]"]
    by (cases "split_scan op s [] d quote []") (auto simp: neq_Nil_conv)
qed

lemma scan_pair:
  "split_scan op s [c, e] d quote [] = Some raw \<longleftrightarrow>
     (\<exists>seg rest. raw = (c # e # seg) # rest \<and> split_scan op s [] d quote [] = Some (seg # rest))"
proof -
  have "split_scan op s [c, e] d quote []
      = map_option (\<lambda>raw. (c # e # hd raw) # tl raw) (split_scan op s [] d quote [])"
    using split_scan_shift[of op s "[c, e]" d quote "[]"] by simp
  then show ?thesis
    using split_scan_nonempty[of op s "[]" d quote "[]"]
    by (cases "split_scan op s [] d quote []") (auto simp: neq_Nil_conv)
qed

lemma atom_Cons_None:
  "atom op d None (c # s) \<longleftrightarrow>
     (if c = DQ \<or> c = SQ then atom op d (Some c) s
      else if step_depth c d \<noteq> 0 then atom op (step_depth c d) None s
      else c \<noteq> 63 \<and> \<not> js_startsWith (c # s) op \<and> atom op 0 None s)"
  using scan_cut[of op "drop (length op - 1) s" 0 None "[c # s]"]
  by (auto simp: atom_def Let_def scan_cur)

lemma atom_Cons_Some:
  "atom op d (Some q) (c # s) \<longleftrightarrow>
     (if c = BSL then (s = [] \<or> atom op d (Some q) (tl s))
      else atom op d (if c = q then None else Some q) s)"
  by (cases s) (auto simp: atom_def scan_cur scan_pair)

lemma atom_Nil [simp]: "atom op d quote []"
  by (simp add: atom_def)

lemma startsWith_prefix: "js_startsWith a op \<Longrightarrow> js_startsWith (a @ b) op"
  by (metis append_eq_conv_conj append_assoc js_startsWith_def)

lemma atom_prefix: "atom op d quote (t @ u) \<Longrightarrow> atom op d quote t"
proof (induction "length t" arbitrary: t d quote rule: less_induct)
  case less
  show ?case
  proof (cases t)
    case (Cons c s)
    show ?thesis
    proof (cases quote)
      case None
      then show ?thesis
        using less startsWith_prefix[of "c # s" op u] by (auto simp: Cons atom_Cons_None split: if_splits)
    next
      case (Some q)
      then show ?thesis
        using less by (cases s) (auto simp: Cons atom_Cons_Some split: if_splits)
    qed
  qed simp
qed

lemma scan_prefix:
  assumes "op \<noteq> []" "split_scan op s [] d quote [] = Some (seg # rest)"
  shows "\<exists>u. s = seg @ u"
  using split_scan_join[OF assms] by (cases rest) auto

lemma first_part_atom:
  assumes "op \<noteq> []"
  shows "split_scan op s [] d quote [] = Some (seg # rest) \<Longrightarrow> atom op d quote seg"
proof (induction "length s" arbitrary: s d quote seg rest rule: less_induct)
  case less
  show ?case
  proof (cases s)
    case Nil
    then show ?thesis using less.prems by simp
  next
    case (Cons c t)
    have IH: "split_scan op t [] d2 q2 [] = Some (sg # r) \<Longrightarrow> atom op d2 q2 sg" for d2 q2 sg r
      using less(1)[of t] Cons by simp
    have IH2: "t = e # u \<Longrightarrow> split_scan op u [] d2 q2 [] = Some (sg # r) \<Longrightarrow> atom op d2 q2 sg" for e u d2 q2 sg r
      using less(1)[of u] Cons by simp
    show ?thesis
    proof (cases quote)
      case None
      consider (q) "c = DQ \<or> c = SQ" | (deep) "c \<noteq> DQ" "c \<noteq> SQ" "step_depth c d \<noteq> 0"
        | (flat) "c \<noteq> DQ" "c \<noteq> SQ" "step_depth c d = 0" by blast
      then show ?thesis
      proof cases
        case flat
        then have "c \<noteq> 63" using less.prems None Cons by (auto simp: Let_def)
        show ?thesis
        proof (cases "js_startsWith (c # t) op")
          case True
          then show ?thesis using less.prems None Cons flat \<open>c \<noteq> 63\<close> by (auto simp: Let_def scan_cut)
        next
          case False
          then obtain seg2 where seg: "seg = c # seg2" "split_scan op t [] 0 None [] = Some (seg2 # rest)"
            using less.prems None Cons flat \<open>c \<noteq> 63\<close> by (auto simp: Let_def scan_cur)
          obtain u where "t = seg2 @ u" using scan_prefix[OF assms seg(2)] by blast
          then have "\<not> js_startsWith (c # seg2) op" using False startsWith_prefix[of "c # seg2" op u] by auto
          then show ?thesis using seg IH[OF seg(2)] flat None Cons \<open>c \<noteq> 63\<close> by (simp add: atom_Cons_None)
        qed
      qed (use less.prems IH None Cons in \<open>auto simp: Let_def scan_cur atom_Cons_None\<close>)
    next
      case (Some q)
      show ?thesis
      proof (cases "c = BSL")
        case True
        then show ?thesis using less.prems IH2 Some Cons
          by (cases t) (auto simp: scan_pair atom_Cons_Some)
      next
        case False
        then show ?thesis using less.prems IH Some Cons by (auto simp: scan_cur atom_Cons_Some)
      qed
    qed
  qed
qed

lemma later_parts_atom:
  assumes "op \<noteq> []"
  shows "split_scan op s [] d quote [] = Some (seg # rest) \<Longrightarrow> list_all (atom op 0 None) rest"
proof (induction "length s" arbitrary: s d quote seg rest rule: less_induct)
  case less
  show ?case
  proof (cases s)
    case Nil
    then show ?thesis using less.prems by simp
  next
    case (Cons c t)
    have IH: "split_scan op u [] d2 q2 [] = Some (sg # r) \<Longrightarrow> list_all (atom op 0 None) r"
      if "length u \<le> length t" for u d2 q2 sg r
      using less(1)[of u] Cons that by simp
    show ?thesis
    proof (cases quote)
      case None
      have "list_all (atom op 0 None) rest"
        if "split_scan op (drop (length op - 1) t) [] 0 None [] = Some rest"
        using that IH[of "drop (length op - 1) t"] first_part_atom[OF assms] split_scan_nonempty[OF that]
        by (cases rest) auto
      then show ?thesis using less.prems IH[of t] None Cons
        by (auto simp: Let_def scan_cur scan_cut split: if_splits)
    next
      case (Some q)
      show ?thesis
      proof (cases "c = BSL")
        case True
        then show ?thesis using less.prems IH[of "tl t"] Cons Some by (cases t) (auto simp: scan_pair)
      next
        case False
        then show ?thesis using less.prems IH[of t] Cons Some by (auto simp: scan_cur)
      qed
    qed
  qed
qed

lemma space_scan: "is_space c \<Longrightarrow> c \<noteq> DQ \<and> c \<noteq> SQ \<and> c \<noteq> 63 \<and> step_depth c 0 = 0"
  by (auto simp: step_depth_def opens_def closes_def is_space_def Let_def)

lemma atom_skip_space: "atom op 0 None (a @ s) \<Longrightarrow> \<forall>c \<in> set a. is_space c \<Longrightarrow> atom op 0 None s"
  by (induction a) (auto simp: atom_Cons_None dest!: space_scan)

lemma atom_trim: "atom op 0 None s \<Longrightarrow> atom op 0 None (js_trim s)"
  using js_trim_parts[of s] atom_skip_space atom_prefix by (metis UnI1)

lemma atom_split: "atom op 0 None s \<Longrightarrow> trimmed s \<Longrightarrow> s \<noteq> [] \<Longrightarrow> splitExpressionAtTopLevel s op = [s]"
  by (simp add: atom_def splitExpressionAtTopLevel_def)

lemma split_parts:
  assumes "op \<noteq> []" "split_scan op source [] 0 None [] = Some raw"
  shows "js_join raw op = source" "list_all (atom op 0 None) raw"
    "splitExpressionAtTopLevel source op = filter (\<lambda>p. p \<noteq> []) (map js_trim raw)"
proof -
  show "js_join raw op = source" using split_scan_join[OF assms] by simp
  show "list_all (atom op 0 None) raw"
    using first_part_atom[OF assms(1)] later_parts_atom[OF assms(1)] assms(2) split_scan_nonempty[OF assms(2)]
    by (cases raw) auto
  show "splitExpressionAtTopLevel source op = filter (\<lambda>p. p \<noteq> []) (map js_trim raw)"
    by (simp add: splitExpressionAtTopLevel_def assms(2))
qed

text \<open>
  Splitting is lossless and final. When the source has no top-level question mark, it is the
  operator-joined list of its raw segments; the function returns the trimmed non-empty segments; and
  splitting a returned part again returns just that part.
\<close>
theorem split_lossless:
  assumes "op \<noteq> []" "split_scan op source [] 0 None [] = Some raw"
  shows "js_join raw op = source
    \<and> splitExpressionAtTopLevel source op = filter (\<lambda>p. p \<noteq> []) (map js_trim raw)
    \<and> list_all (\<lambda>p. splitExpressionAtTopLevel p op = [p]) (splitExpressionAtTopLevel source op)"
  using split_parts[OF assms] atom_split[OF atom_trim] by (auto simp: list_all_iff)

theorem split_lossless_witness:
  "list_all (\<lambda>p. splitExpressionAtTopLevel p (js ''*'') = [p])
     (splitExpressionAtTopLevel (js ''(a * b) * c'') (js ''*''))"
  using split_lossless[of "js ''*''" "js ''(a * b) * c''" "[js ''(a * b) '', js '' c'']"]
  by (simp, code_simp)

definition stripped :: "jsstring \<Rightarrow> jsstring \<Rightarrow> bool" where
  "stripped s r \<longleftrightarrow> (\<exists>a b. s = a @ r @ b
     \<and> list_all (\<lambda>c. c = 40 \<or> is_space c) a \<and> list_all (\<lambda>c. c = 41 \<or> is_space c) b)"

lemma stripped_refl: "stripped s s"
  by (auto simp: stripped_def intro!: exI[of _ "[]"])

lemma stripped_trim: "stripped s (js_trim s)"
  using js_trim_parts[of s] unfolding stripped_def list_all_iff by blast

lemma stripped_trans: "stripped a b \<Longrightarrow> stripped b c \<Longrightarrow> stripped a c"
proof -
  assume "stripped a b" "stripped b c"
  then obtain u v w x where "a = u @ b @ v" "b = w @ c @ x"
      "list_all (\<lambda>c. c = 40 \<or> is_space c) u" "list_all (\<lambda>c. c = 41 \<or> is_space c) v"
      "list_all (\<lambda>c. c = 40 \<or> is_space c) w" "list_all (\<lambda>c. c = 41 \<or> is_space c) x"
    unfolding stripped_def by blast
  then show ?thesis unfolding stripped_def
    by (intro exI[of _ "u @ w"] exI[of _ "x @ v"]) simp
qed

lemma stripped_parens: "wrapped e \<Longrightarrow> stripped e (tl (butlast e))"
proof -
  assume w: "wrapped e"
  have "e = 40 # tl (butlast e) @ [41]"
    using w wrapped_length[OF w]
    by (cases e; cases "butlast e") (auto simp: wrapped_def split: if_splits dest: append_butlast_last_id)
  then have "e = [40] @ tl (butlast e) @ [41]" by simp
  then show ?thesis unfolding stripped_def
    by (intro exI[of _ "[40]"] exI[of _ "[41]"]) auto
qed

lemma unwrap_loop_canonical:
  "trimmed e \<Longrightarrow> trimmed (unwrap_loop e) \<and> \<not> wrapped (unwrap_loop e) \<and> stripped e (unwrap_loop e)"
proof (induction e rule: unwrap_loop.induct)
  case (1 e)
  show ?case
  proof (cases "wrapped e")
    case True
    then have eq: "unwrap_loop e = unwrap_loop (js_trim (tl (butlast e)))"
      by (simp add: unwrap_loop.simps[of e])
    show ?thesis unfolding eq
      using 1(1)[OF True] stripped_trans[OF stripped_parens[OF True] stripped_trim]
      by (auto intro: stripped_trans)
  next
    case False
    then show ?thesis using 1(2) stripped_refl by (simp add: unwrap_loop.simps[of e])
  qed
qed

text \<open>
  Unwrapping removes exactly the outer parentheses: the result is trimmed, it is no longer wrapped
  in a matching pair, unwrapping it again changes nothing, and what was removed on either side is only
  parentheses and white space.
\<close>
theorem unwrap_canonical:
  "trimmed (unwrapExpressionParens source) \<and> \<not> wrapped (unwrapExpressionParens source)
    \<and> unwrapExpressionParens (unwrapExpressionParens source) = unwrapExpressionParens source
    \<and> stripped source (unwrapExpressionParens source)"
proof -
  let ?u = "unwrapExpressionParens source"
  have u: "trimmed ?u" "\<not> wrapped ?u" "stripped (js_trim source) ?u"
    using unwrap_loop_canonical[of "js_trim source"] by (auto simp: unwrapExpressionParens_def)
  have "unwrapExpressionParens ?u = ?u" using u by (simp add: unwrapExpressionParens_def unwrap_loop.simps)
  then show ?thesis using u stripped_trans[OF stripped_trim] by blast
qed

end
