(* ===== verification/BillingDisplay.thy ===== *)
theory BillingDisplay
  imports BillingContracts
begin

section \<open>Billing expressions: price tables for display\<close>

text \<open>
  Model of \<^verbatim>\<open>web/src/features/pricing/lib/billing-expression/display.ts\<close>: the readers that turn a
  compiled tree into the rows of a price table (\<open>readTokenTierChain\<close>,
  \<open>readTimeTokenPricing\<close>, \<open>readTaskTierChain\<close>). A reader returns \<open>None\<close> where the
  program returns \<open>null\<close>; a property read of a missing argument throws, so readers are
  fallible.

  The main result relates the table to the interpreter: the tier that an evaluation prices is the
  first row whose conditions hold (\<open>chain_first_match\<close>), for requests that pass the group and
  channel guards, which the reader strips from the table (\<open>guards_hold\<close>).
\<close>

subsection \<open>Rows\<close>

record token_condition =
  tc_var :: jsstring
  tc_op :: jsstring
  tc_value :: jsnum

record token_tier =
  tt_label :: jsstring
  tt_conditions :: "token_condition list"
  tt_prices :: "(jsstring \<times> jsnum) list"
  tt_billingUnit :: "billing_unit option"
  tt_fixedPrice :: "jsnum option"

fun flattenBinary :: "node \<Rightarrow> jsstring \<Rightarrow> node list" where
  "flattenBinary (Binary op a b s e) operator =
    (if op \<noteq> operator then [Binary op a b s e]
     else flattenBinary a operator @ flattenBinary b operator)"
| "flattenBinary n operator = [n]"

lemma flattenBinary_size: "m \<in> set (flattenBinary n op) \<Longrightarrow> size m \<le> size n"
  by (induction n op rule: flattenBinary.induct) (auto split: if_splits)

lemma flattenBinary_smaller [termination_simp]:
  "m \<in> set (flattenBinary (Binary op a b s e) op) \<Longrightarrow> size m < size (Binary op a b s e)"
  using flattenBinary_size[of m a op] flattenBinary_size[of m b op] by auto

text \<open>\<open>node.args[i].kind\<close> throws when the argument is missing.\<close>

definition arg_at :: "node list \<Rightarrow> nat \<Rightarrow> node res" where
  "arg_at args i = (if i < length args then Inr (args ! i) else Inl (undefined_read ''kind''))"

definition token_ops :: "jsstring list" where
  "token_ops = map js [''<'', ''<='', ''>'', ''>='']"

definition token_probes :: "jsstring list" where
  "token_probes = map js [''p'', ''c'', ''len'']"

fun tokenCondition :: "node \<Rightarrow> token_condition option" where
  "tokenCondition (Binary op (Variable x s1 e1) (Literal (VNum v) i s2 e2) s e) =
    (if op \<in> set token_ops \<and> x \<in> set token_probes \<and> \<not> js_lt v (Fin 0)
     then Some \<lparr>tc_var = x, tc_op = op, tc_value = v\<rparr> else None)"
| "tokenCondition n = None"

fun collect_options :: "('a \<Rightarrow> 'b option) \<Rightarrow> 'a list \<Rightarrow> 'b list option" where
  "collect_options f [] = Some []"
| "collect_options f (x # xs) =
    (case f x of None \<Rightarrow> None
     | Some y \<Rightarrow> (case collect_options f xs of None \<Rightarrow> None | Some ys \<Rightarrow> Some (y # ys)))"

definition tokenConditions :: "node \<Rightarrow> token_condition list option" where
  "tokenConditions n = collect_options tokenCondition (flattenBinary n (js ''&&''))"

fun nonnegativePriceLiteral :: "node \<Rightarrow> jsnum option" where
  "nonnegativePriceLiteral (Literal (VNum v) i s e) = (if js_le (Fin 0) v then Some v else None)"
| "nonnegativePriceLiteral (Unary op (Literal (VNum v) i s1 e1) s e) =
    (if op = js ''-'' \<and> js_num_eq v (Fin 0) then Some NegZero else None)"
| "nonnegativePriceLiteral n = None"

text \<open>One pass of the loop over the terms of a tier.\<close>

fun price_term :: "(jsstring \<times> jsnum) list \<Rightarrow> node \<Rightarrow> (jsstring \<times> jsnum) list option" where
  "price_term prices (Binary op (Variable x s1 e1) r s e) =
    (if op \<noteq> js ''*'' \<or> x = js ''len'' then None
     else
       case nonnegativePriceLiteral r of
         None \<Rightarrow> None
       | Some v \<Rightarrow>
           if map_of prices x \<noteq> None then None else Some (map_set x v prices))"
| "price_term prices n = None"

fun price_terms :: "node list \<Rightarrow> (jsstring \<times> jsnum) list \<Rightarrow> (jsstring \<times> jsnum) list option" where
  "price_terms [] prices = Some prices"
| "price_terms (n # ns) prices =
    (case price_term prices n of None \<Rightarrow> None | Some p \<Rightarrow> price_terms ns p)"

text \<open>\<open>body.kind === 'call' && body.name === 'fixed' && typeof body.args[0].value === 'number'\<close>.\<close>

definition fixed_amount :: "node \<Rightarrow> jsnum option res" where
  "fixed_amount body =
    (case body of
       Call f args s e \<Rightarrow>
         if f = js ''fixed'' then
           sbind (arg_at args 0) (\<lambda>a.
           Inr (case a of Literal (VNum v) i s1 e1 \<Rightarrow> Some v | _ \<Rightarrow> None))
         else Inr None
     | _ \<Rightarrow> Inr None)"

definition tier_label :: "node \<Rightarrow> jsstring option" where
  "tier_label n =
    (case n of
       Call f (Literal (VStr label) i s1 e1 # args) s e \<Rightarrow>
         if f = js ''tier'' then Some label else None
     | _ \<Rightarrow> None)"

definition tokenTier :: "node \<Rightarrow> token_condition list \<Rightarrow> token_tier option res" where
  "tokenTier n conditions =
    (case tier_label n of
       None \<Rightarrow> Inr None
     | Some label \<Rightarrow>
         sbind (arg_at (call_args n) 1) (\<lambda>body.
         sbind (fixed_amount body) (\<lambda>fixed.
         case fixed of
           Some amount \<Rightarrow>
             Inr (Some \<lparr>tt_label = label, tt_conditions = conditions, tt_prices = [],
               tt_billingUnit = Some RequestUnit, tt_fixedPrice = Some amount\<rparr>)
         | None \<Rightarrow>
             Inr (case price_terms (flattenBinary body (js ''+'')) [] of
                    None \<Rightarrow> None
                  | Some prices \<Rightarrow>
                      if prices = [] then None
                      else Some \<lparr>tt_label = label, tt_conditions = conditions, tt_prices = prices,
                             tt_billingUnit = None, tt_fixedPrice = None\<rparr>))))"

subsection \<open>Tier chains\<close>

fun is_context_node :: "node \<Rightarrow> bool" where
  "is_context_node (Context x s e) = True"
| "is_context_node n = False"

fun is_comparable_node :: "node \<Rightarrow> bool" where
  "is_comparable_node (Context x s e) = True"
| "is_comparable_node (Literal v i s e) = True"
| "is_comparable_node (Variable x s e) = True"
| "is_comparable_node n = False"

fun isContextGuard :: "node \<Rightarrow> bool" where
  "isContextGuard (Binary op a b s e) =
    (if op \<notin> set (map js [''=='', ''!='', ''==='', ''!=='']) then False
     else (is_context_node a \<or> is_context_node b) \<and> is_comparable_node a \<and> is_comparable_node b)"
| "isContextGuard n = False"

text \<open>The \<open>while\<close> loop over the conditional chain.\<close>

fun chain_loop :: "node \<Rightarrow> token_tier list \<Rightarrow> token_tier list option res" where
  "chain_loop (Conditional c a b s e) tiers =
    (case tokenConditions c of
       None \<Rightarrow> Inr None
     | Some conditions \<Rightarrow>
         sbind (tokenTier a conditions) (\<lambda>t.
         case t of None \<Rightarrow> Inr None | Some tier \<Rightarrow> chain_loop b (tiers @ [tier])))"
| "chain_loop n tiers =
    sbind (tokenTier n []) (\<lambda>t. Inr (case t of None \<Rightarrow> None | Some tier \<Rightarrow> Some (tiers @ [tier])))"

fun readTokenTierChain :: "node \<Rightarrow> token_tier list option res" where
  "readTokenTierChain (Conditional c a b s e) =
    (if isContextGuard c then
       sbind (readTokenTierChain a) (\<lambda>guarded.
       case guarded of
         Some tiers \<Rightarrow> Inr (Some tiers)
       | None \<Rightarrow> chain_loop (Conditional c a b s e) [])
     else chain_loop (Conditional c a b s e) [])"
| "readTokenTierChain n = chain_loop n []"

subsection \<open>Time-dependent tables\<close>

definition isTimeCondition :: "node \<Rightarrow> bool res" where
  "isTimeCondition n =
    sbind (expressionDependencies n) (\<lambda>d.
    Inr (dep_variables d = []
      \<and> list_ex (\<lambda>name. name \<in> set TIME_FUNCTIONS) (dep_functions d)
      \<and> list_all (\<lambda>name. name \<in> set TIME_FUNCTIONS
          \<or> name \<in> set (map js [''min'', ''max'', ''abs'', ''ceil'', ''floor''])) (dep_functions d)))"

record time_tier =
  ti_tier :: token_tier
  ti_conditionText :: jsstring
  ti_timeConditions :: "(node \<times> bool) list"

definition condition_text :: "token_condition \<Rightarrow> jsstring" where
  "condition_text c = tc_var c @ js '' '' @ tc_op c @ js '' '' @ js_String_num (tc_value c)"

definition time_description :: "jsstring \<Rightarrow> (node \<times> bool) list \<Rightarrow> jsstring" where
  "time_description source path =
    js_join (map (\<lambda>(c, matches).
      (if matches then js ''('' else js ''!('') @ js_slice source (nstart c) (nend c) @ js '')'') path)
      (js '' && '')"

definition time_rows :: "compiled \<Rightarrow> node \<Rightarrow> (node \<times> bool) list \<Rightarrow> time_tier list option res" where
  "time_rows compiled n path =
    sbind (readTokenTierChain n) (\<lambda>tiers.
    Inr (case tiers of
           None \<Rightarrow> None
         | Some ts \<Rightarrow>
             if path = [] then None
             else Some (map (\<lambda>tier. \<lparr>ti_tier = tier,
                    ti_conditionText = js_join (time_description (c_source compiled) path
                      # map condition_text (tt_conditions tier)) (js '' && ''),
                    ti_timeConditions = path\<rparr>) ts)))"

fun timeTierBranches :: "compiled \<Rightarrow> node \<Rightarrow> (node \<times> bool) list \<Rightarrow> time_tier list option res" where
  "timeTierBranches compiled (Conditional c a b s e) path =
    sbind (isTimeCondition c) (\<lambda>time.
    if time then
      sbind (timeTierBranches compiled a (path @ [(c, True)])) (\<lambda>yes.
      sbind (timeTierBranches compiled b (path @ [(c, False)])) (\<lambda>no.
      Inr (case (yes, no) of (Some ys, Some ns) \<Rightarrow> Some (ys @ ns) | _ \<Rightarrow> None)))
    else time_rows compiled (Conditional c a b s e) path)"
| "timeTierBranches compiled n path = time_rows compiled n path"

definition current_tiers :: "host \<Rightarrow> compiled \<Rightarrow> int option \<Rightarrow> time_tier list \<Rightarrow> time_tier list" where
  "current_tiers h compiled now tiers =
    filter (\<lambda>tier. list_all (\<lambda>(c, matches). evaluateBillingCondition h compiled c now = Some matches)
      (ti_timeConditions tier)) tiers"

text \<open>The argument \<open>now\<close> is absent (\<open>None\<close>) or a date.\<close>

definition readTimeTokenPricing ::
  "host \<Rightarrow> jsstring \<Rightarrow> int option option \<Rightarrow> cache
     \<Rightarrow> ((time_tier list \<times> time_tier list) option res) \<times> cache" where
  "readTimeTokenPricing h source now compiledCache =
    (let (compilation, cache1) = compileBillingExpression source compiledCache in
     (case compilation of
        Failed f \<Rightarrow> Inr None
      | Ready compiled \<Rightarrow>
          sbind (timeTierBranches compiled (c_ast compiled) []) (\<lambda>tiers.
          Inr (case tiers of
                 None \<Rightarrow> None
               | Some ts \<Rightarrow> Some (ts, case now of None \<Rightarrow> []
                   | Some date \<Rightarrow> current_tiers h compiled date ts))), cache1))"

subsection \<open>Task tables\<close>

text \<open>One field of \<open>BillingUsageSchema\<close>; the schema is an association list.\<close>

record field_schema =
  fs_type :: "jsstring option"
  fs_unit :: "jsstring option"
  fs_enum :: "jsstring list option"

type_synonym usage_schema = "(jsstring \<times> field_schema) list"

record task_tier =
  kt_label :: jsstring
  kt_conditions :: "(jsstring \<times> jsstring) list"
  kt_constant :: jsnum
  kt_unitPrices :: "(jsstring \<times> jsnum) list"

text \<open>The field name of a node \<open>u("field")\<close>.\<close>

definition usage_field :: "node \<Rightarrow> jsstring option res" where
  "usage_field n =
    (case n of
       Call f args s e \<Rightarrow>
         if f \<noteq> js ''u'' then Inr None
         else sbind (arg_at args 0) (\<lambda>a.
              Inr (case a of Literal (VStr field) i s1 e1 \<Rightarrow> Some field | _ \<Rightarrow> None))
     | _ \<Rightarrow> Inr None)"

definition task_value :: "usage_schema \<Rightarrow> bool \<Rightarrow> jsstring \<Rightarrow> jsval \<Rightarrow> (jsstring \<times> jsstring) option" where
  "task_value schema includeBoolean field v =
    (let definition = map_of schema field in
     if (case definition of Some d \<Rightarrow> fs_type d = Some (js ''boolean'') | None \<Rightarrow> False) then
       (case v of
          VBool b \<Rightarrow> if includeBoolean then Some (field, if b then js ''true'' else js ''false'') else None
        | _ \<Rightarrow> None)
     else
       (case v of
          VStr value \<Rightarrow>
            (case definition of
               Some d \<Rightarrow> (case fs_enum d of
                   Some values \<Rightarrow> if value \<in> set values then Some (field, value) else None
                 | None \<Rightarrow> None)
             | None \<Rightarrow> None)
        | _ \<Rightarrow> None))"

fun taskCondition :: "usage_schema \<Rightarrow> bool \<Rightarrow> node \<Rightarrow> (jsstring \<times> jsstring) option res" where
  "taskCondition schema includeBoolean (Binary op l r s e) =
    (if op \<noteq> js ''=='' then Inr None
     else
       sbind (usage_field l) (\<lambda>field.
       Inr (case (field, r) of
              (Some f, Literal v i s1 e1) \<Rightarrow> task_value schema includeBoolean f v
            | _ \<Rightarrow> None)))"
| "taskCondition schema includeBoolean n = Inr None"

fun taskConditions_loop ::
  "usage_schema \<Rightarrow> bool \<Rightarrow> node list \<Rightarrow> (jsstring \<times> jsstring) list \<Rightarrow> (jsstring \<times> jsstring) list option res" where
  "taskConditions_loop schema includeBoolean [] conditions = Inr (Some conditions)"
| "taskConditions_loop schema includeBoolean (n # ns) conditions =
    sbind (taskCondition schema includeBoolean n) (\<lambda>c.
    case c of None \<Rightarrow> Inr None
    | Some x \<Rightarrow> taskConditions_loop schema includeBoolean ns (conditions @ [x]))"

definition taskConditions :: "usage_schema \<Rightarrow> bool \<Rightarrow> node \<Rightarrow> (jsstring \<times> jsstring) list option res" where
  "taskConditions schema includeBoolean n =
     taskConditions_loop schema includeBoolean (flattenBinary n (js ''&&'')) []"

text \<open>
  The state of the loop over the terms of a task tier: the constant, whether one was seen, and the
  unit prices. A term is a constant, \<open>u("field") * price\<close>, or the same divided by one million.
\<close>

type_synonym task_terms = "jsnum \<times> bool \<times> (jsstring \<times> jsnum) list"

definition unit_price_term ::
  "usage_schema \<Rightarrow> bool \<Rightarrow> node \<Rightarrow> (jsstring \<times> jsnum) list \<Rightarrow> (jsstring \<times> jsnum) list option res" where
  "unit_price_term schema scaled term unitPrices =
    (case term of
       Binary op l r s e \<Rightarrow>
         if op \<noteq> js ''*'' then Inr None
         else
           sbind (usage_field l) (\<lambda>field.
           Inr (case (field, nonnegativePriceLiteral r) of
                  (Some f, Some price) \<Rightarrow>
                    (case map_of schema f of
                       None \<Rightarrow> None
                     | Some d \<Rightarrow>
                         if fs_type d \<noteq> Some (js ''number'') \<or> fs_unit d = None \<or> fs_unit d = Some []
                            \<or> map_of unitPrices f \<noteq> None then None
                         else if (fs_unit d = Some (js ''token'')) \<noteq> scaled then None
                         else Some (map_set f price unitPrices))
                | _ \<Rightarrow> None))
     | _ \<Rightarrow> Inr None)"

definition task_term :: "usage_schema \<Rightarrow> node \<Rightarrow> task_terms \<Rightarrow> task_terms option res" where
  "task_term schema term acc =
    (case acc of (constant, hasConstant, unitPrices) \<Rightarrow>
       case nonnegativePriceLiteral term of
         Some literal \<Rightarrow> Inr (if hasConstant then None else Some (literal, True, unitPrices))
       | None \<Rightarrow>
           let keep = (\<lambda>scaled t. sbind (unit_price_term schema scaled t unitPrices) (\<lambda>u.
                 Inr (map_option (\<lambda>ps. (constant, hasConstant, ps)) u)))
           in case term of
                Binary op l r s e \<Rightarrow>
                  if op = js ''/'' then
                    (case r of
                       Literal (VNum v) i s1 e1 \<Rightarrow>
                         if js_num_eq v (Fin 1000000) then keep True l else Inr None
                     | _ \<Rightarrow> Inr None)
                  else keep False term
              | _ \<Rightarrow> keep False term)"

fun task_terms_loop :: "usage_schema \<Rightarrow> node list \<Rightarrow> task_terms \<Rightarrow> task_terms option res" where
  "task_terms_loop schema [] acc = Inr (Some acc)"
| "task_terms_loop schema (n # ns) acc =
    sbind (task_term schema n acc) (\<lambda>r.
    case r of None \<Rightarrow> Inr None | Some acc2 \<Rightarrow> task_terms_loop schema ns acc2)"

definition taskTier ::
  "node \<Rightarrow> (jsstring \<times> jsstring) list \<Rightarrow> usage_schema \<Rightarrow> task_tier option res" where
  "taskTier n conditions schema =
    (case n of
       Call f args s e \<Rightarrow>
         if f \<noteq> js ''tier'' then Inr None
         else
           sbind (arg_at args 0) (\<lambda>label.
           case label of
             Literal (VStr name) i s1 e1 \<Rightarrow>
               sbind (arg_at args 1) (\<lambda>body.
               sbind (task_terms_loop schema (flattenBinary body (js ''+'')) (Fin 0, False, [])) (\<lambda>r.
               Inr (case r of
                      None \<Rightarrow> None
                    | Some (constant, _, unitPrices) \<Rightarrow>
                        if unitPrices = [] then None
                        else Some \<lparr>kt_label = name, kt_conditions = conditions,
                               kt_constant = constant, kt_unitPrices = unitPrices\<rparr>)))
           | _ \<Rightarrow> Inr None)
     | _ \<Rightarrow> Inr None)"

fun task_chain_loop :: "usage_schema \<Rightarrow> bool \<Rightarrow> node \<Rightarrow> task_tier list \<Rightarrow> task_tier list option res" where
  "task_chain_loop schema includeBoolean (Conditional c a b s e) tiers =
    sbind (taskConditions schema includeBoolean c) (\<lambda>conditions.
    case conditions of
      None \<Rightarrow> Inr None
    | Some cs \<Rightarrow>
        sbind (taskTier a cs schema) (\<lambda>t.
        case t of None \<Rightarrow> Inr None
        | Some tier \<Rightarrow> task_chain_loop schema includeBoolean b (tiers @ [tier])))"
| "task_chain_loop schema includeBoolean n tiers =
    sbind (taskTier n [] schema) (\<lambda>t.
    Inr (case t of None \<Rightarrow> None | Some tier \<Rightarrow> Some (tiers @ [tier])))"

definition readTaskTierChain :: "node \<Rightarrow> usage_schema \<Rightarrow> bool \<Rightarrow> task_tier list option res" where
  "readTaskTierChain n schema includeBoolean = task_chain_loop schema includeBoolean n []"

subsection \<open>The table agrees with the interpreter\<close>

definition compare_numbers :: "jsstring \<Rightarrow> jsnum \<Rightarrow> jsnum \<Rightarrow> bool" where
  "compare_numbers op x y = (relational op (VNum x) (VNum y) = Some True)"

text \<open>A row's condition under the token counts of the context.\<close>

definition cond_holds :: "environment \<Rightarrow> token_condition \<Rightarrow> bool" where
  "cond_holds env c =
    (case token (e_context env) (tc_var c) of
       Some (VNum x) \<Rightarrow> compare_numbers (tc_op c) x (tc_value c)
     | _ \<Rightarrow> False)"

definition row_matches :: "environment \<Rightarrow> token_tier \<Rightarrow> bool" where
  "row_matches env t = list_all (cond_holds env) (tt_conditions t)"

text \<open>The pricing events of a run that prices row \<open>t\<close>.\<close>

definition row_events :: "token_tier \<Rightarrow> event list" where
  "row_events t = (case tt_fixedPrice t of Some x \<Rightarrow> [FixedHit x] | None \<Rightarrow> []) @ [TierHit (tt_label t)]"

lemma meaning_Variable:
  assumes "meaning env (Variable x s e) = Inr ((v, i), ev)"
  shows "ev = []" "\<exists>y. v = VNum y \<and> token (e_context env) x = Some (VNum y)"
proof -
  have "read_variable env x s = Inr (v, i)" "ev = []" using assms by (auto simp: meaning_Inr)
  then show "ev = []" "\<exists>y. v = VNum y \<and> token (e_context env) x = Some (VNum y)"
    by (auto simp: read_variable_def token_def split: option.splits jsval.splits if_splits)
qed

lemma meaning_Literal: "meaning env (Literal w j s e) = Inr ((v, i), ev) \<Longrightarrow> v = w \<and> i = j \<and> ev = []"
  by (simp add: meaning_Inr)

lemma meaning_strict:
  assumes "meaning env (Binary op a b s e) = Inr (v, ev)" "op \<noteq> js ''&&''" "op \<noteq> js ''||''"
  obtains va ea vb eb where "meaning env a = Inr (va, ea)" "meaning env b = Inr (vb, eb)" "ev = ea @ eb"
    "binary_values op va vb s = Inr v"
proof -
  from assms have "m_node env (meaning env) (Binary op a b s e) = Inr (v, ev)" by (simp add: meaning_Inr)
  then show ?thesis using assms(2,3) by (cases v) (auto simp: m_binary_def intro: that)
qed

lemma tokenCondition_cases:
  assumes "tokenCondition n = Some c"
  obtains s1 e1 i s2 e2 s e where
    "n = Binary (tc_op c) (Variable (tc_var c) s1 e1) (Literal (VNum (tc_value c)) i s2 e2) s e"
    "tc_op c \<in> set token_ops"
  using assms by (cases n rule: tokenCondition.cases) (auto split: if_splits)

lemma tokenCondition_meaning:
  assumes "tokenCondition n = Some c" "meaning env n = Inr ((v, i), ev)"
  shows "v = VBool (cond_holds env c) \<and> ev = []"
proof -
  from assms(1) obtain s1 e1 j s2 e2 s e where
    n: "n = Binary (tc_op c) (Variable (tc_var c) s1 e1) (Literal (VNum (tc_value c)) j s2 e2) s e"
    and op: "tc_op c \<in> set token_ops" by (rule tokenCondition_cases)
  have "tc_op c \<noteq> js ''&&''" "tc_op c \<noteq> js ''||''" using op by (auto simp: token_ops_def)
  then obtain va ea vb eb where
    parts: "meaning env (Variable (tc_var c) s1 e1) = Inr (va, ea)"
      "meaning env (Literal (VNum (tc_value c)) j s2 e2) = Inr (vb, eb)" "ev = ea @ eb"
      "binary_values (tc_op c) va vb s = Inr (v, i)"
    using meaning_strict[OF assms(2)[unfolded n]] by blast
  obtain y where y: "fst va = VNum y" "token (e_context env) (tc_var c) = Some (VNum y)" "ea = []"
    using meaning_Variable[of env "tc_var c" s1 e1 "fst va" "snd va" ea] parts(1) by auto
  have "vb = (VNum (tc_value c), j)" "eb = []" using parts(2) by (auto simp: meaning_Inr)
  then show ?thesis
    using y parts(3,4) op
    by (cases va) (auto simp: binary_values_def relational_def comparison_def cond_holds_def
        compare_numbers_def token_ops_def)
qed

lemma collect_options_append:
  "collect_options f (xs @ ys) = (case collect_options f xs of None \<Rightarrow> None
     | Some as \<Rightarrow> (case collect_options f ys of None \<Rightarrow> None | Some bs \<Rightarrow> Some (as @ bs)))"
  by (induction xs) (auto split: option.splits)

lemma conditions_meaning:
  assumes "collect_options tokenCondition (flattenBinary n (js ''&&'')) = Some cs"
    and "meaning env n = Inr ((v, i), ev)"
  shows "v = VBool (list_all (cond_holds env) cs) \<and> ev = []"
  using assms
proof (induction n arbitrary: cs v i ev rule: node_children_induct)
  case (node n)
  show ?case
  proof (cases "\<exists>a b s e. n = Binary (js ''&&'') a b s e")
    case True
    then obtain a b s e where n: "n = Binary (js ''&&'') a b s e" by blast
    obtain as bs where cs: "collect_options tokenCondition (flattenBinary a (js ''&&'')) = Some as"
        "collect_options tokenCondition (flattenBinary b (js ''&&'')) = Some bs" "cs = as @ bs"
      using node.prems(1) by (auto simp: n collect_options_append split: option.splits)
    have m: "m_binary (meaning env) (js ''&&'') a b s = Inr ((v, i), ev)"
      using node.prems(2) by (simp add: n meaning_Inr)
    then obtain t ia ea where a: "meaning env a = Inr ((VBool t, ia), ea)"
      by (auto simp: m_binary_def)
    have at: "t = list_all (cond_holds env) as" "ea = []" using node.IH[OF _ cs(1) a] n by auto
    show ?thesis
    proof (cases t)
      case True
      then obtain u ib eb where b: "meaning env b = Inr ((VBool u, ib), eb)" "v = VBool u" "ev = eb"
        using m a at(2) by (auto simp: m_binary_def)
      then show ?thesis using node.IH[OF _ cs(2) b(1)] n at True cs(3) by auto
    next
      case False
      then show ?thesis using m a at cs(3) by (auto simp: m_binary_def)
    qed
  next
    case False
    then have "flattenBinary n (js ''&&'') = [n]" by (cases n) auto
    then obtain c where "tokenCondition n = Some c" "cs = [c]"
      using node.prems(1) by (auto split: option.splits)
    then show ?thesis using tokenCondition_meaning[OF _ node.prems(2)] by auto
  qed
qed

lemma priceLiteral_silent:
  "nonnegativePriceLiteral n = Some x \<Longrightarrow> meaning env n = Inr (v, ev) \<Longrightarrow> ev = []"
  by (cases n rule: nonnegativePriceLiteral.cases) (auto simp: meaning_Inr split: if_splits)

lemma price_terms_append:
  "price_terms (xs @ ys) ps = (case price_terms xs ps of None \<Rightarrow> None | Some qs \<Rightarrow> price_terms ys qs)"
  by (induction xs arbitrary: ps) (auto split: option.splits)

lemma price_term_silent:
  assumes "price_term ps n = Some qs" "meaning env n = Inr (v, ev)"
  shows "ev = []"
proof (cases "(ps, n)" rule: price_term.cases)
  case (1 prices op x s1 e1 r s e)
  then have op: "op = js ''*''" and r: "\<exists>y. nonnegativePriceLiteral r = Some y"
    using assms(1) by (auto split: if_splits option.splits)
  have "meaning env (Binary op (Variable x s1 e1) r s e) = Inr (v, ev)" using 1 assms(2) by simp
  then obtain va ea vb eb where parts: "meaning env (Variable x s1 e1) = Inr (va, ea)"
      "meaning env r = Inr (vb, eb)" "ev = ea @ eb"
    by (rule meaning_strict) (auto simp: op)
  have "eb = []" using r priceLiteral_silent parts(2) by blast
  moreover have "ea = []" using meaning_Variable(1)[of env x s1 e1 "fst va" "snd va"] parts(1) by simp
  ultimately show ?thesis using parts(3) by simp
qed (use assms in auto)

lemma price_sum_silent:
  assumes "price_terms (flattenBinary n (js ''+'')) ps = Some qs" "meaning env n = Inr (v, ev)"
  shows "ev = []"
  using assms
proof (induction n arbitrary: ps qs v ev rule: node_children_induct)
  case (node n)
  show ?case
  proof (cases "\<exists>a b s e. n = Binary (js ''+'') a b s e")
    case True
    then obtain a b s e where n: "n = Binary (js ''+'') a b s e" by blast
    obtain rs where rs: "price_terms (flattenBinary a (js ''+'')) ps = Some rs"
        "price_terms (flattenBinary b (js ''+'')) rs = Some qs"
      using node.prems(1) by (auto simp: n price_terms_append split: option.splits)
    have "meaning env (Binary (js ''+'') a b s e) = Inr (v, ev)" using node.prems(2) n by simp
    then obtain va ea vb eb where parts: "meaning env a = Inr (va, ea)" "meaning env b = Inr (vb, eb)"
        "ev = ea @ eb" by (rule meaning_strict) auto
    have "ea = []" "eb = []" using node.IH[OF _ rs(1) parts(1)] node.IH[OF _ rs(2) parts(2)] n by auto
    then show ?thesis using parts(3) by simp
  next
    case False
    then have "flattenBinary n (js ''+'') = [n]" by (cases n) auto
    then show ?thesis using node.prems price_term_silent by (auto split: option.splits)
  qed
qed

lemma tier_label_cases:
  assumes "tier_label n = Some label"
  obtains i s1 e1 args s e where "n = Call (js ''tier'') (Literal (VStr label) i s1 e1 # args) s e"
proof (cases n)
  case (Call f args s e)
  then show ?thesis using assms that
    by (cases args) (auto simp: tier_label_def split: node.splits jsval.splits if_splits)
qed (use assms in \<open>auto simp: tier_label_def\<close>)

lemma fixed_amount_cases:
  assumes "fixed_amount body = Inr (Some x)"
  obtains k s1 e1 more s e where "body = Call (js ''fixed'') (Literal (VNum x) k s1 e1 # more) s e"
proof (cases body)
  case (Call f args s e)
  then show ?thesis using assms that
    by (cases args)
       (auto simp: fixed_amount_def arg_at_def split: node.splits jsval.splits if_splits)
qed (use assms in \<open>auto simp: fixed_amount_def\<close>)

definition token_row :: "jsstring \<Rightarrow> token_condition list \<Rightarrow> (jsstring \<times> jsnum) list \<Rightarrow> token_tier" where
  "token_row label cs prices = \<lparr>tt_label = label, tt_conditions = cs, tt_prices = prices,
     tt_billingUnit = None, tt_fixedPrice = None\<rparr>"

definition fixed_row :: "jsstring \<Rightarrow> token_condition list \<Rightarrow> jsnum \<Rightarrow> token_tier" where
  "fixed_row label cs x = \<lparr>tt_label = label, tt_conditions = cs, tt_prices = [],
     tt_billingUnit = Some RequestUnit, tt_fixedPrice = Some x\<rparr>"

lemma tokenTier_cases:
  assumes "tokenTier n cs = Inr (Some t)"
  obtains (token) label i s1 e1 body args s e prices where
      "n = Call (js ''tier'') (Literal (VStr label) i s1 e1 # body # args) s e"
      "price_terms (flattenBinary body (js ''+'')) [] = Some prices" "t = token_row label cs prices"
    | (fixed) label i s1 e1 k s2 e2 more s3 e3 args s e x where
      "n = Call (js ''tier'') (Literal (VStr label) i s1 e1
         # Call (js ''fixed'') (Literal (VNum x) k s2 e2 # more) s3 e3 # args) s e"
      "t = fixed_row label cs x"
proof -
  from assms obtain label where lab: "tier_label n = Some label"
    by (cases "tier_label n") (auto simp: tokenTier_def)
  then obtain i s1 e1 args s e where n: "n = Call (js ''tier'') (Literal (VStr label) i s1 e1 # args) s e"
    by (rule tier_label_cases)
  obtain body rest where args: "args = body # rest"
    using assms lab by (cases args) (auto simp: tokenTier_def n arg_at_def)
  obtain fx where fx: "fixed_amount body = Inr fx"
    using assms lab by (cases "fixed_amount body") (auto simp: tokenTier_def n args arg_at_def)
  show ?thesis
  proof (cases fx)
    case None
    then show ?thesis
      using assms lab fx token n args
      by (auto simp: tokenTier_def arg_at_def token_row_def split: option.splits if_splits)
  next
    case (Some x)
    have t: "t = fixed_row label cs x"
      using assms lab fx Some by (simp add: tokenTier_def n args arg_at_def fixed_row_def)
    obtain k s2 e2 more s3 e3 where "body = Call (js ''fixed'') (Literal (VNum x) k s2 e2 # more) s3 e3"
      using fixed_amount_cases[OF fx[unfolded Some]] .
    then show ?thesis using fixed n args t by blast
  qed
qed

lemma tokenTier_conditions: "tokenTier n cs = Inr (Some t) \<Longrightarrow> tt_conditions t = cs"
  by (erule tokenTier_cases) (simp_all add: token_row_def fixed_row_def)

lemma meaning_tier:
  assumes "meaning env (Call (js ''tier'') (Literal (VStr label) i s1 e1 # body # args) s e) = Inr (v, ev)"
  obtains y j e2 where "meaning env body = Inr ((VNum y, j), e2)" "ev = e2 @ [TierHit label]" "v = (VNum y, False)"
proof -
  from assms have "m_call env (meaning env) (js ''tier'') (Literal (VStr label) i s1 e1 # body # args) s = Inr (v, ev)"
    by (simp add: meaning_Inr)
  then show ?thesis by (cases v) (auto simp: m_call_def dest!: meaning_Literal intro: that)
qed

lemma tokenTier_meaning:
  assumes t: "tokenTier n cs = Inr (Some t)" and m: "meaning env n = Inr (v, ev)"
  shows "filter pricing ev = row_events t
    \<and> (\<forall>x. tt_fixedPrice t = Some x \<longrightarrow> fst v = VNum (js_mul x (Fin 1000000)))"
  using t
proof (cases rule: tokenTier_cases)
  case (token label i s1 e1 body args s e prices)
  obtain y j e2 where b: "meaning env body = Inr ((VNum y, j), e2)" "ev = e2 @ [TierHit label]"
    using meaning_tier[OF m[unfolded token(1)]] .
  then have "e2 = []" using price_sum_silent token(2) by blast
  then show ?thesis by (simp add: token(3) b(2) token_row_def row_events_def)
next
  case (fixed label i s1 e1 k s2 e2 more s3 e3 args s e x)
  obtain y j e4 where b: "meaning env (Call (js ''fixed'') (Literal (VNum x) k s2 e2 # more) s3 e3)
      = Inr ((VNum y, j), e4)" "ev = e4 @ [TierHit label]" "v = (VNum y, False)"
    using meaning_tier[OF m[unfolded fixed(1)]] .
  have "y = js_mul x (Fin 1000000)" "e4 = [FixedHit x]"
    using b(1) by (auto simp: meaning_Inr m_call_def)
  then show ?thesis by (simp add: fixed(2) b(2,3) fixed_row_def row_events_def)
qed

lemma chain_loop_Conditional:
  assumes "chain_loop (Conditional c a b s e) tiers0 = Inr (Some tiers)"
  obtains cs t where "tokenConditions c = Some cs" "tokenTier a cs = Inr (Some t)"
    "chain_loop b (tiers0 @ [t]) = Inr (Some tiers)"
  using assms by (auto split: option.splits intro: that)

lemma chain_loop_leaf:
  assumes "chain_loop n tiers0 = Inr (Some tiers)" "\<nexists>c a b s e. n = Conditional c a b s e"
  obtains t where "tokenTier n [] = Inr (Some t)" "tiers = tiers0 @ [t]"
  using assms by (cases n) (auto split: option.splits intro: that)

lemma chain_loop_prefix: "chain_loop n tiers0 = Inr (Some tiers) \<Longrightarrow> \<exists>new. new \<noteq> [] \<and> tiers = tiers0 @ new"
proof (induction n arbitrary: tiers0 rule: node_children_induct)
  case (node n)
  show ?case
  proof (cases "\<exists>c a b s e. n = Conditional c a b s e")
    case True
    then obtain c a b s e where n: "n = Conditional c a b s e" by blast
    obtain cs t where "chain_loop b (tiers0 @ [t]) = Inr (Some tiers)"
      using chain_loop_Conditional[OF node.prems[unfolded n]] by metis
    then show ?thesis using node.IH[of b] n by fastforce
  next
    case False
    then show ?thesis using chain_loop_leaf[OF node.prems] by blast
  qed
qed

text \<open>What a run of the tree prices, in terms of the rows of its table.\<close>

definition prices_row :: "environment \<Rightarrow> token_tier list \<Rightarrow> rtvalue \<Rightarrow> event list \<Rightarrow> bool" where
  "prices_row env rows v ev \<longleftrightarrow> (\<exists>t. find (row_matches env) rows = Some t
     \<and> filter pricing ev = row_events t
     \<and> (\<forall>x. tt_fixedPrice t = Some x \<longrightarrow> fst v = VNum (js_mul x (Fin 1000000))))"

lemma chain_loop_meaning:
  assumes "chain_loop n tiers0 = Inr (Some (tiers0 @ new))" "meaning env n = Inr (v, ev)"
  shows "prices_row env new v ev"
  using assms
proof (induction n arbitrary: tiers0 new v ev rule: node_children_induct)
  case (node n)
  show ?case
  proof (cases "\<exists>c a b s e. n = Conditional c a b s e")
    case True
    then obtain c a b s e where n: "n = Conditional c a b s e" by blast
    obtain cs t where cs: "tokenConditions c = Some cs" and t: "tokenTier a cs = Inr (Some t)"
      and rest: "chain_loop b (tiers0 @ [t]) = Inr (Some (tiers0 @ new))"
      using chain_loop_Conditional[OF node.prems(1)[unfolded n]] .
    obtain new2 where new: "new = t # new2" using chain_loop_prefix[OF rest] by auto
    obtain w i e1 e2 where w: "meaning env c = Inr ((VBool w, i), e1)"
        "meaning env (if w then a else b) = Inr (v, e2)" "filter pricing ev = filter pricing (e1 @ e2)"
      using meaning_Conditional[OF node.prems(2)[unfolded n]] .
    have holds: "w = list_all (cond_holds env) cs" "e1 = []"
      using conditions_meaning[OF cs[unfolded tokenConditions_def] w(1)] by auto
    show ?thesis
    proof (cases w)
      case True
      then have "meaning env a = Inr (v, e2)" using w(2) by simp
      moreover have "row_matches env t"
        using True holds(1) tokenTier_conditions[OF t] by (simp add: row_matches_def)
      ultimately show ?thesis
        using tokenTier_meaning[OF t] holds(2) w(3) by (simp add: prices_row_def new)
    next
      case False
      then have "\<not> row_matches env t" "meaning env b = Inr (v, e2)"
        using tokenTier_conditions[OF t] holds w(2) by (auto simp: row_matches_def)
      then show ?thesis
        using node.IH[of b "tiers0 @ [t]" new2 v e2] rest n w(3) holds(2) by (auto simp: prices_row_def new)
    qed
  next
    case False
    then obtain t where t: "tokenTier n [] = Inr (Some t)" "tiers0 @ new = tiers0 @ [t]"
      using chain_loop_leaf[OF node.prems(1)] by blast
    then show ?thesis
      using tokenTier_meaning[OF t(1) node.prems(2)] tokenTier_conditions[OF t(1)]
      by (simp add: prices_row_def row_matches_def)
  qed
qed

text \<open>The context guards that the reader strips.\<close>

fun guards_hold :: "environment \<Rightarrow> node \<Rightarrow> bool" where
  "guards_hold env (Conditional c a b s e) \<longleftrightarrow>
     (if isContextGuard c \<and> (\<exists>tiers. readTokenTierChain a = Inr (Some tiers))
      then (\<exists>i ev. meaning env c = Inr ((VBool True, i), ev)) \<and> guards_hold env a else True)"
| "guards_hold env n \<longleftrightarrow> True"

lemma guard_silent:
  assumes "isContextGuard c" "meaning env c = Inr (v, ev)"
  shows "ev = []"
proof -
  have side: "ev = []" if "is_comparable_node n" "meaning env n = Inr (v, ev)" for n v ev
    using that by (cases n) (auto simp: meaning_Inr)
  obtain op a b s e where c: "c = Binary op a b s e" "is_comparable_node a" "is_comparable_node b"
      "op \<noteq> js ''&&''" "op \<noteq> js ''||''"
    using assms(1) by (cases c) (auto split: if_splits)
  have "meaning env (Binary op a b s e) = Inr (v, ev)" using assms(2) c by simp
  then obtain va ea vb eb where "meaning env a = Inr (va, ea)" "meaning env b = Inr (vb, eb)" "ev = ea @ eb"
    using c(4,5) by (rule meaning_strict)
  then show ?thesis using side c by auto
qed

lemma chain_first_match:
  assumes "readTokenTierChain n = Inr (Some rows)" "guards_hold env n" "meaning env n = Inr (v, ev)"
  shows "prices_row env rows v ev"
  using assms
proof (induction n arbitrary: v ev rule: node_children_induct)
  case (node n)
  show ?case
  proof (cases "\<exists>c a b s e. n = Conditional c a b s e \<and> isContextGuard c
      \<and> (\<exists>tiers. readTokenTierChain a = Inr (Some tiers))")
    case True
    then obtain c a b s e where n: "n = Conditional c a b s e" and g: "isContextGuard c"
      and a: "readTokenTierChain a = Inr (Some rows)" using node.prems(1) by auto
    obtain j ev2 where c: "meaning env c = Inr ((VBool True, j), ev2)" and h: "guards_hold env a"
      using node.prems(2) g a by (auto simp: n)
    obtain w i e1 e2 where w: "meaning env c = Inr ((VBool w, i), e1)"
        "meaning env (if w then a else b) = Inr (v, e2)" "filter pricing ev = filter pricing (e1 @ e2)"
      using meaning_Conditional[OF node.prems(3)[unfolded n]] .
    have "e1 = []" "w" using guard_silent[OF g w(1)] c w(1) by auto
    then show ?thesis using node.IH[OF _ a h] n w by (auto simp: prices_row_def)
  next
    case False
    then have "chain_loop n [] = Inr (Some rows)"
      using node.prems(1) by (cases n) (auto split: if_splits option.splits)
    then show ?thesis using chain_loop_meaning[of n "[]" rows] node.prems(3) by simp
  qed
qed

definition td_source :: jsstring where
  "td_source = js ''p < 9 ? tier('' @ [DQ] @ js ''a'' @ [DQ] @ js '', p * 2) : tier('' @ [DQ] @ js ''b''
     @ [DQ] @ js '', fixed(3))''"

definition td_compiled :: compiled where
  "td_compiled = (case compile_fresh td_source of Ready c \<Rightarrow> c | Failed f \<Rightarrow> fx_compiled)"

definition td_rows :: "token_tier list" where
  "td_rows = [token_row (js ''a'') [\<lparr>tc_var = js ''p'', tc_op = js ''<'', tc_value = Fin 9\<rparr>]
     [(js ''p'', Fin 2)], fixed_row (js ''b'') [] (Fin 3)]"

definition td_success :: success where
  "td_success = \<lparr>s_cost = Fin 10, s_billingUnit = TokenUnit, s_fixedPrice = None,
     s_matchedTier = js ''a'', s_requestRules = []\<rparr>"

lemma td_is_ready: "case compile_fresh td_source of Ready c \<Rightarrow> True | Failed f \<Rightarrow> False"
  by code_simp

lemma td_ready: "compile_fresh td_source = Ready td_compiled"
  using td_is_ready by (simp add: td_compiled_def split: compilation.splits)

lemma td_table: "readTokenTierChain (c_ast td_compiled) = Inr (Some td_rows)"
  by code_simp

text \<open>A table behind a guard: the same tiers for one group, another tier for everyone else.\<close>

definition tg_source :: jsstring where
  "tg_source = js ''group == '' @ [DQ] @ js ''vip'' @ [DQ] @ js '' ? ('' @ td_source @ js '') : tier('' @ [DQ]
     @ js ''c'' @ [DQ] @ js '', p)''"

definition tg_compiled :: compiled where
  "tg_compiled = (case compile_fresh tg_source of Ready c \<Rightarrow> c | Failed f \<Rightarrow> fx_compiled)"

definition tg_context :: simulation_context where
  "tg_context = ex_context\<lparr>ctx_context := Some [(js ''group'', VStr (js ''vip''))]\<rparr>"

definition tg_env :: environment where
  "tg_env = \<lparr>e_compiled = tg_compiled, e_context = tg_context, e_now = Some 0, e_headers = [], e_host = ex_host\<rparr>"

definition tg_runtime :: runtime where
  "tg_runtime = \<lparr>r_requestRules = initial_traces (c_requestRules tg_compiled), r_matchedTier = [],
     r_billingUnit = TokenUnit, r_fixedPrice = None, r_timeValues = [], r_depth = 0\<rparr>"

lemma tg_is_ready: "case compile_fresh tg_source of Ready c \<Rightarrow> True | Failed f \<Rightarrow> False"
  by code_simp

lemma tg_ready: "compile_fresh tg_source = Ready tg_compiled"
  using tg_is_ready by (simp add: tg_compiled_def split: compilation.splits)

lemma tg_table: "readTokenTierChain (c_ast tg_compiled) = Inr (Some td_rows)"
  by code_simp

lemma tg_fresh: "new_BillingRuntime ex_host tg_compiled tg_context = Inr (tg_env, tg_runtime)"
  by (simp add: new_BillingRuntime_def request_headers_def tg_context_def ex_context_def ex_host_def
      tg_env_def tg_runtime_def initial_traces_def)

lemma tg_guarded: "case c_ast tg_compiled of
    Conditional c a b s e \<Rightarrow> isContextGuard c \<and> (case meaning tg_env c of Inr ((VBool True, i), ev) \<Rightarrow> True | _ \<Rightarrow> False)
      \<and> (case a of Conditional c' a' b' s' e' \<Rightarrow> \<not> isContextGuard c' | _ \<Rightarrow> True)
  | _ \<Rightarrow> False"
  by code_simp

lemma tg_guards: "guards_hold tg_env (c_ast tg_compiled)"
proof -
  obtain c a b s e where n: "c_ast tg_compiled = Conditional c a b s e"
      "case meaning tg_env c of Inr ((VBool True, i), ev) \<Rightarrow> True | _ \<Rightarrow> False"
      "case a of Conditional c' a' b' s' e' \<Rightarrow> \<not> isContextGuard c' | _ \<Rightarrow> True"
    using tg_guarded by (auto split: node.splits)
  then have "guards_hold tg_env a" by (cases a) auto
  with n(1,2) show ?thesis by (auto split: sum.splits prod.splits jsval.splits bool.splits)
qed

lemma tg_evaluated: "evaluate_compiled ex_host (Ready tg_compiled) tg_context = Evaluated td_success"
  by code_simp

lemma tg_run:
  "evaluateBillingExpression ex_host tg_source tg_context [] = (Evaluated td_success, [(tg_source, Ready tg_compiled)])"
  by (simp add: evaluateBillingExpression_def compileBillingExpression_def Let_def tg_ready tg_evaluated)

text \<open>
  C14: The price table shown for an expression agrees with its evaluation, for requests that satisfy
  the group and channel guards the reader strips. When \<open>readTokenTierChain\<close> gives rows for a
  compiled expression, and in the environment that the runtime object is built with every stripped
  guard is true, a successful evaluation reports the label and the fixed price of the first row whose
  token conditions hold in that environment.
\<close>
theorem tier_table_agrees:
  assumes "table_reachable compileBillingExpression [] cache" "compile_fresh source = Ready c"
    and "readTokenTierChain (c_ast c) = Inr (Some rows)"
    and "new_BillingRuntime h c ctx = Inr (env, rt)" "guards_hold env (c_ast c)"
    and "evaluateBillingExpression h source ctx cache = (Evaluated s, cache')"
  shows "\<exists>t. find (row_matches env) rows = Some t
    \<and> s_matchedTier s = tt_label t \<and> s_fixedPrice s = tt_fixedPrice t"
proof -
  have c: "compile_try source = Inr c" using assms(2) by (simp add: compile_fresh_Ready)
  have "evaluate_try h c ctx = Inr s" using evaluated_compiled[OF assms(1,6)] c by auto
  then obtain env' ev where "runs_to h c ctx env' ev s" by (rule evaluate_try_runs)
  then have r: "runs_to h c ctx env ev s" using assms(4) by (auto simp: runs_to_def)
  then obtain j where m: "meaning env (c_ast c) = Inr ((VNum (s_cost s), j), ev)"
    by (auto simp: runs_to_def)
  obtain t where t: "find (row_matches env) rows = Some t" "filter pricing ev = row_events t"
    using chain_first_match[OF assms(3,5) m] by (auto simp: prices_row_def)
  have "s_fixedPrice s = last_fixed (row_events t)" "s_matchedTier s = last_tier (row_events t)"
    using r last_events[of ev] t(2) by (simp_all add: runs_to_def)
  then have "s_matchedTier s = tt_label t \<and> s_fixedPrice s = tt_fixedPrice t"
    by (simp add: row_events_def last_fixed_def last_tier_def split: option.splits)
  then show ?thesis using t(1) by blast
qed

theorem tier_table_agrees_witness:
  "guards_hold tg_env (c_ast tg_compiled) \<and> (\<exists>t. find (row_matches tg_env) td_rows = Some t
    \<and> js ''a'' = tt_label t \<and> None = tt_fixedPrice t)"
  using tier_table_agrees[OF table_reachable.start tg_ready tg_table tg_fresh tg_guards tg_run] tg_guards
  by (simp add: td_success_def)

subsection \<open>Exactly one time branch is current\<close>

definition path_holds :: "host \<Rightarrow> compiled \<Rightarrow> int option \<Rightarrow> (node \<times> bool) list \<Rightarrow> bool" where
  "path_holds h c now path = list_all (\<lambda>(n, b). evaluateBillingCondition h c n now = Some b) path"

definition decided :: "host \<Rightarrow> compiled \<Rightarrow> int option \<Rightarrow> time_tier list \<Rightarrow> bool" where
  "decided h c now rows = list_all (\<lambda>row. list_all (\<lambda>(n, b). evaluateBillingCondition h c n now \<noteq> None)
     (ti_timeConditions row)) rows"

lemma current_tiers_append:
  "current_tiers h c now (a @ b) = current_tiers h c now a @ current_tiers h c now b"
  by (simp add: current_tiers_def)

lemma readTokenTierChain_nonempty: "readTokenTierChain n = Inr (Some rows) \<Longrightarrow> rows \<noteq> []"
proof (induction n rule: node_children_induct)
  case (node n)
  show ?case
  proof (cases n)
    case (Conditional c a b s e)
    then show ?thesis
      using node.IH[of a] node.prems chain_loop_prefix[of n "[]" rows]
      by (auto split: if_splits option.splits)
  qed (use node.prems chain_loop_prefix[of n "[]" rows] in auto)
qed

lemma time_rows_path:
  "time_rows c n path = Inr (Some rows) \<Longrightarrow> rows \<noteq> [] \<and> (\<forall>row \<in> set rows. ti_timeConditions row = path)"
  using readTokenTierChain_nonempty
  by (fastforce simp: time_rows_def split: option.splits if_splits)

lemma branch_rows:
  assumes "timeTierBranches c n path = Inr (Some rows)"
  shows "rows \<noteq> [] \<and> (\<forall>row \<in> set rows. \<exists>more. ti_timeConditions row = path @ more)"
  using assms
proof (induction n arbitrary: path rows rule: node_children_induct)
  case (node n)
  show ?case
  proof (cases "\<exists>x a b s e. n = Conditional x a b s e \<and> isTimeCondition x = Inr True")
    case True
    then obtain x a b s e where n: "n = Conditional x a b s e" "isTimeCondition x = Inr True" by blast
    then obtain ys ns where "timeTierBranches c a (path @ [(x, True)]) = Inr (Some ys)"
        "timeTierBranches c b (path @ [(x, False)]) = Inr (Some ns)" "rows = ys @ ns"
      using node.prems by (auto split: option.splits)
    then show ?thesis using node.IH[of a] node.IH[of b] n by fastforce
  next
    case False
    then have "time_rows c n path = Inr (Some rows)" using node.prems by (cases n) (auto split: if_splits)
    then show ?thesis using time_rows_path by fastforce
  qed
qed

lemma wrong_branch_empty:
  assumes "timeTierBranches c n (path @ [(x, b)]) = Inr (Some rows)"
    and "evaluateBillingCondition h c x now = Some (\<not> b)"
  shows "current_tiers h c now rows = []"
  using branch_rows[OF assms(1)] assms(2) by (fastforce simp: current_tiers_def filter_empty_conv)

lemma one_leaf_current:
  assumes "timeTierBranches c n path = Inr (Some rows)" "path_holds h c now path" "decided h c now rows"
  shows "\<exists>leaf p. time_rows c leaf p = Inr (Some (current_tiers h c now rows)) \<and> leaf \<in> set (postorder n)
    \<and> path_holds h c now p"
  using assms
proof (induction n arbitrary: path rows rule: node_children_induct)
  case (node n)
  show ?case
  proof (cases "\<exists>x a b s e. n = Conditional x a b s e \<and> isTimeCondition x = Inr True")
    case True
    then obtain x a b s e where n: "n = Conditional x a b s e" "isTimeCondition x = Inr True" by blast
    then obtain ys ns where ys: "timeTierBranches c a (path @ [(x, True)]) = Inr (Some ys)"
      and ns: "timeTierBranches c b (path @ [(x, False)]) = Inr (Some ns)" and rows: "rows = ys @ ns"
      using node.prems(1) by (auto split: option.splits)
    have dec: "decided h c now ys" "decided h c now ns" using node.prems(3) by (auto simp: rows decided_def)
    obtain row where "row \<in> set ys" using branch_rows[OF ys] by (cases ys) auto
    then obtain w where w: "evaluateBillingCondition h c x now = Some w"
      using branch_rows[OF ys] dec(1) by (fastforce simp: decided_def list_all_iff)
    have post: "leaf \<in> set (postorder k) \<Longrightarrow> k \<in> {a, b} \<Longrightarrow> leaf \<in> set (postorder n)" for leaf k
      by (auto simp: n(1) postorder.simps[of "Conditional x a b s e"])
    show ?thesis
    proof (cases w)
      case True
      then have "current_tiers h c now rows = current_tiers h c now ys"
        using wrong_branch_empty[OF ns] w by (simp add: rows current_tiers_append)
      then show ?thesis
        using node.IH[OF _ ys _ dec(1)] node.prems(2) w True n(1) post by (fastforce simp: path_holds_def)
    next
      case False
      then have "current_tiers h c now rows = current_tiers h c now ns"
        using wrong_branch_empty[OF ys] w by (simp add: rows current_tiers_append)
      then show ?thesis
        using node.IH[OF _ ns _ dec(2)] node.prems(2) w False n(1) post by (fastforce simp: path_holds_def)
    qed
  next
    case False
    then have t: "time_rows c n path = Inr (Some rows)" using node.prems(1) by (cases n) (auto split: if_splits)
    have "current_tiers h c now rows = rows"
      using time_rows_path[OF t] node.prems(2) by (auto simp: current_tiers_def path_holds_def filter_id_conv)
    then show ?thesis using t node.prems(2) by (auto simp: postorder.simps[of n] intro!: exI[of _ n])
  qed
qed

text \<open>
  At any instant at which every time condition of the expression can be decided, the current rows
  of \<open>readTimeTokenPricing\<close> are the rows of exactly one leaf of its tree of time conditions, the
  leaf whose conditions all have the required truth value; in particular there is always a current row.
\<close>
theorem current_time_rows:
  assumes "table_reachable compileBillingExpression [] cache" "compile_fresh source = Ready c"
    and "fst (readTimeTokenPricing h source (Some now) cache) = Inr (Some (rows, live))"
    and "decided h c now rows"
  shows "live \<noteq> [] \<and> (\<exists>leaf p. time_rows c leaf p = Inr (Some live)
    \<and> leaf \<in> set (postorder (c_ast c)) \<and> path_holds h c now p)"
proof -
  have "fst (compileBillingExpression source cache) = Ready c"
    using cc.reachable_answer[OF assms(1)] assms(2) by simp
  then have t: "timeTierBranches c (c_ast c) [] = Inr (Some rows)" "live = current_tiers h c now rows"
    using assms(3) by (auto simp: readTimeTokenPricing_def Let_def split: prod.splits option.splits)
  obtain leaf p where l: "time_rows c leaf p = Inr (Some live)" "leaf \<in> set (postorder (c_ast c))"
      "path_holds h c now p"
    using one_leaf_current[OF t(1) _ assms(4)] t(2) by (auto simp: path_holds_def)
  then show ?thesis using time_rows_path[OF l(1)] by blast
qed

definition tm_source :: jsstring where
  "tm_source = js ''hour('' @ [DQ] @ js ''UTC'' @ [DQ] @ js '') < 12 ? tier('' @ [DQ] @ js ''a'' @ [DQ]
     @ js '', p * 2) : tier('' @ [DQ] @ js ''b'' @ [DQ] @ js '', p * 3)''"

definition tm_compiled :: compiled where
  "tm_compiled = (case compile_fresh tm_source of Ready c \<Rightarrow> c | Failed f \<Rightarrow> fx_compiled)"

definition tm_rows :: "time_tier list" where
  "tm_rows = (case timeTierBranches tm_compiled (c_ast tm_compiled) [] of Inr (Some rows) \<Rightarrow> rows | _ \<Rightarrow> [])"

lemma tm_is_ready: "case compile_fresh tm_source of Ready c \<Rightarrow> True | Failed f \<Rightarrow> False"
  by code_simp

lemma tm_ready: "compile_fresh tm_source = Ready tm_compiled"
  using tm_is_ready by (simp add: tm_compiled_def split: compilation.splits)

lemma tm_table: "timeTierBranches tm_compiled (c_ast tm_compiled) [] = Inr (Some tm_rows)"
  by code_simp

lemma tm_decided: "decided ex_host tm_compiled (Some 0) tm_rows"
  by code_simp

lemma tm_labels: "map (\<lambda>r. tt_label (ti_tier r)) (current_tiers ex_host tm_compiled (Some 0) tm_rows) = [js ''a'']"
  by code_simp

theorem current_time_rows_witness:
  "\<exists>live leaf p. time_rows tm_compiled leaf p = Inr (Some live) \<and> path_holds ex_host tm_compiled (Some 0) p
    \<and> map (\<lambda>r. tt_label (ti_tier r)) live = [js ''a'']"
proof -
  have "fst (readTimeTokenPricing ex_host tm_source (Some (Some 0)) [])
      = Inr (Some (tm_rows, current_tiers ex_host tm_compiled (Some 0) tm_rows))"
    by (simp add: readTimeTokenPricing_def compileBillingExpression_def Let_def tm_ready tm_table)
  from current_time_rows[OF table_reachable.start tm_ready this tm_decided]
  obtain leaf p where "time_rows tm_compiled leaf p
      = Inr (Some (current_tiers ex_host tm_compiled (Some 0) tm_rows))"
    "path_holds ex_host tm_compiled (Some 0) p" by blast
  then show ?thesis using tm_labels by (intro exI conjI) assumption+
qed

end
