(* ===== verification/JsJson.thy ===== *)
theory JsJson
  imports JsText
begin

section \<open>JSON text\<close>

text \<open>
  The parts of the language's JSON object that the program uses: \<open>JSON.stringify\<close> of a string
  (\<open>json_quote\<close>), \<open>JSON.parse\<close> (\<open>json_parse\<close>, \<open>None\<close> for a
  \<open>SyntaxError\<close>), and \<open>String(value)\<close> of a parsed value. The mutually recursive readers
  spend one unit of fuel per call; every second call consumes a code unit, so \<open>2 n + 2\<close> units
  are enough for a text of length \<open>n\<close>. \<open>json_roundtrip\<close> shows that parsing the quoted form
  of a string gives the string back.
\<close>

subsection \<open>Quoting\<close>

definition hex_digit :: "nat \<Rightarrow> unit16" where
  "hex_digit n = (if n < 10 then of_nat (48 + n) else of_nat (87 + n))"

definition unicode_escape :: "unit16 \<Rightarrow> jsstring" where
  "unicode_escape c = (let n = unat c in
     [BSL, 117, hex_digit (n div 4096 mod 16), hex_digit (n div 256 mod 16),
      hex_digit (n div 16 mod 16), hex_digit (n mod 16)])"

definition high_surrogate :: "unit16 \<Rightarrow> bool" where
  "high_surrogate c \<longleftrightarrow> 0xD800 \<le> c \<and> c \<le> 0xDBFF"

definition low_surrogate :: "unit16 \<Rightarrow> bool" where
  "low_surrogate c \<longleftrightarrow> 0xDC00 \<le> c \<and> c \<le> 0xDFFF"

definition short_escapes :: "(unit16 \<times> unit16) list" where
  "short_escapes = [(8, 98), (9, 116), (10, 110), (12, 102), (13, 114), (DQ, DQ), (BSL, BSL)]"

definition quote_unit :: "unit16 \<Rightarrow> jsstring" where
  "quote_unit c = (case map_of short_escapes c of
       Some e \<Rightarrow> [BSL, e]
     | None \<Rightarrow> if c < 32 \<or> high_surrogate c \<or> low_surrogate c then unicode_escape c else [c])"

fun quote_units :: "jsstring \<Rightarrow> jsstring" where
  "quote_units [] = []"
| "quote_units [c] = quote_unit c"
| "quote_units (c # d # s) =
    (if high_surrogate c \<and> low_surrogate d then c # d # quote_units s
     else quote_unit c @ quote_units (d # s))"

definition json_quote :: "jsstring \<Rightarrow> jsstring" where
  "json_quote s = DQ # quote_units s @ [DQ]"

subsection \<open>Reading\<close>

text \<open>The rest of a string literal after its opening quote: its value and what follows it.\<close>

definition read_escapes :: "(unit16 \<times> unit16) list" where
  "read_escapes = [(DQ, DQ), (BSL, BSL), (47, 47), (98, 8), (102, 12), (110, 10), (114, 13), (116, 9)]"

definition hex4 :: "jsstring \<Rightarrow> unit16 option" where
  "hex4 s = (if length s = 4 \<and> list_all is_hex s
     then Some (of_nat (foldl (\<lambda>n c. 16 * n + hex_value c) 0 s)) else None)"

function (sequential) json_string :: "jsstring \<Rightarrow> (jsstring \<times> jsstring) option" where
  "json_string [] = None"
| "json_string (c # s) =
    (if c = DQ then Some ([], s)
     else if c < 32 then None
     else if c \<noteq> BSL then map_option (\<lambda>(t, r). (c # t, r)) (json_string s)
     else
       (case s of
          [] \<Rightarrow> None
        | e # u \<Rightarrow>
            (case map_of read_escapes e of
               Some x \<Rightarrow> map_option (\<lambda>(t, r). (x # t, r)) (json_string u)
             | None \<Rightarrow>
                 if e \<noteq> 117 then None
                 else
                   (case hex4 (take 4 u) of
                      None \<Rightarrow> None
                    | Some x \<Rightarrow> map_option (\<lambda>(t, r). (x # t, r)) (json_string (drop 4 u))))))"
  by pat_completeness auto
termination
  by (relation "measure length") auto

declare json_string.simps [simp del]

definition json_space :: "unit16 \<Rightarrow> bool" where
  "json_space c \<longleftrightarrow> c = 32 \<or> c = 9 \<or> c = 10 \<or> c = 13"

definition skip_ws :: "jsstring \<Rightarrow> jsstring" where
  "skip_ws s = dropWhile json_space s"

text \<open>The number grammar \<open>-?(0|[1-9]\d*)(\.\d+)?([eE][+-]?\d+)?\<close>: the length of its match.\<close>

definition json_number_length :: "jsstring \<Rightarrow> nat option" where
  "json_number_length s =
    (let sgn = (if s \<noteq> [] \<and> hd s = 45 then 1 else 0);
         t = drop sgn s;
         ip = length (takeWhile is_digit t)
     in if ip = 0 then None
        else
          let ip = (if hd t = 48 then 1 else ip);
              u = drop ip t;
              fp = (case u of [] \<Rightarrow> 0 | c # v \<Rightarrow>
                 if c = DOT \<and> takeWhile is_digit v \<noteq> [] then 1 + length (takeWhile is_digit v) else 0)
          in Some (sgn + ip + fp + scan_exponent (drop fp u)))"

definition json_scalar :: "jsstring \<Rightarrow> (jsval \<times> jsstring) option" where
  "json_scalar s =
    (if js_startsWith s (js ''null'') then Some (VNull, drop 4 s)
     else if js_startsWith s (js ''true'') then Some (VBool True, drop 4 s)
     else if js_startsWith s (js ''false'') then Some (VBool False, drop 5 s)
     else
       (case json_number_length s of
          Some n \<Rightarrow> Some (VNum (js_Number (take n s)), drop n s)
        | None \<Rightarrow> None))"

fun json_value :: "nat \<Rightarrow> jsstring \<Rightarrow> (jsval \<times> jsstring) option"
and json_elements :: "nat \<Rightarrow> jsval list \<Rightarrow> jsstring \<Rightarrow> (jsval \<times> jsstring) option"
and json_members :: "nat \<Rightarrow> (jsstring \<times> jsval) list \<Rightarrow> jsstring \<Rightarrow> (jsval \<times> jsstring) option" where
  "json_value 0 s = None"
| "json_value (Suc fuel) s =
    (case skip_ws s of
       [] \<Rightarrow> None
     | c # t \<Rightarrow>
         if c = DQ then map_option (\<lambda>(x, r). (VStr x, r)) (json_string t)
         else if c = 91 then
           (if skip_ws t \<noteq> [] \<and> hd (skip_ws t) = 93 then Some (VArr [], tl (skip_ws t))
            else json_elements fuel [] t)
         else if c = 123 then
           (if skip_ws t \<noteq> [] \<and> hd (skip_ws t) = 125 then Some (VObj [], tl (skip_ws t))
            else json_members fuel [] t)
         else json_scalar (c # t))"
| "json_elements 0 acc s = None"
| "json_elements (Suc fuel) acc s =
    (case json_value fuel s of
       None \<Rightarrow> None
     | Some (v, r) \<Rightarrow>
         (case skip_ws r of
            [] \<Rightarrow> None
          | c # u \<Rightarrow>
              if c = 44 then json_elements fuel (acc @ [v]) u
              else if c = 93 then Some (VArr (acc @ [v]), u) else None))"
| "json_members 0 acc s = None"
| "json_members (Suc fuel) acc s =
    (case skip_ws s of
       [] \<Rightarrow> None
     | q # t \<Rightarrow>
         if q \<noteq> DQ then None
         else
           (case json_string t of
              None \<Rightarrow> None
            | Some (k, r) \<Rightarrow>
                (case skip_ws r of
                   [] \<Rightarrow> None
                 | colon # u \<Rightarrow>
                     if colon \<noteq> 58 then None
                     else
                       (case json_value fuel u of
                          None \<Rightarrow> None
                        | Some (v, w) \<Rightarrow>
                            (case skip_ws w of
                               [] \<Rightarrow> None
                             | c # x \<Rightarrow>
                                 if c = 44 then json_members fuel (map_set k v acc) x
                                 else if c = 125 then Some (VObj (map_set k v acc), x) else None)))))"

definition json_parse :: "jsstring \<Rightarrow> jsval option" where
  "json_parse text =
    (case json_value (2 * length text + 2) text of
       Some (v, r) \<Rightarrow> if skip_ws r = [] then Some v else None
     | None \<Rightarrow> None)"

text \<open>\<open>String(value)\<close>; an array joins its elements with commas, null as the empty string.\<close>

lemma array_element_size [termination_simp]:
  "v \<in> set xs \<Longrightarrow> size v < Suc (size_list size xs)"
  by (induction xs) auto

fun js_String :: "jsval \<Rightarrow> jsstring" where
  "js_String VUndefined = js ''undefined''"
| "js_String VNull = js ''null''"
| "js_String (VBool b) = (if b then js ''true'' else js ''false'')"
| "js_String (VNum x) = js_String_num x"
| "js_String (VStr s) = s"
| "js_String (VArr xs) = js_join (map (\<lambda>v. if nullish v then [] else js_String v) xs) (js '','')"
| "js_String (VObj kvs) = js ''[object Object]''"

subsection \<open>Round trip\<close>

lemma hex_digit_ok: "n < 16 \<Longrightarrow> is_hex (hex_digit n) \<and> hex_value (hex_digit n) = n"
proof -
  assume "n < 16"
  then have "n \<in> {0..<16}" by simp
  moreover have "\<forall>n \<in> {0..<16::nat}. is_hex (hex_digit n) \<and> hex_value (hex_digit n) = n"
    by code_simp
  ultimately show ?thesis by blast
qed

lemma word_of_nat_unat: "of_nat (unat (c :: unit16)) = c"
  by simp

lemma hex4_digits:
  "a < 16 \<Longrightarrow> b < 16 \<Longrightarrow> d < 16 \<Longrightarrow> e < 16 \<Longrightarrow> hex4 [hex_digit a, hex_digit b, hex_digit d, hex_digit e]
     = Some (of_nat (16 * (16 * (16 * a + b) + d) + e))"
  by (simp add: hex4_def hex_digit_ok)

lemma hex4_escape:
  "hex4 [hex_digit (unat c div 4096 mod 16), hex_digit (unat c div 256 mod 16),
     hex_digit (unat c div 16 mod 16), hex_digit (unat c mod 16)] = Some (c :: unit16)"
proof -
  have "unat c < 2 ^ LENGTH(16)" by (rule unsigned_less)
  then have "unat c div 4096 mod 16 = unat c div 4096" by simp
  moreover have "16 * (unat c div 4096) + unat c div 256 mod 16 = unat c div 256"
    using mult_div_mod_eq[of 16 "unat c div 256"] by (simp add: div_mult2_eq[symmetric])
  moreover have "16 * (unat c div 256) + unat c div 16 mod 16 = unat c div 16"
    using mult_div_mod_eq[of 16 "unat c div 16"] by (simp add: div_mult2_eq[symmetric])
  moreover have "16 * (unat c div 16) + unat c mod 16 = unat c" by simp
  ultimately have "16 * (16 * (16 * (unat c div 4096 mod 16) + unat c div 256 mod 16) + unat c div 16 mod 16)
      + unat c mod 16 = unat c" by (simp only:)
  then show ?thesis
    using hex4_digits[of "unat c div 4096 mod 16" "unat c div 256 mod 16" "unat c div 16 mod 16" "unat c mod 16"]
    by (simp only: mod_less_divisor zero_less_numeral word_of_nat_unat)
qed

lemma json_string_raw:
  "32 \<le> c \<Longrightarrow> c \<noteq> DQ \<Longrightarrow> c \<noteq> BSL \<Longrightarrow>
     json_string (c # s) = map_option (\<lambda>(t, r). (c # t, r)) (json_string s)"
  by (auto simp: json_string.simps dest: leD)

lemma json_string_unicode:
  "json_string (unicode_escape c @ s) = map_option (\<lambda>(t, r). (c # t, r)) (json_string s)"
  by (simp add: unicode_escape_def Let_def json_string.simps(2)[of BSL] read_escapes_def hex4_escape)

lemma json_string_unit:
  "json_string (quote_unit c @ s) = map_option (\<lambda>(t, r). (c # t, r)) (json_string s)"
proof (cases "map_of short_escapes c")
  case None
  then have c: "c \<noteq> DQ" "c \<noteq> BSL" by (auto simp: short_escapes_def split: if_splits)
  show ?thesis
  proof (cases "c < 32 \<or> high_surrogate c \<or> low_surrogate c")
    case True
    then show ?thesis using None by (simp add: quote_unit_def json_string_unicode)
  next
    case False
    then show ?thesis using None c by (auto simp: quote_unit_def json_string_raw not_less)
  qed
next
  case (Some e)
  then have "map_of read_escapes e = Some c"
    by (auto simp: short_escapes_def read_escapes_def split: if_splits)
  then show ?thesis using Some by (simp add: quote_unit_def json_string.simps(2)[of BSL])
qed

lemma surrogate_raw: "high_surrogate c \<or> low_surrogate c \<Longrightarrow> 32 \<le> c \<and> c \<noteq> DQ \<and> c \<noteq> BSL"
  by (auto simp: high_surrogate_def low_surrogate_def word_le_nat_alt)

lemma json_string_quote: "json_string (quote_units s @ DQ # r) = Some (s, r)"
proof (induction s rule: quote_units.induct)
  case 1
  show ?case by (simp add: json_string.simps)
next
  case (2 c)
  show ?case by (simp add: json_string_unit json_string.simps(2)[of DQ])
next
  case (3 c d s)
  then show ?case
    using surrogate_raw[of c] surrogate_raw[of d] by (auto simp: json_string_unit json_string_raw)
qed

lemma json_roundtrip: "json_parse (json_quote s) = Some (VStr s)"
  by (simp add: json_parse_def json_quote_def skip_ws_def json_space_def json_string_quote)

end
