(* ===== verification/BillingVisual.thy ===== *)
theory BillingVisual
  imports BillingDisplay JsJson
begin

section \<open>Billing expressions: the visual editor's document\<close>

text \<open>
  Model of \<^verbatim>\<open>web/src/features/pricing/lib/billing-expression/visual.ts\<close>: reading a compiled tree
  into an editable document (\<open>readVisualCondition\<close>, \<open>readVisualPricing\<close>,
  \<open>parseVisualBillingDocument\<close>) and writing a document back, reusing the source text of every
  part that was not edited (\<open>patchSource\<close>, \<open>writeVisualCondition\<close>,
  \<open>writeVisualPricing\<close>, \<open>serializeVisualBillingDocument\<close>). The array \<open>issues\<close> that
  the writers push to is threaded through them. The counter behind \<open>visualNodeId\<close> is explicit.

  The main result is that serialising an unedited document gives back its source, character for
  character (\<open>visual_roundtrip\<close>).
\<close>

subsection \<open>Documents\<close>

datatype visual_condition =
    VComparison (vc_id: jsstring) (vc_origin: "node option") (vc_probe: jsstring) (vc_timezone: jsstring)
      (vc_operator: jsstring) (vc_value: jsstring)
  | VAll (vc_id: jsstring) (vc_origin: "node option") (vc_children: "visual_condition list")
  | VAny (vc_id: jsstring) (vc_origin: "node option") (vc_children: "visual_condition list")
  | VNot (vc_id: jsstring) (vc_origin: "node option") (vc_child: visual_condition)

record visual_price =
  vp_variable :: jsstring
  vp_value :: jsstring
  vp_origin :: "node option"

datatype visual_pricing =
    VTier (vn_id: jsstring) (vn_origin: "node option") (vn_label: jsstring) (vn_prices: "visual_price list")
      (vn_billingUnit: billing_unit) (vn_fixedPrice: jsstring)
  | VBranch (vn_id: jsstring) (vn_origin: "node option") (vn_condition: visual_condition)
      (vn_yes: visual_pricing) (vn_no: visual_pricing)

record visual_document =
  vd_source :: jsstring
  vd_root :: visual_pricing

record visual_issue =
  vi_id :: jsstring
  vi_message :: jsstring

datatype serialization = Serialized jsstring | Issues "visual_issue list"

definition COMPARISONS :: "jsstring list" where
  "COMPARISONS = map js [''<'', ''<='', ''>'', ''>='', ''=='', ''!='']"

definition TIME_DOMAINS :: "(jsstring \<times> int \<times> int) list" where
  "TIME_DOMAINS = [(js ''hour'', 0, 23), (js ''minute'', 0, 59), (js ''weekday'', 0, 6),
     (js ''month'', 1, 12), (js ''day'', 1, 31)]"

definition visualNodeId :: "int \<Rightarrow> jsstring \<times> int" where
  "visualNodeId nextId = (js ''draft-'' @ show_int (nextId + 1), nextId + 1)"

definition createEmptyVisualCondition :: "int \<Rightarrow> visual_condition \<times> int" where
  "createEmptyVisualCondition nextId =
    (let (ident, nextId2) = visualNodeId nextId
     in (VComparison ident None (js ''hour'') (js ''Asia/Shanghai'') (js ''>='') [], nextId2))"

subsection \<open>Reading\<close>

definition span_id :: "string \<Rightarrow> node \<Rightarrow> jsstring" where
  "span_id prefix n = js prefix @ show_int (int (nstart n)) @ js ''-'' @ show_int (int (nend n))"

text \<open>The probe of a comparison and its time zone.\<close>

definition read_probe :: "node \<Rightarrow> (jsstring \<times> jsstring) option res" where
  "read_probe n =
    (case n of
       Variable x s e \<Rightarrow> Inr (if x \<in> set token_probes then Some (x, []) else None)
     | Call f args s e \<Rightarrow>
         if f \<in> set TIME_FUNCTIONS then
           sbind (arg_at args 0) (\<lambda>a.
           Inr (case a of Literal (VStr zone) i s1 e1 \<Rightarrow> Some (f, zone) | _ \<Rightarrow> None))
         else Inr None
     | _ \<Rightarrow> Inr None)"

definition read_comparison :: "node \<Rightarrow> visual_condition option res" where
  "read_comparison n =
    (case n of
       Binary op l (Literal (VNum v) i s1 e1) s e \<Rightarrow>
         if op \<in> set COMPARISONS then
           sbind (read_probe l) (\<lambda>p.
           Inr (case p of
                  None \<Rightarrow> None
                | Some (probe, timezone) \<Rightarrow> Some (VComparison (span_id ''condition-'' n) (Some n)
                    probe timezone op (js_String_num v))))
         else Inr None
     | _ \<Rightarrow> Inr None)"

fun all_some :: "'a option list \<Rightarrow> 'a list option" where
  "all_some [] = Some []"
| "all_some (x # xs) = (case (x, all_some xs) of (Some y, Some ys) \<Rightarrow> Some (y # ys) | _ \<Rightarrow> None)"

function (sequential) readVisualCondition :: "node \<Rightarrow> visual_condition option res" where
  "readVisualCondition (Unary op a s e) =
    (if op = js ''!'' then
       sbind (readVisualCondition a) (\<lambda>child.
       Inr (map_option (VNot (span_id ''condition-'' (Unary op a s e)) (Some (Unary op a s e))) child))
     else Inr None)"
| "readVisualCondition (Binary op a b s e) =
    (if op = js ''&&'' \<or> op = js ''||'' then
       sbind (smap readVisualCondition (flattenBinary (Binary op a b s e) op)) (\<lambda>children.
       Inr (map_option ((if op = js ''&&'' then VAll else VAny)
              (span_id ''condition-'' (Binary op a b s e)) (Some (Binary op a b s e)))
            (all_some children)))
     else read_comparison (Binary op a b s e))"
| "readVisualCondition n = Inr None"
  by pat_completeness auto
termination
proof (relation "measure size")
  fix op a b s e m
  assume "m \<in> set (flattenBinary (Binary op a b s e) op)"
  then show "(m, Binary op a b s e) \<in> measure size" using flattenBinary_smaller by simp
qed simp_all

declare readVisualCondition.simps [simp del]

fun read_price :: "visual_price list \<Rightarrow> node \<Rightarrow> visual_price list option" where
  "read_price prices (Binary op (Variable x s1 e1) (Literal (VNum v) i s2 e2) s e) =
    (if op \<noteq> js ''*'' \<or> x = js ''len'' \<or> js_lt v (Fin 0)
        \<or> list_ex (\<lambda>p. vp_variable p = x) prices then None
     else Some (prices @ [\<lparr>vp_variable = x, vp_value = js_String_num v,
            vp_origin = Some (Binary op (Variable x s1 e1) (Literal (VNum v) i s2 e2) s e)\<rparr>]))"
| "read_price prices n = None"

fun read_prices :: "node list \<Rightarrow> visual_price list \<Rightarrow> visual_price list option" where
  "read_prices [] prices = Some prices"
| "read_prices (n # ns) prices =
    (case read_price prices n of None \<Rightarrow> None | Some ps \<Rightarrow> read_prices ns ps)"

text \<open>\<open>body.kind === 'call' && body.name === 'fixed' && body.args[0].kind === 'literal'\<close>.\<close>

definition fixed_literal :: "node \<Rightarrow> node option res" where
  "fixed_literal body =
    (case body of
       Call f args s e \<Rightarrow>
         if f = js ''fixed'' then
           sbind (arg_at args 0) (\<lambda>a.
           Inr (case a of Literal v i s1 e1 \<Rightarrow> Some a | _ \<Rightarrow> None))
         else Inr None
     | _ \<Rightarrow> Inr None)"

definition read_tier :: "node \<Rightarrow> visual_pricing option res" where
  "read_tier n =
    (case n of
       Call f args s e \<Rightarrow>
         if f \<noteq> js ''tier'' then Inr None
         else
           sbind (arg_at args 0) (\<lambda>l.
           case l of
             Literal (VStr label) i s1 e1 \<Rightarrow>
               sbind (arg_at args 1) (\<lambda>body.
               sbind (fixed_literal body) (\<lambda>fixed.
               Inr (case fixed of
                      Some amount \<Rightarrow> Some (VTier (span_id ''pricing-'' n) (Some n) label [] RequestUnit
                        (js_String (literal_value amount)))
                    | None \<Rightarrow>
                        map_option (\<lambda>prices. VTier (span_id ''pricing-'' n) (Some n) label prices
                          TokenUnit []) (read_prices (flattenBinary body (js ''+'')) []))))
           | _ \<Rightarrow> Inr None)
     | _ \<Rightarrow> Inr None)"

fun readVisualPricing :: "node \<Rightarrow> visual_pricing option res" where
  "readVisualPricing (Conditional c a b s e) =
    sbind (readVisualCondition c) (\<lambda>condition.
    sbind (readVisualPricing a) (\<lambda>yes.
    sbind (readVisualPricing b) (\<lambda>no.
    Inr (case (condition, yes, no) of
           (Some vc, Some y, Some n) \<Rightarrow> Some (VBranch (span_id ''pricing-'' (Conditional c a b s e))
             (Some (Conditional c a b s e)) vc y n)
         | _ \<Rightarrow> None))))"
| "readVisualPricing n = read_tier n"

subsection \<open>Patching the source\<close>

text \<open>\<open>text.slice(0, k)\<close> and \<open>text.slice(k)\<close>; a negative index counts from the end.\<close>

definition slice_index :: "jsstring \<Rightarrow> int \<Rightarrow> nat" where
  "slice_index s k = (if k < 0 then nat (int (length s) + k) else nat k)"

definition patch_one :: "node \<Rightarrow> node \<times> jsstring \<Rightarrow> jsstring \<Rightarrow> jsstring" where
  "patch_one origin patch result =
    take (slice_index result (int (nstart (fst patch)) - int (nstart origin))) result @ snd patch
    @ drop (slice_index result (int (nend (fst patch)) - int (nstart origin))) result"

definition patchSource :: "jsstring \<Rightarrow> node \<Rightarrow> (node \<times> jsstring) list \<Rightarrow> jsstring" where
  "patchSource source origin patches =
    fold (patch_one origin) (sort_key (\<lambda>p. - int (nstart (fst p))) patches)
      (js_slice source (nstart origin) (nend origin))"

definition parseNonNegativeNumber :: "jsstring \<Rightarrow> jsnum option" where
  "parseNonNegativeNumber value =
    (let t = js_trim value in
     if scan_decimal t \<noteq> Some (length t) then None
     else
       let number = js_Number value
       in if is_finite number \<and> js_le (Fin 0) number then Some number else None)"

subsection \<open>Writing conditions\<close>

definition number_or_null :: "jsnum option \<Rightarrow> jsval" where
  "number_or_null v = (case v of Some x \<Rightarrow> VNum x | None \<Rightarrow> VNull)"

definition add_issue :: "jsstring \<Rightarrow> string \<Rightarrow> visual_issue list \<Rightarrow> visual_issue list" where
  "add_issue ident msg issues = issues @ [\<lparr>vi_id = ident, vi_message = js msg\<rparr>]"

definition comparison_valid :: "jsstring \<Rightarrow> jsstring \<Rightarrow> jsnum option \<Rightarrow> bool" where
  "comparison_valid probe op value =
    (case value of
       None \<Rightarrow> False
     | Some x \<Rightarrow>
         (case map_of TIME_DOMAINS probe of
            None \<Rightarrow> True
          | Some (lo, hi) \<Rightarrow> is_integer x \<and> js_le (js_int lo) x
              \<and> js_le x (js_int (hi + (if op = js ''<'' then 1 else 0)))))"

text \<open>The literal zone of a time call, for the test whether the zone was edited.\<close>

definition original_zone :: "node option \<Rightarrow> jsval res" where
  "original_zone origin =
    (case origin of
       Some (Binary op (Call f args s1 e1) r s e) \<Rightarrow>
         sbind (arg_at args 0) (\<lambda>a. Inr (case a of Literal v i s2 e2 \<Rightarrow> v | _ \<Rightarrow> VNull))
     | _ \<Rightarrow> Inr VNull)"

definition zone_valid :: "host \<Rightarrow> jsstring \<Rightarrow> bool" where
  "zone_valid h timezone \<longleftrightarrow> js_trim timezone \<noteq> [] \<and> host_DateTimeFormat h (js_trim timezone) \<noteq> None"

definition check_comparison ::
  "host \<Rightarrow> jsstring \<Rightarrow> node option \<Rightarrow> jsstring \<Rightarrow> jsstring \<Rightarrow> jsstring \<Rightarrow> jsnum option
     \<Rightarrow> visual_issue list \<Rightarrow> visual_issue list res" where
  "check_comparison h ident origin probe timezone op value issues =
    (let issues1 = (if comparison_valid probe op value then issues
           else add_issue ident ''Enter a valid condition value.'' issues) in
     if probe \<notin> set TIME_FUNCTIONS then Inr issues1
     else
       sbind (original_zone origin) (\<lambda>zone.
       Inr (if strict_eq (VStr timezone) zone \<or> zone_valid h timezone then issues1
            else add_issue ident ''Choose a valid IANA timezone.'' issues1)))"

definition probe_text :: "jsstring \<Rightarrow> jsstring \<Rightarrow> jsstring" where
  "probe_text probe timezone =
    (if probe \<in> set TIME_FUNCTIONS then probe @ js ''('' @ json_quote timezone @ js '')'' else probe)"

text \<open>The probe's text: the source text of the old probe if it is unchanged.\<close>

definition reused_probe :: "jsstring \<Rightarrow> node \<Rightarrow> jsstring \<Rightarrow> jsstring \<Rightarrow> jsstring res" where
  "reused_probe source oldProbe probe timezone =
    (case oldProbe of
       Variable x s e \<Rightarrow>
         Inr (if x = probe then js_slice source s e else probe_text probe timezone)
     | Call f args s e \<Rightarrow>
         if f = probe then
           sbind (arg_at args 0) (\<lambda>a.
           Inr (case a of
                  Literal v i s1 e1 \<Rightarrow>
                    if strict_eq v (VStr timezone) then js_slice source s e
                    else probe_text probe timezone
                | _ \<Rightarrow> probe_text probe timezone))
         else Inr (probe_text probe timezone)
     | _ \<Rightarrow> Inr (probe_text probe timezone))"

text \<open>\<open>literal && value === literal.value ? source.slice(...) : text\<close>.\<close>

definition reused_value :: "jsstring \<Rightarrow> node \<Rightarrow> jsnum option \<Rightarrow> jsstring \<Rightarrow> jsstring" where
  "reused_value source n value text =
    (case n of
       Literal v i s e \<Rightarrow>
         if strict_eq (number_or_null value) v then js_slice source s e else text
     | _ \<Rightarrow> text)"

definition write_comparison ::
  "host \<Rightarrow> jsstring \<Rightarrow> jsstring \<Rightarrow> node option \<Rightarrow> jsstring \<Rightarrow> jsstring \<Rightarrow> jsstring \<Rightarrow> jsstring
     \<Rightarrow> visual_issue list \<Rightarrow> (jsstring \<times> visual_issue list) res" where
  "write_comparison h source ident origin probe timezone op text issues =
    (let value = parseNonNegativeNumber text in
     sbind (check_comparison h ident origin probe timezone op value issues) (\<lambda>issues1.
     case origin of
       Some (Binary op2 l r s e) \<Rightarrow>
         if op2 = op then
           sbind (reused_probe source l probe timezone) (\<lambda>probeText.
           Inr (patchSource source (Binary op2 l r s e)
                  [(l, probeText), (r, reused_value source r value text)], issues1))
         else Inr (js ''('' @ probe_text probe timezone @ js '' '' @ op @ js '' '' @ text @ js '')'', issues1)
     | _ \<Rightarrow> Inr (js ''('' @ probe_text probe timezone @ js '' '' @ op @ js '' '' @ text @ js '')'', issues1)))"

text \<open>Whether the children of a group are still those of its origin.\<close>

definition same_children :: "node option \<Rightarrow> jsstring \<Rightarrow> node option list \<Rightarrow> bool" where
  "same_children origin op origins =
    (case origin of
       Some (Binary op2 l r s e) \<Rightarrow>
         op2 = op \<and> origins = map Some (flattenBinary (Binary op2 l r s e) op)
     | _ \<Rightarrow> False)"

definition write_group ::
  "jsstring \<Rightarrow> node option \<Rightarrow> jsstring \<Rightarrow> node option list \<Rightarrow> jsstring list \<Rightarrow> jsstring" where
  "write_group source origin op origins texts =
    (case origin of
       Some n \<Rightarrow>
         if same_children origin op origins
         then patchSource source n (zip (flattenBinary n op) texts)
         else js ''('' @ js_join (map (\<lambda>t. js ''('' @ t @ js '')'') texts) (js '' '' @ op @ js '' '') @ js '')''
     | None \<Rightarrow>
         js ''('' @ js_join (map (\<lambda>t. js ''('' @ t @ js '')'') texts) (js '' '' @ op @ js '' '') @ js '')'')"

definition group_issues :: "jsstring \<Rightarrow> 'a list \<Rightarrow> visual_issue list \<Rightarrow> visual_issue list" where
  "group_issues ident kids issues =
    (if kids = [] then add_issue ident ''Add at least one condition to this group.'' issues else issues)"

fun writeVisualCondition ::
  "host \<Rightarrow> jsstring \<Rightarrow> visual_condition \<Rightarrow> visual_issue list \<Rightarrow> (jsstring \<times> visual_issue list) res"
and writeVisualConditions ::
  "host \<Rightarrow> jsstring \<Rightarrow> visual_condition list \<Rightarrow> visual_issue list \<Rightarrow> (jsstring list \<times> visual_issue list) res" where
  "writeVisualCondition h source (VNot ident origin child) issues =
    sbind (writeVisualCondition h source child issues) (\<lambda>(text, issues1).
    Inr (case origin of
           Some (Unary op a s e) \<Rightarrow>
             if vc_origin child = Some a
             then (patchSource source (Unary op a s e) [(a, text)], issues1)
             else (js ''!('' @ text @ js '')'', issues1)
         | _ \<Rightarrow> (js ''!('' @ text @ js '')'', issues1)))"
| "writeVisualCondition h source (VAll ident origin kids) issues =
    sbind (writeVisualConditions h source kids (group_issues ident kids issues)) (\<lambda>(texts, issues1).
    Inr (write_group source origin (js ''&&'') (map vc_origin kids) texts, issues1))"
| "writeVisualCondition h source (VAny ident origin kids) issues =
    sbind (writeVisualConditions h source kids (group_issues ident kids issues)) (\<lambda>(texts, issues1).
    Inr (write_group source origin (js ''||'') (map vc_origin kids) texts, issues1))"
| "writeVisualCondition h source (VComparison ident origin probe timezone op text) issues =
    write_comparison h source ident origin probe timezone op text issues"
| "writeVisualConditions h source [] issues = Inr ([], issues)"
| "writeVisualConditions h source (c # cs) issues =
    sbind (writeVisualCondition h source c issues) (\<lambda>(text, issues1).
    sbind (writeVisualConditions h source cs issues1) (\<lambda>(texts, issues2).
    Inr (text # texts, issues2)))"

definition visualConditionExpression :: "host \<Rightarrow> visual_condition \<Rightarrow> jsstring \<Rightarrow> jsstring option res" where
  "visualConditionExpression h n source =
    sbind (writeVisualCondition h source n []) (\<lambda>(text, issues).
    Inr (if issues = [] then Some text else None))"


subsection \<open>Writing pricing trees\<close>

text \<open>\<open>label.kind === 'literal' && label.value === node.label ? source.slice(...) : JSON.stringify(...)\<close>.\<close>

definition label_text :: "jsstring \<Rightarrow> node \<Rightarrow> jsstring \<Rightarrow> jsstring" where
  "label_text source node label =
    (case node of
       Literal v i s e \<Rightarrow> if strict_eq v (VStr label) then js_slice source s e else json_quote label
     | _ \<Rightarrow> json_quote label)"

definition fixed_text :: "jsstring \<Rightarrow> node \<Rightarrow> jsstring \<Rightarrow> jsnum option \<Rightarrow> jsstring res" where
  "fixed_text source price fixedPrice value =
    sbind (fixed_literal price) (\<lambda>amount.
    Inr (case amount of
           Some a \<Rightarrow> patchSource source price [(a, reused_value source a value fixedPrice)]
         | None \<Rightarrow> js ''fixed('' @ fixedPrice @ js '')''))"

definition tier_origin :: "node option \<Rightarrow> node list option" where
  "tier_origin origin =
    (case origin of
       Some (Call f args s e) \<Rightarrow> if f = js ''tier'' then Some args else None
     | _ \<Rightarrow> None)"

definition fixed_value_ok :: "jsnum option \<Rightarrow> bool" where
  "fixed_value_ok value = (case value of Some v \<Rightarrow> is_finite (js_mul v (Fin 1000000)) | None \<Rightarrow> False)"

definition write_request_tier ::
  "jsstring \<Rightarrow> jsstring \<Rightarrow> node option \<Rightarrow> jsstring \<Rightarrow> jsstring \<Rightarrow> visual_issue list
     \<Rightarrow> (jsstring \<times> visual_issue list) res" where
  "write_request_tier source ident origin label fixedPrice issues =
    (let value = parseNonNegativeNumber fixedPrice;
         issues1 = (if fixed_value_ok value then issues
           else add_issue (ident @ js '':fixed'') ''Enter a finite, non-negative price.'' issues)
     in case (origin, tier_origin origin) of
          (Some n, Some args) \<Rightarrow>
            sbind (arg_at args 0) (\<lambda>l.
            sbind (arg_at args 1) (\<lambda>price.
            sbind (fixed_text source price fixedPrice value) (\<lambda>priceText.
            Inr (patchSource source n [(l, label_text source l label), (price, priceText)], issues1))))
        | _ \<Rightarrow> Inr (js ''tier('' @ json_quote label @ js '', fixed('' @ fixedPrice @ js ''))'', issues1))"

text \<open>One price: its term, its patch if it has an origin, and its issue.\<close>

definition write_price ::
  "jsstring \<Rightarrow> jsstring \<Rightarrow> visual_price \<Rightarrow> visual_issue list
     \<Rightarrow> jsstring \<times> (node \<times> jsstring) list \<times> visual_issue list" where
  "write_price source ident price issues =
    (let value = parseNonNegativeNumber (vp_value price);
         issues1 = (if value \<noteq> None then issues
           else add_issue (ident @ js '':'' @ vp_variable price) ''Enter a finite, non-negative price.'' issues)
     in case vp_origin price of
          Some (Binary op l (Literal v i s1 e1) s e) \<Rightarrow>
            let text = reused_value source (Literal v i s1 e1) value (vp_value price)
            in (patchSource source (Binary op l (Literal v i s1 e1) s e) [(Literal v i s1 e1, text)],
                [(Literal v i s1 e1, text)], issues1)
        | _ \<Rightarrow> (vp_variable price @ js '' * '' @ vp_value price, [], issues1))"

fun write_prices ::
  "jsstring \<Rightarrow> jsstring \<Rightarrow> visual_price list \<Rightarrow> visual_issue list
     \<Rightarrow> jsstring list \<times> (node \<times> jsstring) list \<times> visual_issue list" where
  "write_prices source ident [] issues = ([], [], issues)"
| "write_prices source ident (p # ps) issues =
    (let (term1, patches1, issues1) = write_price source ident p issues;
         (terms, patches, issues2) = write_prices source ident ps issues1
     in (term1 # terms, patches1 @ patches, issues2))"

definition write_token_tier ::
  "jsstring \<Rightarrow> jsstring \<Rightarrow> node option \<Rightarrow> jsstring \<Rightarrow> visual_price list \<Rightarrow> visual_issue list
     \<Rightarrow> (jsstring \<times> visual_issue list) res" where
  "write_token_tier source ident origin label prices issues =
    (let issues1 = (if prices = [] then add_issue ident ''Include at least one price variable.'' issues
           else issues);
         (terms, valuePatches, issues2) = write_prices source ident prices issues1
     in case (origin, tier_origin origin) of
          (Some n, Some args) \<Rightarrow>
            sbind (arg_at args 0) (\<lambda>l.
            sbind (arg_at args 1) (\<lambda>body.
            Inr (patchSource source n
                   ((l, label_text source l label)
                    # (if map vp_origin prices = map Some (flattenBinary body (js ''+''))
                       then valuePatches else [(body, js_join terms (js '' + ''))])),
                 issues2)))
        | _ \<Rightarrow> Inr (js ''tier('' @ json_quote label @ js '', '' @ js_join terms (js '' + '') @ js '')'',
                 issues2))"

fun writeVisualPricing ::
  "host \<Rightarrow> jsstring \<Rightarrow> visual_pricing \<Rightarrow> visual_issue list \<Rightarrow> (jsstring \<times> visual_issue list) res" where
  "writeVisualPricing h source (VBranch ident origin condition y n) issues =
    sbind (writeVisualCondition h source condition issues) (\<lambda>(conditionText, issues1).
    sbind (writeVisualPricing h source y issues1) (\<lambda>(yesText, issues2).
    sbind (writeVisualPricing h source n issues2) (\<lambda>(noText, issues3).
    Inr (case origin of
           Some (Conditional c a b s e) \<Rightarrow>
             patchSource source (Conditional c a b s e) [(c, conditionText), (a, yesText), (b, noText)]
         | _ \<Rightarrow> js ''('' @ conditionText @ js '') ? ('' @ yesText @ js '') : ('' @ noText @ js '')'',
         issues3))))"
| "writeVisualPricing h source (VTier ident origin label prices unit fixedPrice) issues =
    (if unit = RequestUnit then write_request_tier source ident origin label fixedPrice issues
     else write_token_tier source ident origin label prices issues)"

subsection \<open>Documents\<close>

definition serializeVisualBillingDocument ::
  "host \<Rightarrow> visual_document \<Rightarrow> cache \<Rightarrow> serialization res \<times> cache" where
  "serializeVisualBillingDocument h doc cache =
    (case writeVisualPricing h (vd_source doc) (vd_root doc) [] of
       Inl err \<Rightarrow> (Inl err, cache)
     | Inr (body, issues) \<Rightarrow>
         if issues \<noteq> [] then (Inr (Issues issues), cache)
         else
           case compileBillingExpression (vd_source doc) cache of
             (Failed e, cache1) \<Rightarrow>
               (Inr (Issues (add_issue (vn_id (vd_root doc))
                  ''This expression cannot be edited visually without losing information.'' [])), cache1)
           | (Ready c, cache1) \<Rightarrow>
               let source = take (nstart (c_ast c)) (vd_source doc) @ body
                     @ drop (nend (c_ast c)) (vd_source doc)
               in case compileBillingExpression source cache1 of
                    (Failed e, cache2) \<Rightarrow>
                      (Inr (Issues (add_issue (vn_id (vd_root doc)) ''Enter a valid condition value.'' [])),
                       cache2)
                  | (Ready c2, cache2) \<Rightarrow> (Inr (Serialized source), cache2))"

definition parseVisualBillingDocument ::
  "host \<Rightarrow> jsstring \<Rightarrow> cache \<Rightarrow> visual_document option res \<times> cache" where
  "parseVisualBillingDocument h source cache =
    (case compileBillingExpression source cache of
       (Failed e, cache1) \<Rightarrow> (Inr None, cache1)
     | (Ready c, cache1) \<Rightarrow>
         (case readVisualPricing (c_ast c) of
            Inl err \<Rightarrow> (Inl err, cache1)
          | Inr None \<Rightarrow> (Inr None, cache1)
          | Inr (Some r) \<Rightarrow>
              let doc = \<lparr>vd_source = source, vd_root = r\<rparr>
              in case serializeVisualBillingDocument h doc cache1 of
                   (Inl err, cache2) \<Rightarrow> (Inl err, cache2)
                 | (Inr (Serialized s), cache2) \<Rightarrow> (Inr (Some doc), cache2)
                 | (Inr (Issues is), cache2) \<Rightarrow> (Inr None, cache2)))"


subsection \<open>Unedited documents\<close>

text \<open>\<open>String\<close> and \<open>Number\<close> are inverse on the number of a literal.\<close>

fun reprints :: "node \<Rightarrow> bool" where
  "reprints (Literal (VNum v) i s e) =
    (case parseNonNegativeNumber (js_String_num v) of Some w \<Rightarrow> js_num_eq w v | None \<Rightarrow> False)"
| "reprints n = True"

definition readable :: "jsstring \<Rightarrow> node \<Rightarrow> bool" where
  "readable source n \<longleftrightarrow> spans_ok n \<and> nend n \<le> length source \<and> (\<exists>t. infer n = Inr t)
     \<and> list_all reprints (postorder n)"

definition node_text :: "jsstring \<Rightarrow> node \<Rightarrow> jsstring" where
  "node_text source n = js_slice source (nstart n) (nend n)"

lemma readable_child:
  assumes "readable source n" "c \<in> set (children n)"
  shows "readable source c"
  using assms spans_okD(3,4)[of n c] infer_child[of n _ c]
  by (fastforce simp: readable_def postorder.simps[of n] list_all_iff)

lemma readable_inside:
  assumes "readable source n" "c \<in> set (postorder n)"
  shows "nstart n \<le> nstart c \<and> nstart c \<le> nend c \<and> nend c \<le> nend n"
  using assms postorder_inside[of n c] by (auto simp: readable_def)

lemma postorder_child:
  "c \<in> set (children n) \<Longrightarrow> m \<in> set (postorder c) \<Longrightarrow> m \<in> set (postorder n)"
  by (auto simp: postorder.simps[of n])

lemma postorder_trans:
  "m \<in> set (postorder n) \<Longrightarrow> k \<in> set (postorder m) \<Longrightarrow> k \<in> set (postorder n)"
proof (induction n rule: node_children_induct)
  case (node n)
  then show ?case by (auto simp: postorder.simps[of n])
qed

lemma flattenBinary_postorder: "m \<in> set (flattenBinary n op) \<Longrightarrow> m \<in> set (postorder n)"
  by (induction n op rule: flattenBinary.induct)
     (auto split: if_splits intro: postorder_child[rotated])

lemma readable_flatten:
  "readable source n \<Longrightarrow> m \<in> set (flattenBinary n op) \<Longrightarrow> readable source m"
proof (induction n op rule: flattenBinary.induct)
  case (1 op a b s e operator)
  have "readable source a" "readable source b"
    using readable_child[OF 1(3)] by simp_all
  then show ?case using 1 by (auto split: if_splits)
qed auto

text \<open>Replacing parts by their own text changes nothing.\<close>

lemma patch_one_same:
  assumes "nstart n \<le> nstart c" "nstart c \<le> nend c" "nend c \<le> nend n" "nend n \<le> length source"
  shows "patch_one n (c, node_text source c) (node_text source n) = node_text source n"
proof -
  let ?t = "node_text source n" and ?a = "nstart c - nstart n" and ?b = "nend c - nstart n"
  have i: "slice_index ?t (int (nstart c) - int (nstart n)) = ?a"
      "slice_index ?t (int (nend c) - int (nstart n)) = ?b"
    using assms by (auto simp: slice_index_def)
  have "node_text source c = js_slice ?t ?a ?b"
    using js_slice_slice[of "nstart n" "nstart c" "nend c" "nend n" source] assms
    by (simp add: node_text_def)
  moreover have "?a \<le> ?b" using assms by simp
  then have "take ?a ?t @ js_slice ?t ?a ?b = take ?b ?t"
    using take_add[of ?a "?b - ?a" ?t] by (simp only: js_slice_def le_add_diff_inverse)
  ultimately have "take ?a ?t @ node_text source c @ drop ?b ?t = ?t"
    by (metis append.assoc append_take_drop_id)
  then show ?thesis by (simp add: patch_one_def i)
qed

lemma patchSource_same:
  assumes n: "readable source n"
    and ps: "\<And>c t. (c, t) \<in> set patches \<Longrightarrow> c \<in> set (postorder n) \<and> t = node_text source c"
  shows "patchSource source n patches = node_text source n"
proof -
  have "fold (patch_one n) ps (node_text source n) = node_text source n"
    if "set ps \<subseteq> set patches" for ps
    using that
  proof (induction ps)
    case (Cons p ps)
    obtain c t where p: "p = (c, t)" by (cases p)
    then have "c \<in> set (postorder n)" "t = node_text source c" using ps Cons.prems by auto
    then show ?case
      using Cons patch_one_same[of n c source] readable_inside[OF n] n
      by (simp add: p readable_def)
  qed simp
  then show ?thesis by (simp add: patchSource_def flip: node_text_def)
qed

subsection \<open>Unedited conditions\<close>

lemma reused_value_same:
  assumes "readable source n" "n = Literal (VNum v) i s e"
  shows "reused_value source n (parseNonNegativeNumber (js_String_num v)) text = node_text source n"
  using assms
  by (auto simp: readable_def reused_value_def number_or_null_def node_text_def
      postorder.simps[of "Literal _ _ _ _"] split: option.splits)

lemma read_probe_cases:
  assumes "read_probe l = Inr (Some (probe, zone))"
  obtains (token) s e where "l = Variable probe s e" "probe \<in> set token_probes"
  | (time) args i s1 e1 s e where "l = Call probe args s e" "probe \<in> set TIME_FUNCTIONS"
      "arg_at args 0 = Inr (Literal (VStr zone) i s1 e1)"
proof (cases l)
  case (Variable x s e)
  then show thesis using assms token by (simp add: read_probe_def split: if_splits)
next
  case (Call f args s e)
  then obtain a where a: "f \<in> set TIME_FUNCTIONS" "arg_at args 0 = Inr a"
      "(case a of Literal (VStr zone) i s1 e1 \<Rightarrow> Some (f, zone) | _ \<Rightarrow> None) = Some (probe, zone)"
    using assms by (auto simp: read_probe_def split: if_splits)
  then obtain v i s1 e1 where "a = Literal v i s1 e1" by (cases a) auto
  then show thesis using a Call time by (cases v) auto
qed (use assms in \<open>simp_all add: read_probe_def\<close>)

lemma reused_probe_same:
  assumes "read_probe l = Inr (Some (probe, zone))"
  shows "reused_probe source l probe zone = Inr (node_text source l)"
  using assms
  by (cases rule: read_probe_cases) (simp_all add: reused_probe_def node_text_def)

lemma original_zone_ok:
  assumes "read_probe l = Inr (Some (probe, zone))"
  obtains z where "original_zone (Some (Binary op l r s e)) = Inr z"
  using assms(1) that by (cases rule: read_probe_cases) (simp_all add: original_zone_def)

lemma read_comparison_write:
  assumes r: "read_comparison n = Inr (Some vc)" and n: "readable source n"
  shows "vc_origin vc = Some n
     \<and> (\<exists>issues1. writeVisualCondition h source vc issues = Inr (node_text source n, issues1))"
proof -
  obtain op l v i s1 e1 s e where nn: "n = Binary op l (Literal (VNum v) i s1 e1) s e"
    using r by (auto simp: read_comparison_def split: node.splits jsval.splits)
  obtain probe zone where p: "read_probe l = Inr (Some (probe, zone))"
    and vc: "vc = VComparison (span_id ''condition-'' n) (Some n) probe zone op (js_String_num v)"
    using r by (auto simp: nn read_comparison_def split: if_splits option.splits)
  let ?r = "Literal (VNum v) i s1 e1"
  have "readable source ?r" by (rule readable_child[OF n]) (simp add: nn)
  note rv = reused_value_same[OF this refl]
  obtain issues1 where ch: "check_comparison h (span_id ''condition-'' n) (Some n) probe zone op
      (parseNonNegativeNumber (js_String_num v)) issues = Inr issues1"
    by (rule original_zone_ok[OF p, of op ?r s e])
       (cases "probe \<in> set TIME_FUNCTIONS"; simp add: check_comparison_def nn Let_def)
  have "patchSource source n [(l, node_text source l), (?r, node_text source ?r)] = node_text source n"
    by (rule patchSource_same[OF n]) (auto simp: nn postorder.simps[of "Binary _ _ _ _ _"])
  then show ?thesis
    using ch by (simp add: vc write_comparison_def Let_def)
       (simp add: nn reused_probe_same[OF p] rv)
qed

lemma write_conditions_same:
  assumes "smap readVisualCondition ns = Inr os" "all_some os = Some vcs"
    and "\<And>n vc issues. n \<in> set ns \<Longrightarrow> readVisualCondition n = Inr (Some vc) \<Longrightarrow>
      vc_origin vc = Some n
      \<and> (\<exists>issues1. writeVisualCondition h source vc issues = Inr (node_text source n, issues1))"
  shows "map vc_origin vcs = map Some ns
     \<and> (\<exists>issues1. writeVisualConditions h source vcs issues = Inr (map (node_text source) ns, issues1))"
  using assms
proof (induction ns arbitrary: os vcs issues)
  case (Cons n ns)
  obtain vc vcs1 os1 where o: "readVisualCondition n = Inr (Some vc)"
      "smap readVisualCondition ns = Inr os1" "all_some os1 = Some vcs1" "vcs = vc # vcs1"
    using Cons.prems(1,2) by (auto split: option.splits)
  obtain issues1 where w: "vc_origin vc = Some n"
      "writeVisualCondition h source vc issues = Inr (node_text source n, issues1)"
    using Cons.prems(3)[OF _ o(1), of issues] by auto
  show ?case
    using Cons.IH[OF o(2,3), of issues1] Cons.prems(3) o(4) w by fastforce
qed auto

lemma write_group_same:
  assumes "readable source n" "n = Binary op a b s e"
    and "origins = map Some (flattenBinary n op)"
  shows "write_group source (Some n) op origins (map (node_text source) (flattenBinary n op))
     = node_text source n"
proof -
  have "patchSource source n (zip (flattenBinary n op) (map (node_text source) (flattenBinary n op)))
      = node_text source n"
    by (rule patchSource_same[OF assms(1)])
       (auto simp: zip_map2 zip_same_conv_map dest: flattenBinary_postorder)
  then show ?thesis using assms by (simp add: write_group_def same_children_def)
qed

lemma readVisualCondition_write:
  assumes "readVisualCondition n = Inr (Some vc)" "readable source n"
  shows "vc_origin vc = Some n
     \<and> (\<exists>issues1. writeVisualCondition h source vc issues = Inr (node_text source n, issues1))"
  using assms
proof (induction n arbitrary: vc issues rule: readVisualCondition.induct)
  case (1 op a s e)
  let ?n = "Unary op a s e"
  have a: "readable source a" by (rule readable_child[OF 1(3)]) simp
  obtain c where op: "op = js ''!''" and c: "readVisualCondition a = Inr (Some c)"
    and vc: "vc = VNot (span_id ''condition-'' ?n) (Some ?n) c"
    using 1(2) by (auto simp: readVisualCondition.simps(1)[of op a s e] split: if_splits)
  obtain issues1 where w: "vc_origin c = Some a"
      "writeVisualCondition h source c issues = Inr (node_text source a, issues1)"
    using 1(1)[OF op c a] by blast
  have "patchSource source ?n [(a, node_text source a)] = node_text source ?n"
    by (rule patchSource_same[OF 1(3)]) (auto simp: postorder.simps[of ?n])
  then show ?case by (simp add: vc w)
next
  case (2 op a b s e)
  let ?n = "Binary op a b s e"
  show ?case
  proof (cases "op = js ''&&'' \<or> op = js ''||''")
    case False
    then show ?thesis
      using read_comparison_write[OF _ 2(3)] 2(2) by (simp add: readVisualCondition.simps(2)[of op a b s e])
  next
    case True
    obtain os vcs where o: "smap readVisualCondition (flattenBinary ?n op) = Inr os" "all_some os = Some vcs"
      and vc: "vc = (if op = js ''&&'' then VAll else VAny) (span_id ''condition-'' ?n) (Some ?n) vcs"
      using 2(2) True by (auto simp: readVisualCondition.simps(2)[of op a b s e])
    have IH: "vc_origin vc = Some m
        \<and> (\<exists>issues1. writeVisualCondition h source vc issues = Inr (node_text source m, issues1))"
      if "m \<in> set (flattenBinary ?n op)" "readVisualCondition m = Inr (Some vc)" for m vc issues
      by (rule 2(1)[OF True that(1) that(2) readable_flatten[OF 2(3) that(1)]])
    note ws = write_conditions_same[OF o, of h source, OF IH]
    have g: "write_group source (Some ?n) op (map vc_origin vcs)
        (map (node_text source) (flattenBinary ?n op)) = node_text source ?n"
      using write_group_same[OF 2(3) refl] ws by blast
    obtain issues1 where "writeVisualConditions h source vcs (group_issues (span_id ''condition-'' ?n) vcs issues)
        = Inr (map (node_text source) (flattenBinary ?n op), issues1)"
      using ws by blast
    then show ?thesis
      using g True by (cases "op = js ''&&''") (simp_all add: vc)
  qed
qed (simp_all add: readVisualCondition.simps)


subsection \<open>Unedited pricing trees\<close>

lemma label_text_same:
  "label_text source (Literal (VStr label) i s e) label = node_text source (Literal (VStr label) i s e)"
  by (simp add: label_text_def node_text_def)

lemma fixed_literal_cases:
  assumes "fixed_literal body = Inr (Some a)"
  obtains args v i s1 e1 s e where "body = Call (js ''fixed'') args s e" "arg_at args 0 = Inr a"
    "a = Literal v i s1 e1"
  using assms
proof (cases body)
  case (Call f args s e)
  then obtain b where "f = js ''fixed''" "arg_at args 0 = Inr b"
      "(case b of Literal v i s1 e1 \<Rightarrow> Some b | _ \<Rightarrow> None) = Some a"
    using assms by (auto simp: fixed_literal_def split: if_splits)
  then show thesis using Call that by (cases b) auto
qed (simp_all add: fixed_literal_def)

lemma arg_at_child: "arg_at args k = Inr a \<Longrightarrow> a \<in> set args"
  by (auto simp: arg_at_def split: if_splits)

text \<open>The checker only lets a number be a fixed amount.\<close>

lemma require_all:
  assumes "sfold (\<lambda>arg _. requireType get arg t) args u = Inr w" "a \<in> set args"
  shows "get a = Some t \<or> get a = Some TDynamic"
  using assms by (induction args arbitrary: u) (auto simp: requireType_def split: if_splits)

lemma fixed_amount_number:
  assumes "infer (Call (js ''fixed'') args s e) = Inr t" "Literal v i s1 e1 \<in> set args"
  shows "literal_type v = TNumber"
proof -
  have "infer (Literal v i s1 e1) = Inr (literal_type v)"
    by (simp add: infer.simps[of "Literal v i s1 e1"])
  moreover obtain u where "sfold (\<lambda>arg _. requireType (\<lambda>c. case infer c of Inr t \<Rightarrow> Some t | Inl _ \<Rightarrow> None)
      arg TNumber) args () = Inr u"
    using infer_children[OF assms(1)] by (auto simp: call_type_def TIME_FUNCTIONS_def)
  ultimately have "literal_type v = TNumber \<or> literal_type v = TDynamic"
    using require_all[OF _ assms(2)] by fastforce
  then show ?thesis by (cases v rule: literal_type.cases) simp_all
qed

lemma fixed_text_same:
  assumes "fixed_literal body = Inr (Some a)" "readable source body"
  shows "fixed_text source body (js_String (literal_value a))
      (parseNonNegativeNumber (js_String (literal_value a))) = Inr (node_text source body)"
proof -
  obtain args v i s1 e1 s e where b: "body = Call (js ''fixed'') args s e" "arg_at args 0 = Inr a"
      "a = Literal v i s1 e1"
    by (rule fixed_literal_cases[OF assms(1)])
  then have kid: "a \<in> set (children body)" using arg_at_child by auto
  obtain t where "infer body = Inr t" using assms(2) by (auto simp: readable_def)
  then have "literal_type v = TNumber"
    using fixed_amount_number[of args s e t v i s1 e1] kid b by simp
  then obtain x where v: "v = VNum x" by (cases v) auto
  have "patchSource source body [(a, node_text source a)] = node_text source body"
    by (rule patchSource_same[OF assms(2)]) (use postorder_child[OF kid] in auto)
  then show ?thesis
    using assms(1) reused_value_same[OF readable_child[OF assms(2) kid]] b(3) v
    by (simp add: fixed_text_def)
qed

text \<open>The prices of a tier: each patches its own number with its own text.\<close>

lemma read_price_cases:
  assumes "read_price prices n = Some ps"
  obtains op x s1 e1 v i s2 e2 s e where
    "n = Binary op (Variable x s1 e1) (Literal (VNum v) i s2 e2) s e"
    "ps = prices @ [\<lparr>vp_variable = x, vp_value = js_String_num v, vp_origin = Some n\<rparr>]"
  using assms by (cases "(prices, n)" rule: read_price.cases) (auto split: if_splits)

lemma read_prices_write:
  assumes "read_prices ns prices = Some ps" "\<And>n. n \<in> set ns \<Longrightarrow> readable source n"
  shows "\<exists>new. ps = prices @ new \<and> map vp_origin new = map Some ns
     \<and> (\<exists>terms patches issues1. write_prices source ident new issues = (terms, patches, issues1)
        \<and> (\<forall>(c, t) \<in> set patches. (\<exists>n \<in> set ns. c \<in> set (children n)) \<and> t = node_text source c))"
  using assms
proof (induction ns arbitrary: prices issues)
  case (Cons n ns)
  obtain ps1 where r: "read_price prices n = Some ps1" "read_prices ns ps1 = Some ps"
    using Cons.prems(1) by (auto split: option.splits)
  obtain op x s1 e1 v i s2 e2 s e where n: "n = Binary op (Variable x s1 e1) (Literal (VNum v) i s2 e2) s e"
      and ps1: "ps1 = prices @ [\<lparr>vp_variable = x, vp_value = js_String_num v, vp_origin = Some n\<rparr>]"
    by (rule read_price_cases[OF r(1)])
  let ?p = "\<lparr>vp_variable = x, vp_value = js_String_num v, vp_origin = Some n\<rparr>"
    and ?c = "Literal (VNum v) i s2 e2"
  have kid: "?c \<in> set (children n)" by (simp add: n)
  have "readable source ?c" using readable_child[OF Cons.prems(2) kid] by simp
  note c = reused_value_same[OF this refl]
  obtain term1 issues1 where w: "write_price source ident ?p issues
      = (term1, [(?c, node_text source ?c)], issues1)"
    by (simp add: write_price_def n Let_def c)
  obtain new terms patches issues2 where IH: "ps = ps1 @ new" "map vp_origin new = map Some ns"
      "write_prices source ident new issues1 = (terms, patches, issues2)"
      "\<forall>(c, t) \<in> set patches. (\<exists>n \<in> set ns. c \<in> set (children n)) \<and> t = node_text source c"
    using Cons.IH[OF r(2), of issues1] Cons.prems(2) by auto
  have "\<forall>(c, t) \<in> set ((?c, node_text source ?c) # patches).
      (\<exists>m \<in> set (n # ns). c \<in> set (children m)) \<and> t = node_text source c"
    using IH(4) kid by auto
  then show ?case
    using IH w by (intro exI[of _ "?p # new"]) (simp add: ps1)
qed simp

lemma readVisualPricing_tier:
  assumes "read_tier n = Inr (Some vn)" "readable source n"
  shows "vn_origin vn = Some n
     \<and> (\<exists>issues1. writeVisualPricing h source vn issues = Inr (node_text source n, issues1))"
proof -
  obtain args s e l where n: "n = Call (js ''tier'') args s e" and l: "arg_at args 0 = Inr l"
    using assms(1) by (cases n) (auto simp: read_tier_def split: if_splits)
  obtain label i s1 e1 where lab: "l = Literal (VStr label) i s1 e1"
    using assms(1) n l by (cases l; (cases "literal_value l")?) (auto simp: read_tier_def)
  obtain body amount where body: "arg_at args 1 = Inr body" "fixed_literal body = Inr amount"
    using assms(1) by (auto simp: read_tier_def n l lab)
  note body1 = body(1)[unfolded One_nat_def]
  have kids: "l \<in> set (children n)" "body \<in> set (children n)"
    using l body(1) arg_at_child by (auto simp: n)
  note post = postorder_child[OF kids(1)] postorder_child[OF kids(2)]
  note rb = readable_child[OF assms(2) kids(2)]
  show ?thesis
  proof (cases amount)
    case (Some a)
    have vn: "vn = VTier (span_id ''pricing-'' n) (Some n) label [] RequestUnit (js_String (literal_value a))"
      using assms(1) by (simp add: read_tier_def n l lab body body1 Some)
    have "patchSource source n [(l, node_text source l), (body, node_text source body)] = node_text source n"
      by (rule patchSource_same[OF assms(2)]) (use post in auto)
    then show ?thesis
      using fixed_text_same[OF body(2)[unfolded Some] rb]
      by (simp add: vn write_request_tier_def Let_def tier_origin_def n l body body1 label_text_same lab)
  next
    case None
    obtain ps where ps: "read_prices (flattenBinary body (js ''+'')) [] = Some ps"
      and vn: "vn = VTier (span_id ''pricing-'' n) (Some n) label ps TokenUnit []"
      using assms(1) by (auto simp: read_tier_def n l lab body body1 None)
    let ?is = "if ps = [] then add_issue (span_id ''pricing-'' n) ''Include at least one price variable.'' issues
      else issues"
    have rf: "readable source m" if "m \<in> set (flattenBinary body (js ''+''))" for m
      using readable_flatten[OF rb that] .
    obtain terms patches issues1 where w: "map vp_origin ps = map Some (flattenBinary body (js ''+''))"
        "write_prices source (span_id ''pricing-'' n) ps ?is = (terms, patches, issues1)"
        "\<forall>(c, t) \<in> set patches. (\<exists>m \<in> set (flattenBinary body (js ''+'')). c \<in> set (children m))
           \<and> t = node_text source c"
      using read_prices_write[OF ps rf, where ident = "span_id ''pricing-'' n" and issues = ?is]
      by auto
    have "c \<in> set (postorder n) \<and> t = node_text source c" if ct: "(c, t) \<in> set patches" for c t
    proof -
      obtain m where "m \<in> set (flattenBinary body (js ''+''))" "c \<in> set (children m)" "t = node_text source c"
        using bspec[OF w(3) ct] by auto
      then show ?thesis
        using postorder_trans[OF flattenBinary_postorder postorder_child[OF _ postorder_self]] post(2) by blast
    qed
    then have "patchSource source n ((l, node_text source l) # patches) = node_text source n"
      by (intro patchSource_same[OF assms(2)]) (use post in auto)
    then show ?thesis
      using w(1,2)
      by (cases "ps = []")
         (simp_all add: vn write_token_tier_def Let_def tier_origin_def n l body body1 label_text_same lab)
  qed
qed

lemma readVisualPricing_write:
  assumes "readVisualPricing n = Inr (Some vn)" "readable source n"
  shows "vn_origin vn = Some n
     \<and> (\<exists>issues1. writeVisualPricing h source vn issues = Inr (node_text source n, issues1))"
  using assms
proof (induction n arbitrary: vn issues rule: readVisualPricing.induct)
  case (1 c a b s e)
  let ?n = "Conditional c a b s e"
  have kids: "readable source c" "readable source a" "readable source b"
    using readable_child[OF 1(4)] by simp_all
  obtain oc oa ob where o: "readVisualCondition c = Inr oc" "readVisualPricing a = Inr oa"
      "readVisualPricing b = Inr ob"
    using 1(3) by auto
  obtain vc y z where v: "oc = Some vc" "oa = Some y" "ob = Some z"
    and vn: "vn = VBranch (span_id ''pricing-'' ?n) (Some ?n) vc y z"
    using 1(3) o by (auto split: option.splits)
  obtain i1 where w1: "writeVisualCondition h source vc issues = Inr (node_text source c, i1)"
    using readVisualCondition_write[OF _ kids(1)] o(1) v by blast
  obtain i2 where w2: "writeVisualPricing h source y i1 = Inr (node_text source a, i2)"
    using 1(1)[OF o(1) _ kids(2)] o(2) v by blast
  obtain i3 where w3: "writeVisualPricing h source z i2 = Inr (node_text source b, i3)"
    using 1(2)[OF o(1) o(2) _ kids(3)] o(3) v by blast
  have "patchSource source ?n [(c, node_text source c), (a, node_text source a), (b, node_text source b)]
      = node_text source ?n"
    by (rule patchSource_same[OF 1(4)]) (auto simp: postorder.simps[of ?n])
  then show ?case by (simp add: vn w1 w2 w3)
qed (simp_all add: readVisualPricing_tier)


subsection \<open>Unedited documents serialise to their source\<close>

lemma serialize_same:
  assumes cache: "table_reachable compileBillingExpression [] cache"
    and ready: "compile_fresh source = Ready c"
    and read: "readVisualPricing (c_ast c) = Inr (Some r)"
    and numbers: "list_all reprints (postorder (c_ast c))"
    and doc: "doc = \<lparr>vd_source = source, vd_root = r\<rparr>"
  shows "fst (serializeVisualBillingDocument h doc cache) = Inr (Serialized source)
     \<or> (\<exists>issues. fst (serializeVisualBillingDocument h doc cache) = Inr (Issues issues)
          \<and> issues \<noteq> [] \<and> (\<exists>text. writeVisualPricing h source r [] = Inr (text, issues)))"
proof -
  have tried: "compile_try source = Inr c" using ready by (simp add: compile_fresh_Ready)
  have ok: "readable source (c_ast c)"
    using compile_try_ast[OF tried] numbers by (auto simp: readable_def)
  obtain issues where w: "writeVisualPricing h source r [] = Inr (node_text source (c_ast c), issues)"
    using readVisualPricing_write[OF read ok] by blast
  have "take (nstart (c_ast c)) source @ node_text source (c_ast c) @ drop (nend (c_ast c)) source = source"
    using take_add[of "nstart (c_ast c)" "nend (c_ast c) - nstart (c_ast c)" source]
      readable_inside[OF ok postorder_self]
    by (simp add: node_text_def js_slice_def) (metis append.assoc append_take_drop_id)
  moreover obtain cache1 where "compileBillingExpression source cache = (Ready c, cache1)"
    using cc.reachable_answer[OF cache, of source] ready by (cases "compileBillingExpression source cache") auto
  moreover from this have "compileBillingExpression source cache1 = (Ready c, cache1)"
    using cc.repeat_hit[of source cache] by simp
  ultimately show ?thesis
    using w by (auto simp: serializeVisualBillingDocument_def doc Let_def)
qed

lemma parse_document_cases:
  assumes "fst (parseVisualBillingDocument h source cache) = Inr (Some doc)"
  obtains c r cache1 where "fst (compileBillingExpression source cache) = Ready c"
    "readVisualPricing (c_ast c) = Inr (Some r)" "doc = \<lparr>vd_source = source, vd_root = r\<rparr>"
    "cache1 = snd (compileBillingExpression source cache)"
    "\<exists>text. fst (serializeVisualBillingDocument h doc cache1) = Inr (Serialized text)"
proof -
  obtain out cache1 where out: "compileBillingExpression source cache = (out, cache1)" by fastforce
  obtain c where c: "out = Ready c"
    using assms by (cases out) (auto simp: parseVisualBillingDocument_def out)
  obtain o1 where o1: "readVisualPricing (c_ast c) = Inr o1"
    using assms by (cases "readVisualPricing (c_ast c)") (simp_all add: parseVisualBillingDocument_def out c)
  obtain r where r: "readVisualPricing (c_ast c) = Inr (Some r)"
    using assms by (cases o1) (simp_all add: parseVisualBillingDocument_def out c o1)
  obtain result cache2 where s: "serializeVisualBillingDocument h \<lparr>vd_source = source, vd_root = r\<rparr> cache1
      = (result, cache2)" by fastforce
  obtain answer where a: "result = Inr answer"
    using assms by (cases result) (simp_all add: parseVisualBillingDocument_def out c r s Let_def)
  have "doc = \<lparr>vd_source = source, vd_root = r\<rparr> \<and> (\<exists>text. answer = Serialized text)"
    using assms by (cases answer) (simp_all add: parseVisualBillingDocument_def out c r s a Let_def)
  then show thesis by (intro that[of c r cache1]) (simp_all add: out c r s a)
qed

text \<open>
  C13: Whatever document the visual editor opens for an expression, saving it without an edit gives
  back exactly the expression's source text: white space, redundant parentheses, the spelling of the
  numbers and the order of the prices are kept. The hypothesis on the literals says that printing
  their number and reading it back gives the same number.
\<close>
theorem visual_roundtrip:
  assumes "table_reachable compileBillingExpression [] cache"
    and "fst (parseVisualBillingDocument h source cache) = Inr (Some doc)"
    and "parse_source source = Inr ast" and "list_all reprints (postorder ast)"
    and "table_reachable compileBillingExpression [] later"
  shows "vd_source doc = source
    \<and> fst (serializeVisualBillingDocument h doc later) = Inr (Serialized source)"
proof -
  obtain c r cache1 where c: "fst (compileBillingExpression source cache) = Ready c"
      and r: "readVisualPricing (c_ast c) = Inr (Some r)" "doc = \<lparr>vd_source = source, vd_root = r\<rparr>"
      and cache1: "cache1 = snd (compileBillingExpression source cache)"
      and ok: "\<exists>text. fst (serializeVisualBillingDocument h doc cache1) = Inr (Serialized text)"
    by (rule parse_document_cases[OF assms(2)])
  have fresh: "compile_fresh source = Ready c" using c cc.reachable_answer[OF assms(1)] by simp
  then have "c_ast c = ast"
    using assms(3) compile_try_parts(1)[of source c] by (simp add: compile_fresh_Ready)
  then have numbers: "list_all reprints (postorder (c_ast c))" using assms(4) by simp
  have "table_reachable compileBillingExpression [] cache1"
    using table_reachable.call[OF assms(1), of source] cache1 by simp
  note same = serialize_same[OF this fresh r(1) numbers r(2), of h]
    serialize_same[OF assms(5) fresh r(1) numbers r(2), of h]
  have "\<not> (\<exists>text issues. issues \<noteq> [] \<and> writeVisualPricing h source r [] = Inr (text, issues))"
  proof
    assume "\<exists>text issues. issues \<noteq> [] \<and> writeVisualPricing h source r [] = Inr (text, issues)"
    then have "\<exists>issues. fst (serializeVisualBillingDocument h doc cache1) = Inr (Issues issues)"
      by (auto simp: serializeVisualBillingDocument_def r(2))
    then show False using ok by auto
  qed
  then show ?thesis using same(2) r(2) by auto
qed

definition vx_source :: jsstring where
  "vx_source = js ''len  <= 10 ? tier('' @ [DQ] @ js ''a'' @ [DQ] @ js '', c * 2.50+ p*1)  :tier(''
     @ [DQ] @ js ''b'' @ [DQ] @ js '',fixed( 4))''"

lemma vx_compiles: "(case compile_fresh vx_source of Ready c \<Rightarrow> True | Failed f \<Rightarrow> False)"
  by code_simp

lemma vx_numbers:
  "(case parse_source vx_source of Inr ast \<Rightarrow> list_all reprints (postorder ast) | Inl err \<Rightarrow> False)"
  by code_simp

lemma vx_writes:
  "(case parse_source vx_source of
      Inr ast \<Rightarrow>
        (case readVisualPricing ast of
           Inr (Some r) \<Rightarrow>
             (case writeVisualPricing ex_host vx_source r [] of Inr (t, is) \<Rightarrow> is = [] | Inl err \<Rightarrow> False)
         | _ \<Rightarrow> False)
    | Inl err \<Rightarrow> False)"
  by code_simp

theorem visual_roundtrip_witness:
  "\<exists>doc. fst (parseVisualBillingDocument ex_host vx_source []) = Inr (Some doc)
    \<and> fst (serializeVisualBillingDocument ex_host doc []) = Inr (Serialized vx_source)"
proof -
  obtain c where c: "compile_fresh vx_source = Ready c"
    using vx_compiles by (cases "compile_fresh vx_source") auto
  then have ast: "parse_source vx_source = Inr (c_ast c)"
    using compile_try_parts(1)[of vx_source c] by (simp add: compile_fresh_Ready)
  have n: "list_all reprints (postorder (c_ast c))" using vx_numbers by (simp add: ast)
  obtain r t where r: "readVisualPricing (c_ast c) = Inr (Some r)"
      "writeVisualPricing ex_host vx_source r [] = Inr (t, [])"
    using vx_writes by (auto simp: ast split: sum.splits option.splits) (metis obj_sumE surj_pair)
  let ?doc = "\<lparr>vd_source = vx_source, vd_root = r\<rparr>"
    and ?cache = "snd (compileBillingExpression vx_source [])"
  have "fst (serializeVisualBillingDocument ex_host ?doc ?cache) = Inr (Serialized vx_source)"
    using serialize_same[OF table_reachable.call[OF table_reachable.start] c r(1) n refl,
        of ex_host vx_source] r(2) by simp
  moreover have "compileBillingExpression vx_source [] = (Ready c, ?cache)"
    using cc.reachable_answer[OF table_reachable.start, of vx_source] c by (simp add: prod_eq_iff)
  ultimately have d: "fst (parseVisualBillingDocument ex_host vx_source []) = Inr (Some ?doc)"
    by (auto simp: parseVisualBillingDocument_def r Let_def split: prod.splits)
  show ?thesis
    using visual_roundtrip[OF table_reachable.start d ast n table_reachable.start] d by blast
qed

end
