(* ===== verification/BillingConditionText.thy ===== *)
theory BillingConditionText
  imports BillingDisplay
begin

section \<open>Billing expressions: describing a condition in words\<close>

text \<open>
  Model of \<^verbatim>\<open>web/src/features/pricing/lib/billing-expression/condition-display.ts\<close>. Translations,
  locale-dependent numbers and weekday names come from outside the repository (i18next and
  \<open>Intl\<close>); they are the fields of \<open>i18n\<close>, each of which may throw.

  The text of a time range shows a half-open interval. \<open>time_range_exact\<close> shows that the
  interval is the right one: a clock value lies in it exactly if it satisfies every comparison it
  summarises, and the description is refused exactly if no value does.
\<close>

subsection \<open>Descriptions\<close>

record i18n =
  i_t :: "jsstring \<Rightarrow> (jsstring \<times> jsval) list \<Rightarrow> jsstring res"
  i_weekday :: "jsstring \<Rightarrow> jsnum \<Rightarrow> jsstring res"
  i_number :: "jsstring \<Rightarrow> jsnum \<Rightarrow> jsstring res"

datatype description_kind = KCalendar | KClock | KCombined

record description =
  d_text :: jsstring
  d_kind :: description_kind
  d_timezone :: jsstring
  d_disjunction :: bool

record time_comparison =
  tm_name :: jsstring
  tm_timezone :: jsstring
  tm_operator :: jsstring
  tm_value :: jsnum

definition DOMAINS :: "(jsstring \<times> int \<times> int) list" where
  "DOMAINS = [(js ''hour'', 0, 24), (js ''minute'', 0, 60), (js ''weekday'', 0, 7),
     (js ''month'', 1, 13), (js ''day'', 1, 32)]"

definition time_operators :: "jsstring list" where
  "time_operators = map js [''=='', ''>='', ''>'', ''<='', ''<'']"

text \<open>The constant time zone of a time call, blank meaning UTC.\<close>

definition zone_of :: "node \<Rightarrow> jsstring option" where
  "zone_of n =
    (case n of
       Literal v i s e \<Rightarrow>
         (case v of VStr z \<Rightarrow> Some (if js_trim z = [] then js ''UTC'' else js_trim z) | _ \<Rightarrow> None)
     | _ \<Rightarrow> None)"

definition integer_literal :: "node \<Rightarrow> jsnum option" where
  "integer_literal n =
    (case n of
       Literal v i s e \<Rightarrow> (case v of VNum x \<Rightarrow> if is_integer x then Some x else None | _ \<Rightarrow> None)
     | _ \<Rightarrow> None)"

definition timeComparison :: "node \<Rightarrow> time_comparison option res" where
  "timeComparison n =
    (case n of
       Binary op (Call f args s1 e1) r s e \<Rightarrow>
         if op \<notin> set time_operators \<or> f \<notin> set TIME_FUNCTIONS then Inr None
         else
           sbind (arg_at args 0) (\<lambda>a.
           Inr (case (zone_of a, integer_literal r) of
                  (Some zone, Some x) \<Rightarrow> Some \<lparr>tm_name = f, tm_timezone = zone, tm_operator = op, tm_value = x\<rparr>
                | _ \<Rightarrow> None))
     | _ \<Rightarrow> Inr None)"

subsection \<open>Time ranges\<close>

definition narrow :: "time_comparison \<Rightarrow> jsnum \<times> jsnum \<Rightarrow> jsnum \<times> jsnum" where
  "narrow c bounds =
    (let (lo, hi) = bounds; op = tm_operator c; v = tm_value c in
     if op = js ''>='' then (math_max lo v, hi)
     else if op = js ''>'' then (math_max lo (js_add v (Fin 1)), hi)
     else if op = js ''<'' then (lo, math_min hi v)
     else if op = js ''<='' then (lo, math_min hi (js_add v (Fin 1)))
     else if op = js ''=='' then (math_max lo v, math_min hi (js_add v (Fin 1)))
     else (lo, hi))"

definition domain_of :: "jsstring \<Rightarrow> jsnum \<times> jsnum" where
  "domain_of f = (case map_of DOMAINS f of Some (lo, hi) \<Rightarrow> (Fin (of_int lo), Fin (of_int hi)) | None \<Rightarrow> (NaN, NaN))"

definition time_range :: "jsstring \<Rightarrow> time_comparison list \<Rightarrow> jsnum \<times> jsnum" where
  "time_range f comparisons = fold narrow comparisons (domain_of f)"

definition padStart2 :: "jsstring \<Rightarrow> jsstring" where
  "padStart2 s = replicate (2 - length s) 48 @ s"

text \<open>The key \<open>'{{start}}\<midarrow>{{end}}'\<close> with its en dash.\<close>

definition range_key :: jsstring where
  "range_key = js ''{{start}}'' @ [8211] @ js ''{{end}}''"

definition range_values :: "jsval \<Rightarrow> jsval \<Rightarrow> (jsstring \<times> jsval) list" where
  "range_values a b = [(js ''start'', a), (js ''end'', b)]"

definition intl_locale :: "jsstring \<Rightarrow> jsstring" where
  "intl_locale locale = (if locale = js ''zhCN'' then js ''zh-CN'' else locale)"

definition range_text ::
  "i18n \<Rightarrow> jsstring \<Rightarrow> jsstring \<Rightarrow> jsnum \<Rightarrow> jsnum \<Rightarrow> (jsstring \<times> description_kind) res" where
  "range_text L locale f lo hi =
    (let final = js_sub hi (Fin 1) in
     if f = js ''hour'' then
       sbind (i_t L range_key (range_values (VStr (padStart2 (js_String_num lo) @ js '':00''))
          (VStr (padStart2 (js_String_num hi) @ js '':00'')))) (\<lambda>text. Inr (text, KClock))
     else if f = js ''weekday'' then
       sbind (i_weekday L (intl_locale locale) (js_add (Fin 4) lo)) (\<lambda>from.
       sbind (i_weekday L (intl_locale locale) (js_sub (js_add (Fin 4) hi) (Fin 1))) (\<lambda>to.
       sbind (if js_num_eq lo final then Inr from else i_t L range_key (range_values (VStr from) (VStr to)))
         (\<lambda>text. Inr (text, KCalendar))))
     else
       sbind (if js_num_eq lo final then Inr (js_String_num lo)
              else i_t L range_key (range_values (VNum lo) (VNum final))) (\<lambda>values.
       sbind (i_t L (if f = js ''minute'' then js ''Minute'' else if f = js ''month'' then js ''Month''
              else js ''Day'') []) (\<lambda>label.
       Inr (label @ js '': '' @ values, KCalendar))))"

definition describeTimeRange ::
  "i18n \<Rightarrow> jsstring \<Rightarrow> time_comparison list \<Rightarrow> description option res" where
  "describeTimeRange L locale comparisons =
    (case comparisons of
       [] \<Rightarrow> Inl (undefined_read ''name'')
     | c # _ \<Rightarrow>
         let (lo, hi) = time_range (tm_name c) comparisons in
         if js_le hi lo then Inr None
         else
           sbind (range_text L locale (tm_name c) lo hi) (\<lambda>(text, kind).
           Inr (Some \<lparr>d_text = text, d_kind = kind, d_timezone = tm_timezone c, d_disjunction = False\<rparr>)))"

subsection \<open>Conditions\<close>

definition token_labels :: "(jsstring \<times> jsstring) list" where
  "token_labels = [(js ''p'', js ''Input''), (js ''c'', js ''Output''), (js ''len'', js ''Full input length'')]"

definition token_operators :: "jsstring list" where
  "token_operators = map js [''<'', ''<='', ''>'', ''>='', ''=='', ''!='']"

definition describe_token ::
  "i18n \<Rightarrow> jsstring \<Rightarrow> jsstring \<Rightarrow> jsstring \<Rightarrow> jsnum \<Rightarrow> description option res" where
  "describe_token L locale op x v =
    (case map_of token_labels x of
       None \<Rightarrow> Inr None
     | Some label \<Rightarrow>
         sbind (i_t L label []) (\<lambda>name.
         sbind (i_number L (intl_locale locale) v) (\<lambda>number.
         Inr (Some \<lparr>d_text = name @ js '' '' @ op @ js '' '' @ number, d_kind = KCombined,
           d_timezone = [], d_disjunction = False\<rparr>))))"

definition range_key_of :: "time_comparison \<Rightarrow> jsstring" where
  "range_key_of c = tm_name c @ js '':'' @ tm_timezone c"

definition add_range ::
  "time_comparison \<Rightarrow> (jsstring \<times> time_comparison list) list \<Rightarrow> (jsstring \<times> time_comparison list) list" where
  "add_range c ranges =
    map_set (range_key_of c)
      ((case map_of ranges (range_key_of c) of Some bounds \<Rightarrow> bounds | None \<Rightarrow> []) @ [c]) ranges"

text \<open>The ranges in the order of their first comparison; None when one of them is empty.\<close>

fun describe_ranges ::
  "i18n \<Rightarrow> jsstring \<Rightarrow> time_comparison list list \<Rightarrow> description list \<Rightarrow> description list option res" where
  "describe_ranges L locale [] parts = Inr (Some parts)"
| "describe_ranges L locale (bounds # ranges) parts =
    sbind (describeTimeRange L locale bounds) (\<lambda>d.
    case d of None \<Rightarrow> Inr None | Some d \<Rightarrow> describe_ranges L locale ranges (parts @ [d]))"

definition bracketed :: "jsstring \<Rightarrow> description \<Rightarrow> jsstring" where
  "bracketed op part =
    (if op = js ''&&'' \<and> d_disjunction part then js ''('' @ d_text part @ js '')'' else d_text part)"

definition separator :: "jsstring \<Rightarrow> jsstring" where
  "separator op = (if op = js ''&&'' then js ''{{first}} and {{second}}'' else js ''{{first}} or {{second}}'')"

definition join_parts :: "i18n \<Rightarrow> jsstring \<Rightarrow> description list \<Rightarrow> jsstring res" where
  "join_parts L op parts =
    sfold (\<lambda>part text. i_t L (separator op) [(js ''first'', VStr text), (js ''second'', VStr (bracketed op part))])
      (tl parts) (bracketed op (hd parts))"

definition of_kind :: "description_kind \<Rightarrow> description list \<Rightarrow> description list" where
  "of_kind k parts = filter (\<lambda>p. d_kind p = k) parts"

definition combine_parts :: "i18n \<Rightarrow> jsstring \<Rightarrow> description list \<Rightarrow> description option res" where
  "combine_parts L op parts =
    (let zones = fold set_add (filter (\<lambda>z. z \<noteq> []) (map d_timezone parts)) [];
         zone = (case zones of [] \<Rightarrow> [] | z # _ \<Rightarrow> z);
         calendars = of_kind KCalendar parts; clocks = of_kind KClock parts in
     if parts = [] \<or> 1 < length zones then Inr None
     else if length parts = 1 then Inr (Some (hd parts))
     else if op = js ''&&'' \<and> length parts = 2 \<and> length calendars = 1 \<and> length clocks = 1 then
       Inr (Some \<lparr>d_text = d_text (hd calendars) @ js '' '' @ d_text (hd clocks), d_kind = KCombined,
         d_timezone = d_timezone (hd parts), d_disjunction = False\<rparr>)
     else
       sbind (join_parts L op parts) (\<lambda>text.
       Inr (Some \<lparr>d_text = text,
         d_kind = (if length clocks = length parts then KClock else KCombined),
         d_timezone = zone, d_disjunction = (op = js ''||'')\<rparr>)))"

text \<open>
  The loops over the operands. The recursive call on an operand is the argument \<open>rec\<close>; the
  state is the list of parts and, for a conjunction, the map of ranges.
\<close>

fun conjunction_loop ::
  "(node \<Rightarrow> description option res) \<Rightarrow> node list
     \<Rightarrow> description list \<times> (jsstring \<times> time_comparison list) list
     \<Rightarrow> (description list \<times> (jsstring \<times> time_comparison list) list) option res" where
  "conjunction_loop rec [] state = Inr (Some state)"
| "conjunction_loop rec (n # ns) (parts, ranges) =
    sbind (timeComparison n) (\<lambda>c.
    case c of
      Some c \<Rightarrow> conjunction_loop rec ns (parts, add_range c ranges)
    | None \<Rightarrow>
        sbind (rec n) (\<lambda>d.
        case d of None \<Rightarrow> Inr None | Some d \<Rightarrow> conjunction_loop rec ns (parts @ [d], ranges)))"

fun disjunction_loop ::
  "(node \<Rightarrow> description option res) \<Rightarrow> node list \<Rightarrow> description list \<Rightarrow> description list option res" where
  "disjunction_loop rec [] parts = Inr (Some parts)"
| "disjunction_loop rec (n # ns) parts =
    sbind (rec n) (\<lambda>d.
    case d of None \<Rightarrow> Inr None | Some d \<Rightarrow> disjunction_loop rec ns (parts @ [d]))"

lemma conjunction_loop_cong [fundef_cong]:
  assumes "ns = ms" "st = st'" "\<And>m. m \<in> set ms \<Longrightarrow> f m = g m"
  shows "conjunction_loop f ns st = conjunction_loop g ms st'"
proof -
  have "(\<And>m. m \<in> set ms \<Longrightarrow> f m = g m) \<Longrightarrow> conjunction_loop f ms st' = conjunction_loop g ms st'"
    by (induction g ms st' rule: conjunction_loop.induct)
       (auto intro!: sbind_cong split: option.split)
  with assms show ?thesis by simp
qed

lemma disjunction_loop_cong [fundef_cong]:
  assumes "ns = ms" "st = st'" "\<And>m. m \<in> set ms \<Longrightarrow> f m = g m"
  shows "disjunction_loop f ns st = disjunction_loop g ms st'"
proof -
  have "(\<And>m. m \<in> set ms \<Longrightarrow> f m = g m) \<Longrightarrow> disjunction_loop f ms st' = disjunction_loop g ms st'"
    by (induction g ms st' rule: disjunction_loop.induct)
       (auto intro!: sbind_cong split: option.split)
  with assms show ?thesis by simp
qed

definition describe_single :: "i18n \<Rightarrow> jsstring \<Rightarrow> node \<Rightarrow> description option res" where
  "describe_single L locale n =
    sbind (timeComparison n) (\<lambda>single.
    case single of Some c \<Rightarrow> describeTimeRange L locale [c] | None \<Rightarrow> Inr None)"

text \<open>\<open>node.left.kind === 'variable' && node.right.kind === 'literal' && typeof ... === 'number'\<close>.\<close>

definition token_comparison :: "jsstring \<Rightarrow> node \<Rightarrow> node \<Rightarrow> (jsstring \<times> jsnum) option" where
  "token_comparison op a b =
    (if op \<notin> set token_operators then None
     else case (a, b) of (Variable x s1 e1, Literal (VNum v) i s2 e2) \<Rightarrow> Some (x, v) | _ \<Rightarrow> None)"

function (sequential) describeBillingCondition ::
  "i18n \<Rightarrow> jsstring \<Rightarrow> node \<Rightarrow> description option res" where
  "describeBillingCondition L locale (Unary op a s e) =
    (if op = js ''!'' then
       sbind (describeBillingCondition L locale a) (\<lambda>d.
       case d of
         None \<Rightarrow> Inr None
       | Some d \<Rightarrow>
           sbind (i_t L (js ''Outside these times: {{condition}}'') [(js ''condition'', VStr (d_text d))])
             (\<lambda>text. Inr (Some (d\<lparr>d_text := text, d_kind := KCombined\<rparr>))))
     else Inr None)"
| "describeBillingCondition L locale (Binary op a b s e) =
    (case token_comparison op a b of
       Some (x, v) \<Rightarrow> describe_token L locale op x v
     | None \<Rightarrow>
         if op = js ''&&'' then
           sbind (conjunction_loop (describeBillingCondition L locale)
             (flattenBinary (Binary op a b s e) op) ([], [])) (\<lambda>r.
           case r of
             None \<Rightarrow> Inr None
           | Some (parts, ranges) \<Rightarrow>
               sbind (describe_ranges L locale (map snd ranges) parts) (\<lambda>all.
               case all of None \<Rightarrow> Inr None | Some all \<Rightarrow> combine_parts L op all))
         else if op = js ''||'' then
           sbind (disjunction_loop (describeBillingCondition L locale)
             (flattenBinary (Binary op a b s e) op) []) (\<lambda>all.
           case all of None \<Rightarrow> Inr None | Some all \<Rightarrow> combine_parts L op all)
         else describe_single L locale (Binary op a b s e))"
| "describeBillingCondition L locale n = Inr None"
  by pat_completeness auto
termination
  by (relation "measure (\<lambda>(L, locale, n). size n)") (auto dest!: flattenBinary_size)

declare describeBillingCondition.simps [simp del]

definition translate :: "i18n \<Rightarrow> i18n" where
  "translate L = L\<lparr>i_t := (\<lambda>key options. i_t L key
     (options @ [(js ''interpolation'', VObj [(js ''escapeValue'', VBool False)])]))\<rparr>"

definition format_ready :: "i18n \<Rightarrow> jsstring \<Rightarrow> compiled \<Rightarrow> jsstring option res" where
  "format_ready L locale c =
    sbind (describeBillingCondition (translate L) locale (c_ast c)) (\<lambda>d.
    case d of
      None \<Rightarrow> Inr None
    | Some d \<Rightarrow>
        if d_timezone d = [] then Inr (Some (d_text d))
        else
          sbind (i_t (translate L) (js ''{{condition}} ({{timezone}})'')
            [(js ''condition'', VStr (d_text d)), (js ''timezone'', VStr (d_timezone d))]) (\<lambda>text.
          Inr (Some text)))"

definition formatBillingCondition :: "i18n \<Rightarrow> jsstring \<Rightarrow> jsstring \<Rightarrow> cache \<Rightarrow> jsstring option \<times> cache" where
  "formatBillingCondition L locale source cache =
    (case compileBillingExpression source cache of
       (Failed f, cache1) \<Rightarrow> (None, cache1)
     | (Ready c, cache1) \<Rightarrow>
         (case format_ready L locale c of Inl err \<Rightarrow> None | Inr text \<Rightarrow> text, cache1))"

subsection \<open>The described interval\<close>

text \<open>What the evaluator answers for a comparison when the clock shows \<open>x\<close>.\<close>

definition clock_satisfies :: "int \<Rightarrow> time_comparison \<Rightarrow> bool" where
  "clock_satisfies x c =
    (case binary_values (tm_operator c) (VNum (Fin (of_int x)), True) (VNum (tm_value c), True) 0 of
       Inr (v, i) \<Rightarrow> v = VBool True
     | Inl err \<Rightarrow> False)"

definition comparison_ok :: "time_comparison \<Rightarrow> bool" where
  "comparison_ok c \<longleftrightarrow> tm_operator c \<in> set time_operators \<and> is_safe_integer (tm_value c)
     \<and> \<bar>num_val (tm_value c)\<bar> < 9007199254740991"

definition in_bounds :: "int \<Rightarrow> jsnum \<times> jsnum \<Rightarrow> bool" where
  "in_bounds x b \<longleftrightarrow> js_le (fst b) (Fin (of_int x)) \<and> js_lt (Fin (of_int x)) (snd b)"

definition int_bounds :: "jsnum \<times> jsnum \<Rightarrow> int \<times> int \<Rightarrow> bool" where
  "int_bounds b k \<longleftrightarrow> num_int (fst b) (fst k) \<and> num_int (snd b) (snd k)"

definition narrow_int :: "jsstring \<Rightarrow> int \<Rightarrow> int \<times> int \<Rightarrow> int \<times> int" where
  "narrow_int op n k =
    (if op = js ''>='' then (max (fst k) n, snd k)
     else if op = js ''>'' then (max (fst k) (n + 1), snd k)
     else if op = js ''<'' then (fst k, min (snd k) n)
     else if op = js ''<='' then (fst k, min (snd k) (n + 1))
     else (max (fst k) n, min (snd k) (n + 1)))"

lemma comparison_ok_int:
  assumes "comparison_ok c"
  obtains n where "num_int (tm_value c) n" "\<bar>n\<bar> < 2 ^ 53 - 1"
proof
  let ?n = "\<lfloor>num_val (tm_value c)\<rfloor>"
  have i: "is_finite (tm_value c)" "of_int ?n = num_val (tm_value c)"
    using assms by (auto simp: comparison_ok_def is_safe_integer_def is_integer_def)
  then show "num_int (tm_value c) ?n" by (simp only: num_int_def simp_thms)
  have "\<bar>num_val (tm_value c)\<bar> < 9007199254740991" using assms by (simp add: comparison_ok_def)
  then have "of_int \<bar>?n\<bar> < (of_int 9007199254740991 :: rat)"
    by (simp only: of_int_abs i(2) of_int_numeral)
  then show "\<bar>?n\<bar> < 2 ^ 53 - 1" by (simp only: of_int_less_iff) simp
qed

lemma narrow_int_bounds:
  assumes "tm_operator c \<in> set time_operators" "num_int (tm_value c) n" "\<bar>n\<bar> < 2 ^ 53 - 1" "int_bounds b k"
  shows "int_bounds (narrow c b) (narrow_int (tm_operator c) n k)"
proof -
  have "num_int (js_add (tm_value c) (Fin 1)) (n + 1)"
    using assms(3) by (intro num_int_add[OF assms(2)]) auto
  then show ?thesis
    using assms by (cases b; cases k)
      (auto simp: narrow_def narrow_int_def int_bounds_def time_operators_def num_int_max num_int_min
        Let_def)
qed

lemma clock_satisfies_int:
  assumes "tm_operator c \<in> set time_operators" "num_int (tm_value c) n"
  shows "fst k \<le> x \<and> x < snd k \<and> clock_satisfies x c \<longleftrightarrow>
     fst (narrow_int (tm_operator c) n k) \<le> x \<and> x < snd (narrow_int (tm_operator c) n k)"
proof -
  have x: "num_int (Fin (of_int x)) x" by simp
  show ?thesis
    using assms(1) num_int_order[OF x assms(2)] num_int_order[OF assms(2) x]
    by (auto simp: time_operators_def clock_satisfies_def binary_values_def narrow_int_def relational_def
        comparison_def)
qed

lemma int_bounds_in: "int_bounds b k \<Longrightarrow> in_bounds x b \<longleftrightarrow> fst k \<le> x \<and> x < snd k"
  using num_int_order[of "fst b" "fst k" "Fin (of_int x)" x] num_int_order[of "Fin (of_int x)" x "snd b" "snd k"]
  by (simp add: int_bounds_def in_bounds_def)

lemma fold_narrow:
  assumes "list_all comparison_ok cs" "int_bounds b k"
  shows "\<exists>k'. int_bounds (fold narrow cs b) k' \<and> fst k \<le> fst k' \<and> snd k' \<le> snd k
     \<and> (\<forall>x. fst k' \<le> x \<and> x < snd k' \<longleftrightarrow> fst k \<le> x \<and> x < snd k \<and> list_all (clock_satisfies x) cs)"
  using assms
proof (induction cs arbitrary: b k)
  case (Cons c cs)
  obtain n where n: "num_int (tm_value c) n" "\<bar>n\<bar> < 2 ^ 53 - 1"
    by (rule comparison_ok_int[of c]) (use Cons.prems in auto)
  have op: "tm_operator c \<in> set time_operators" using Cons.prems(1) by (simp add: comparison_ok_def)
  let ?k = "narrow_int (tm_operator c) n k"
  obtain k' where k': "int_bounds (fold narrow cs (narrow c b)) k'" "fst ?k \<le> fst k'" "snd k' \<le> snd ?k"
      "\<forall>x. fst k' \<le> x \<and> x < snd k' \<longleftrightarrow> fst ?k \<le> x \<and> x < snd ?k \<and> list_all (clock_satisfies x) cs"
    using Cons.IH[OF _ narrow_int_bounds[OF op n Cons.prems(2)]] Cons.prems(1) by auto
  have "fst k \<le> fst ?k" "snd ?k \<le> snd k" by (auto simp: narrow_int_def)
  moreover have "fst ?k \<le> x \<and> x < snd ?k \<and> P \<longleftrightarrow> fst k \<le> x \<and> x < snd k \<and> clock_satisfies x c \<and> P" for x P
    using clock_satisfies_int[OF op n(1), of k x] by blast
  ultimately show ?case using k' by (intro exI[of _ k']) auto
next
  case Nil
  then show ?case by (intro exI[of _ k]) simp
qed

lemma domain_int_bounds:
  "map_of DOMAINS f = Some (lo, hi) \<Longrightarrow> int_bounds (domain_of f) (lo, hi)"
  by (simp add: domain_of_def int_bounds_def)

text \<open>
  C16: The interval shown for a conjunction of comparisons of one time function is exact: it lies in
  the function's domain, a clock value of the domain is inside it exactly if the evaluator finds
  every comparison true at that value, and there is no description exactly if no clock value
  satisfies them all.
\<close>
theorem time_range_exact:
  assumes "map_of DOMAINS (tm_name c) = Some (lo, hi)"
    and "list_all comparison_ok (c # cs)"
    and "describeTimeRange L locale (c # cs) = Inr d"
  shows "(lo \<le> x \<and> x < hi \<and> list_all (clock_satisfies x) (c # cs)
      \<longleftrightarrow> in_bounds x (time_range (tm_name c) (c # cs)))
    \<and> (d = None \<longleftrightarrow> \<not> (\<exists>x. lo \<le> x \<and> x < hi \<and> list_all (clock_satisfies x) (c # cs)))"
proof -
  obtain k where k: "int_bounds (time_range (tm_name c) (c # cs)) k"
      "\<forall>x. fst k \<le> x \<and> x < snd k \<longleftrightarrow> lo \<le> x \<and> x < hi \<and> list_all (clock_satisfies x) (c # cs)"
    using fold_narrow[OF assms(2) domain_int_bounds[OF assms(1)]] unfolding time_range_def by auto
  obtain a b where ab: "time_range (tm_name c) (c # cs) = (a, b)" by fastforce
  have "js_le b a \<longleftrightarrow> snd k \<le> fst k"
    using k(1) num_int_order(3)[of b "snd k" a "fst k"] by (simp add: int_bounds_def ab)
  then have "d = None \<longleftrightarrow> snd k \<le> fst k"
    using assms(3) by (auto simp: describeTimeRange_def ab split: if_splits)
  moreover have "snd k \<le> fst k \<longleftrightarrow> \<not> (\<exists>x. fst k \<le> x \<and> x < snd k)" by (metis leD le_less_trans not_le order_refl)
  ultimately show ?thesis using k int_bounds_in[OF k(1)] by metis
qed

definition cx_comparisons :: "time_comparison list" where
  "cx_comparisons = [\<lparr>tm_name = js ''hour'', tm_timezone = js ''UTC'', tm_operator = js ''>'', tm_value = Fin 8\<rparr>,
     \<lparr>tm_name = js ''hour'', tm_timezone = js ''UTC'', tm_operator = js ''<='', tm_value = Fin 17\<rparr>]"

definition cx_i18n :: i18n where
  "cx_i18n = \<lparr>i_t = (\<lambda>key options. Inr key), i_weekday = (\<lambda>locale d. Inr (js_String_num d)),
     i_number = (\<lambda>locale x. Inr (js_String_num x))\<rparr>"

theorem time_range_exact_witness:
  "in_bounds 17 (time_range (js ''hour'') cx_comparisons) \<and> \<not> in_bounds 18 (time_range (js ''hour'') cx_comparisons)"
proof -
  have d: "map_of DOMAINS (tm_name (hd cx_comparisons)) = Some (0, 24)"
      "list_all comparison_ok (hd cx_comparisons # tl cx_comparisons)"
    by code_simp+
  have "case describeTimeRange cx_i18n [] cx_comparisons of Inr d \<Rightarrow> d \<noteq> None | Inl err \<Rightarrow> False"
    by code_simp
  then obtain r where r: "describeTimeRange cx_i18n [] (hd cx_comparisons # tl cx_comparisons) = Inr r"
    by (auto simp: cx_comparisons_def split: sum.splits)
  have "list_all (clock_satisfies 17) cx_comparisons" "\<not> list_all (clock_satisfies 18) cx_comparisons"
    by code_simp+
  then show ?thesis
    using time_range_exact[OF d r, of 17, THEN conjunct1] time_range_exact[OF d r, of 18, THEN conjunct1]
    by (auto simp: cx_comparisons_def)
qed

end
