(* ===== verification/JsRegex.thy ===== *)
theory JsRegex
  imports JsText
begin

section \<open>Regular expressions\<close>

text \<open>
  The part of ECMAScript's regular expressions that the program uses: literals, character classes,
  sequences, ordered alternatives, greedy repetition and options, capture groups and back
  references. As in the standard, a pattern is matched by backtracking: \<open>matches r st\<close> lists
  every state the pattern can reach from \<open>st\<close>, in the order in which backtracking tries
  them, and a search takes the first. A state is the rest of the input and the captures so far. An
  iteration of a repetition that consumes nothing is rejected, which is also why matching ends.
  No repeated pattern of the program contains a capture group, so the standard's resetting of the
  captures at each iteration is not needed.
\<close>

datatype regex =
    RText jsstring
  | RClass "unit16 \<Rightarrow> bool"
  | RSeq "regex list"
  | RAlt "regex list"
  | RStar regex
  | ROpt regex
  | RGroup nat regex
  | RBack nat

type_synonym captures = "(nat \<times> jsstring) list"
type_synonym match_state = "jsstring \<times> captures"

definition RPlus :: "regex \<Rightarrow> regex" where
  "RPlus r = RSeq [r, RStar r]"

definition capture :: "captures \<Rightarrow> nat \<Rightarrow> jsstring option" where
  "capture g k = map_of g k"

definition captured :: "captures \<Rightarrow> nat \<Rightarrow> jsstring" where
  "captured g k = (case capture g k of Some s \<Rightarrow> s | None \<Rightarrow> [])"

definition eat :: "jsstring \<Rightarrow> match_state \<Rightarrow> match_state list" where
  "eat lit st = (if js_startsWith (fst st) lit then [(drop (length lit) (fst st), snd st)] else [])"

definition eat_class :: "(unit16 \<Rightarrow> bool) \<Rightarrow> match_state \<Rightarrow> match_state list" where
  "eat_class p st = (case fst st of [] \<Rightarrow> [] | c # s \<Rightarrow> if p c then [(s, snd st)] else [])"

function star_states :: "(match_state \<Rightarrow> match_state list) \<Rightarrow> match_state \<Rightarrow> match_state list" where
  "star_states f st =
    concat (map (star_states f) (filter (\<lambda>st2. length (fst st2) < length (fst st)) (f st))) @ [st]"
  by pat_completeness auto
termination
  by (relation "measure (\<lambda>(f, st). length (fst st))") auto

declare star_states.simps [simp del]

fun matches :: "regex \<Rightarrow> match_state \<Rightarrow> match_state list"
and matches_seq :: "regex list \<Rightarrow> match_state \<Rightarrow> match_state list"
and matches_alt :: "regex list \<Rightarrow> match_state \<Rightarrow> match_state list" where
  "matches (RText lit) st = eat lit st"
| "matches (RClass p) st = eat_class p st"
| "matches (RSeq rs) st = matches_seq rs st"
| "matches (RAlt rs) st = matches_alt rs st"
| "matches (RStar r) st = star_states (matches r) st"
| "matches (ROpt r) st = matches r st @ [st]"
| "matches (RGroup k r) st =
    map (\<lambda>(rest, g). (rest, (k, take (length (fst st) - length rest) (fst st)) # g)) (matches r st)"
| "matches (RBack k) st = eat (captured (snd st) k) st"
| "matches_seq [] st = [st]"
| "matches_seq (r # rs) st = concat (map (matches_seq rs) (matches r st))"
| "matches_alt [] st = []"
| "matches_alt (r # rs) st = matches r st @ matches_alt rs st"

text \<open>\<open>text.match(/^...$/)\<close>.\<close>

definition match_whole :: "regex \<Rightarrow> jsstring \<Rightarrow> captures option" where
  "match_whole r s = map_option snd (find (\<lambda>st. fst st = []) (matches r (s, [])))"

text \<open>\<open>text.match(/^.../)\<close>: the rest and the captures.\<close>

definition match_prefix :: "regex \<Rightarrow> jsstring \<Rightarrow> match_state option" where
  "match_prefix r s = (case matches r (s, []) of [] \<Rightarrow> None | st # sts \<Rightarrow> Some st)"

text \<open>\<open>text.replaceAll(/.../g, replacement)\<close> for a pattern that never matches the empty text.\<close>

function replace_all :: "regex \<Rightarrow> jsstring \<Rightarrow> jsstring \<Rightarrow> jsstring" where
  "replace_all r replacement [] = []"
| "replace_all r replacement (c # s) =
    (case match_prefix r (c # s) of
       Some (rest, g) \<Rightarrow>
         if length rest < length (c # s) then replacement @ replace_all r replacement rest
         else c # replace_all r replacement s
     | None \<Rightarrow> c # replace_all r replacement s)"
  by pat_completeness auto
termination
  by (relation "measure (\<lambda>(r, t, s). length s)") auto

text \<open>Every match of a global pattern, as the loop over \<open>exec\<close> finds them: the captures.\<close>

function exec_all :: "regex \<Rightarrow> jsstring \<Rightarrow> captures list" where
  "exec_all r [] = []"
| "exec_all r (c # s) =
    (case match_prefix r (c # s) of
       Some (rest, g) \<Rightarrow>
         if length rest < length (c # s) then g # exec_all r rest else exec_all r s
     | None \<Rightarrow> exec_all r s)"
  by pat_completeness auto
termination
  by (relation "measure (\<lambda>(r, s). length s)") auto

subsection \<open>Character classes\<close>

definition digits_class :: "unit16 \<Rightarrow> bool" where
  "digits_class c \<longleftrightarrow> is_digit c"

text \<open>\<open>[\d.eE+-]\<close>.\<close>

definition number_class :: "unit16 \<Rightarrow> bool" where
  "number_class c \<longleftrightarrow> is_digit c \<or> c \<in> set (js ''.eE+-'')"

definition not_quote :: "unit16 \<Rightarrow> bool" where
  "not_quote c \<longleftrightarrow> c \<noteq> DQ"

text \<open>\<open>.\<close> without the flag \<open>s\<close>.\<close>

definition dot_class :: "unit16 \<Rightarrow> bool" where
  "dot_class c \<longleftrightarrow> c \<notin> {10, 13, 8232, 8233}"

text \<open>\<open>\s*\<close>.\<close>

definition RSpaces :: regex where
  "RSpaces = RStar (RClass is_space)"

text \<open>\<open>/^-?(?:\d+\.?\d*|\.\d+)(?:[eE][+-]?\d+)?$/\<close>.\<close>

definition numeric_literal :: regex where
  "numeric_literal = RSeq [ROpt (RText (js ''-'')),
     RAlt [RSeq [RPlus (RClass is_digit), ROpt (RText (js ''.'')), RStar (RClass is_digit)],
           RSeq [RText (js ''.''), RPlus (RClass is_digit)]],
     ROpt (RSeq [RClass (\<lambda>c. c \<in> set (js ''eE'')), ROpt (RClass (\<lambda>c. c \<in> set (js ''+-''))),
       RPlus (RClass is_digit)])]"

definition is_numeric_literal :: "jsstring \<Rightarrow> bool" where
  "is_numeric_literal s \<longleftrightarrow> match_whole numeric_literal s \<noteq> None"

subsection \<open>Deterministic patterns\<close>

text \<open>
  The lemmas by which a match of a concrete text is computed. The states after a repeated class are
  the prefixes of the run, longest first; when what follows cannot start inside the run, only the
  whole run survives.
\<close>

named_theorems regex_simps \<open>computing matches\<close>

lemma eat_same [regex_simps]: "eat t (t @ u, g) = [(u, g)]"
  by (simp add: eat_def js_startsWith_def)

lemma eat_whole [regex_simps]: "eat t (t, g) = [([], g)]"
  by (simp add: eat_def js_startsWith_def)

lemma eat_Cons [regex_simps]: "eat (a # t) (b # u, g) = (if a = b then eat t (u, g) else [])"
  by (simp add: eat_def js_startsWith_def)

lemma eat_empty [regex_simps]: "eat [] st = [st]" "eat (a # t) ([], g) = []"
  by (simp_all add: eat_def js_startsWith_def)

fun runs :: "jsstring \<Rightarrow> jsstring \<Rightarrow> captures \<Rightarrow> match_state list" where
  "runs [] u g = [(u, g)]"
| "runs (c # v) u g = runs v u g @ [(c # v @ u, g)]"

lemma runs_first: "\<exists>sts. runs v u g = (u, g) # sts"
  by (induction v) auto

lemma matches_seq_Nil [simp]: "concat (map (matches_seq []) sts) = sts"
  by (induction sts) auto

lemma matches_RClass [simp]: "matches (RClass p) = eat_class p"
  by (rule ext) simp

lemma star_class:
  assumes "list_all p v" "u = [] \<or> \<not> p (hd u)"
  shows "star_states (eat_class p) (v @ u, g) = runs v u g"
  using assms(1)
proof (induction v)
  case Nil
  have "eat_class p (u, g) = []" using assms(2) by (cases u) (auto simp: eat_class_def)
  then show ?case by (simp add: star_states.simps[of _ "(u, g)"])
next
  case (Cons c v)
  then have "eat_class p (c # v @ u, g) = [(v @ u, g)]" by (simp add: eat_class_def)
  then show ?case using Cons by (simp add: star_states.simps[of _ "(c # v @ u, g)"])
qed

lemma concat_runs:
  assumes "list_all p v" "\<And>c s g. p c \<Longrightarrow> f (c # s, g) = []"
  shows "concat (map f (runs v u g)) = f (u, g)"
  using assms(1) by (induction v) (simp_all add: assms(2))

text \<open>A captured, non-empty run of a class.\<close>

definition class_run :: "(unit16 \<Rightarrow> bool) \<Rightarrow> jsstring \<Rightarrow> jsstring \<Rightarrow> bool" where
  "class_run p v u \<longleftrightarrow> v \<noteq> [] \<and> list_all p v \<and> (u = [] \<or> \<not> p (hd u))"

lemma matches_plus:
  assumes "class_run p v u"
  shows "matches (RPlus (RClass p)) (v @ u, g) = runs (tl v) u g"
proof -
  obtain c w where v: "v = c # w" using assms by (cases v) (auto simp: class_run_def)
  show ?thesis
    using assms star_class[of p w u g] by (simp add: v RPlus_def class_run_def eat_class_def)
qed

lemma group_run:
  assumes "class_run p v u" "\<And>c s g. p c \<Longrightarrow> f (c # s, g) = []"
  shows "concat (map f (matches (RGroup k (RPlus (RClass p))) (v @ u, g))) = f (u, (k, v) # g)"
proof -
  obtain c w where v: "v = c # w" and w: "list_all p w" using assms(1) by (cases v) (auto simp: class_run_def)
  let ?h = "\<lambda>(rest, g). (rest, (k, take (length (v @ u) - length rest) (v @ u)) # g)"
  have "concat (map (f \<circ> ?h) (runs w u g)) = (f \<circ> ?h) (u, g)"
    by (rule concat_runs[OF w]) (simp add: assms(2))
  then show ?thesis using matches_plus[OF assms(1), of g] by (simp add: v)
qed

lemma group_run_end:
  assumes "class_run p v []"
  shows "find (\<lambda>st. fst st = []) (matches (RGroup k (RPlus (RClass p))) (v, g)) = Some ([], (k, v) # g)"
proof -
  obtain c w where v: "v = c # w" using assms by (cases v) (auto simp: class_run_def)
  then obtain sts where "runs (tl v) [] g = ([], g) # sts" using runs_first by blast
  then show ?thesis using matches_plus[OF assms, of g] by simp
qed

text \<open>What a pattern consumes consists of characters it mentions.\<close>

fun over :: "(unit16 \<Rightarrow> bool) \<Rightarrow> regex \<Rightarrow> bool" where
  "over p (RText t) = list_all p t"
| "over p (RClass q) = (\<forall>c. q c \<longrightarrow> p c)"
| "over p (RSeq rs) = list_all (over p) rs"
| "over p (RAlt rs) = list_all (over p) rs"
| "over p (RStar r) = over p r"
| "over p (ROpt r) = over p r"
| "over p (RGroup k r) = over p r"
| "over p (RBack k) = False"

definition consumes :: "(unit16 \<Rightarrow> bool) \<Rightarrow> match_state \<Rightarrow> match_state \<Rightarrow> bool" where
  "consumes p st st2 \<longleftrightarrow> (\<exists>w. fst st = w @ fst st2 \<and> list_all p w)"

lemma consumes_refl: "consumes p st st"
  by (auto simp: consumes_def)

lemma consumes_trans: "consumes p a b \<Longrightarrow> consumes p b c \<Longrightarrow> consumes p a c"
  by (fastforce simp: consumes_def)

lemma star_consumes:
  assumes "\<And>st st2. st2 \<in> set (f st) \<Longrightarrow> consumes p st st2" "st2 \<in> set (star_states f st)"
  shows "consumes p st st2"
  using assms(2)
proof (induction st rule: measure_induct_rule[of "\<lambda>st. length (fst st)"])
  case (less st)
  from less(2) consider "st2 = st" | st1 where "st1 \<in> set (f st)" "length (fst st1) < length (fst st)"
      "st2 \<in> set (star_states f st1)"
    by (auto simp: star_states.simps[of f st])
  then show ?case
  proof cases
    case 2
    then show ?thesis using less(1)[of st1] assms(1)[of st1 st] consumes_trans by blast
  qed (simp add: consumes_refl)
qed

lemma eat_consumes: "list_all p t \<Longrightarrow> st2 \<in> set (eat t st) \<Longrightarrow> consumes p st st2"
proof -
  assume "list_all p t" and st2: "st2 \<in> set (eat t st)"
  moreover have "fst st = t @ fst st2"
    using st2 by (auto simp: eat_def js_startsWith_def split: if_splits) (metis append_take_drop_id)
  ultimately show ?thesis by (auto simp: consumes_def)
qed

lemma eat_class_consumes: "(\<And>c. q c \<Longrightarrow> p c) \<Longrightarrow> st2 \<in> set (eat_class q st) \<Longrightarrow> consumes p st st2"
  by (cases "fst st") (auto simp: eat_class_def consumes_def split: if_splits)

lemma matches_consume:
  "over p r \<Longrightarrow> st2 \<in> set (matches r st) \<Longrightarrow> consumes p st st2"
  "list_all (over p) rs \<Longrightarrow> st2 \<in> set (matches_seq rs st) \<Longrightarrow> consumes p st st2"
  "list_all (over p) rs \<Longrightarrow> st2 \<in> set (matches_alt rs st) \<Longrightarrow> consumes p st st2"
proof (induction r st and rs st and rs st arbitrary: st2 and st2 and st2
    rule: matches_matches_seq_matches_alt.induct)
  case (1 lit st)
  then show ?case by (simp add: eat_consumes)
next
  case (2 q st)
  then show ?case using eat_class_consumes[of q p st2 st] by simp
next
  case (5 r st)
  show ?case by (rule star_consumes[of "matches r"]) (use 5 in auto)
next
  case (7 k r st)
  then obtain rest g where "(rest, g) \<in> set (matches r st)" "fst st2 = rest" by auto
  then show ?case using 7 by (fastforce simp: consumes_def)
next
  case (10 r rs st)
  then obtain st1 where "st1 \<in> set (matches r st)" "st2 \<in> set (matches_seq rs st1)" by auto
  with 10 have "consumes p st st1" "consumes p st1 st2" by simp_all
  then show ?case by (rule consumes_trans)
qed (auto simp: consumes_refl)

lemma find_SomeD: "find P xs = Some x \<Longrightarrow> x \<in> set xs \<and> P x"
  by (induction xs) (auto split: if_splits)

lemma match_whole_over:
  assumes "match_whole r s = Some g" "over p r"
  shows "list_all p s"
proof -
  obtain st where "st \<in> set (matches r (s, []))" "fst st = []"
    using assms(1) by (auto simp: match_whole_def dest!: find_SomeD)
  then show ?thesis using matches_consume(1)[OF assms(2)] by (fastforce simp: consumes_def)
qed

lemma numeric_literal_chars: "is_numeric_literal s \<Longrightarrow> list_all number_class s"
  unfolding is_numeric_literal_def
  by (auto elim!: match_whole_over simp: numeric_literal_def RPlus_def number_class_def js_def)

lemma numeric_literal_empty: "\<not> is_numeric_literal []"
  by code_simp

end
