(* ===== verification/RequestRules.thy ===== *)
theory RequestRules
  imports BillingStructure BillingCheck JsJson JsRegex
begin

section \<open>Request rules of a billing expression\<close>

text \<open>
  Model of the request-rule part of \<^verbatim>\<open>web/src/features/pricing/lib/billing-expr.ts\<close>: reading the
  factors \<open>(condition ? multiplier : 1)\<close> of an expression into editable groups of conditions
  (\<open>tryParseRequestRuleExpr\<close> and what it calls), separating them from the base expression and
  combining the two again, and building the text of a group from the editor's state
  (\<open>buildRequestRuleExpr\<close>). The patterns are regular expressions in the source and here.
  \<open>JSON.parse\<close> of a string literal throws when the literal has a bad escape, and the code
  does not catch it in two places; the readers therefore return \<open>res\<close>.
\<close>

subsection \<open>Constants and conditions\<close>

definition SOURCE_PARAM :: jsstring where "SOURCE_PARAM = js ''param''"
definition SOURCE_HEADER :: jsstring where "SOURCE_HEADER = js ''header''"
definition SOURCE_TIME :: jsstring where "SOURCE_TIME = js ''time''"
definition MATCH_EQ :: jsstring where "MATCH_EQ = js ''eq''"
definition MATCH_CONTAINS :: jsstring where "MATCH_CONTAINS = js ''contains''"
definition MATCH_GT :: jsstring where "MATCH_GT = js ''gt''"
definition MATCH_GTE :: jsstring where "MATCH_GTE = js ''gte''"
definition MATCH_LT :: jsstring where "MATCH_LT = js ''lt''"
definition MATCH_LTE :: jsstring where "MATCH_LTE = js ''lte''"
definition MATCH_EXISTS :: jsstring where "MATCH_EXISTS = js ''exists''"
definition MATCH_RANGE :: jsstring where "MATCH_RANGE = js ''range''"

lemmas match_defs = SOURCE_PARAM_def SOURCE_HEADER_def SOURCE_TIME_def MATCH_EQ_def MATCH_CONTAINS_def
  MATCH_GT_def MATCH_GTE_def MATCH_LT_def MATCH_LTE_def MATCH_EXISTS_def MATCH_RANGE_def

definition TIME_FUNCS :: "jsstring list" where
  "TIME_FUNCS = map js [''hour'', ''minute'', ''weekday'', ''month'', ''day'']"

datatype request_condition =
    ParamHeader (rq_source: jsstring) (rq_path: jsstring) (rq_mode: jsstring) (rq_value: jsstring)
  | TimeCond (rq_timeFunc: jsstring) (rq_timezone: jsstring) (rq_mode: jsstring) (rq_value: jsstring)
      (rq_rangeStart: jsstring) (rq_rangeEnd: jsstring)

record request_rule_group =
  rg_conditions :: "request_condition list"
  rg_multiplier :: jsstring
  rg_conditionText :: "jsstring option"
  rg_matched :: "bool option"

record rule_trace_input =
  ri_cond :: jsstring
  ri_multiplier :: jsnum
  ri_matched :: bool

definition json_error :: thrown where
  "json_error = NativeError (js ''SyntaxError'')"

subsection \<open>Reading literals and time values\<close>

text \<open>\<open>null\<close> is \<open>VNull\<close>, whether \<open>JSON.parse\<close> failed or returned it.\<close>

definition parseExprLiteral :: "jsstring \<Rightarrow> jsval" where
  "parseExprLiteral raw =
    (let text = js_trim raw in
     if text = js ''true'' \<or> text = js ''false'' then VStr text
     else if is_numeric_literal text then VStr text
     else case json_parse text of Some v \<Rightarrow> v | None \<Rightarrow> VNull)"

definition TIME_FUNC_RANGES :: "(jsstring \<times> int \<times> int) list" where
  "TIME_FUNC_RANGES = [(js ''hour'', 0, 23), (js ''minute'', 0, 59), (js ''weekday'', 0, 6),
     (js ''month'', 1, 12), (js ''day'', 1, 31)]"

definition isTimeValueInRange :: "jsstring \<Rightarrow> jsstring \<Rightarrow> bool" where
  "isTimeValueInRange timeFunc text \<longleftrightarrow>
    is_numeric_literal text \<and> is_integer (js_Number text)
    \<and> (case map_of TIME_FUNC_RANGES timeFunc of
         Some (lo, hi) \<Rightarrow> js_le (Fin (of_int lo)) (js_Number text) \<and> js_le (js_Number text) (Fin (of_int hi))
       | None \<Rightarrow> False)"

subsection \<open>The patterns\<close>

definition re_timeFunc :: regex where
  "re_timeFunc = RGroup 1 (RAlt (map RText TIME_FUNCS))"

definition re_quoted :: "nat \<Rightarrow> regex" where
  "re_quoted k = RSeq [RText (js ''('' @ [DQ]), RGroup k (RPlus (RClass not_quote)), RText ([DQ] @ js '')'')]"

definition re_number :: "nat \<Rightarrow> regex" where
  "re_number k = RGroup k (RPlus (RClass number_class))"

definition re_time_range :: regex where
  "re_time_range = RSeq [re_timeFunc, re_quoted 2, RText (js '' >= ''), re_number 3,
     RAlt [RText (js '' && ''), RText (js '' || '')], RBack 1, RText (js ''('' @ [DQ]), RBack 2,
     RText ([DQ] @ js '') < ''), re_number 4]"

definition re_time_range_parens :: regex where
  "re_time_range_parens = RSeq [RText (js ''(''), re_time_range, RText (js '')'')]"

definition re_time_scalar :: regex where
  "re_time_scalar = RSeq [re_timeFunc, re_quoted 2, RText (js '' ''),
     RGroup 3 (RAlt (map RText [js ''=='', js ''>='', js ''<''])), RText (js '' ''), re_number 4]"

text \<open>\<open>"(?:[^"\\]|\\.)*"\<close>.\<close>

definition re_string :: "nat \<Rightarrow> regex" where
  "re_string k = RGroup k (RSeq [RText [DQ],
     RStar (RAlt [RClass (\<lambda>c. c \<noteq> DQ \<and> c \<noteq> 92), RSeq [RText [92], RClass dot_class]]), RText [DQ]])"

definition re_header_exists :: regex where
  "re_header_exists = RSeq [RText (js ''header''), re_quoted 1, RText (js '' != '' @ [DQ, DQ])]"

definition re_param_exists :: regex where
  "re_param_exists = RSeq [RText (js ''param''), re_quoted 1, RText (js '' != nil'')]"

definition re_header_contains :: regex where
  "re_header_contains = RSeq [RText (js ''has(header''), re_quoted 1, RText (js '', ''), re_string 2,
     RText (js '')'')]"

definition re_param_contains :: regex where
  "re_param_contains = RSeq [RText (js ''param''), re_quoted 1, RText (js '' != nil && has(param''),
     re_quoted 2, RText (js '', ''), re_string 3, RText (js '')'')]"

definition re_param_compare :: regex where
  "re_param_compare = RSeq [RText (js ''param''), re_quoted 1, RText (js '' != nil && param''),
     re_quoted 2, RText (js '' ''), RGroup 3 (RAlt (map RText [js ''>'', js ''>='', js ''<'', js ''<=''])),
     RText (js '' ''), re_number 4]"

definition re_equals :: regex where
  "re_equals = RSeq [RGroup 1 (RAlt (map RText [js ''param'', js ''header''])), re_quoted 2,
     RText (js '' == ''), RGroup 3 (RPlus (RClass dot_class))]"

definition re_factor :: regex where
  "re_factor = RSeq [RText (js ''(''), RGroup 1 (RPlus (RClass (\<lambda>c. True))), RText (js '' ? ''),
     re_number 2, RText (js '' : 1)'')]"

subsection \<open>Reading conditions\<close>

definition scalar_mode :: "jsstring \<Rightarrow> jsstring" where
  "scalar_mode op = (if op = js ''=='' then MATCH_EQ else if op = js ''>='' then MATCH_GTE
     else if op = js ''<'' then MATCH_LT else MATCH_EQ)"

definition tryParseTimeCondition :: "jsstring \<Rightarrow> request_condition option" where
  "tryParseTimeCondition expr =
    (case (case match_whole re_time_range expr of
             Some m \<Rightarrow> Some m
           | None \<Rightarrow> match_whole re_time_range_parens expr) of
       Some m \<Rightarrow>
         if \<not> isTimeValueInRange (captured m 1) (captured m 3)
            \<or> \<not> isTimeValueInRange (captured m 1) (captured m 4) then None
         else Some (TimeCond (captured m 1) (captured m 2) MATCH_RANGE [] (captured m 3) (captured m 4))
     | None \<Rightarrow>
         (case match_whole re_time_scalar expr of
            Some m \<Rightarrow>
              if \<not> isTimeValueInRange (captured m 1) (captured m 4) then None
              else Some (TimeCond (captured m 1) (captured m 2) (scalar_mode (captured m 3)) (captured m 4) [] [])
          | None \<Rightarrow> None))"

definition compare_mode :: "jsstring \<Rightarrow> jsstring" where
  "compare_mode op = (if op = js ''>'' then MATCH_GT else if op = js ''>='' then MATCH_GTE
     else if op = js ''<'' then MATCH_LT else MATCH_LTE)"

text \<open>A condition whose value is the string literal in the text \<open>lit\<close>; \<open>JSON.parse\<close> may throw.\<close>

definition contains_condition :: "jsstring \<Rightarrow> jsstring \<Rightarrow> jsstring \<Rightarrow> request_condition res" where
  "contains_condition source path lit =
    (case json_parse lit of
       Some v \<Rightarrow> Inr (ParamHeader source path MATCH_CONTAINS (js_String v))
     | None \<Rightarrow> Inl json_error)"

definition parse_equals :: "jsstring \<Rightarrow> request_condition option" where
  "parse_equals expr =
    (case match_whole re_equals expr of
       None \<Rightarrow> None
     | Some m \<Rightarrow>
         let parsedValue = parseExprLiteral (captured m 3) in
         if parsedValue = VNull then None
         else Some (ParamHeader (captured m 1) (captured m 2) MATCH_EQ (js_String parsedValue)))"

definition parse_param_compare :: "jsstring \<Rightarrow> request_condition option" where
  "parse_param_compare expr =
    (case match_whole re_param_compare expr of
       Some m \<Rightarrow>
         if captured m 1 = captured m 2
         then Some (ParamHeader SOURCE_PARAM (captured m 1) (compare_mode (captured m 3)) (captured m 4))
         else parse_equals expr
     | None \<Rightarrow> parse_equals expr)"

definition parse_param_contains :: "jsstring \<Rightarrow> request_condition option res" where
  "parse_param_contains expr =
    (case match_whole re_param_contains expr of
       Some m \<Rightarrow>
         if captured m 1 = captured m 2
         then sbind (contains_condition SOURCE_PARAM (captured m 1) (captured m 3)) (\<lambda>c. Inr (Some c))
         else Inr (parse_param_compare expr)
     | None \<Rightarrow> Inr (parse_param_compare expr))"

definition parse_header_contains :: "jsstring \<Rightarrow> request_condition option res" where
  "parse_header_contains expr =
    (case match_whole re_header_contains expr of
       Some m \<Rightarrow> sbind (contains_condition SOURCE_HEADER (captured m 1) (captured m 2)) (\<lambda>c. Inr (Some c))
     | None \<Rightarrow> parse_param_contains expr)"

definition tryParseRequestCondition :: "jsstring \<Rightarrow> request_condition option res" where
  "tryParseRequestCondition expr =
    (case tryParseTimeCondition expr of
       Some tc \<Rightarrow> Inr (Some tc)
     | None \<Rightarrow>
         (case match_whole re_header_exists expr of
            Some m \<Rightarrow> Inr (Some (ParamHeader SOURCE_HEADER (captured m 1) MATCH_EXISTS []))
          | None \<Rightarrow>
              (case match_whole re_param_exists expr of
                 Some m \<Rightarrow> Inr (Some (ParamHeader SOURCE_PARAM (captured m 1) MATCH_EXISTS []))
               | None \<Rightarrow> parse_header_contains expr)))"

fun merge_range :: "request_condition \<Rightarrow> request_condition \<Rightarrow> request_condition option" where
  "merge_range (TimeCond f1 z1 m1 v1 s1 e1) (TimeCond f2 z2 m2 v2 s2 e2) =
    (if f1 \<noteq> f2 \<or> z1 \<noteq> z2 \<or> m1 \<noteq> MATCH_GTE \<or> m2 \<noteq> MATCH_LT then None
     else Some (TimeCond f1 z1 MATCH_RANGE [] v1 v2))"
| "merge_range a b = None"

definition tryParseTimeRangePair :: "jsstring \<Rightarrow> jsstring \<Rightarrow> request_condition option" where
  "tryParseTimeRangePair lower upper =
    (case (tryParseTimeCondition lower, tryParseTimeCondition upper) of
       (Some a, Some b) \<Rightarrow> merge_range a b
     | _ \<Rightarrow> None)"

text \<open>The loop over the conjuncts; adjacent bounds of one time function merge into a range.\<close>

fun conditions_loop :: "jsstring list \<Rightarrow> request_condition list \<Rightarrow> request_condition list option res" where
  "conditions_loop [] conditions = Inr (if conditions = [] then None else Some conditions)"
| "conditions_loop [final] conditions =
    sbind (tryParseRequestCondition (js_trim final)) (\<lambda>condition.
    case condition of None \<Rightarrow> Inr None | Some c \<Rightarrow> Inr (Some (conditions @ [c])))"
| "conditions_loop (part # upper # rest) conditions =
    (case (if js_trim upper = [] then None else tryParseTimeRangePair (js_trim part) (js_trim upper)) of
       Some merged \<Rightarrow> conditions_loop rest (conditions @ [merged])
     | None \<Rightarrow>
         sbind (tryParseRequestCondition (js_trim part)) (\<lambda>condition.
         case condition of
           None \<Rightarrow> Inr None
         | Some c \<Rightarrow> conditions_loop (upper # rest) (conditions @ [c])))"

definition tryParseRequestConditions :: "jsstring \<Rightarrow> request_condition list option res" where
  "tryParseRequestConditions conditionStr =
    (case tryParseTimeCondition (js_trim conditionStr) of
       Some c \<Rightarrow> Inr (Some [c])
     | None \<Rightarrow> conditions_loop (splitExpressionAtTopLevel conditionStr (js ''&&'')) [])"

definition rule_group :: "request_condition list \<Rightarrow> jsstring \<Rightarrow> request_rule_group" where
  "rule_group conditions multiplier =
    \<lparr>rg_conditions = conditions, rg_multiplier = multiplier, rg_conditionText = None, rg_matched = None\<rparr>"

definition tryParseRuleGroupFactor :: "jsstring \<Rightarrow> request_rule_group option res" where
  "tryParseRuleGroupFactor part =
    (case match_whole re_factor part of
       None \<Rightarrow> Inr None
     | Some m \<Rightarrow>
         sbind (tryParseRequestConditions (captured m 1)) (\<lambda>conditions.
         Inr (map_option (\<lambda>cs. rule_group cs (captured m 2)) conditions)))"

definition requestRuleGroupsFromTrace :: "rule_trace_input list \<Rightarrow> request_rule_group list res" where
  "requestRuleGroupsFromTrace requestRules =
    smap (\<lambda>rule.
      sbind (tryParseRequestConditions (js_trim (ri_cond rule))) (\<lambda>conditions.
      Inr \<lparr>rg_conditions = (case conditions of Some cs \<Rightarrow> cs | None \<Rightarrow> []),
           rg_multiplier = js_String_num (ri_multiplier rule),
           rg_conditionText = Some (js_trim (ri_cond rule)), rg_matched = Some (ri_matched rule)\<rparr>))
      requestRules"

fun factors_loop :: "jsstring list \<Rightarrow> request_rule_group list \<Rightarrow> request_rule_group list option res" where
  "factors_loop [] groups = Inr (Some groups)"
| "factors_loop (part # parts) groups =
    sbind (tryParseRuleGroupFactor part) (\<lambda>g.
    case g of None \<Rightarrow> Inr None | Some g \<Rightarrow> factors_loop parts (groups @ [g]))"

definition tryParseRequestRuleExpr :: "jsstring \<Rightarrow> request_rule_group list option res" where
  "tryParseRequestRuleExpr expr =
    (let trimmed = js_trim expr in
     if trimmed = [] then Inr (Some [])
     else factors_loop (splitExpressionAtTopLevel trimmed (js ''*'')) [])"

subsection \<open>Base expression and rules\<close>

text \<open>\<open>parts.forEach\<close>: the rule factors and the others, each in order.\<close>

fun partition_parts :: "jsstring list \<Rightarrow> (jsstring list \<times> jsstring list) res" where
  "partition_parts [] = Inr ([], [])"
| "partition_parts (part # parts) =
    sbind (tryParseRequestRuleExpr part) (\<lambda>parsed.
    sbind (partition_parts parts) (\<lambda>(ruleParts, baseParts).
    Inr (if parsed \<noteq> None \<and> parsed \<noteq> Some [] then (part # ruleParts, baseParts)
         else (ruleParts, part # baseParts))))"

definition splitBillingExprAndRequestRules :: "jsstring \<Rightarrow> (jsstring \<times> jsstring) res" where
  "splitBillingExprAndRequestRules expr =
    (let trimmed = js_trim expr in
     if trimmed = [] then Inr ([], [])
     else
       let parts = splitExpressionAtTopLevel trimmed (js ''*'') in
       if length parts \<le> 1 then Inr (trimmed, [])
       else
         sbind (partition_parts parts) (\<lambda>(ruleParts, baseParts).
         case baseParts of
           [base] \<Rightarrow>
             if ruleParts = [] then Inr (trimmed, [])
             else Inr (unwrapExpressionParens base, js_join ruleParts (js '' * ''))
         | _ \<Rightarrow> Inr (trimmed, [])))"

definition combineBillingExpr :: "jsstring \<Rightarrow> jsstring \<Rightarrow> jsstring" where
  "combineBillingExpr baseExpr requestRuleExpr =
    (let base = js_trim baseExpr; rules = js_trim requestRuleExpr in
     if base = [] then []
     else if rules = [] then base
     else js ''('' @ base @ js '') * '' @ rules)"

subsection \<open>The editor\<close>

definition createEmptyCondition :: request_condition where
  "createEmptyCondition = ParamHeader SOURCE_PARAM [] MATCH_EQ []"

definition createEmptyTimeCondition :: request_condition where
  "createEmptyTimeCondition = TimeCond (js ''hour'') (js ''Asia/Shanghai'') MATCH_GTE [] [] []"

definition createEmptyRuleGroup :: request_rule_group where
  "createEmptyRuleGroup = rule_group [createEmptyCondition] []"

definition createEmptyTimeRuleGroup :: request_rule_group where
  "createEmptyTimeRuleGroup = rule_group [createEmptyTimeCondition] []"

record match_option =
  mo_value :: jsstring
  mo_labelKey :: jsstring

definition getRequestRuleMatchOptions :: "jsstring \<Rightarrow> match_option list" where
  "getRequestRuleMatchOptions source =
    (let opt = (\<lambda>v l. \<lparr>mo_value = v, mo_labelKey = js l\<rparr>);
         base = [opt MATCH_EQ ''Equals'', opt MATCH_CONTAINS ''Contains'', opt MATCH_EXISTS ''Exists'']
     in if source = SOURCE_TIME then
          [opt MATCH_EQ ''Equals'', opt MATCH_GTE ''Greater than or equal'', opt MATCH_LT ''Less than'',
           opt MATCH_RANGE ''Overnight range'']
        else if source = SOURCE_HEADER then base
        else base @ [opt MATCH_GT ''Greater than'', opt MATCH_GTE ''Greater than or equal'',
          opt MATCH_LT ''Less than'', opt MATCH_LTE ''Less than or equal''])"

text \<open>\<open>Partial<RequestCondition>\<close>; null and undefined are the condition without a field.\<close>

record partial_condition =
  pc_source :: "jsstring option"
  pc_path :: "jsstring option"
  pc_timeFunc :: "jsstring option"
  pc_timezone :: "jsstring option"
  pc_mode :: "jsstring option"
  pc_value :: "jsstring option"
  pc_rangeStart :: "jsstring option"
  pc_rangeEnd :: "jsstring option"

fun as_partial :: "request_condition \<Rightarrow> partial_condition" where
  "as_partial (ParamHeader source path mode value) =
    \<lparr>pc_source = Some source, pc_path = Some path, pc_timeFunc = None, pc_timezone = None,
     pc_mode = Some mode, pc_value = Some value, pc_rangeStart = None, pc_rangeEnd = None\<rparr>"
| "as_partial (TimeCond timeFunc timezone mode value rangeStart rangeEnd) =
    \<lparr>pc_source = Some SOURCE_TIME, pc_path = None, pc_timeFunc = Some timeFunc,
     pc_timezone = Some timezone, pc_mode = Some mode, pc_value = Some value,
     pc_rangeStart = Some rangeStart, pc_rangeEnd = Some rangeEnd\<rparr>"

definition or_else :: "jsstring option \<Rightarrow> jsstring \<Rightarrow> jsstring" where
  "or_else x d = (case x of Some s \<Rightarrow> if s = [] then d else s | None \<Rightarrow> d)"

definition allowed_mode :: "jsstring \<Rightarrow> jsstring option \<Rightarrow> jsstring \<Rightarrow> jsstring" where
  "allowed_mode source mode d =
    (case mode of
       Some m \<Rightarrow> if m \<in> set (map mo_value (getRequestRuleMatchOptions source)) then m else d
     | None \<Rightarrow> d)"

definition normalizeCondition :: "partial_condition \<Rightarrow> request_condition" where
  "normalizeCondition cond =
    (let source = (if pc_source cond = Some SOURCE_TIME then SOURCE_TIME
           else if pc_source cond = Some SOURCE_HEADER then SOURCE_HEADER else SOURCE_PARAM) in
     if source = SOURCE_TIME then
       TimeCond
         (case pc_timeFunc cond of
            Some f \<Rightarrow> if f \<in> set TIME_FUNCS then f else js ''hour''
          | None \<Rightarrow> js ''hour'')
         (or_else (pc_timezone cond) (js ''Asia/Shanghai''))
         (allowed_mode SOURCE_TIME (pc_mode cond) MATCH_GTE)
         (or_else (pc_value cond) []) (or_else (pc_rangeStart cond) []) (or_else (pc_rangeEnd cond) [])
     else
       ParamHeader source (or_else (pc_path cond) []) (allowed_mode source (pc_mode cond) MATCH_EQ)
         (or_else (pc_value cond) []))"

subsection \<open>Building expressions\<close>

definition buildExprLiteral :: "jsstring \<Rightarrow> jsstring \<Rightarrow> jsstring" where
  "buildExprLiteral mode value =
    (let text = js_trim value in
     if mode = MATCH_CONTAINS then json_quote text
     else if text = js ''true'' \<or> text = js ''false'' then text
     else if is_numeric_literal text then text
     else json_quote text)"

definition scalar_op :: "jsstring \<Rightarrow> jsstring" where
  "scalar_op mode = (if mode = MATCH_EQ then js ''=='' else if mode = MATCH_GTE then js ''>=''
     else if mode = MATCH_LT then js ''<'' else js ''=='')"

definition build_time ::
  "jsstring \<Rightarrow> jsstring \<Rightarrow> jsstring \<Rightarrow> jsstring \<Rightarrow> jsstring \<Rightarrow> jsstring \<Rightarrow> jsstring" where
  "build_time timeFunc timezone mode value rangeStart rangeEnd =
    (let fn = timeFunc @ js ''('' @ json_quote timezone @ js '')'' in
     if mode = MATCH_RANGE then
       let s = js_trim rangeStart; e = js_trim rangeEnd in
       if \<not> isTimeValueInRange timeFunc s \<or> \<not> isTimeValueInRange timeFunc e then []
       else if js_lt (js_Number e) (js_Number s)
       then fn @ js '' >= '' @ s @ js '' || '' @ fn @ js '' < '' @ e
       else fn @ js '' >= '' @ s @ js '' && '' @ fn @ js '' < '' @ e
     else
       let v = js_trim value in
       if \<not> isTimeValueInRange timeFunc v then []
       else fn @ js '' '' @ scalar_op mode @ js '' '' @ v)"

definition buildTimeConditionExpr :: "request_condition \<Rightarrow> jsstring" where
  "buildTimeConditionExpr cond =
    (case normalizeCondition (as_partial cond) of
       TimeCond timeFunc timezone mode value rangeStart rangeEnd \<Rightarrow>
         build_time timeFunc timezone mode value rangeStart rangeEnd
     | ParamHeader source path mode value \<Rightarrow> [])"

definition compare_op :: "jsstring \<Rightarrow> jsstring" where
  "compare_op mode = (if mode = MATCH_GT then js ''>'' else if mode = MATCH_GTE then js ''>=''
     else if mode = MATCH_LT then js ''<'' else js ''<='')"

definition build_param_header :: "jsstring \<Rightarrow> jsstring \<Rightarrow> jsstring \<Rightarrow> jsstring \<Rightarrow> jsstring" where
  "build_param_header source rawPath mode value =
    (let path = js_trim rawPath;
         sourceExpr = (if source = SOURCE_HEADER then js ''header('' @ json_quote path @ js '')''
           else js ''param('' @ json_quote path @ js '')'') in
     if path = [] then []
     else if mode = MATCH_EXISTS then
       if source = SOURCE_HEADER then sourceExpr @ js '' != '' @ [DQ, DQ] else sourceExpr @ js '' != nil''
     else if mode = MATCH_CONTAINS then
       if source = SOURCE_HEADER
       then js ''has('' @ sourceExpr @ js '', '' @ buildExprLiteral mode value @ js '')''
       else sourceExpr @ js '' != nil && has('' @ sourceExpr @ js '', '' @ buildExprLiteral mode value @ js '')''
     else if mode \<in> {MATCH_GT, MATCH_GTE, MATCH_LT, MATCH_LTE} then
       if \<not> is_numeric_literal (js_trim value) then []
       else sourceExpr @ js '' != nil && '' @ sourceExpr @ js '' '' @ compare_op mode @ js '' '' @ js_trim value
     else sourceExpr @ js '' == '' @ buildExprLiteral mode value)"

definition buildRequestConditionExpr :: "request_condition \<Rightarrow> jsstring" where
  "buildRequestConditionExpr cond =
    (case cond of
       TimeCond f z m v s e \<Rightarrow> buildTimeConditionExpr cond
     | ParamHeader s0 p0 m0 v0 \<Rightarrow>
         (case normalizeCondition (as_partial cond) of
            ParamHeader source path mode value \<Rightarrow> build_param_header source path mode value
          | TimeCond f z m v s e \<Rightarrow> []))"

definition buildRuleGroupFactor :: "request_rule_group \<Rightarrow> jsstring" where
  "buildRuleGroupFactor grp =
    (let multiplier = js_trim (rg_multiplier grp);
         condExprs = filter (\<lambda>e. e \<noteq> []) (map buildRequestConditionExpr (rg_conditions grp)) in
     if \<not> is_numeric_literal multiplier then []
     else case condExprs of
       [] \<Rightarrow> []
     | [e] \<Rightarrow> js ''('' @ e @ js '' ? '' @ multiplier @ js '' : 1)''
     | _ \<Rightarrow>
         js ''('' @ js_join (map (\<lambda>e. if js_includes e (js '' || '') then js ''('' @ e @ js '')'' else e) condExprs)
           (js '' && '') @ js '' ? '' @ multiplier @ js '' : 1)'')"

definition buildRequestRuleExpr :: "request_rule_group list \<Rightarrow> jsstring" where
  "buildRequestRuleExpr groups =
    js_join (filter (\<lambda>f. f \<noteq> []) (map buildRuleGroupFactor groups)) (js '' * '')"

end
