(* ===== verification/RequestRuleLaws.thy ===== *)
theory RequestRuleLaws
  imports RequestRules
begin

section \<open>Request rules: reading what was built\<close>

text \<open>
  What the editor writes for a condition is read back as the same condition: string and number
  literals (\<open>literal_roundtrip\<close>), time conditions with scalar and range bounds
  (\<open>time_condition_roundtrip\<close>), header and parameter conditions
  (\<open>condition_roundtrip\<close>), as long as the path or zone has no character that JSON escapes, a
  restriction that is exact for presence conditions; time values that are read are always in the range of their
  function (\<open>parsed_time_in_range\<close>). Two defects are stated as theorems too: a parameter
  comparison that the editor writes is not read back as part of a rule
  (\<open>param_comparison_lost\<close>), and a bad escape makes the reader throw
  (\<open>bad_escape_throws\<close>).
\<close>

subsection \<open>Literals\<close>

lemma js_Cons: "js (c # s) = word_of_int (of_char c) # js s"
  by (simp add: js_def)

lemma trimmed_json_quote [simp]: "trimmed (json_quote s)"
  by (simp add: json_quote_def trimmed_def is_space_def)

lemma json_quote_not_numeric: "\<not> is_numeric_literal (json_quote s)"
proof
  assume "is_numeric_literal (json_quote s)"
  then have "number_class DQ" using numeric_literal_chars by (fastforce simp: json_quote_def)
  then show False by (simp add: number_class_def is_digit_def js_Cons)
qed

lemma json_quote_not_bool: "json_quote s \<noteq> js ''true'' \<and> json_quote s \<noteq> js ''false''"
  by (simp add: json_quote_def js_Cons)

lemma literal_roundtrip:
  "parseExprLiteral (buildExprLiteral MATCH_EQ value) = VStr (js_trim value)"
proof -
  let ?t = "js_trim value"
  have "js_trim ?t = ?t" by simp
  moreover have "MATCH_EQ \<noteq> MATCH_CONTAINS" by (simp add: match_defs js_Cons)
  ultimately show ?thesis
    by (simp add: parseExprLiteral_def buildExprLiteral_def Let_def json_roundtrip
        json_quote_not_numeric json_quote_not_bool)
qed

subsection \<open>Matching the parts\<close>

text \<open>Texts that JSON quotes as they are.\<close>

definition plain :: "jsstring \<Rightarrow> bool" where
  "plain s \<longleftrightarrow> s \<noteq> [] \<and> trimmed s \<and> quote_units s = s \<and> DQ \<notin> set s"

lemma plain_quote: "plain s \<Longrightarrow> json_quote s = DQ # s @ [DQ]"
  by (simp add: plain_def json_quote_def)

lemma plain_run: "plain s \<Longrightarrow> class_run not_quote s (DQ # u)"
  by (auto simp: plain_def class_run_def not_quote_def list_all_iff)

lemma quoted_match:
  assumes "plain s"
  shows "matches (re_quoted k) (js ''('' @ DQ # s @ DQ # js '')'' @ u, g) = [(u, (k, s) # g)]"
proof -
  have "concat (map (matches_seq [RText ([DQ] @ js '')'')])
        (matches (RGroup k (RPlus (RClass not_quote))) (s @ DQ # js '')'' @ u, g)))
      = matches_seq [RText ([DQ] @ js '')'')] (DQ # js '')'' @ u, (k, s) # g)"
    by (rule group_run[OF plain_run[OF assms]]) (auto simp: not_quote_def regex_simps)
  then show ?thesis by (simp add: re_quoted_def regex_simps eat_same[of "js ''('' @ [DQ]", simplified])
qed

lemma number_then:
  assumes "list_all number_class v" "v \<noteq> []" "u = [] \<or> \<not> number_class (hd u)"
    and "\<And>c s g. number_class c \<Longrightarrow> f (c # s, g) = []"
  shows "concat (map f (matches (re_number k) (v @ u, g))) = f (u, (k, v) # g)"
  using assms group_run[of number_class v u f k g] by (simp only: class_run_def re_number_def simp_thms)

lemma number_end:
  assumes "list_all number_class v" "v \<noteq> []"
  shows "find (\<lambda>st. fst st = []) (matches (re_number k) (v, g)) = Some ([], (k, v) # g)"
  using assms group_run_end[of number_class v k g] by (simp only: class_run_def re_number_def simp_thms)

lemma time_func_match:
  "f \<in> set TIME_FUNCS \<Longrightarrow> matches re_timeFunc (f @ u, g) = [(u, (1, f) # g)]"
  by (auto simp: TIME_FUNCS_def re_timeFunc_def js_Cons regex_simps)

definition fn_text :: "jsstring \<Rightarrow> jsstring \<Rightarrow> jsstring" where
  "fn_text f z = f @ js ''('' @ DQ # z @ DQ # js '')''"

lemma time_head:
  assumes "f \<in> set TIME_FUNCS" "plain z"
  shows "matches_seq (re_timeFunc # re_quoted 2 # rs) (fn_text f z @ u, g)
     = matches_seq rs (u, (2, z) # (1, f) # g)"
  using quoted_match[OF assms(2), of 2 u "(1, f) # g"]
  by (simp add: fn_text_def time_func_match[OF assms(1)])

lemma blank_not_number: "\<not> number_class 32" "number_class c \<Longrightarrow> c \<noteq> 32"
  by (auto simp: number_class_def is_digit_def js_Cons)

subsection \<open>Time conditions\<close>

text \<open>The text of a time value: a number literal.\<close>

definition number_text :: "jsstring \<Rightarrow> bool" where
  "number_text v \<longleftrightarrow> v \<noteq> [] \<and> list_all number_class v"

lemma in_range_number_text: "isTimeValueInRange f v \<Longrightarrow> number_text v"
  using numeric_literal_chars[of v] numeric_literal_empty
  by (auto simp: isTimeValueInRange_def number_text_def)

lemma range_match:
  assumes f: "f \<in> set TIME_FUNCS" and z: "plain z" and v: "number_text v" "number_text w"
    and conn: "conn = js '' && '' \<or> conn = js '' || ''"
  shows "match_whole re_time_range (fn_text f z @ js '' >= '' @ v @ conn @ fn_text f z @ js '' < '' @ w)
     = Some [(4, w), (3, v), (2, z), (1, f)]"
proof -
  let ?g = "[(3, v), (2, z), (1, f)]" and ?u = "conn @ fn_text f z @ js '' < '' @ w"
  let ?tail = "[RAlt [RText (js '' && ''), RText (js '' || '')], RBack 1, RText (js ''('' @ [DQ]), RBack 2,
     RText ([DQ] @ js '') < ''), re_number 4]"
  have "matches re_time_range (fn_text f z @ js '' >= '' @ v @ ?u, [])
      = concat (map (matches_seq ?tail) (matches (re_number 3) (v @ ?u, [(2, z), (1, f)])))"
    unfolding re_time_range_def matches.simps time_head[OF f z] by (simp add: regex_simps)
  also have "\<dots> = matches_seq ?tail (?u, ?g)"
    using v conn blank_not_number(1)
    by (intro number_then) (auto simp: number_text_def js_Cons regex_simps dest: blank_not_number(2))
  also have "\<dots> = matches (re_number 4) (w, ?g)"
    using conn by (auto simp: fn_text_def captured_def capture_def js_Cons regex_simps)
  finally show ?thesis
    using number_end[of w 4 ?g] v(2) by (simp add: match_whole_def number_text_def)
qed

lemma parens_no_match:
  "f \<in> set TIME_FUNCS \<Longrightarrow> match_whole re_time_range_parens (fn_text f z @ u) = None"
  by (auto simp: TIME_FUNCS_def match_whole_def re_time_range_parens_def fn_text_def js_Cons regex_simps)

definition scalar_ops :: "jsstring list" where
  "scalar_ops = [js ''=='', js ''>='', js ''<'']"

lemma scalar_no_range:
  assumes f: "f \<in> set TIME_FUNCS" and z: "plain z" and v: "number_text v" and op: "op \<in> set scalar_ops"
  shows "match_whole re_time_range (fn_text f z @ js '' '' @ op @ js '' '' @ v) = None"
proof -
  let ?tail = "[RAlt [RText (js '' && ''), RText (js '' || '')], RBack 1, RText (js ''('' @ [DQ]), RBack 2,
     RText ([DQ] @ js '') < ''), re_number 4]"
  have "concat (map (matches_seq ?tail) (matches (re_number 3) (v @ [], g))) = matches_seq ?tail ([], (3, v) # g)"
    for g
    using v by (intro number_then) (auto simp: number_text_def js_Cons regex_simps dest: blank_not_number(2))
  then have n: "concat (map (matches_seq ?tail) (matches (re_number 3) (v, g))) = []" for g
    by (simp add: js_Cons regex_simps)
  have "matches re_time_range (fn_text f z @ js '' '' @ op @ js '' '' @ v, [])
      = (if op = js ''>='' then concat (map (matches_seq ?tail) (matches (re_number 3) (v, [(2, z), (1, f)])))
         else [])"
    using op unfolding re_time_range_def matches.simps time_head[OF f z]
    by (auto simp: scalar_ops_def js_Cons regex_simps)
  then show ?thesis by (simp only: n match_whole_def if_cancel find.simps option.map)
qed

lemma scalar_match:
  assumes f: "f \<in> set TIME_FUNCS" and z: "plain z" and v: "number_text v" and op: "op \<in> set scalar_ops"
  shows "match_whole re_time_scalar (fn_text f z @ js '' '' @ op @ js '' '' @ v)
     = Some [(4, v), (3, op), (2, z), (1, f)]"
proof -
  have "matches re_time_scalar (fn_text f z @ js '' '' @ op @ js '' '' @ v, [])
      = matches (re_number 4) (v, [(3, op), (2, z), (1, f)])"
    using op unfolding re_time_scalar_def matches.simps time_head[OF f z]
    by (auto simp: scalar_ops_def js_Cons regex_simps)
  then show ?thesis
    using number_end[of v 4] v by (simp add: match_whole_def number_text_def)
qed

lemma time_range_read:
  assumes "f \<in> set TIME_FUNCS" "plain z" "isTimeValueInRange f v" "isTimeValueInRange f w"
    and "conn = js '' && '' \<or> conn = js '' || ''"
  shows "tryParseTimeCondition (fn_text f z @ js '' >= '' @ v @ conn @ fn_text f z @ js '' < '' @ w)
     = Some (TimeCond f z MATCH_RANGE [] v w)"
  using range_match[OF assms(1,2) in_range_number_text[OF assms(3)] in_range_number_text[OF assms(4)] assms(5)]
    assms(3,4)
  by (simp add: tryParseTimeCondition_def captured_def capture_def)

lemma time_scalar_read:
  assumes "f \<in> set TIME_FUNCS" "plain z" "isTimeValueInRange f v" "op \<in> set scalar_ops"
  shows "tryParseTimeCondition (fn_text f z @ js '' '' @ op @ js '' '' @ v)
     = Some (TimeCond f z (scalar_mode op) v [] [])"
  using scalar_no_range[OF assms(1,2) in_range_number_text[OF assms(3)] assms(4)]
    scalar_match[OF assms(1,2) in_range_number_text[OF assms(3)] assms(4)]
    parens_no_match[OF assms(1), of z "js '' '' @ op @ js '' '' @ v"] assms(3)
  by (simp add: tryParseTimeCondition_def captured_def capture_def)

lemma number_text_trimmed: "number_text v \<Longrightarrow> trimmed v"
proof -
  have "\<not> is_space c" if "number_class c" for c
    using that by (auto simp: number_class_def is_digit_def is_space_def js_Cons word_le_nat_alt)
  then show "number_text v \<Longrightarrow> trimmed v"
    by (auto simp: number_text_def trimmed_def list_all_iff)
qed

text \<open>
  The filled-in editor rows that survive the round trip: paths and zones that JSON quotes as they
  are, trimmed values, and for an equality no line separator (which the pattern's dot refuses).
\<close>

fun condition_ok :: "request_condition \<Rightarrow> bool" where
  "condition_ok (TimeCond f z m v s e) =
    (f \<in> set TIME_FUNCS \<and> plain z
     \<and> (if m = MATCH_RANGE then v = [] \<and> isTimeValueInRange f s \<and> isTimeValueInRange f e
        else m \<in> set [MATCH_EQ, MATCH_GTE, MATCH_LT] \<and> s = [] \<and> e = [] \<and> isTimeValueInRange f v))"
| "condition_ok (ParamHeader source path m v) =
    (source \<in> set [SOURCE_PARAM, SOURCE_HEADER] \<and> plain path
     \<and> (if m = MATCH_EXISTS then v = []
        else if m = MATCH_EQ then trimmed v \<and> 8232 \<notin> set v \<and> 8233 \<notin> set v
        else if m = MATCH_CONTAINS then trimmed v
        else source = SOURCE_PARAM \<and> m \<in> set [MATCH_GT, MATCH_GTE, MATCH_LT, MATCH_LTE]
          \<and> is_numeric_literal v))"

lemma plain_nonempty: "plain z \<Longrightarrow> z \<noteq> []"
  by (simp add: plain_def)

lemma fn_text_quote: "plain z \<Longrightarrow> f @ js ''('' @ json_quote z @ js '')'' = fn_text f z"
  by (simp add: fn_text_def plain_quote)

lemma time_roundtrip:
  assumes "condition_ok (TimeCond f z m v s e)"
  shows "tryParseTimeCondition (buildRequestConditionExpr (TimeCond f z m v s e)) = Some (TimeCond f z m v s e)"
proof -
  have f: "f \<in> set TIME_FUNCS" and z: "plain z" using assms by simp_all
  have b: "buildRequestConditionExpr (TimeCond f z m v s e) = build_time f z m v s e"
    using assms plain_nonempty[OF z]
    by (auto simp: buildRequestConditionExpr_def buildTimeConditionExpr_def normalizeCondition_def
        or_else_def allowed_mode_def getRequestRuleMatchOptions_def Let_def split: if_splits)
  show ?thesis
  proof (cases "m = MATCH_RANGE")
    case True
    then have r: "v = []" "isTimeValueInRange f s" "isTimeValueInRange f e" using assms by simp_all
    then show ?thesis
      unfolding b
      using time_range_read[OF f z r(2,3)] in_range_number_text[of f s] in_range_number_text[of f e]
      by (simp add: True build_time_def Let_def fn_text_quote[OF z, simplified] number_text_trimmed)
  next
    case False
    then have r: "m \<in> set [MATCH_EQ, MATCH_GTE, MATCH_LT]" "s = []" "e = []" "isTimeValueInRange f v"
      using assms by simp_all
    have op: "scalar_op m \<in> set scalar_ops" "scalar_mode (scalar_op m) = m"
      using r(1) by (auto simp: scalar_op_def scalar_ops_def scalar_mode_def match_defs js_Cons)
    show ?thesis
      unfolding b
      using time_scalar_read[OF f z r(4) op(1)] in_range_number_text[OF r(4)] r(2,3,4) False
      by (simp add: build_time_def Let_def fn_text_quote[OF z, simplified] number_text_trimmed op(2))
  qed
qed

subsection \<open>String literals\<close>

text \<open>A text in which every quote and every backslash is escaped.\<close>

fun escaped :: "jsstring \<Rightarrow> bool" where
  "escaped [] = True"
| "escaped (c # s) =
    (if c = 92 then (case s of d # t \<Rightarrow> dot_class d \<and> escaped t | [] \<Rightarrow> False)
     else c \<noteq> DQ \<and> escaped s)"

definition string_part :: regex where
  "string_part = RAlt [RClass (\<lambda>c. c \<noteq> DQ \<and> c \<noteq> 92), RSeq [RText [92], RClass dot_class]]"

lemma string_step:
  "c \<noteq> 92 \<Longrightarrow> c \<noteq> DQ \<Longrightarrow> matches string_part (c # s, g) = [(s, g)]"
  "dot_class d \<Longrightarrow> matches string_part (92 # d # s, g) = [(s, g)]"
  "matches string_part (DQ # s, g) = []"
  by (simp_all add: string_part_def eat_class_def regex_simps)

lemma star_string:
  assumes "escaped s"
  shows "concat (map (eat [DQ]) (star_states (matches string_part) (s @ DQ # u, g))) = [(u, g)]"
  using assms
proof (induction s rule: escaped.induct)
  case 1
  show ?case by (simp add: star_states.simps[of _ "(DQ # u, g)"] string_step regex_simps)
next
  case (2 c s)
  show ?case
  proof (cases "c = 92")
    case True
    then obtain d t where s: "s = d # t" "dot_class d" "escaped t" using 2(3) by (cases s) auto
    then show ?thesis
      using 2(1)[OF True, of d t] True
      by (simp add: star_states.simps[of _ "(92 # d # t @ DQ # u, g)"] string_step regex_simps)
  next
    case False
    then have c: "c \<noteq> DQ" "escaped s" using 2(3) by simp_all
    then show ?thesis
      using 2(2)[OF False] False
      by (simp add: star_states.simps[of _ "(c # s @ DQ # u, g)"] string_step regex_simps)
  qed
qed

lemma matches_seq_single: "matches_seq [RText t] = eat t"
  by (rule ext) simp

lemma string_match:
  assumes "escaped s"
  shows "matches (re_string k) (DQ # s @ DQ # u, g) = [(u, (k, DQ # s @ [DQ]) # g)]"
proof -
  have "matches (RSeq [RText [DQ], RStar string_part, RText [DQ]]) (DQ # s @ DQ # u, g)
      = concat (map (eat [DQ]) (star_states (matches string_part) (s @ DQ # u, g)))"
    by (simp add: regex_simps matches_seq_single)
  then have "matches (RSeq [RText [DQ], RStar string_part, RText [DQ]]) (DQ # s @ DQ # u, g) = [(u, g)]"
    by (simp only: star_string[OF assms])
  then show ?thesis
    unfolding re_string_def string_part_def[symmetric] by (simp del: matches.simps(3))
qed

lemma escaped_append: "escaped s \<Longrightarrow> escaped t \<Longrightarrow> escaped (s @ t)"
proof (induction s rule: escaped.induct)
  case (2 c s)
  then show ?case by (cases s) auto
qed simp

lemma hex_digit_plain: "hex_digit (n mod 16) \<noteq> DQ \<and> hex_digit (n mod 16) \<noteq> 92 \<and> dot_class (hex_digit (n mod 16))"
proof -
  have "is_hex (hex_digit (n mod 16))" using hex_digit_ok[of "n mod 16"] by simp
  then show ?thesis by (auto simp: is_hex_def is_digit_def dot_class_def word_le_nat_alt)
qed

lemma unicode_escape_plain: "escaped (unicode_escape c) \<and> list_all dot_class (unicode_escape c)"
  using hex_digit_plain by (simp add: unicode_escape_def Let_def) (simp add: dot_class_def)

lemma quote_unit_cases:
  obtains (short) e where "quote_unit c = [92, e]" "dot_class e"
  | (unicode) "quote_unit c = unicode_escape c"
  | (raw) "quote_unit c = [c]" "c \<noteq> DQ" "c \<noteq> 92" "32 \<le> c"
proof (cases "map_of short_escapes c")
  case (Some e)
  then have "dot_class e" by (auto simp: short_escapes_def dot_class_def split: if_splits)
  then show thesis using short Some by (simp add: quote_unit_def)
next
  case None
  then have "c \<noteq> DQ" "c \<noteq> 92" by (auto simp: short_escapes_def split: if_splits)
  then show thesis
    using None unicode raw
    by (cases "c < 32 \<or> high_surrogate c \<or> low_surrogate c") (simp_all add: quote_unit_def not_less)
qed

lemma quote_unit_escaped: "escaped (quote_unit c)"
  by (rule quote_unit_cases[of c]) (simp_all add: unicode_escape_plain)

lemma quote_unit_dot: "c \<noteq> 8232 \<Longrightarrow> c \<noteq> 8233 \<Longrightarrow> list_all dot_class (quote_unit c)"
proof (rule quote_unit_cases[of c])
  assume "c \<noteq> 8232" "c \<noteq> 8233" "quote_unit c = [c]" "32 \<le> c"
  then show ?thesis by (auto simp: dot_class_def word_le_nat_alt)
next
  fix e
  assume "quote_unit c = [92, e]" "dot_class e"
  then show ?thesis by (simp add: dot_class_def)
qed (simp add: unicode_escape_plain)

lemma quote_units_escaped: "escaped (quote_units s)"
proof (induction s rule: quote_units.induct)
  case (3 c d s)
  then show ?case
    using surrogate_raw[of c] surrogate_raw[of d] by (auto simp: escaped_append quote_unit_escaped)
qed (simp_all add: quote_unit_escaped)

lemma json_string_match:
  "matches (re_string k) (json_quote v @ u, g) = [(u, (k, json_quote v) # g)]"
  using string_match[OF quote_units_escaped, of k v u g] by (simp add: json_quote_def)

lemma quote_units_dot: "8232 \<notin> set s \<Longrightarrow> 8233 \<notin> set s \<Longrightarrow> list_all dot_class (quote_units s)"
proof (induction s rule: quote_units.induct)
  case (3 c d s)
  then show ?case
    using surrogate_raw[of c] surrogate_raw[of d]
    by (auto simp: quote_unit_dot) (auto simp: dot_class_def word_le_nat_alt)
qed (simp_all add: quote_unit_dot)

lemma json_quote_dot: "8232 \<notin> set s \<Longrightarrow> 8233 \<notin> set s \<Longrightarrow> list_all dot_class (json_quote s)"
  using quote_units_dot[of s] by (simp add: json_quote_def dot_class_def)

lemma number_dot: "number_class c \<Longrightarrow> dot_class c"
  by (auto simp: number_class_def is_digit_def dot_class_def js_Cons word_le_nat_alt)

lemma literal_dot:
  assumes "8232 \<notin> set v" "8233 \<notin> set v" "trimmed v"
  shows "class_run dot_class (buildExprLiteral MATCH_EQ v) []"
proof -
  have "list_all dot_class v" if "is_numeric_literal v"
    using numeric_literal_chars[OF that] number_dot by (simp add: list_all_iff)
  moreover have "list_all dot_class (js ''true'')" "list_all dot_class (js ''false'')"
    by (simp_all add: js_Cons dot_class_def)
  moreover have "buildExprLiteral MATCH_EQ v \<noteq> []"
    using numeric_literal_empty by (auto simp: buildExprLiteral_def Let_def assms(3) json_quote_def js_Cons)
  ultimately show ?thesis
    using json_quote_dot[OF assms(1,2)] by (auto simp: class_run_def buildExprLiteral_def Let_def assms(3))
qed

subsection \<open>Header and parameter conditions\<close>

text \<open>No time pattern matches the text of another condition.\<close>

lemma no_time:
  "tryParseTimeCondition (js ''header'' @ u) = None"
  "tryParseTimeCondition (js ''param'' @ u) = None"
  "tryParseTimeCondition (js ''has'' @ u) = None"
  by (simp_all add: tryParseTimeCondition_def match_whole_def re_time_range_def re_time_range_parens_def
      re_time_scalar_def re_timeFunc_def TIME_FUNCS_def js_Cons regex_simps)


text \<open>The text of a source: \<open>header("path")\<close> or \<open>param("path")\<close>.\<close>

definition call_text :: "jsstring \<Rightarrow> jsstring" where
  "call_text path = js ''('' @ DQ # path @ DQ # js '')''"

lemma call_match:
  "plain path \<Longrightarrow> matches (re_quoted k) (call_text path @ u, g) = [(u, (k, path) # g)]"
  using quoted_match[of path k u g] by (simp add: call_text_def)

lemma call_match_end:
  "plain path \<Longrightarrow> matches (re_quoted k) (call_text path, g) = [([], (k, path) # g)]"
  using quoted_match[of path k "[]" g] by (simp add: call_text_def)

lemmas pattern_defs = re_header_exists_def re_param_exists_def re_header_contains_def
  re_param_contains_def re_param_compare_def re_equals_def

text \<open>Which patterns each kind of text fails.\<close>

lemma header_exists_read:
  assumes "plain path"
  shows "tryParseRequestCondition (js ''header'' @ call_text path @ js '' != '' @ [DQ, DQ])
     = Inr (Some (ParamHeader SOURCE_HEADER path MATCH_EXISTS []))"
  by (simp add: tryParseRequestCondition_def no_time match_whole_def re_header_exists_def regex_simps
      call_match[OF assms] captured_def capture_def)

lemma param_exists_read:
  assumes "plain path"
  shows "tryParseRequestCondition (js ''param'' @ call_text path @ js '' != nil'')
     = Inr (Some (ParamHeader SOURCE_PARAM path MATCH_EXISTS []))"
proof -
  have "match_whole re_header_exists (js ''param'' @ u) = None" for u
    by (simp add: match_whole_def re_header_exists_def js_Cons regex_simps)
  then show ?thesis
    by (simp add: tryParseRequestCondition_def no_time)
       (simp add: match_whole_def re_param_exists_def regex_simps call_match[OF assms] captured_def capture_def)
qed

lemma header_contains_read:
  assumes "plain path"
  shows "tryParseRequestCondition (js ''has(header'' @ call_text path @ js '', '' @ json_quote v @ js '')'')
     = Inr (Some (ParamHeader SOURCE_HEADER path MATCH_CONTAINS v))"
proof -
  let ?e = "js ''has(header'' @ call_text path @ js '', '' @ json_quote v @ js '')''"
  have "match_whole re_header_exists ?e = None" "match_whole re_param_exists ?e = None"
    by (simp_all add: match_whole_def pattern_defs js_Cons regex_simps)
  moreover have "tryParseTimeCondition ?e = None"
    using no_time(3)[of "js ''(header'' @ call_text path @ js '', '' @ json_quote v @ js '')''"]
    by (simp add: js_Cons)
  moreover have "match_whole re_header_contains ?e = Some [(2, json_quote v), (1, path)]"
    by (simp add: match_whole_def re_header_contains_def regex_simps call_match[OF assms] json_string_match)
  ultimately show ?thesis
    by (simp add: tryParseRequestCondition_def parse_header_contains_def contains_condition_def
        json_roundtrip captured_def capture_def)
qed

lemma param_contains_read:
  assumes "plain path"
  shows "tryParseRequestCondition (js ''param'' @ call_text path @ js '' != nil && has(param'' @ call_text path
       @ js '', '' @ json_quote v @ js '')'')
     = Inr (Some (ParamHeader SOURCE_PARAM path MATCH_CONTAINS v))"
proof -
  let ?e = "js ''param'' @ call_text path @ js '' != nil && has(param'' @ call_text path
       @ js '', '' @ json_quote v @ js '')''"
  have "match_whole re_header_exists ?e = None" "match_whole re_header_contains ?e = None"
    by (simp_all add: match_whole_def pattern_defs js_Cons regex_simps)
  moreover have "match_whole re_param_exists ?e = None"
    by (simp add: match_whole_def re_param_exists_def regex_simps call_match[OF assms])
       (simp add: js_Cons regex_simps)
  moreover have "match_whole re_param_contains ?e = Some [(3, json_quote v), (2, path), (1, path)]"
    by (simp add: match_whole_def re_param_contains_def regex_simps call_match[OF assms] json_string_match)
  ultimately show ?thesis
    by (simp add: tryParseRequestCondition_def no_time parse_header_contains_def parse_param_contains_def
        contains_condition_def json_roundtrip captured_def capture_def)
qed

definition compare_ops :: "jsstring list" where
  "compare_ops = [js ''>'', js ''>='', js ''<'', js ''<='']"

lemma param_compare_read:
  assumes "plain path" and v: "number_text v" and op: "op \<in> set compare_ops"
  shows "tryParseRequestCondition (js ''param'' @ call_text path @ js '' != nil && param'' @ call_text path
       @ js '' '' @ op @ js '' '' @ v)
     = Inr (Some (ParamHeader SOURCE_PARAM path (compare_mode op) v))"
proof -
  let ?u = "call_text path @ js '' '' @ op @ js '' '' @ v"
  let ?e = "js ''param'' @ call_text path @ js '' != nil && param'' @ ?u"
  have "match_whole re_header_exists ?e = None" "match_whole re_header_contains ?e = None"
    by (simp_all add: match_whole_def pattern_defs js_Cons regex_simps)
  moreover have "match_whole re_param_exists ?e = None" "match_whole re_param_contains ?e = None"
    by (simp_all add: match_whole_def re_param_exists_def re_param_contains_def regex_simps call_match[OF assms(1)])
       (simp_all add: js_Cons regex_simps)
  moreover have "matches re_param_compare (?e, []) = matches (re_number 4) (v, [(3, op), (2, path), (1, path)])"
    using op by (simp add: re_param_compare_def regex_simps call_match[OF assms(1)])
       (auto simp: compare_ops_def js_Cons regex_simps)
  then have "match_whole re_param_compare ?e = Some [(4, v), (3, op), (2, path), (1, path)]"
    using number_end[of v 4] v by (simp add: match_whole_def number_text_def)
  ultimately show ?thesis
    by (simp add: tryParseRequestCondition_def no_time parse_header_contains_def parse_param_contains_def
        parse_param_compare_def captured_def capture_def)
qed

lemma source_match:
  "src = js ''param'' \<or> src = js ''header'' \<Longrightarrow>
     matches (RGroup 1 (RAlt [RText (js ''param''), RText (js ''header'')])) (src @ u, g) = [(u, (1, src) # g)]"
  by (auto simp: js_Cons regex_simps)

lemma equals_read:
  assumes "plain path" and src: "src = js ''param'' \<or> src = js ''header''" and lit: "class_run dot_class lit []"
    and val: "parseExprLiteral lit = VStr v"
  shows "tryParseRequestCondition (src @ call_text path @ js '' == '' @ lit)
     = Inr (Some (ParamHeader src path MATCH_EQ v))"
proof -
  let ?e = "src @ call_text path @ js '' == '' @ lit"
  have h: "match_whole re_header_exists ?e = None" "match_whole re_param_exists ?e = None"
      "match_whole re_param_contains ?e = None" "match_whole re_param_compare ?e = None"
    using src
    by (auto simp: match_whole_def pattern_defs eat_same call_match[OF assms(1)])
       (auto simp: js_Cons regex_simps)
  moreover have "match_whole re_header_contains ?e = None"
    using src by (auto simp: match_whole_def pattern_defs js_Cons regex_simps)
  moreover have "tryParseTimeCondition ?e = None" using src no_time by auto
  moreover have "matches re_equals (?e, []) =
      matches (RGroup 3 (RPlus (RClass dot_class))) (lit, [(2, path), (1, src)])"
    unfolding re_equals_def matches.simps(3)
    by (simp only: matches_seq.simps source_match[OF src] list.map concat.simps append_Nil2
        call_match[OF assms(1)] matches.simps(1) eat_same matches_seq_Nil)
  then have "match_whole re_equals ?e = Some [(3, lit), (2, path), (1, src)]"
    using group_run_end[OF lit, of 3] by (simp add: match_whole_def)
  ultimately show ?thesis
    by (simp add: tryParseRequestCondition_def parse_header_contains_def parse_param_contains_def
        parse_param_compare_def parse_equals_def captured_def capture_def val)
qed

subsection \<open>Conditions\<close>

lemma param_header_build:
  assumes "condition_ok (ParamHeader source path m v)"
  shows "buildRequestConditionExpr (ParamHeader source path m v) = build_param_header source path m v"
  using assms plain_nonempty[of path]
  by (auto simp: buildRequestConditionExpr_def normalizeCondition_def or_else_def allowed_mode_def
      getRequestRuleMatchOptions_def Let_def match_defs js_Cons split: if_splits)

lemma source_text: "plain path \<Longrightarrow> s @ js ''('' @ json_quote path @ js '')'' @ u = s @ call_text path @ u"
  by (simp add: call_text_def plain_quote)

lemma param_header_roundtrip:
  assumes ok: "condition_ok (ParamHeader source path m v)"
  shows "tryParseRequestCondition (buildRequestConditionExpr (ParamHeader source path m v))
     = Inr (Some (ParamHeader source path m v))"
proof -
  have path: "plain path" and src: "source = SOURCE_PARAM \<or> source = SOURCE_HEADER" using ok by auto
  have t: "js_trim path = path" "path \<noteq> []" using path by (simp_all add: plain_def)
  note [simp] = t path
  consider (exists) "m = MATCH_EXISTS" "v = []"
    | (eq) "m = MATCH_EQ" "trimmed v" "8232 \<notin> set v" "8233 \<notin> set v"
    | (contains) "m = MATCH_CONTAINS" "trimmed v"
    | (compare) "source = SOURCE_PARAM" "m \<in> set [MATCH_GT, MATCH_GTE, MATCH_LT, MATCH_LTE]"
        "is_numeric_literal v"
    using ok by (auto split: if_splits)
  then show ?thesis
  proof cases
    case exists
    then show ?thesis
      unfolding param_header_build[OF ok]
      using src header_exists_read[OF path] param_exists_read[OF path]
      by (auto simp: build_param_header_def match_defs js_Cons call_text_def plain_quote)
  next
    case eq
    have lit: "parseExprLiteral (buildExprLiteral MATCH_EQ v) = VStr v"
      using literal_roundtrip[of v] eq(2) by simp
    have "MATCH_EQ \<noteq> MATCH_EXISTS" "MATCH_EQ \<noteq> MATCH_CONTAINS" "MATCH_EQ \<notin> {MATCH_GT, MATCH_GTE, MATCH_LT, MATCH_LTE}"
      by (simp_all add: match_defs js_Cons)
    then have "build_param_header source path m v = source @ call_text path @ js '' == '' @ buildExprLiteral MATCH_EQ v"
      using src eq(1) by (auto simp: build_param_header_def Let_def call_text_def plain_quote SOURCE_PARAM_def
          SOURCE_HEADER_def js_Cons)
    then show ?thesis
      unfolding param_header_build[OF ok]
      using equals_read[OF path _ literal_dot[OF eq(3,4,2)] lit, of source] src eq(1)
      by (simp add: SOURCE_PARAM_def SOURCE_HEADER_def)
  next
    case contains
    then show ?thesis
      unfolding param_header_build[OF ok]
      using src header_contains_read[OF path, of v] param_contains_read[OF path, of v]
      by (auto simp: build_param_header_def buildExprLiteral_def match_defs js_Cons call_text_def plain_quote)
  next
    case compare
    have n: "number_text v"
      using compare(3) numeric_literal_chars numeric_literal_empty by (auto simp: number_text_def)
    have op: "compare_op m \<in> set compare_ops" "compare_mode (compare_op m) = m"
      using compare(2) by (auto simp: compare_op_def compare_ops_def compare_mode_def match_defs js_Cons)
    have "m \<noteq> MATCH_EXISTS" "m \<noteq> MATCH_CONTAINS" "m \<in> {MATCH_GT, MATCH_GTE, MATCH_LT, MATCH_LTE}"
      using compare(2) by (auto simp: match_defs js_Cons)
    then have "build_param_header source path m v = js ''param'' @ call_text path @ js '' != nil && param''
        @ call_text path @ js '' '' @ compare_op m @ js '' '' @ v"
      using compare n by (simp add: build_param_header_def Let_def call_text_def plain_quote SOURCE_PARAM_def
          SOURCE_HEADER_def js_Cons number_text_trimmed)
    then show ?thesis
      unfolding param_header_build[OF ok]
      using param_compare_read[OF path n op(1)] compare(1) op(2) by simp
  qed
qed

lemma condition_read_back:
  assumes "condition_ok c"
  shows "tryParseRequestCondition (buildRequestConditionExpr c) = Inr (Some c)"
proof (cases c)
  case (ParamHeader source path m v)
  then show ?thesis using param_header_roundtrip[of source path m v] assms by blast
next
  case (TimeCond f z m v s e)
  then have "tryParseTimeCondition (buildRequestConditionExpr c) = Some c"
    using time_roundtrip[of f z m v s e] assms by blast
  then show ?thesis by (simp only: tryParseRequestCondition_def option.case)
qed

text \<open>
  The interface between a printer and the reader of its texts: on acceptable values reading undoes
  printing. A client may then compare values by comparing their texts.
\<close>

locale printer =
  fixes print :: "'a \<Rightarrow> jsstring" and read :: "jsstring \<Rightarrow> 'a option" and ok :: "'a \<Rightarrow> bool"
  assumes reads: "ok x \<Longrightarrow> read (print x) = Some x"
begin

lemma print_inj: "ok x \<Longrightarrow> ok y \<Longrightarrow> print x = print y \<Longrightarrow> x = y"
  using reads[of x] reads[of y] by (metis option.inject)

lemma print_inj_list: "list_all ok xs \<Longrightarrow> list_all ok ys \<Longrightarrow> map print xs = map print ys \<Longrightarrow> xs = ys"
proof (induction xs arbitrary: ys)
  case (Cons x xs)
  then obtain y ys1 where "ys = y # ys1" by (cases ys) auto
  moreover from this have "ok x" "ok y" "list_all ok xs" "list_all ok ys1" "print x = print y"
      "map print xs = map print ys1"
    using Cons.prems by (simp_all only: list.pred_inject(2) list.map(2) list.inject)
  ultimately show ?case using print_inj[of x y] Cons.IH[of ys1] by blast
qed simp

end

definition read_condition :: "jsstring \<Rightarrow> request_condition option" where
  "read_condition s = (case tryParseRequestCondition s of Inr c \<Rightarrow> c | Inl err \<Rightarrow> None)"

interpretation rc: printer buildRequestConditionExpr read_condition condition_ok
  by unfold_locales (simp add: read_condition_def condition_read_back)

subsection \<open>Paths that JSON escapes\<close>

text \<open>
  The round trip stops at paths that \<open>JSON.stringify\<close> escapes: the builder writes the quoted
  text and the patterns take what stands between the quotes as it is. The lemmas say what a
  successful match tells about the text.
\<close>

lemma eat_inv: "(rest, g') \<in> set (eat t (s, g)) \<longleftrightarrow> s = t @ rest \<and> g' = g"
  by (auto simp: eat_def js_startsWith_def) (metis append_take_drop_id)+

lemma star_class_inv:
  "(rest, g') \<in> set (star_states (eat_class p) (s, g)) \<Longrightarrow> g' = g \<and> (\<exists>a. s = a @ rest \<and> list_all p a)"
proof (induction s)
  case Nil
  then show ?case by (simp add: star_states.simps[of _ "([], g)"] eat_class_def)
next
  case (Cons c s)
  have "eat_class p (c # s, g) = (if p c then [(s, g)] else [])" by (simp add: eat_class_def)
  with Cons.prems consider "rest = c # s" "g' = g"
    | "p c" "(rest, g') \<in> set (star_states (eat_class p) (s, g))"
    by (auto simp: star_states.simps[of _ "(c # s, g)"] split: if_splits)
  then show ?case
  proof cases
    case 2
    then obtain a where "g' = g" "s = a @ rest" "list_all p a" using Cons.IH by blast
    then show ?thesis using 2(1) by (intro conjI exI[of _ "c # a"]) simp_all
  qed simp
qed

lemma group_inv:
  assumes "(rest, g') \<in> set (matches (RGroup k (RPlus (RClass p))) (s, g))"
  obtains a where "a \<noteq> []" "list_all p a" "s = a @ rest" "g' = (k, a) # g"
proof -
  from assms obtain g1 where m: "(rest, g1) \<in> set (matches (RPlus (RClass p)) (s, g))"
      "g' = (k, take (length s - length rest) s) # g1" by auto
  then obtain c t where s: "s = c # t" "p c" "(rest, g1) \<in> set (star_states (eat_class p) (t, g))"
    by (cases s) (auto simp: RPlus_def eat_class_def split: if_splits)
  obtain a where "g1 = g" "t = a @ rest" "list_all p a" using star_class_inv[OF s(3)] by blast
  then show thesis using that[of "c # a"] s m(2) by simp
qed

lemma quoted_inv:
  assumes "(rest, g') \<in> set (matches (re_quoted k) (s, g))"
  obtains a where "a \<noteq> []" "DQ \<notin> set a" "s = call_text a @ rest" "g' = (k, a) # g"
proof -
  from assms obtain s1 g1 s2 g2 where m: "(s1, g1) \<in> set (eat (js ''('' @ [DQ]) (s, g))"
      "(s2, g2) \<in> set (matches (RGroup k (RPlus (RClass not_quote))) (s1, g1))"
      "(rest, g') \<in> set (eat ([DQ] @ js '')'') (s2, g2))"
    unfolding re_quoted_def matches.simps(1,3) matches_seq.simps set_concat set_map
    by (auto simp del: matches.simps(7))
  from m(2) obtain a where "a \<noteq> []" "list_all not_quote a" "s1 = a @ s2" "g2 = (k, a) # g1" by (rule group_inv)
  moreover from this have "DQ \<notin> set a" by (auto simp: not_quote_def list_all_iff)
  ultimately show thesis using m(1,3) that[of a] by (simp add: eat_inv call_text_def)
qed

lemma match_whole_inv: "match_whole r s = Some g \<Longrightarrow> ([], g) \<in> set (matches r (s, []))"
  by (auto simp: match_whole_def dest!: find_SomeD)

lemma presence_inv:
  assumes "match_whole (RSeq [RText src, re_quoted 1, RText tail]) s = Some g"
  shows "s = src @ call_text (captured g 1) @ tail \<and> captured g 1 \<noteq> [] \<and> DQ \<notin> set (captured g 1)"
proof -
  obtain s1 g1 s2 g2 where "(s1, g1) \<in> set (eat src (s, []))" "(s2, g2) \<in> set (matches (re_quoted 1) (s1, g1))"
      "([], g) \<in> set (eat tail (s2, g2))"
    using match_whole_inv[OF assms] by auto
  then show ?thesis by (auto simp: eat_inv captured_def capture_def elim!: quoted_inv)
qed

text \<open>Only the two presence patterns give a presence condition.\<close>

lemma other_patterns_mode:
  "parse_header_contains e = Inr (Some c) \<Longrightarrow> \<exists>src path m v. c = ParamHeader src path m v \<and> m \<noteq> MATCH_EXISTS"
  by (auto simp: parse_header_contains_def parse_param_contains_def parse_param_compare_def parse_equals_def
      contains_condition_def compare_mode_def match_defs js_Cons Let_def split: option.splits if_splits)

lemma presence_match:
  assumes "tryParseRequestCondition e = Inr (Some (ParamHeader src path MATCH_EXISTS []))"
  shows "(e = js ''header'' @ call_text path @ js '' != '' @ [DQ, DQ] \<or> e = js ''param'' @ call_text path @ js '' != nil'')
    \<and> DQ \<notin> set path"
proof -
  have "tryParseTimeCondition e = None"
    using assms by (auto simp: tryParseRequestCondition_def tryParseTimeCondition_def split: option.splits if_splits)
  moreover have "parse_header_contains e \<noteq> Inr (Some (ParamHeader src path MATCH_EXISTS []))"
    using other_patterns_mode by blast
  ultimately obtain g where "captured g 1 = path"
      "match_whole re_header_exists e = Some g \<or> match_whole re_param_exists e = Some g"
    using assms by (auto simp: tryParseRequestCondition_def split: option.splits)
  then show ?thesis
    using presence_inv[of "js ''header''" "js '' != '' @ [DQ, DQ]" e g] presence_inv[of "js ''param''" "js '' != nil''" e g]
    unfolding re_header_exists_def re_param_exists_def by blast
qed

lemma presence_path_plain:
  assumes path: "trimmed path" "path \<noteq> []" and src: "src = SOURCE_PARAM \<or> src = SOURCE_HEADER"
    and read: "tryParseRequestCondition (buildRequestConditionExpr (ParamHeader src path MATCH_EXISTS []))
      = Inr (Some (ParamHeader src path MATCH_EXISTS []))"
  shows "plain path"
proof -
  have "buildRequestConditionExpr (ParamHeader src path MATCH_EXISTS [])
      = (if src = SOURCE_HEADER then js ''header('' @ json_quote path @ js '') != '' @ [DQ, DQ]
         else js ''param('' @ json_quote path @ js '') != nil'')"
    using path src
    by (auto simp: buildRequestConditionExpr_def build_param_header_def normalizeCondition_def or_else_def
        allowed_mode_def getRequestRuleMatchOptions_def Let_def match_defs js_Cons)
  with presence_match[OF read] have "quote_units path = path" "DQ \<notin> set path"
    by (auto simp: call_text_def json_quote_def js_Cons split: if_splits)
  then show ?thesis using path by (simp add: plain_def)
qed

text \<open>
  C15: Every condition row (a time function, a header or a body parameter, in any of its match modes)
  whose values are trimmed and acceptable, and whose path or time zone is trimmed and free of
  characters that JSON escapes (quotes, backslashes, control characters, lone surrogates), is written
  as a text that is read back as the same condition; so two such rows with the same text are the same
  row. The restriction on paths is exact for presence conditions: any other trimmed path, written
  escaped and read raw, does not come back as itself.
\<close>
theorem condition_roundtrip:
  "(condition_ok c \<longrightarrow> tryParseRequestCondition (buildRequestConditionExpr c) = Inr (Some c)
      \<and> (\<forall>d. condition_ok d \<longrightarrow> buildRequestConditionExpr d = buildRequestConditionExpr c \<longrightarrow> d = c))
    \<and> (src \<in> {SOURCE_PARAM, SOURCE_HEADER} \<and> trimmed path \<and> path \<noteq> [] \<longrightarrow>
      (tryParseRequestCondition (buildRequestConditionExpr (ParamHeader src path MATCH_EXISTS []))
         = Inr (Some (ParamHeader src path MATCH_EXISTS [])) \<longleftrightarrow> plain path))"
proof -
  have "condition_ok (ParamHeader src path MATCH_EXISTS [])"
    if "src \<in> {SOURCE_PARAM, SOURCE_HEADER}" "plain path" using that by auto
  then show ?thesis
    using condition_read_back rc.print_inj presence_path_plain[of path src] by blast
qed

definition rx_condition :: request_condition where
  "rx_condition = TimeCond (js ''hour'') (js ''Asia/Tokyo'') MATCH_RANGE [] (js ''21'') (js ''6'')"

definition rx_path :: jsstring where
  "rx_path = js ''a'' @ [92] @ js ''.b''"

theorem condition_roundtrip_witness:
  "tryParseRequestCondition (buildRequestConditionExpr rx_condition) = Inr (Some rx_condition)
    \<and> tryParseRequestCondition (buildRequestConditionExpr (ParamHeader SOURCE_PARAM rx_path MATCH_EXISTS []))
      \<noteq> Inr (Some (ParamHeader SOURCE_PARAM rx_path MATCH_EXISTS []))"
proof -
  have "condition_ok rx_condition" by code_simp
  moreover have "trimmed rx_path" "rx_path \<noteq> []" "\<not> plain rx_path" by code_simp+
  ultimately show ?thesis using condition_roundtrip[of rx_condition SOURCE_PARAM rx_path] by simp
qed

subsection \<open>Bounds\<close>

definition time_bounded :: "jsstring \<Rightarrow> jsstring \<Rightarrow> bool" where
  "time_bounded f v \<longleftrightarrow>
    (\<exists>lo hi n. map_of TIME_FUNC_RANGES f = Some (lo, hi) \<and> num_int (js_Number v) n \<and> lo \<le> n \<and> n \<le> hi)"

lemma time_value_bounds:
  assumes "isTimeValueInRange f v"
  shows "time_bounded f v"
proof -
  obtain lo hi where r: "map_of TIME_FUNC_RANGES f = Some (lo, hi)"
      "js_le (Fin (of_int lo)) (js_Number v)" "js_le (js_Number v) (Fin (of_int hi))"
      "is_integer (js_Number v)"
    using assms by (auto simp: isTimeValueInRange_def split: option.splits)
  let ?n = "\<lfloor>num_val (js_Number v)\<rfloor>"
  have n: "num_int (js_Number v) ?n"
    using r(4) by (simp only: num_int_def is_integer_def simp_thms)
  then show ?thesis
    using r num_int_order(3)[of "Fin (of_int lo)" lo "js_Number v" ?n]
      num_int_order(3)[of "js_Number v" ?n "Fin (of_int hi)" hi] by (auto simp: time_bounded_def)
qed

text \<open>
  Whatever text is read as a time condition, its bounds are integers in the range of its time
  function (an hour lies between 0 and 23, and so on), so that no condition that holds always, or
  never, enters the editor through an impossible bound.
\<close>
theorem parsed_time_in_range:
  assumes "tryParseTimeCondition expr = Some c"
  shows "case c of
      TimeCond f z m v s e \<Rightarrow>
        if m = MATCH_RANGE then time_bounded f s \<and> time_bounded f e else time_bounded f v
    | ParamHeader source path m v \<Rightarrow> False"
  using assms
  by (auto simp: tryParseTimeCondition_def scalar_mode_def match_defs js_Cons
      split: option.splits if_splits intro!: time_value_bounds)

theorem parsed_time_in_range_witness:
  "time_bounded (js ''hour'') (js ''21'') \<and> time_bounded (js ''hour'') (js ''6'')"
proof -
  have "tryParseTimeCondition (buildRequestConditionExpr rx_condition) = Some rx_condition" by code_simp
  from parsed_time_in_range[OF this] show ?thesis by (simp add: rx_condition_def)
qed

subsection \<open>Separating the rules\<close>

definition is_rule :: "jsstring \<Rightarrow> bool" where
  "is_rule part =
    (case tryParseRequestRuleExpr part of Inr (Some (g # gs)) \<Rightarrow> True | _ \<Rightarrow> False)"

lemma partition_parts_filter:
  "partition_parts parts = Inr (rs, bs) \<Longrightarrow> rs = filter is_rule parts \<and> bs = filter (\<lambda>p. \<not> is_rule p) parts"
proof (induction parts arbitrary: rs bs)
  case (Cons p ps)
  obtain parsed rs1 bs1 where p: "tryParseRequestRuleExpr p = Inr parsed" "partition_parts ps = Inr (rs1, bs1)"
      "(rs, bs) = (if parsed \<noteq> None \<and> parsed \<noteq> Some [] then (p # rs1, bs1) else (rs1, p # bs1))"
    using Cons.prems by (auto split: prod.splits)
  have "is_rule p \<longleftrightarrow> parsed \<noteq> None \<and> parsed \<noteq> Some []"
    by (auto simp: is_rule_def p(1) split: option.splits list.splits)
  then show ?case using Cons.IH[OF p(2)] p(3) by (auto split: if_splits)
qed simp

text \<open>
  When an expression is separated into a base and request rules, nothing is lost: the top-level
  factors of the expression are exactly the rules, in their order, and one other factor, whose outer
  parentheses are removed to give the base; every separated rule really is a readable rule and the
  base is not.
\<close>
theorem split_separates_rules:
  assumes "splitBillingExprAndRequestRules expr = Inr (base, rules)" and "rules \<noteq> []"
  shows "let parts = splitExpressionAtTopLevel (js_trim expr) (js ''*'') in
    \<exists>part. filter (\<lambda>p. \<not> is_rule p) parts = [part] \<and> base = unwrapExpressionParens part
      \<and> rules = js_join (filter is_rule parts) (js '' * '')"
proof -
  let ?parts = "splitExpressionAtTopLevel (js_trim expr) (js ''*'')"
  have "js_trim expr \<noteq> []" "\<not> length ?parts \<le> 1"
    using assms by (auto simp: splitBillingExprAndRequestRules_def Let_def split: if_splits)
  then obtain rs bs where p: "partition_parts ?parts = Inr (rs, bs)"
      "(case bs of [b] \<Rightarrow> if rs = [] then Inr (js_trim expr, []) else Inr (unwrapExpressionParens b, js_join rs (js '' * ''))
        | _ \<Rightarrow> Inr (js_trim expr, [])) = (Inr (base, rules) :: (jsstring \<times> jsstring) res)"
    using assms(1) by (auto simp: splitBillingExprAndRequestRules_def Let_def split: prod.splits)
  then show ?thesis
    using assms(2) partition_parts_filter[OF p(1)]
    by (auto simp: Let_def split: list.splits if_splits)
qed

definition rx_expr :: jsstring where
  "rx_expr = js ''(p * 2) * (param('' @ [DQ] @ js ''a'' @ [DQ] @ js '') != nil ? 3 : 1)''"

theorem split_separates_rules_witness:
  "\<exists>part. filter (\<lambda>p. \<not> is_rule p) (splitExpressionAtTopLevel (js_trim rx_expr) (js ''*'')) = [part]
    \<and> js ''p * 2'' = unwrapExpressionParens part"
proof -
  have "splitBillingExprAndRequestRules rx_expr = Inr (js ''p * 2'', drop 10 rx_expr)" "drop 10 rx_expr \<noteq> []"
    by code_simp+
  from split_separates_rules[OF this] show ?thesis by (auto simp: Let_def)
qed

subsection \<open>Defects\<close>

text \<open>A quoted text, a number and a call are scanned to their end without a cut.\<close>

lemma scan_string:
  "escaped s \<Longrightarrow> split_scan op (s @ DQ # u) cur d (Some DQ) parts = split_scan op u (cur @ s @ [DQ]) d None parts"
proof (induction s arbitrary: cur rule: escaped.induct)
  case (2 c s)
  then show ?case by (cases "c = 92"; cases s) auto
qed simp

lemma plain_escaped: "plain path \<Longrightarrow> escaped path"
  using quote_units_escaped[of path] by (simp add: plain_def)

lemma scan_number:
  "list_all number_class v \<Longrightarrow> split_scan (js ''&&'') v cur 0 None parts = Some (parts @ [cur @ v])"
proof (induction v arbitrary: cur)
  case (Cons c v)
  then have "c \<noteq> DQ" "c \<noteq> SQ" "c \<noteq> 63" "step_depth c 0 = 0" "c \<noteq> 38"
    by (auto simp: number_class_def is_digit_def js_Cons word_le_nat_alt step_depth_def opens_def closes_def Let_def)
  then show ?case using Cons by (simp add: js_startsWith_def js_Cons Let_def)
qed simp

lemmas scan_simps = js_Cons step_depth_def opens_def closes_def js_startsWith_def Let_def

lemma scan_call:
  assumes "plain path"
  shows "split_scan (js ''&&'') (js ''param'' @ call_text path @ u) cur 0 None parts
    = split_scan (js ''&&'') u (cur @ js ''param'' @ call_text path) 0 None parts"
  using scan_string[OF plain_escaped[OF assms]]
  by (simp add: call_text_def scan_simps)

lemma scan_guard:
  assumes "plain path"
  shows "split_scan (js ''&&'') (js ''param'' @ call_text path @ js '' != nil && '' @ u) [] 0 None []
    = split_scan (js ''&&'') u (js '' '') 0 None [js ''param'' @ call_text path @ js '' != nil '']"
  unfolding scan_call[OF assms] by (simp add: scan_simps)

lemma scan_contains:
  assumes "plain path"
  shows "split_scan (js ''&&'') (js ''has(param'' @ call_text path @ js '', '' @ json_quote v @ js '')'') cur 0 None parts
    = Some (parts @ [cur @ js ''has(param'' @ call_text path @ js '', '' @ json_quote v @ js '')''])"
  using scan_string[OF plain_escaped[OF assms]] scan_string[OF quote_units_escaped]
  by (simp add: call_text_def json_quote_def scan_simps)

lemma scan_compare:
  assumes "plain path" "number_text v" "op \<in> set compare_ops"
  shows "split_scan (js ''&&'') (js ''param'' @ call_text path @ js '' '' @ op @ js '' '' @ v) cur 0 None parts
    = Some (parts @ [cur @ js ''param'' @ call_text path @ js '' '' @ op @ js '' '' @ v])"
  unfolding scan_call[OF assms(1)] using assms(2,3) scan_number[of v]
  by (auto simp: compare_ops_def number_text_def scan_simps)

lemma trim_blank:
  assumes "trimmed s" "s \<noteq> []"
  shows "js_trim (s @ js '' '') = s" "js_trim (js '' '' @ s) = s"
proof -
  have "is_space 32" "\<exists>x \<in> set s. \<not> is_space x"
    using assms by (auto simp: is_space_def trimmed_def intro!: bexI[of _ "hd s"])
  moreover have "dropWhile is_space s = s" "dropWhile is_space (rev s) = rev s"
    using assms by (cases s; cases "rev s"; auto simp: trimmed_def hd_rev[symmetric])+
  ultimately show "js_trim (s @ js '' '') = s" "js_trim (js '' '' @ s) = s"
    using assms(2) by (simp_all add: js_trim_def js_Cons dropWhile_append)
qed

text \<open>Neither second half is a condition by itself.\<close>

lemma contains_half_unread:
  "tryParseRequestCondition (js ''has(param'' @ u) = Inr None"
proof -
  have "tryParseTimeCondition (js ''has(param'' @ u) = None"
    using no_time(3)[of "js ''(param'' @ u"] by (simp add: js_Cons)
  moreover have "match_whole r (js ''has(param'' @ u) = None"
    if "r \<in> {re_header_exists, re_param_exists, re_header_contains, re_param_contains, re_param_compare, re_equals}" for r
    using that by (auto simp: match_whole_def pattern_defs js_Cons regex_simps)
  ultimately show ?thesis
    by (simp add: tryParseRequestCondition_def parse_header_contains_def parse_param_contains_def
        parse_param_compare_def parse_equals_def)
qed

lemma compare_half_unread:
  assumes "plain path" "op \<in> set compare_ops"
  shows "tryParseRequestCondition (js ''param'' @ call_text path @ js '' '' @ op @ u) = Inr None"
proof -
  have "match_whole r (js ''param'' @ call_text path @ js '' '' @ op @ u) = None"
    if "r \<in> {re_header_exists, re_param_exists, re_header_contains, re_param_contains, re_param_compare, re_equals}" for r
    using that assms(2)
    by (auto simp: match_whole_def pattern_defs compare_ops_def eat_same call_match[OF assms(1)])
       (auto simp: js_Cons regex_simps)
  then show ?thesis
    by (simp add: tryParseRequestCondition_def no_time parse_header_contains_def parse_param_contains_def
        parse_param_compare_def parse_equals_def)
qed

lemma guarded_lost:
  assumes path: "plain path" and half: "trimmed half" "half \<noteq> []" "tryParseRequestCondition half = Inr None"
    and scan: "\<And>cur parts. split_scan (js ''&&'') half cur 0 None parts = Some (parts @ [cur @ half])"
  shows "tryParseRequestConditions (js ''param'' @ call_text path @ js '' != nil && '' @ half) = Inr None"
proof -
  let ?guard = "js ''param'' @ call_text path @ js '' != nil''"
  let ?e = "js ''param'' @ call_text path @ js '' != nil && '' @ half"
  have g: "trimmed ?guard" "?guard \<noteq> []" by (simp_all add: trimmed_def js_Cons is_space_def)
  have "trimmed ?e" using half(1,2) by (simp add: trimmed_def js_Cons is_space_def)
  then have "tryParseTimeCondition (js_trim ?e) = None" by (simp add: no_time)
  moreover have "js ''param'' @ call_text path @ js '' != nil '' = ?guard @ js '' ''" by (simp add: js_Cons)
  then have "split_scan (js ''&&'') ?e [] 0 None [] = Some [?guard @ js '' '', js '' '' @ half]"
    unfolding scan_guard[OF path] scan by simp
  then have "splitExpressionAtTopLevel ?e (js ''&&'') = [?guard, half]"
    using g(2) half(2)
    by (simp only: splitExpressionAtTopLevel_def option.case list.map trim_blank[OF g] trim_blank[OF half(1,2)]
        filter.simps if_True simp_thms)
  ultimately show ?thesis
    using g half param_exists_read[OF path]
    by (simp add: tryParseRequestConditions_def tryParseTimeRangePair_def no_time)
qed

text \<open>A factor that is matched has its condition before the last question mark.\<close>

lemma factor_inv:
  assumes "match_whole re_factor s = Some g"
  shows "s = js ''('' @ captured g 1 @ js '' ? '' @ captured g 2 @ js '' : 1)'' \<and> list_all number_class (captured g 2)"
proof -
  from match_whole_inv[OF assms] obtain s1 g1 s2 g2 s3 g3 s4 g4 where m: "(s1, g1) \<in> set (eat (js ''('') (s, []))"
      "(s2, g2) \<in> set (matches (RGroup 1 (RPlus (RClass (\<lambda>c. True)))) (s1, g1))"
      "(s3, g3) \<in> set (eat (js '' ? '') (s2, g2))" "(s4, g4) \<in> set (matches (re_number 2) (s3, g3))"
      "([], g) \<in> set (eat (js '' : 1)'') (s4, g4))"
    unfolding re_factor_def matches.simps(1,3) matches_seq.simps set_concat set_map
    by (auto simp del: matches.simps(7))
  from m(2) obtain a where a: "s1 = a @ s2" "g2 = (1, a) # g1" by (rule group_inv)
  from m(4) obtain b where b: "list_all number_class b" "s3 = b @ s4" "g4 = (2, b) # g3"
    unfolding re_number_def by (rule group_inv)
  show ?thesis using m(1,3,5) a b by (simp add: eat_inv captured_def capture_def)
qed

lemma last_blank:
  assumes "a @ 32 # n = b @ 32 # m" "(32 :: unit16) \<notin> set n" "32 \<notin> set m"
  shows "a = b"
proof -
  from assms(1) consider "a = b" | us where "a = b @ 32 # us" "m = us @ 32 # n" | us where "b = a @ 32 # us" "n = us @ 32 # m"
    by (auto simp: append_eq_append_conv2 Cons_eq_append_conv append_eq_Cons_conv)
  then show ?thesis using assms(2,3) by cases auto
qed

lemma factor_condition:
  assumes "match_whole re_factor (js ''('' @ e @ js '' ? '' @ mult @ js '' : 1)'') = Some g" "list_all number_class mult"
  shows "captured g 1 = e"
proof -
  have inv: "js ''('' @ e @ js '' ? '' @ mult @ js '' : 1)''
      = js ''('' @ captured g 1 @ js '' ? '' @ captured g 2 @ js '' : 1)''"
    "list_all number_class (captured g 2)"
    using factor_inv[OF assms(1)] by simp_all
  then have "(e @ js '' ?'') @ 32 # mult = (captured g 1 @ js '' ?'') @ 32 # captured g 2"
    by (simp add: js_Cons)
  moreover have "32 \<notin> set mult" "32 \<notin> set (captured g 2)"
    using assms(2) inv(2) blank_not_number(1) by (auto simp: list_all_iff)
  ultimately have "e @ js '' ?'' = captured g 1 @ js '' ?''" by (rule last_blank)
  then show ?thesis by simp
qed

lemma lost_factor:
  assumes "buildRequestConditionExpr c = e" "e \<noteq> []" "tryParseRequestConditions e = Inr None"
  shows "tryParseRuleGroupFactor (buildRuleGroupFactor (rule_group [c] mult)) = Inr None"
proof (cases "is_numeric_literal (js_trim mult)")
  case True
  then have "buildRuleGroupFactor (rule_group [c] mult) = js ''('' @ e @ js '' ? '' @ js_trim mult @ js '' : 1)''"
    using assms(1,2) by (simp add: buildRuleGroupFactor_def rule_group_def Let_def)
  then show ?thesis
    using factor_condition[of e "js_trim mult"] numeric_literal_chars[OF True] assms(3)
    by (auto simp: tryParseRuleGroupFactor_def split: option.splits)
next
  case False
  then have "buildRuleGroupFactor (rule_group [c] mult) = []"
    by (simp add: buildRuleGroupFactor_def rule_group_def Let_def)
  then show ?thesis using factor_inv[of "[]"] by (auto simp: tryParseRuleGroupFactor_def js_Cons split: option.splits)
qed

text \<open>What the editor writes for a guarded condition: the guard and a second half.\<close>

lemma guarded_text:
  assumes "condition_ok (ParamHeader SOURCE_PARAM path m v)" "m \<noteq> MATCH_EXISTS" "m \<noteq> MATCH_EQ"
  obtains half where "buildRequestConditionExpr (ParamHeader SOURCE_PARAM path m v)
        = js ''param'' @ call_text path @ js '' != nil && '' @ half"
      "trimmed half" "half \<noteq> []" "tryParseRequestCondition half = Inr None"
      "\<And>cur parts. split_scan (js ''&&'') half cur 0 None parts = Some (parts @ [cur @ half])"
proof -
  have path: "plain path" "js_trim path = path" "path \<noteq> []" using assms(1) by (auto simp: plain_def)
  have source: "SOURCE_PARAM \<noteq> SOURCE_HEADER" by (simp add: match_defs js_Cons)
  consider (contains) "m = MATCH_CONTAINS" "trimmed v"
    | (compare) "m \<in> {MATCH_GT, MATCH_GTE, MATCH_LT, MATCH_LTE}" "m \<noteq> MATCH_CONTAINS" "is_numeric_literal v"
    using assms by (auto split: if_splits)
  then show thesis
  proof cases
    case contains
    let ?half = "js ''has(param'' @ call_text path @ js '', '' @ json_quote v @ js '')''"
    have "build_param_header SOURCE_PARAM path m v = js ''param'' @ call_text path @ js '' != nil && '' @ ?half"
      using contains assms(2) source path
      by (simp add: build_param_header_def Let_def buildExprLiteral_def call_text_def plain_quote js_Cons SOURCE_PARAM_def)
    moreover have "trimmed ?half" by (simp add: trimmed_def js_Cons is_space_def)
    ultimately show thesis
      using that[of ?half] param_header_build[OF assms(1)] contains_half_unread scan_contains[OF path(1)]
      by (simp add: js_Cons)
  next
    case compare
    let ?half = "js ''param'' @ call_text path @ js '' '' @ compare_op m @ js '' '' @ v"
    have v: "number_text v"
      using compare(3) numeric_literal_chars numeric_literal_empty by (auto simp: number_text_def)
    have op: "compare_op m \<in> set compare_ops"
      by (simp add: compare_op_def compare_ops_def)
    have "build_param_header SOURCE_PARAM path m v = js ''param'' @ call_text path @ js '' != nil && '' @ ?half"
      using compare assms(2) source path v
      by (simp add: build_param_header_def Let_def call_text_def plain_quote js_Cons number_text_trimmed)
    moreover have "trimmed ?half"
      using number_text_trimmed[OF v] v by (simp add: trimmed_def number_text_def js_Cons is_space_def)
    ultimately show thesis
      using that[of ?half] param_header_build[OF assms(1)] compare_half_unread[OF path(1) op]
        scan_compare[OF path(1) v op] by (simp add: js_Cons)
  qed
qed

text \<open>
  C37: The reader of a whole rule splits its condition at \<open>&&\<close> before it tries the patterns.
  Every guarded condition that the editor writes for a body parameter (a text contained, or a
  comparison with a number: \<open>param("a") != nil && ...\<close>) is read back when it is read alone, and
  is lost when it is read as the condition of a rule, whatever the multiplier of the rule.
\<close>
theorem param_comparison_lost:
  assumes "condition_ok (ParamHeader SOURCE_PARAM path m v)" "m \<noteq> MATCH_EXISTS" "m \<noteq> MATCH_EQ"
  shows "let c = ParamHeader SOURCE_PARAM path m v in
    tryParseRequestCondition (buildRequestConditionExpr c) = Inr (Some c)
    \<and> tryParseRequestConditions (buildRequestConditionExpr c) = Inr None
    \<and> tryParseRuleGroupFactor (buildRuleGroupFactor (rule_group [c] mult)) = Inr None"
proof -
  let ?c = "ParamHeader SOURCE_PARAM path m v"
  obtain half where half: "buildRequestConditionExpr ?c = js ''param'' @ call_text path @ js '' != nil && '' @ half"
      "trimmed half" "half \<noteq> []" "tryParseRequestCondition half = Inr None"
      "\<And>cur parts. split_scan (js ''&&'') half cur 0 None parts = Some (parts @ [cur @ half])"
    by (rule guarded_text[OF assms]) blast
  have "plain path" using assms(1) by simp
  then have lost: "tryParseRequestConditions (buildRequestConditionExpr ?c) = Inr None"
    unfolding half(1) using half(2-5) by (rule guarded_lost)
  have "buildRequestConditionExpr ?c \<noteq> []" by (simp add: half(1) js_Cons)
  then show ?thesis using lost lost_factor[OF refl _ lost] condition_read_back[OF assms(1)] by (simp add: Let_def)
qed

definition rx_greater :: request_condition where
  "rx_greater = ParamHeader SOURCE_PARAM (js ''a'') MATCH_GT (js ''5'')"

theorem param_comparison_lost_witness:
  "tryParseRequestCondition (buildRequestConditionExpr rx_greater) = Inr (Some rx_greater)
    \<and> tryParseRuleGroupFactor (buildRuleGroupFactor (rule_group [rx_greater] (js ''2''))) = Inr None"
proof -
  have "condition_ok (ParamHeader SOURCE_PARAM (js ''a'') MATCH_GT (js ''5''))"
    "MATCH_GT \<noteq> MATCH_EXISTS" "MATCH_GT \<noteq> MATCH_EQ" by code_simp+
  from param_comparison_lost[OF this, of "js ''2''"] show ?thesis by (simp add: rx_greater_def Let_def)
qed

definition rx_bad_escape :: jsstring where
  "rx_bad_escape = js ''(p * 2) * (has(header('' @ [DQ] @ js ''a'' @ [DQ] @ js ''), '' @ [DQ, 92, 120, DQ]
     @ js '') ? 2 : 1)''"

text \<open>
  A string literal with an escape that JSON does not know makes the separation of the request
  rules throw, since the two calls of \<open>JSON.parse\<close> on matched literals are not guarded.
\<close>
theorem bad_escape_throws:
  "splitBillingExprAndRequestRules rx_bad_escape = Inl json_error"
  by code_simp

end
