(* ===== verification/PricingTiers.thy ===== *)
theory PricingTiers
  imports BillingDisplay RequestRules
begin

section \<open>Price tables for the pricing page\<close>

text \<open>
  Model of the first part of \<^verbatim>\<open>web/src/features/pricing/lib/billing-expr.ts\<close>: the registry of
  billing variables (\<open>BILLING_VARS\<close> and the lists derived from it), the mapping of display rows
  to the objects the page renders (\<open>mapTokenTier\<close>) and the readers built on them
  (\<open>parseTiersFromExpr\<close>, \<open>getCurrentTimePricingTiers\<close>, \<open>parseTaskTiersFromExpr\<close>),
  and \<open>normalizeTierLabel\<close>. An object with computed field names is an association list.
\<close>

subsection \<open>The variable registry\<close>

datatype billing_side = InputSide | OutputSide | ConditionSide

record billing_var =
  bv_key :: jsstring
  bv_field :: "jsstring option"
  bv_tierField :: "jsstring option"
  bv_label :: jsstring
  bv_shortLabel :: jsstring
  bv_side :: billing_side
  bv_isBase :: bool
  bv_isConditionOnly :: bool
  bv_group :: "jsstring option"

definition price_var ::
  "string \<Rightarrow> string \<Rightarrow> string \<Rightarrow> string \<Rightarrow> string \<Rightarrow> billing_side \<Rightarrow> string option \<Rightarrow> billing_var" where
  "price_var key field tierField label shortLabel side grp =
    \<lparr>bv_key = js key, bv_field = Some (js field), bv_tierField = Some (js tierField), bv_label = js label,
     bv_shortLabel = js shortLabel, bv_side = side, bv_isBase = (grp = None), bv_isConditionOnly = False,
     bv_group = map_option js grp\<rparr>"

definition BILLING_VARS :: "billing_var list" where
  "BILLING_VARS =
    [price_var ''p'' ''inputPrice'' ''input_unit_cost'' ''Input price'' ''Input'' InputSide None,
     price_var ''c'' ''outputPrice'' ''output_unit_cost'' ''Completion price'' ''Output'' OutputSide None,
     \<lparr>bv_key = js ''len'', bv_field = None, bv_tierField = None, bv_label = js ''Input length'',
      bv_shortLabel = js ''Length'', bv_side = ConditionSide, bv_isBase = False, bv_isConditionOnly = True,
      bv_group = None\<rparr>,
     price_var ''cr'' ''cacheReadPrice'' ''cache_read_unit_cost'' ''Cache read price'' ''Cache Read''
       InputSide (Some ''cache''),
     price_var ''cc'' ''cacheCreatePrice'' ''cache_create_unit_cost'' ''Cache create price'' ''Cache Write''
       InputSide (Some ''cache''),
     price_var ''cc1h'' ''cacheCreate1hPrice'' ''cache_create_1h_unit_cost'' ''Cache create (1h) price''
       ''Cache Write (1h)'' InputSide (Some ''cache''),
     price_var ''img'' ''imagePrice'' ''image_unit_cost'' ''Image input price'' ''Image In''
       InputSide (Some ''media''),
     price_var ''img_o'' ''imageOutputPrice'' ''image_output_unit_cost'' ''Image output price'' ''Image Out''
       OutputSide (Some ''media''),
     price_var ''ai'' ''audioInputPrice'' ''audio_input_unit_cost'' ''Audio input price'' ''Audio In''
       InputSide (Some ''media''),
     price_var ''ao'' ''audioOutputPrice'' ''audio_output_unit_cost'' ''Audio output price'' ''Audio Out''
       OutputSide (Some ''media'')]"

definition BILLING_PRICING_VARS :: "billing_var list" where
  "BILLING_PRICING_VARS = filter (\<lambda>v. \<not> bv_isConditionOnly v) BILLING_VARS"

definition BILLING_CONDITION_VARS :: "jsstring list" where
  "BILLING_CONDITION_VARS = map bv_key (filter (\<lambda>v. bv_isBase v \<or> bv_isConditionOnly v) BILLING_VARS)"

text \<open>\<open>as string\<close> on a null field would give the key \<open>null\<close>.\<close>

definition field_text :: "jsstring option \<Rightarrow> jsstring" where
  "field_text f = (case f of Some s \<Rightarrow> s | None \<Rightarrow> js ''null'')"

definition BILLING_VAR_KEY_TO_FIELD :: "(jsstring \<times> jsstring) list" where
  "BILLING_VAR_KEY_TO_FIELD = map (\<lambda>v. (bv_key v, field_text (bv_field v))) BILLING_PRICING_VARS"

definition BILLING_EXTRA_VARS :: "billing_var list" where
  "BILLING_EXTRA_VARS = filter (\<lambda>v. \<not> bv_isBase v \<and> \<not> bv_isConditionOnly v) BILLING_VARS"

text \<open>The pairs of \<open>field\<close> and \<open>exprVar\<close>.\<close>

definition BILLING_CACHE_VAR_MAP :: "(jsstring \<times> jsstring) list" where
  "BILLING_CACHE_VAR_MAP = map (\<lambda>v. (field_text (bv_tierField v), bv_key v)) BILLING_EXTRA_VARS"

definition COMMON_TIMEZONES :: "(jsstring \<times> jsstring) list" where
  "COMMON_TIMEZONES = map (\<lambda>(v, l). (js v, js l))
    [(''Asia/Shanghai'', ''UTC+8 Shanghai (Asia/Shanghai)''), (''UTC'', ''UTC''),
     (''America/New_York'', ''UTC-5 New York (America/New_York)''),
     (''America/Los_Angeles'', ''UTC-8 Los Angeles (America/Los_Angeles)''),
     (''America/Chicago'', ''UTC-6 Chicago (America/Chicago)''),
     (''Europe/London'', ''UTC+0 London (Europe/London)''),
     (''Europe/Berlin'', ''UTC+1 Berlin (Europe/Berlin)''),
     (''Asia/Tokyo'', ''UTC+9 Tokyo (Asia/Tokyo)''),
     (''Asia/Singapore'', ''UTC+8 Singapore (Asia/Singapore)''),
     (''Asia/Seoul'', ''UTC+9 Seoul (Asia/Seoul)''),
     (''Australia/Sydney'', ''UTC+10 Sydney (Australia/Sydney)'')]"

subsection \<open>Rows\<close>

record parsed_tier =
  pt_label :: jsstring
  pt_conditions :: "token_condition list"
  pt_billingUnit :: "billing_unit option"
  pt_fixedPrice :: "jsnum option"
  pt_conditionText :: "jsstring option"
  pt_fields :: "(jsstring \<times> jsnum) list"

definition field_of :: "jsstring \<Rightarrow> jsstring" where
  "field_of key = (case map_of BILLING_VAR_KEY_TO_FIELD key of Some f \<Rightarrow> f | None \<Rightarrow> js ''undefined'')"

definition mapTokenTier :: "token_tier \<Rightarrow> jsstring option \<Rightarrow> parsed_tier" where
  "mapTokenTier tier conditionText =
    \<lparr>pt_label = tt_label tier, pt_conditions = tt_conditions tier,
     pt_billingUnit = (if tt_billingUnit tier = Some RequestUnit then tt_billingUnit tier else None),
     pt_fixedPrice = (if tt_billingUnit tier = Some RequestUnit then tt_fixedPrice tier else None),
     pt_conditionText = (case conditionText of Some t \<Rightarrow> if t = [] then None else Some t | None \<Rightarrow> None),
     pt_fields = fold (\<lambda>(key, price) o2. map_set (field_of key) price o2) (tt_prices tier) []\<rparr>"

definition mapTimeTier :: "time_tier \<Rightarrow> parsed_tier" where
  "mapTimeTier row = mapTokenTier (ti_tier row) (Some (ti_conditionText row))"

definition parseTiersFromExpr :: "host \<Rightarrow> jsstring \<Rightarrow> cache \<Rightarrow> parsed_tier list res \<times> cache" where
  "parseTiersFromExpr h exprStr cache =
    (if exprStr = [] then (Inr [], cache)
     else
       case compileBillingExpression exprStr cache of
         (Failed f, cache1) \<Rightarrow> (Inr [], cache1)
       | (Ready c, cache1) \<Rightarrow>
           (case readTokenTierChain (c_ast c) of
              Inl err \<Rightarrow> (Inl err, cache1)
            | Inr (Some canonical) \<Rightarrow> (Inr (map (\<lambda>t. mapTokenTier t None) canonical), cache1)
            | Inr None \<Rightarrow>
                (case readTimeTokenPricing h exprStr None cache1 of
                   (Inl err, cache2) \<Rightarrow> (Inl err, cache2)
                 | (Inr None, cache2) \<Rightarrow> (Inr [], cache2)
                 | (Inr (Some (tiers, live)), cache2) \<Rightarrow> (Inr (map mapTimeTier tiers), cache2))))"

definition getCurrentTimePricingTiers ::
  "host \<Rightarrow> jsstring \<Rightarrow> int option \<Rightarrow> cache \<Rightarrow> parsed_tier list option res \<times> cache" where
  "getCurrentTimePricingTiers h exprStr now cache =
    (case readTimeTokenPricing h exprStr (Some now) cache of
       (Inl err, cache1) \<Rightarrow> (Inl err, cache1)
     | (Inr None, cache1) \<Rightarrow> (Inr None, cache1)
     | (Inr (Some (tiers, live)), cache1) \<Rightarrow> (Inr (Some (map mapTimeTier live)), cache1))"

definition parseTaskTiersFromExpr ::
  "jsstring \<Rightarrow> usage_schema \<Rightarrow> bool \<Rightarrow> cache \<Rightarrow> task_tier list res \<times> cache" where
  "parseTaskTiersFromExpr exprStr schema includeBooleanConditions cache =
    (if exprStr = [] \<or> schema = [] then (Inr [], cache)
     else
       case splitBillingExprAndRequestRules exprStr of
         Inl err \<Rightarrow> (Inl err, cache)
       | Inr (billingExpr, rules) \<Rightarrow>
           (case compileBillingExpression billingExpr cache of
              (Failed f, cache1) \<Rightarrow> (Inr [], cache1)
            | (Ready c, cache1) \<Rightarrow>
                (sbind (readTaskTierChain (c_ast c) schema includeBooleanConditions) (\<lambda>tiers.
                 Inr (case tiers of Some ts \<Rightarrow> ts | None \<Rightarrow> [])), cache1)))"

subsection \<open>Labels\<close>

definition re_less :: regex where
  "re_less = RAlt [RSeq [RText (js ''<''), ROpt (RClass (\<lambda>c. c = 61 \<or> c = 65309))], RText [8804],
     RSeq [RText [65308], ROpt (RClass (\<lambda>c. c = 61 \<or> c = 65309))]]"

definition re_greater :: regex where
  "re_greater = RAlt [RSeq [RText (js ''>''), ROpt (RClass (\<lambda>c. c = 61 \<or> c = 65309))], RText [8805],
     RSeq [RText [65310], ROpt (RClass (\<lambda>c. c = 61 \<or> c = 65309))]]"

definition normalizeTierLabel :: "host \<Rightarrow> jsstring \<Rightarrow> jsstring" where
  "normalizeTierLabel h label =
    (if label = [] then []
     else host_toLowerCase h (replace_all (RPlus (RClass is_space)) []
       (replace_all re_greater (js ''>'') (replace_all re_less (js ''<'') label))))"

subsection \<open>The page shows the prices of the table\<close>

lemma registry_facts:
  "inj_on field_of (set (map bv_key BILLING_PRICING_VARS))"
  "list_all (\<lambda>v. field_of (bv_key v) = field_text (bv_field v)) BILLING_PRICING_VARS"
  "set (filter (\<lambda>x. x \<noteq> js ''len'') TOKEN_VARIABLES) = set (map bv_key BILLING_PRICING_VARS)"
proof -
  have "distinct (map field_of (map bv_key BILLING_PRICING_VARS))" by code_simp
  then show "inj_on field_of (set (map bv_key BILLING_PRICING_VARS))" by (simp only: distinct_map)
  show "list_all (\<lambda>v. field_of (bv_key v) = field_text (bv_field v)) BILLING_PRICING_VARS" by code_simp
  show "set (filter (\<lambda>x. x \<noteq> js ''len'') TOKEN_VARIABLES) = set (map bv_key BILLING_PRICING_VARS)" by code_simp
qed

definition prices_ok :: "(jsstring \<times> jsnum) list \<Rightarrow> bool" where
  "prices_ok ps \<longleftrightarrow> distinct (map fst ps) \<and> fst ` set ps \<subseteq> set (map bv_key BILLING_PRICING_VARS)"

lemma price_term_ok:
  assumes "price_term ps n = Some qs" "prices_ok ps" "wf_node n"
  shows "prices_ok qs"
proof -
  obtain op x s1 e1 r s e v where n: "n = Binary op (Variable x s1 e1) r s e" "x \<noteq> js ''len''"
      "map_of ps x = None" "qs = map_set x v ps"
    using assms(1) by (cases "(ps, n)" rule: price_term.cases) (auto split: if_splits option.splits)
  have "x \<in> set (filter (\<lambda>x. x \<noteq> js ''len'') TOKEN_VARIABLES)" using assms(3) n by simp
  then have "x \<in> set (map bv_key BILLING_PRICING_VARS)" unfolding registry_facts(3) .
  then show ?thesis
    using assms(2) n(3) by (auto simp: n(4) map_set_new[OF n(3)] prices_ok_def map_of_eq_None_iff)
qed

lemma price_terms_ok:
  "price_terms ns ps = Some qs \<Longrightarrow> prices_ok ps \<Longrightarrow> \<forall>n \<in> set ns. wf_node n \<Longrightarrow> prices_ok qs"
  by (induction ns ps rule: price_terms.induct) (auto split: option.splits dest: price_term_ok)

lemma wf_flatten: "wf_node n \<Longrightarrow> m \<in> set (flattenBinary n op) \<Longrightarrow> wf_node m"
  by (induction n op rule: flattenBinary.induct) (auto split: if_splits)

lemma prices_ok_Nil [simp]: "prices_ok []"
  by (simp add: prices_ok_def)

lemma tokenTier_prices: "tokenTier n cs = Inr (Some t) \<Longrightarrow> wf_node n \<Longrightarrow> prices_ok (tt_prices t)"
proof (erule tokenTier_cases)
  fix label i s1 e1 body args s e prices
  assume "wf_node n" "n = Call (js ''tier'') (Literal (VStr label) i s1 e1 # body # args) s e"
    "price_terms (flattenBinary body (js ''+'')) [] = Some prices" "t = token_row label cs prices"
  then show "prices_ok (tt_prices t)"
    using price_terms_ok wf_flatten by (auto simp: token_row_def)
qed (simp add: fixed_row_def)

lemma chain_prices:
  "chain_loop n tiers = Inr (Some rows) \<Longrightarrow> wf_node n \<Longrightarrow> \<forall>t \<in> set tiers. prices_ok (tt_prices t) \<Longrightarrow>
     \<forall>t \<in> set rows. prices_ok (tt_prices t)"
proof (induction n arbitrary: tiers rule: node_children_induct)
  case (node n)
  show ?case
  proof (cases "\<exists>c a b s e. n = Conditional c a b s e")
    case True
    then obtain c a b s e where n: "n = Conditional c a b s e" by blast
    obtain cs t where t: "tokenTier a cs = Inr (Some t)" "chain_loop b (tiers @ [t]) = Inr (Some rows)"
      using chain_loop_Conditional[OF node.prems(1)[unfolded n]] .
    have "prices_ok (tt_prices t)" using tokenTier_prices[OF t(1)] node.prems(2) by (simp add: n)
    then show ?thesis using node.IH[OF _ t(2)] node.prems(2,3) by (auto simp: n)
  next
    case False
    obtain t where "tokenTier n [] = Inr (Some t)" "rows = tiers @ [t]"
      using chain_loop_leaf[OF node.prems(1)] False by blast
    then show ?thesis using tokenTier_prices node.prems(2,3) by auto
  qed
qed

lemma readTokenTierChain_prices:
  "readTokenTierChain n = Inr (Some rows) \<Longrightarrow> wf_node n \<Longrightarrow> \<forall>t \<in> set rows. prices_ok (tt_prices t)"
proof (induction n arbitrary: rows rule: readTokenTierChain.induct)
  case (1 c a b s e)
  show ?case
  proof (cases "isContextGuard c \<and> (\<exists>ts. readTokenTierChain a = Inr (Some ts))")
    case True
    then show ?thesis using 1 by auto
  next
    case False
    then have "chain_loop (Conditional c a b s e) [] = Inr (Some rows)"
      using 1(2) by (auto split: if_splits option.splits)
    then show ?thesis using chain_prices[OF _ 1(3), of "[]" rows] by simp
  qed
qed (metis chain_prices empty_iff empty_set readTokenTierChain.simps)+

lemma fields_lookup:
  assumes "prices_ok ps" "v \<in> set BILLING_PRICING_VARS"
    and "fst ` set qs \<subseteq> set (map bv_key BILLING_PRICING_VARS)" "distinct (map fst (qs @ ps))"
    and "\<And>k. k \<in> set (map bv_key BILLING_PRICING_VARS) \<Longrightarrow> map_of fields1 (field_of k) = map_of qs k"
  shows "map_of (fold (\<lambda>(key, price) o2. map_set (field_of key) price o2) ps fields1) (field_of (bv_key v))
     = map_of (qs @ ps) (bv_key v)"
  using assms
proof (induction ps arbitrary: qs fields1)
  case Nil
  then show ?case by simp
next
  case (Cons p ps)
  obtain k x where p: "p = (k, x)" by fastforce
  have k: "k \<in> set (map bv_key BILLING_PRICING_VARS)" "prices_ok ps"
    using Cons.prems(1) by (auto simp: prices_ok_def p)
  have new: "map_of (map_set (field_of k) x fields1) (field_of j) = map_of (qs @ [p]) j"
    if "j \<in> set (map bv_key BILLING_PRICING_VARS)" for j
  proof -
    have "map_of qs k = None" using Cons.prems(4) by (auto simp: p map_of_eq_None_iff)
    then show ?thesis
      using Cons.prems(5)[OF that] inj_onD[OF registry_facts(1), of k j] that k(1)
      by (auto simp: p map_add_def split: option.splits)
  qed
  show ?case
    using Cons.IH[OF k(2) Cons.prems(2), of "qs @ [p]" "map_set (field_of k) x fields1"] Cons.prems(3,4) k(1) new
    by (simp add: p)
qed

text \<open>
  The rows that the pricing page renders for a tier expression are the rows of the display table
  in order, and each shows, under the field of every priced variable, exactly the table's price of
  that variable: no price is dropped and no two variables share a field.
\<close>
theorem page_rows_keep_prices:
  assumes "table_reachable compileBillingExpression [] cache" and "exprStr \<noteq> []"
    and "compile_fresh exprStr = Ready c" and "readTokenTierChain (c_ast c) = Inr (Some rows)"
  shows "\<exists>parsed. fst (parseTiersFromExpr h exprStr cache) = Inr parsed
    \<and> map pt_label parsed = map tt_label rows
    \<and> list_all2 (\<lambda>row page. list_all (\<lambda>v. map_of (pt_fields page) (field_text (bv_field v))
          = map_of (tt_prices row) (bv_key v)) BILLING_PRICING_VARS) rows parsed"
proof -
  have "wf_node (c_ast c)" using compile_try_ast(2)[of exprStr c] assms(3) by (simp add: compile_fresh_Ready)
  note ok = readTokenTierChain_prices[OF assms(4) this]
  obtain cache1 where "compileBillingExpression exprStr cache = (Ready c, cache1)"
    using cc.reachable_answer[OF assms(1), of exprStr] assms(3) by (cases "compileBillingExpression exprStr cache") auto
  then have p: "fst (parseTiersFromExpr h exprStr cache) = Inr (map (\<lambda>t. mapTokenTier t None) rows)"
    using assms(2,4) by (simp add: parseTiersFromExpr_def)
  have "map_of (pt_fields (mapTokenTier row None)) (field_text (bv_field v)) = map_of (tt_prices row) (bv_key v)"
    if "row \<in> set rows" "v \<in> set BILLING_PRICING_VARS" for row v
    using fields_lookup[of "tt_prices row" v "[]" "[]"] ok that registry_facts(2)
    by (auto simp: mapTokenTier_def prices_ok_def list_all_iff)
  then have "list_all2 (\<lambda>row page. list_all (\<lambda>v. map_of (pt_fields page) (field_text (bv_field v))
      = map_of (tt_prices row) (bv_key v)) BILLING_PRICING_VARS) rows (map (\<lambda>t. mapTokenTier t None) rows)"
    by (simp add: list_all2_map2 list_all2_same list_all_iff)
  then show ?thesis using p by (intro exI[of _ "map (\<lambda>t. mapTokenTier t None) rows"]) (simp add: mapTokenTier_def)
qed

theorem page_rows_keep_prices_witness:
  "\<exists>parsed. fst (parseTiersFromExpr ex_host td_source []) = Inr parsed \<and> map pt_label parsed = map tt_label td_rows"
proof -
  have "td_source \<noteq> []" by (simp add: td_source_def js_def)
  from page_rows_keep_prices[OF table_reachable.start this td_ready td_table, of ex_host] show ?thesis by blast
qed

end
