(* ===== verification/TierExpr.thy ===== *)
theory TierExpr
  imports PricingTiers BillingRuntime
begin

section \<open>The tier editor\<close>

text \<open>
  Model of \<^verbatim>\<open>web/src/features/pricing/lib/tier-expr.ts\<close>: the editor's configuration of price tiers,
  its normalisation, the expression generated from it, reading such an expression back
  (\<open>tryParseVisualConfig\<close>) and the local cost estimate (\<open>evalExprLocally\<close>).

  A tier is a JavaScript object with arbitrary fields, so it is an association list of values in
  insertion order; spreading an object sets its fields one after the other. \<open>js_ToNumber\<close> is
  \<open>Number(value)\<close>.
\<close>

subsection \<open>Objects\<close>

type_synonym jsobj = "(jsstring \<times> jsval) list"

definition obj_get :: "jsobj \<Rightarrow> string \<Rightarrow> jsval" where
  "obj_get o1 k = (case map_of o1 (js k) of Some v \<Rightarrow> v | None \<Rightarrow> VUndefined)"

definition obj_set :: "string \<Rightarrow> jsval \<Rightarrow> jsobj \<Rightarrow> jsobj" where
  "obj_set k v o1 = map_set (js k) v o1"

text \<open>\<open>{...a, ...b}\<close>.\<close>

definition spread :: "('k \<times> 'v) list \<Rightarrow> ('k \<times> 'v) list \<Rightarrow> ('k \<times> 'v) list" where
  "spread a b = fold (\<lambda>(k, v) o1. map_set k v o1) b a"

fun as_object :: "jsval \<Rightarrow> jsobj" where
  "as_object (VObj o1) = o1"
| "as_object v = []"

fun js_ToNumber :: "jsval \<Rightarrow> jsnum" where
  "js_ToNumber VUndefined = NaN"
| "js_ToNumber VNull = Fin 0"
| "js_ToNumber (VBool b) = (if b then Fin 1 else Fin 0)"
| "js_ToNumber (VNum x) = x"
| "js_ToNumber (VStr s) = js_Number s"
| "js_ToNumber v = js_Number (js_String v)"

text \<open>\<open>Number(value) || 0\<close>.\<close>

definition number_or_zero :: "jsval \<Rightarrow> jsnum" where
  "number_or_zero v = (let x = js_ToNumber v in if x = NaN \<or> js_num_eq x (Fin 0) then Fin 0 else x)"

fun truthy :: "jsval \<Rightarrow> bool" where
  "truthy VUndefined = False"
| "truthy VNull = False"
| "truthy (VBool b) = b"
| "truthy (VNum x) = (x \<noteq> NaN \<and> \<not> js_num_eq x (Fin 0))"
| "truthy (VStr s) = (s \<noteq> [])"
| "truthy v = True"

subsection \<open>Normalisation\<close>

definition CACHE_MODE_TIMED :: jsstring where "CACHE_MODE_TIMED = js ''timed''"
definition CACHE_MODE_GENERIC :: jsstring where "CACHE_MODE_GENERIC = js ''generic''"

definition getTierCacheMode :: "jsobj \<Rightarrow> jsstring" where
  "getTierCacheMode tier =
    (if obj_get tier ''cache_mode'' = VStr CACHE_MODE_TIMED then CACHE_MODE_TIMED
     else if obj_get tier ''cache_mode'' = VStr CACHE_MODE_GENERIC then CACHE_MODE_GENERIC
     else if js_lt (Fin 0) (js_ToNumber (obj_get tier ''cache_create_1h_unit_cost''))
     then CACHE_MODE_TIMED else CACHE_MODE_GENERIC)"

definition tier_defaults :: "jsobj \<Rightarrow> jsobj" where
  "tier_defaults tier =
    [(js ''label'', if nullish (obj_get tier ''label'') then VStr [] else obj_get tier ''label''),
     (js ''input_unit_cost'', VNum (number_or_zero (obj_get tier ''input_unit_cost''))),
     (js ''output_unit_cost'', VNum (number_or_zero (obj_get tier ''output_unit_cost''))),
     (js ''cache_mode'', VStr (getTierCacheMode tier)),
     (js ''conditions'', case obj_get tier ''conditions'' of VArr cs \<Rightarrow> VArr cs | _ \<Rightarrow> VArr [])]"

definition cost_fields :: "string list" where
  "cost_fields = [''cache_read_unit_cost'', ''cache_create_unit_cost'', ''cache_create_1h_unit_cost'',
     ''image_unit_cost'', ''image_output_unit_cost'', ''audio_input_unit_cost'', ''audio_output_unit_cost'']"

definition normalizeVisualTier :: "jsobj \<Rightarrow> jsobj" where
  "normalizeVisualTier tier =
    fold (\<lambda>f o1. obj_set f (VNum (number_or_zero (obj_get tier f))) o1) cost_fields
      (spread (tier_defaults tier) tier)"

definition createDefaultVisualConfig :: jsobj where
  "createDefaultVisualConfig = [(js ''tiers'', VArr [VObj (normalizeVisualTier
     [(js ''conditions'', VArr []), (js ''input_unit_cost'', VNum (Fin 0)),
      (js ''output_unit_cost'', VNum (Fin 0)), (js ''label'', VStr (js ''base'')),
      (js ''cache_mode'', VStr CACHE_MODE_GENERIC)])])]"

text \<open>\<open>VNull\<close> and \<open>VUndefined\<close> are the missing configuration.\<close>

definition config_tiers :: "jsval \<Rightarrow> jsval list" where
  "config_tiers config = (case obj_get (as_object config) ''tiers'' of VArr ts \<Rightarrow> ts | _ \<Rightarrow> [])"

definition normalizeVisualConfig :: "jsval \<Rightarrow> jsobj" where
  "normalizeVisualConfig config =
    (if config_tiers config = [] then createDefaultVisualConfig
     else obj_set ''tiers'' (VArr (map (\<lambda>t. VObj (normalizeVisualTier (as_object t))) (config_tiers config)))
       (as_object config))"

subsection \<open>Generation\<close>

definition condition_str :: "jsobj \<Rightarrow> jsstring" where
  "condition_str c = js_String (obj_get c ''var'') @ js '' '' @ js_String (obj_get c ''op'') @ js '' ''
     @ js_String (obj_get c ''value'')"

definition buildConditionStr :: "jsval \<Rightarrow> jsstring" where
  "buildConditionStr conditions =
    js_join (map condition_str (filter (\<lambda>c. truthy (obj_get c ''var'') \<and> truthy (obj_get c ''op'')
        \<and> \<not> nullish (obj_get c ''value'') \<and> obj_get c ''value'' \<noteq> VStr [])
      (case conditions of VArr cs \<Rightarrow> map as_object cs | _ \<Rightarrow> []))) (js '' && '')"

definition buildTierBodyExpr :: "jsobj \<Rightarrow> jsstring" where
  "buildTierBodyExpr tier =
    (if obj_get tier ''billing_unit'' = VStr (js ''request'') then
       js ''fixed('' @ (if nullish (obj_get tier ''fixed_price'') then [] else js_String (obj_get tier ''fixed_price''))
         @ js '')''
     else
       js_join ([js ''p * '' @ js_String_num (number_or_zero (obj_get tier ''input_unit_cost'')),
                 js ''c * '' @ js_String_num (number_or_zero (obj_get tier ''output_unit_cost''))]
         @ map (\<lambda>(f, x). x @ js '' * '' @ js_String_num (number_or_zero (case map_of tier f of Some v \<Rightarrow> v | None \<Rightarrow> VUndefined)))
             (filter (\<lambda>(f, x). \<not> js_num_eq (number_or_zero (case map_of tier f of Some v \<Rightarrow> v | None \<Rightarrow> VUndefined)) (Fin 0))
               BILLING_CACHE_VAR_MAP)) (js '' + ''))"

definition tier_call :: "jsobj \<Rightarrow> jsstring \<Rightarrow> jsstring" where
  "tier_call tier label = js ''tier('' @ [DQ] @ label @ [DQ] @ js '', '' @ buildTierBodyExpr tier @ js '')''"

definition label_or :: "jsobj \<Rightarrow> jsstring \<Rightarrow> jsstring" where
  "label_or tier d = (if truthy (obj_get tier ''label'') then js_String (obj_get tier ''label'') else d)"

fun generate_parts :: "nat \<Rightarrow> jsobj list \<Rightarrow> jsstring list" where
  "generate_parts i [] = []"
| "generate_parts i (tier # tiers) =
    (let body = tier_call tier (label_or tier (js ''tier_'' @ show_int (int i + 1)));
         cond = buildConditionStr (obj_get tier ''conditions'')
     in (if tiers \<noteq> [] \<and> cond \<noteq> [] then cond @ js '' ? '' @ body else body)
        # generate_parts (i + 1) tiers)"

definition generateExprFromVisualConfig :: "jsval \<Rightarrow> jsstring" where
  "generateExprFromVisualConfig config =
    (case map as_object (config_tiers config) of
       [] \<Rightarrow> js ''p * 0 + c * 0''
     | [tier] \<Rightarrow>
         let body = tier_call tier (label_or tier (js ''default''));
             cond = buildConditionStr (obj_get tier ''conditions'')
         in if cond \<noteq> [] then cond @ js '' ? '' @ body @ js '' : p * 0 + c * 0'' else body
     | tiers \<Rightarrow> js_join (generate_parts 0 tiers) (js '' : ''))"

subsection \<open>Reading back\<close>

definition re_version :: regex where
  "re_version = RSeq [RText (js ''v''), RPlus (RClass is_digit), RText (js '':''), RGroup 1 (RStar (RClass (\<lambda>c. True)))]"

definition re_price :: "jsstring \<Rightarrow> nat \<Rightarrow> regex list" where
  "re_price v k = [RText v, RSpaces, RText (js ''*''), RSpaces, RGroup k (RPlus (RClass number_class))]"

definition re_plus :: "regex list" where
  "re_plus = [RSpaces, RText (js ''+''), RSpaces]"

text \<open>The prices of a tier's body; the groups are numbered from \<open>k\<close>.\<close>

definition re_body :: "nat \<Rightarrow> regex list" where
  "re_body k = re_price (js ''p'') k @ re_plus @ re_price (js ''c'') (k + 1)
     @ map (\<lambda>(i, x). ROpt (RSeq (re_plus @ re_price x i)))
         (zip [k + 2..<k + 2 + length BILLING_CACHE_VAR_MAP] (map snd BILLING_CACHE_VAR_MAP))"

definition re_tier_call :: "nat \<Rightarrow> regex" where
  "re_tier_call k = RSeq ([RText (js ''tier('' @ [DQ]), RGroup k (RStar (RClass not_quote)), RText ([DQ] @ js '',''),
     RSpaces] @ re_body (k + 1) @ [RText (js '')'')])"

definition re_condition :: "regex list" where
  "re_condition = [RAlt [RText (js ''p''), RText (js ''c''), RText (js ''len'')], RSpaces,
     RAlt [RText (js ''<''), RText (js ''<=''), RText (js ''>''), RText (js ''>='')], RSpaces,
     RPlus (RClass (\<lambda>c. is_digit c \<or> c \<in> set (js ''.eE+'')))]"

definition re_and :: regex where
  "re_and = RSeq [RSpaces, RText (js ''&&''), RSpaces]"

definition re_condition_parts :: regex where
  "re_condition_parts = RSeq [RGroup 1 (RAlt [RText (js ''p''), RText (js ''c''), RText (js ''len'')]), RSpaces,
     RGroup 2 (RAlt [RText (js ''<''), RText (js ''<=''), RText (js ''>''), RText (js ''>='')]), RSpaces,
     RGroup 3 (RPlus (RClass (\<lambda>c. is_digit c \<or> c \<in> set (js ''.eE+''))))]"

definition re_tier :: regex where
  "re_tier = RSeq [ROpt (RSeq [RGroup 1 (RSeq (re_condition @ [RStar (RSeq (re_and # re_condition))])),
     RSpaces, RText (js ''?''), RSpaces]), re_tier_call 2]"

text \<open>\<open>text.split(/\s*&&\s*/)\<close>.\<close>

function split_regex :: "regex \<Rightarrow> jsstring \<Rightarrow> jsstring \<Rightarrow> jsstring list" where
  "split_regex r piece [] = [piece]"
| "split_regex r piece (c # s) =
    (case match_prefix r (c # s) of
       Some (rest, g) \<Rightarrow>
         if length rest < length (c # s) then piece # split_regex r [] rest else split_regex r (piece @ [c]) s
     | None \<Rightarrow> split_regex r (piece @ [c]) s)"
  by pat_completeness auto
termination
  by (relation "measure (\<lambda>(r, p, s). length s)") auto

definition parse_condition :: "jsstring \<Rightarrow> jsval list" where
  "parse_condition cp =
    (case match_whole re_condition_parts (js_trim cp) of
       Some m \<Rightarrow> [VObj [(js ''var'', VStr (captured m 1)), (js ''op'', VStr (captured m 2)),
          (js ''value'', VNum (js_Number (captured m 3)))]]
     | None \<Rightarrow> [])"

definition parse_conditions :: "jsstring \<Rightarrow> jsval list" where
  "parse_conditions condStr =
    (if condStr = [] then [] else concat (map parse_condition (split_regex re_and [] condStr)))"

text \<open>The tier of a match whose label is group \<open>k\<close>.\<close>

definition matched_tier :: "nat \<Rightarrow> captures \<Rightarrow> jsval list \<Rightarrow> jsobj" where
  "matched_tier k m conditions =
    fold (\<lambda>(i, f) o1. case capture m i of Some v \<Rightarrow> map_set f (VNum (js_Number v)) o1 | None \<Rightarrow> o1)
      (zip [k + 3..<k + 3 + length BILLING_CACHE_VAR_MAP] (map fst BILLING_CACHE_VAR_MAP))
      [(js ''conditions'', VArr conditions), (js ''input_unit_cost'', VNum (js_Number (captured m (k + 1)))),
       (js ''output_unit_cost'', VNum (js_Number (captured m (k + 2)))), (js ''label'', VStr (captured m k))]"

definition config_of :: "jsobj list \<Rightarrow> jsval" where
  "config_of tiers = VObj [(js ''tiers'', VArr (map VObj tiers))]"

definition without_spaces :: "jsstring \<Rightarrow> jsstring" where
  "without_spaces s = replace_all (RPlus (RClass is_space)) [] s"

definition tryParseVisualConfig :: "jsstring \<Rightarrow> jsobj option" where
  "tryParseVisualConfig exprStr =
    (if exprStr = [] then None
     else
       let body = (case match_whole re_version exprStr of Some m \<Rightarrow> captured m 1 | None \<Rightarrow> exprStr) in
       case match_whole (re_tier_call 1) body of
         Some simple \<Rightarrow> Some (normalizeVisualConfig (config_of [normalizeVisualTier (matched_tier 1 simple [])]))
       | None \<Rightarrow>
           let tiers = map (\<lambda>m. normalizeVisualTier (matched_tier 2 m (parse_conditions (captured m 1))))
                 (exec_all re_tier body);
               cfg = normalizeVisualConfig (config_of tiers)
           in if tiers = [] then None
              else if without_spaces (generateExprFromVisualConfig (VObj cfg)) \<noteq> without_spaces body then None
              else Some cfg)"

subsection \<open>The local estimate\<close>

definition ESTIMATOR_VARS :: "(jsstring \<times> jsstring) list" where
  "ESTIMATOR_VARS = map (\<lambda>(v, k). (js v, js k))
    [(''cr'', ''cacheReadTokens''), (''cc'', ''cacheCreateTokens''), (''cc1h'', ''cacheCreate1hTokens''),
     (''img'', ''imageTokens''), (''img_o'', ''imageOutputTokens''), (''ai'', ''audioInputTokens''),
     (''ao'', ''audioOutputTokens'')]"

type_synonym extra_tokens = "jsstring \<Rightarrow> jsnum"

definition buildEstimatorTokens :: "jsnum \<Rightarrow> jsnum \<Rightarrow> extra_tokens \<Rightarrow> jsobj" where
  "buildEstimatorTokens promptTokens completionTokens extra =
    spread [(js ''p'', VNum promptTokens), (js ''c'', VNum completionTokens),
      (js ''len'', VNum (js_add (js_add (js_add promptTokens (extra (js ''cacheReadTokens'')))
         (extra (js ''cacheCreateTokens''))) (extra (js ''cacheCreate1hTokens''))))]
      (map (\<lambda>(v, k). (v, VNum (extra k))) ESTIMATOR_VARS)"

record eval_result =
  er_cost :: jsnum
  er_matchedTier :: jsstring
  er_error :: "jsstring option"
  er_billingUnit :: "billing_unit option"

definition with_tokens :: "simulation_context option \<Rightarrow> jsobj \<Rightarrow> simulation_context" where
  "with_tokens ctx tokens =
    (case ctx of
       None \<Rightarrow> \<lparr>ctx_tokens = Some tokens, ctx_request = None, ctx_usage = None, ctx_now = None, ctx_context = None\<rparr>
     | Some c \<Rightarrow> c\<lparr>ctx_tokens := Some (spread tokens (case ctx_tokens c of Some t \<Rightarrow> t | None \<Rightarrow> []))\<rparr>)"

definition evalExprLocally ::
  "host \<Rightarrow> jsstring \<Rightarrow> jsnum \<Rightarrow> jsnum \<Rightarrow> extra_tokens \<Rightarrow> simulation_context option \<Rightarrow> cache
     \<Rightarrow> eval_result \<times> cache" where
  "evalExprLocally h exprStr promptTokens completionTokens extra ctx cache =
    (if js_trim exprStr = [] then
       (\<lparr>er_cost = Fin 0, er_matchedTier = [], er_error = None, er_billingUnit = None\<rparr>, cache)
     else
       case evaluateBillingExpression h exprStr
          (with_tokens ctx (buildEstimatorTokens promptTokens completionTokens extra)) cache of
         (EvaluationFailed f, cache1) \<Rightarrow>
           (\<lparr>er_cost = Fin 0, er_matchedTier = [], er_error = Some (d_detail (f_diagnostic f)),
             er_billingUnit = None\<rparr>, cache1)
       | (Evaluated r, cache1) \<Rightarrow>
           (\<lparr>er_cost = s_cost r, er_matchedTier = s_matchedTier r, er_error = None,
             er_billingUnit = (if s_billingUnit r = RequestUnit then Some RequestUnit else None)\<rparr>, cache1))"

definition exprUsesExtraVars :: "jsstring \<Rightarrow> cache \<Rightarrow> bool \<times> cache" where
  "exprUsesExtraVars exprStr cache =
    (if exprStr = [] then (False, cache)
     else
       case compileBillingExpression exprStr cache of
         (Failed f, cache1) \<Rightarrow> (False, cache1)
       | (Ready c, cache1) \<Rightarrow> (list_ex (\<lambda>(v, k). v \<in> set (c_variables c)) ESTIMATOR_VARS, cache1))"

end
