(* ===== verification/TierLaws.thy ===== *)
theory TierLaws
  imports TierExpr BillingContracts
begin

section \<open>The tier editor: laws and defects\<close>

text \<open>
  Normalising a tier gives each field a definite value, which shows that the normalisation does not
  reach the input and output prices, and normalising twice is normalising once
  (\<open>normalize_tier_contract\<close>); the local estimate is always a finite, non-negative amount, zero
  when an error is shown (\<open>estimate_bounds\<close>). Two defects are shown by example: a label with a
  quote is printed unescaped, and a malformed price is read without complaint.
\<close>

subsection \<open>Spreading objects\<close>

lemma keys_map_set_list:
  "map fst (map_set k v m) = (if k \<in> fst ` set m then map fst m else map fst m @ [k])"
  by (induction k v m rule: map_set.induct) auto

lemma map_set_prefix: "\<exists>ys. map fst (map_set k v m) = map fst m @ ys"
  by (auto simp: keys_map_set_list)

lemma spread_Cons: "spread a ((k, v) # b) = spread (map_set k v a) b"
  by (simp add: spread_def)

lemma spread_keys:
  "(\<exists>ys. map fst (spread a b) = map fst a @ ys) \<and> (distinct (map fst a) \<longrightarrow> distinct (map fst (spread a b)))"
proof (induction b arbitrary: a)
  case Nil
  show ?case by (simp add: spread_def)
next
  case (Cons x b)
  obtain k v where x: "x = (k, v)" by fastforce
  obtain ys where "map fst (map_set k v a) = map fst a @ ys"
    using map_set_prefix[of k v a] by auto
  moreover obtain zs where "map fst (spread (map_set k v a) b) = map fst (map_set k v a) @ zs"
    using Cons.IH[of "map_set k v a"] by auto
  ultimately have "map fst (spread a (x # b)) = map fst a @ ys @ zs" by (simp add: x spread_Cons)
  moreover have "distinct (map fst (spread a (x # b)))" if "distinct (map fst a)"
    using Cons.IH[of "map_set k v a", THEN conjunct2] distinct_map_set[OF that] by (simp add: x spread_Cons)
  ultimately show ?case by blast
qed

lemma spread_new:
  "distinct (map fst (p @ ys)) \<Longrightarrow> spread p ys = p @ ys"
proof (induction ys arbitrary: p)
  case (Cons y ys)
  then have "map_set (fst y) (snd y) p = p @ [y]"
    using map_set_new[of p "fst y" "snd y"] by (auto simp: map_of_eq_None_iff)
  then show ?case using Cons by (cases y) (simp add: spread_Cons)
qed (simp add: spread_def)

lemma map_set_middle: "k \<notin> fst ` set p \<Longrightarrow> map_set k v (p @ (k, w) # a) = p @ (k, v) # a"
  by (induction p) auto

lemma spread_over:
  "map fst a = map fst xs \<Longrightarrow> distinct (map fst (p @ xs @ ys)) \<Longrightarrow> spread (p @ a) (xs @ ys) = p @ xs @ ys"
proof (induction xs arbitrary: p a)
  case Nil
  then show ?case using spread_new[of p ys] by simp
next
  case (Cons x xs)
  then obtain w a' where a: "a = (fst x, w) # a'" "map fst a' = map fst xs" by (cases a) auto
  have "map_set (fst x) (snd x) (p @ a) = (p @ [x]) @ a'"
    using map_set_middle[of "fst x" p "snd x" w a'] Cons.prems(2) a(1) by auto
  then have "spread (p @ a) ((x # xs) @ ys) = spread ((p @ [x]) @ a') (xs @ ys)"
    by (cases x) (simp add: spread_Cons)
  then show ?case using Cons.IH[OF a(2), of "p @ [x]"] Cons.prems(2) by simp
qed

lemma spread_self:
  assumes "map fst m = map fst a @ ks" "distinct (map fst m)"
  shows "spread a m = m"
proof -
  let ?n = "length a"
  have "map fst a = map fst (take ?n m)"
    using arg_cong[OF assms(1), of "take ?n"] by (simp add: take_map)
  then show ?thesis using spread_over[of a "take ?n m" "[]" "drop ?n m"] assms(2) by simp
qed

subsection \<open>Normalisation\<close>

lemma number_or_zero_again: "number_or_zero (VNum (number_or_zero v)) = number_or_zero v"
  by (simp add: number_or_zero_def Let_def)

lemma map_set_same: "map_of m k = Some v \<Longrightarrow> map_set k v m = m"
  by (induction k v m rule: map_set.induct) (auto split: if_splits)

definition set_costs :: "jsobj \<Rightarrow> string list \<Rightarrow> jsobj \<Rightarrow> jsobj" where
  "set_costs tier fs o1 = fold (\<lambda>f o1. obj_set f (VNum (number_or_zero (obj_get tier f))) o1) fs o1"

lemma set_costs_keys:
  "(\<exists>ys. map fst (set_costs t fs o1) = map fst o1 @ ys)
   \<and> (distinct (map fst o1) \<longrightarrow> distinct (map fst (set_costs t fs o1)))"
proof (induction fs arbitrary: o1)
  case (Cons f fs)
  let ?o = "obj_set f (VNum (number_or_zero (obj_get t f))) o1"
  obtain ys where "map fst ?o = map fst o1 @ ys"
    using map_set_prefix[of "js f" _ o1] unfolding obj_set_def by auto
  moreover obtain zs where "map fst (set_costs t fs ?o) = map fst ?o @ zs" using Cons.IH[of ?o] by auto
  moreover have e: "set_costs t (f # fs) o1 = set_costs t fs ?o" by (simp add: set_costs_def)
  ultimately have "map fst (set_costs t (f # fs) o1) = map fst o1 @ ys @ zs" by simp
  moreover have "distinct (map fst (set_costs t (f # fs) o1))" if "distinct (map fst o1)"
    using Cons.IH[of ?o, THEN conjunct2] distinct_map_set[OF that] unfolding e obj_set_def by blast
  ultimately show ?case by blast
qed (simp add: set_costs_def)

lemma set_costs_lookup:
  "f \<in> set fs \<Longrightarrow> map_of (set_costs t fs o1) (js f) = Some (VNum (number_or_zero (obj_get t f)))"
proof (induction fs arbitrary: o1 rule: rev_induct)
  case (snoc g fs)
  show ?case
  proof (cases "js f = js g")
    case True
    then have "obj_get t f = obj_get t g" by (simp add: obj_get_def)
    then show ?thesis using True by (simp add: set_costs_def obj_set_def)
  next
    case False
    then show ?thesis using snoc by (auto simp: set_costs_def obj_set_def)
  qed
qed simp

lemma set_costs_same:
  assumes "\<And>f. f \<in> set fs \<Longrightarrow> map_of o1 (js f) = Some (VNum (number_or_zero (obj_get t f)))"
  shows "set_costs t fs o1 = o1"
  using assms by (induction fs) (simp_all add: set_costs_def obj_set_def map_set_same)

text \<open>
  Normalising a tier is idempotent: the seven optional prices of a normalised tier are numbers,
  and normalising it again changes neither a field nor their order.
\<close>
theorem normalize_tier_idempotent:
  "normalizeVisualTier (normalizeVisualTier tier) = normalizeVisualTier tier"
proof -
  let ?t = "normalizeVisualTier tier"
  have n: "normalizeVisualTier t = set_costs t cost_fields (spread (tier_defaults t) t)" for t
    by (simp add: normalizeVisualTier_def set_costs_def)
  have dk: "map fst (tier_defaults t) = map fst (tier_defaults tier)" for t by (simp add: tier_defaults_def)
  have dd: "distinct (map fst (tier_defaults tier))" by (simp add: tier_defaults_def js_def)
  obtain ys zs where "map fst (spread (tier_defaults tier) tier) = map fst (tier_defaults tier) @ ys"
      "map fst ?t = map fst (spread (tier_defaults tier) tier) @ zs"
    using spread_keys set_costs_keys unfolding n by blast
  then have "map fst ?t = map fst (tier_defaults ?t) @ (ys @ zs)" using dk[of ?t] by simp
  moreover have "distinct (map fst ?t)"
    using spread_keys[of "tier_defaults tier" tier] set_costs_keys dd unfolding n by blast
  ultimately have "spread (tier_defaults ?t) ?t = ?t" by (rule spread_self)
  moreover have "set_costs ?t cost_fields ?t = ?t"
  proof (rule set_costs_same)
    fix f
    assume "f \<in> set cost_fields"
    then have "map_of ?t (js f) = Some (VNum (number_or_zero (obj_get tier f)))"
      unfolding n by (rule set_costs_lookup)
    then show "map_of ?t (js f) = Some (VNum (number_or_zero (obj_get ?t f)))"
      by (simp add: obj_get_def[of ?t] number_or_zero_again)
  qed
  ultimately show ?thesis using n[of ?t] by simp
qed

text \<open>What the fields of a normalised tier are: spreading and setting, resolved field by field.\<close>

lemma map_of_spread:
  "distinct (map fst b) \<Longrightarrow>
    map_of (spread a b) k = (case map_of b k of Some v \<Rightarrow> Some v | None \<Rightarrow> map_of a k)"
proof (induction b arbitrary: a)
  case (Cons x b)
  obtain j v where x: "x = (j, v)" by fastforce
  have "map_of b j = None" using Cons.prems by (simp add: x map_of_eq_None_iff)
  then show ?case using Cons by (auto simp: x spread_Cons split: option.splits)
qed (simp add: spread_def)

lemma set_costs_other: "k \<notin> set (map js fs) \<Longrightarrow> map_of (set_costs t fs o1) k = map_of o1 k"
  by (induction fs arbitrary: o1) (auto simp: set_costs_def obj_set_def)

definition default_field :: "jsobj \<Rightarrow> jsstring \<Rightarrow> jsval option" where
  "default_field tier k =
    (if k = js ''label'' then Some (VStr [])
     else if k = js ''input_unit_cost'' \<or> k = js ''output_unit_cost'' then Some (VNum (Fin 0))
     else if k = js ''cache_mode'' then
       Some (VStr (if js_lt (Fin 0) (js_ToNumber (obj_get tier ''cache_create_1h_unit_cost''))
         then CACHE_MODE_TIMED else CACHE_MODE_GENERIC))
     else if k = js ''conditions'' then Some (VArr [])
     else None)"

lemma defaults_for_missing:
  assumes "map_of tier k = None"
  shows "map_of (tier_defaults tier) k = default_field tier k"
proof -
  have "obj_get tier f = VUndefined" if "js f = k" for f using assms that by (auto simp: obj_get_def)
  then show ?thesis
    unfolding tier_defaults_def default_field_def getTierCacheMode_def
    by (auto simp: number_or_zero_def)
qed

text \<open>
  C40: Normalising a tier, an object with distinct fields. The seven optional prices become numbers,
  0 where the field is missing or no number. Every other field that the tier has is kept as it is; in
  particular a base price that is a text stays a text, although the code computes a number for it
  first. A missing field gets its default: an empty label, base prices 0, no conditions, and the
  timed cache mode exactly when the one-hour cache price is positive. There are no other fields, and
  normalising again changes nothing.
\<close>
theorem normalize_tier_contract:
  assumes "distinct (map fst tier)"
  shows "map_of (normalizeVisualTier tier) k =
      (if k \<in> js ` set cost_fields then
         Some (VNum (number_or_zero (case map_of tier k of Some v \<Rightarrow> v | None \<Rightarrow> VUndefined)))
       else case map_of tier k of Some v \<Rightarrow> Some v | None \<Rightarrow> default_field tier k)
    \<and> normalizeVisualTier (normalizeVisualTier tier) = normalizeVisualTier tier"
proof -
  have n: "normalizeVisualTier tier = set_costs tier cost_fields (spread (tier_defaults tier) tier)"
    by (simp add: normalizeVisualTier_def set_costs_def)
  have "map_of (normalizeVisualTier tier) k =
      (case map_of tier k of Some v \<Rightarrow> Some v | None \<Rightarrow> default_field tier k)" if "k \<notin> js ` set cost_fields"
    using that map_of_spread[OF assms, of "tier_defaults tier" k] defaults_for_missing[of tier k]
    by (auto simp: n set_costs_other split: option.splits)
  moreover have "map_of (normalizeVisualTier tier) k =
      Some (VNum (number_or_zero (case map_of tier k of Some v \<Rightarrow> v | None \<Rightarrow> VUndefined)))"
    if "k \<in> js ` set cost_fields"
    using that set_costs_lookup by (auto simp: n obj_get_def)
  ultimately show ?thesis using normalize_tier_idempotent by auto
qed

definition ez_tier :: jsobj where
  "ez_tier = [(js ''label'', VStr (js ''a'' @ [DQ])), (js ''input_unit_cost'', VStr (js ''abc'')),
     (js ''image_unit_cost'', VStr (js ''abc''))]"

theorem normalize_tier_contract_witness:
  "map_of (normalizeVisualTier ez_tier) (js ''input_unit_cost'') = Some (VStr (js ''abc''))
    \<and> map_of (normalizeVisualTier ez_tier) (js ''image_unit_cost'') = Some (VNum (Fin 0))"
proof -
  have d: "distinct (map fst ez_tier)" by code_simp
  have "js ''input_unit_cost'' \<notin> js ` set cost_fields" "js ''image_unit_cost'' \<in> js ` set cost_fields"
      "map_of ez_tier (js ''input_unit_cost'') = Some (VStr (js ''abc''))"
      "map_of ez_tier (js ''image_unit_cost'') = Some (VStr (js ''abc''))"
      "number_or_zero (VStr (js ''abc'')) = Fin 0"
    by code_simp+
  then show ?thesis
    using normalize_tier_contract[OF d, of "js ''input_unit_cost''"]
      normalize_tier_contract[OF d, of "js ''image_unit_cost''"] by simp
qed

subsection \<open>The estimate\<close>

text \<open>
  The local estimate is always a finite, non-negative cost, whatever the token counts, the
  context and the expression are; when it reports an error the cost is zero and no tier is named.
\<close>
theorem estimate_bounds:
  assumes "table_reachable compileBillingExpression [] cache"
    and "evalExprLocally h exprStr p c extra ctx cache = (r, cache')"
  shows "is_finite (er_cost r) \<and> js_le (Fin 0) (er_cost r)
    \<and> (er_error r = None \<or> er_cost r = Fin 0 \<and> er_matchedTier r = [])"
proof (cases "js_trim exprStr = []")
  case True
  then show ?thesis using assms(2) by (auto simp: evalExprLocally_def js_le_def)
next
  case False
  let ?ctx = "with_tokens ctx (buildEstimatorTokens p c extra)"
  obtain out cache1 where out: "evaluateBillingExpression h exprStr ?ctx cache = (out, cache1)" by fastforce
  show ?thesis
  proof (cases out)
    case (EvaluationFailed f)
    then show ?thesis using assms(2) False out by (auto simp: evalExprLocally_def js_le_def)
  next
    case (Evaluated s)
    obtain cc where "evaluate_try h cc ?ctx = Inr s"
      using evaluated_compiled[OF assms(1) out[unfolded Evaluated]] .
    then obtain env ev where run: "runs_to h cc ?ctx env ev s" by (rule evaluate_try_runs)
    then have "is_finite (s_cost s)" "\<not> js_lt (s_cost s) (Fin 0)" by (simp_all add: runs_to_def)
    moreover from this have "js_le (Fin 0) (s_cost s)" by (cases "s_cost s") (auto simp: js_le_def)
    ultimately show ?thesis using assms(2) False out Evaluated by (auto simp: evalExprLocally_def)
  qed
qed

definition ez_result :: eval_result where
  "ez_result = fst (evalExprLocally ex_host ex_source (Fin 5) (Fin 0) (\<lambda>k. Fin 0) (Some ex_context) [])"

theorem estimate_bounds_witness:
  "is_finite (er_cost ez_result) \<and> js_le (Fin 0) (er_cost ez_result)
    \<and> (er_error ez_result = None \<or> er_cost ez_result = Fin 0 \<and> er_matchedTier ez_result = [])"
proof -
  obtain cache' where "evalExprLocally ex_host ex_source (Fin 5) (Fin 0) (\<lambda>k. Fin 0) (Some ex_context) []
      = (ez_result, cache')"
    unfolding ez_result_def by (metis prod.collapse)
  then show ?thesis by (rule estimate_bounds[OF table_reachable.start])
qed

subsection \<open>Defects\<close>

definition ez_bad :: jsstring where
  "ez_bad = js ''tier('' @ [DQ] @ js ''a'' @ [DQ] @ js '', p * 1.2.3 + c * 1)''"

text \<open>
  Examples of two defects of the tier editor: a quote in a label is not escaped, so the generated
  expression does not compile; and a single tier with a malformed price is accepted by the reader
  although the expression does not compile.
\<close>
lemma tier_editor_examples:
  "(case compile_fresh (generateExprFromVisualConfig (config_of [normalizeVisualTier ez_tier])) of
        Failed f \<Rightarrow> True | Ready c \<Rightarrow> False)
   \<and> tryParseVisualConfig ez_bad \<noteq> None
   \<and> (case compile_fresh ez_bad of Failed f \<Rightarrow> True | Ready c \<Rightarrow> False)"
  by code_simp

end
