(* ===== verification/TaskExpr.thy ===== *)
theory TaskExpr
  imports TierExpr
begin

section \<open>Task pricing\<close>

text \<open>
  Model of \<^verbatim>\<open>web/src/features/pricing/lib/task-expr.ts\<close>: prices of asynchronous tasks that depend
  on reported usage. A schema lists number fields (with a unit) and enumerated fields; a matrix has
  one row of prices for each combination of enumerated values; tiers are the rows in the order in
  which the expression tests them. \<open>localeCompare\<close>, which orders the fields, depends on the
  engine's collation tables and is the parameter \<open>le\<close>.
\<close>

subsection \<open>Fields\<close>

definition TASK_TOKEN_PRICE_SCALE :: jsnum where
  "TASK_TOKEN_PRICE_SCALE = Fin 1000000"

type_synonym collation = "jsstring \<Rightarrow> jsstring \<Rightarrow> bool"

fun insert_by :: "collation \<Rightarrow> (jsstring \<times> 'a) \<Rightarrow> (jsstring \<times> 'a) list \<Rightarrow> (jsstring \<times> 'a) list" where
  "insert_by le x [] = [x]"
| "insert_by le x (y # ys) = (if le (fst x) (fst y) then x # y # ys else y # insert_by le x ys)"

text \<open>\<open>entries.sort(([left], [right]) => left.localeCompare(right))\<close>, which is stable.\<close>

fun sort_by :: "collation \<Rightarrow> (jsstring \<times> 'a) list \<Rightarrow> (jsstring \<times> 'a) list" where
  "sort_by le [] = []"
| "sort_by le (x # xs) = insert_by le x (sort_by le xs)"

definition has_unit :: "field_schema \<Rightarrow> bool" where
  "has_unit f = (case fs_unit f of Some u \<Rightarrow> u \<noteq> [] | None \<Rightarrow> False)"

definition enum_values :: "field_schema \<Rightarrow> jsstring list" where
  "enum_values f = (case fs_enum f of Some vs \<Rightarrow> vs | None \<Rightarrow> [])"

definition getTaskNumberFields :: "collation \<Rightarrow> usage_schema \<Rightarrow> (jsstring \<times> field_schema) list" where
  "getTaskNumberFields le schema =
    sort_by le (filter (\<lambda>(k, f). fs_type f = Some (js ''number'') \<and> has_unit f) schema)"

definition getTaskEnumFields :: "collation \<Rightarrow> usage_schema \<Rightarrow> (jsstring \<times> field_schema) list" where
  "getTaskEnumFields le schema = sort_by le (filter (\<lambda>(k, f). enum_values f \<noteq> []) schema)"

type_synonym combination = "(jsstring \<times> jsstring) list"

definition extend_combinations :: "jsstring \<times> field_schema \<Rightarrow> combination list \<Rightarrow> combination list" where
  "extend_combinations field combinations =
    concat (map (\<lambda>combination. map (\<lambda>v. map_set (fst field) v combination) (enum_values (snd field)))
      combinations)"

definition getTaskEnumCombinations :: "collation \<Rightarrow> usage_schema \<Rightarrow> combination list" where
  "getTaskEnumCombinations le schema = fold extend_combinations (getTaskEnumFields le schema) [[]]"

subsection \<open>Configurations\<close>

type_synonym task_config = "task_tier list"

record matrix_row =
  mr_combination :: combination
  mr_constant :: jsnum
  mr_unitPrices :: "(jsstring \<times> jsnum) list"

definition createDefaultTaskVisualConfig :: "collation \<Rightarrow> usage_schema \<Rightarrow> task_config" where
  "createDefaultTaskVisualConfig le schema =
    [\<lparr>kt_label = js ''base'', kt_conditions = [], kt_constant = Fin 0,
      kt_unitPrices = map (\<lambda>(k, f). (k, Fin 0)) (getTaskNumberFields le schema)\<rparr>]"

definition createDefaultTaskMatrixConfig :: "collation \<Rightarrow> usage_schema \<Rightarrow> matrix_row list" where
  "createDefaultTaskMatrixConfig le schema =
    map (\<lambda>combination. \<lparr>mr_combination = combination, mr_constant = Fin 0,
        mr_unitPrices = map (\<lambda>(k, f). (k, Fin 0)) (getTaskNumberFields le schema)\<rparr>)
      (getTaskEnumCombinations le schema)"

definition taskMatrixRowLabel :: "collation \<Rightarrow> combination \<Rightarrow> jsstring" where
  "taskMatrixRowLabel le combination =
    (let values = map snd (sort_by le combination)
     in if values \<noteq> [] then js_join values [183] else js ''base'')"

text \<open>
  The key of a combination is the JSON text of its values in the order of the fields; two keys are
  equal exactly if the lists of values are, so the list stands for the text.
\<close>

definition taskMatrixCombinationKey ::
  "combination \<Rightarrow> (jsstring \<times> field_schema) list \<Rightarrow> jsstring option list" where
  "taskMatrixCombinationKey combination enumFields = map (\<lambda>(k, f). map_of combination k) enumFields"

text \<open>\<open>prices[field] ?? 0\<close>.\<close>

definition price_or_zero :: "(jsstring \<times> jsnum) list \<Rightarrow> jsstring \<Rightarrow> jsnum" where
  "price_or_zero prices k = (case map_of prices k of Some x \<Rightarrow> x | None \<Rightarrow> Fin 0)"

definition prices_for :: "(jsstring \<times> field_schema) list \<Rightarrow> (jsstring \<times> jsnum) list \<Rightarrow> (jsstring \<times> jsnum) list" where
  "prices_for numberFields prices = map (\<lambda>(k, f). (k, price_or_zero prices k)) numberFields"

text \<open>\<open>===\<close> on two possibly missing prices.\<close>

definition same_price :: "jsnum option \<Rightarrow> jsnum option \<Rightarrow> bool" where
  "same_price a b = (case (a, b) of (Some x, Some y) \<Rightarrow> js_num_eq x y | (None, None) \<Rightarrow> True | _ \<Rightarrow> False)"

definition uniform_rows :: "(jsstring \<times> field_schema) list \<Rightarrow> matrix_row \<Rightarrow> matrix_row list \<Rightarrow> bool" where
  "uniform_rows numberFields firstRow rows =
    list_all (\<lambda>row. js_num_eq (mr_constant row) (mr_constant firstRow)
      \<and> list_all (\<lambda>(k, f). same_price (map_of (mr_unitPrices row) k) (map_of (mr_unitPrices firstRow) k))
          numberFields) rows"

fun rows_to_tiers :: "collation \<Rightarrow> (jsstring \<times> field_schema) list \<Rightarrow> matrix_row list \<Rightarrow> task_tier list" where
  "rows_to_tiers le numberFields [] = []"
| "rows_to_tiers le numberFields (row # rows) =
    \<lparr>kt_label = taskMatrixRowLabel le (mr_combination row),
     kt_conditions = (if rows = [] then [] else sort_by le (mr_combination row)),
     kt_constant = mr_constant row, kt_unitPrices = prices_for numberFields (mr_unitPrices row)\<rparr>
    # rows_to_tiers le numberFields rows"

definition taskMatrixToTiers :: "collation \<Rightarrow> matrix_row list \<Rightarrow> usage_schema \<Rightarrow> task_tier list" where
  "taskMatrixToTiers le rows schema =
    (let numberFields = getTaskNumberFields le schema in
     case rows of
       [] \<Rightarrow> []
     | firstRow # _ \<Rightarrow>
         if numberFields = [] then []
         else if uniform_rows numberFields firstRow rows then
           [\<lparr>kt_label = js ''base'', kt_conditions = [], kt_constant = mr_constant firstRow,
             kt_unitPrices = prices_for numberFields (mr_unitPrices firstRow)\<rparr>]
         else rows_to_tiers le numberFields rows)"

subsection \<open>Reading a matrix\<close>

text \<open>The values a tier's conditions give to the fields; \<open>None\<close> for a repeated field or a value outside the schema.\<close>

fun values_by_field :: "usage_schema \<Rightarrow> (jsstring \<times> jsstring) list \<Rightarrow> combination \<Rightarrow> combination option" where
  "values_by_field schema [] vals = Some vals"
| "values_by_field schema ((k, v) # cs) vals =
    (if map_of vals k \<noteq> None
        \<or> \<not> (case map_of schema k of Some f \<Rightarrow> v \<in> set (enum_values f) | None \<Rightarrow> False)
     then None else values_by_field schema cs (map_set k v vals))"

type_synonym tier_index = "(jsstring option list \<times> task_tier) list"

fun index_tiers ::
  "usage_schema \<Rightarrow> (jsstring \<times> field_schema) list \<Rightarrow> task_tier list \<Rightarrow> tier_index \<Rightarrow> tier_index option" where
  "index_tiers schema enumFields [] index = Some index"
| "index_tiers schema enumFields (tier # tiers) index =
    (if length (kt_conditions tier) \<noteq> length enumFields then None
     else
       case values_by_field schema (kt_conditions tier) [] of
         None \<Rightarrow> None
       | Some vals \<Rightarrow>
           if length vals \<noteq> length enumFields then None
           else
             let combination = map (\<lambda>(k, f). (k, case map_of vals k of Some v \<Rightarrow> v | None \<Rightarrow> [])) enumFields;
                 key = taskMatrixCombinationKey combination enumFields
             in if map_of index key \<noteq> None then None
                else index_tiers schema enumFields tiers (map_set key tier index))"

fun matrix_rows ::
  "(jsstring \<times> field_schema) list \<Rightarrow> (jsstring \<times> field_schema) list \<Rightarrow> tier_index \<Rightarrow> combination list
     \<Rightarrow> matrix_row list option" where
  "matrix_rows enumFields numberFields index [] = Some []"
| "matrix_rows enumFields numberFields index (combination # combinations) =
    (case map_of index (taskMatrixCombinationKey combination enumFields) of
       None \<Rightarrow> None
     | Some tier \<Rightarrow>
         map_option (\<lambda>rows. \<lparr>mr_combination = combination, mr_constant = kt_constant tier,
             mr_unitPrices = prices_for numberFields (kt_unitPrices tier)\<rparr> # rows)
           (matrix_rows enumFields numberFields index combinations))"

text \<open>\<open>tryParseTaskMatrixConfig\<close> after the tiers have been read.\<close>

definition tiers_to_matrix :: "collation \<Rightarrow> usage_schema \<Rightarrow> task_tier list \<Rightarrow> matrix_row list option" where
  "tiers_to_matrix le schema tiers =
    (let enumFields = getTaskEnumFields le schema; numberFields = getTaskNumberFields le schema;
         combinations = getTaskEnumCombinations le schema in
     if tiers = [] then None
     else if length tiers = 1 \<and> kt_conditions (hd tiers) = [] then
       Some (map (\<lambda>combination. \<lparr>mr_combination = combination, mr_constant = kt_constant (hd tiers),
         mr_unitPrices = prices_for numberFields (kt_unitPrices (hd tiers))\<rparr>) combinations)
     else if length tiers \<noteq> length combinations \<or> kt_conditions (last tiers) \<noteq> [] then None
     else
       case index_tiers schema enumFields (butlast tiers) [] of
         None \<Rightarrow> None
       | Some index \<Rightarrow>
           (case filter (\<lambda>combination. map_of index (taskMatrixCombinationKey combination enumFields) = None)
                   combinations of
              [missing] \<Rightarrow> matrix_rows enumFields numberFields
                (map_set (taskMatrixCombinationKey missing enumFields) (last tiers) index) combinations
            | _ \<Rightarrow> None))"

definition tryParseTaskMatrixConfig ::
  "collation \<Rightarrow> jsstring \<Rightarrow> usage_schema \<Rightarrow> cache \<Rightarrow> matrix_row list option res \<times> cache" where
  "tryParseTaskMatrixConfig le expr schema cache =
    (if expr = [] then (Inr None, cache)
     else
       let (tiers, cache1) = parseTaskTiersFromExpr expr schema False cache
       in (sbind tiers (\<lambda>ts. Inr (tiers_to_matrix le schema ts)), cache1))"

subsection \<open>Previews\<close>

datatype preview_part =
    ConstantPart (pp_amount: jsnum)
  | UsagePart (pp_field: jsstring) (pp_amount: jsnum) (pp_quantity: jsnum) (pp_unitPrice: jsnum)

record preview_result =
  pv_tier :: task_tier
  pv_total :: jsnum
  pv_parts :: "preview_part list"

definition sample_get :: "jsobj \<Rightarrow> jsstring \<Rightarrow> jsval" where
  "sample_get sample k = (case map_of sample k of Some v \<Rightarrow> v | None \<Rightarrow> VUndefined)"

definition tier_matches :: "jsobj \<Rightarrow> task_tier \<Rightarrow> bool" where
  "tier_matches sample tier = list_all (\<lambda>(k, v). sample_get sample k = VStr v) (kt_conditions tier)"

definition matched_task_tier :: "jsobj \<Rightarrow> task_tier list \<Rightarrow> task_tier" where
  "matched_task_tier sample tiers =
    (case find (tier_matches sample) (butlast tiers) of Some t \<Rightarrow> t | None \<Rightarrow> last tiers)"

definition nonneg_finite :: "jsnum \<Rightarrow> bool" where
  "nonneg_finite x \<longleftrightarrow> is_finite x \<and> \<not> js_lt x (Fin 0)"

definition token_unit :: "usage_schema \<Rightarrow> jsstring \<Rightarrow> bool" where
  "token_unit schema k = (case map_of schema k of Some f \<Rightarrow> fs_unit f = Some (js ''token'') | None \<Rightarrow> False)"

fun usage_parts :: "usage_schema \<Rightarrow> jsobj \<Rightarrow> (jsstring \<times> jsnum) list \<Rightarrow> preview_part list option" where
  "usage_parts schema sample [] = Some []"
| "usage_parts schema sample ((k, unitPrice) # rest) =
    (if \<not> nonneg_finite unitPrice then None
     else if js_num_eq unitPrice (Fin 0) then usage_parts schema sample rest
     else
       let quantity = js_ToNumber (sample_get sample k);
           amount = (if token_unit schema k then js_div (js_mul quantity unitPrice) TASK_TOKEN_PRICE_SCALE
             else js_mul quantity unitPrice)
       in if \<not> nonneg_finite quantity \<or> \<not> is_finite amount then None
          else map_option (\<lambda>ps. UsagePart k amount quantity unitPrice # ps) (usage_parts schema sample rest))"

definition part_term :: "usage_schema \<Rightarrow> preview_part \<Rightarrow> jsstring list" where
  "part_term schema p =
    (case p of
       UsagePart k a q u \<Rightarrow>
         if k = [] then []
         else [js ''u('' @ json_quote k @ js '') * '' @ js_String_num u
           @ (if token_unit schema k then js '' / 1000000'' else [])]
     | ConstantPart a \<Rightarrow> [])"

definition set_usage :: "preview_part \<Rightarrow> jsobj \<Rightarrow> jsobj" where
  "set_usage p usage =
    (case p of
       UsagePart k a q u \<Rightarrow> if k = [] then usage else map_set k (VNum q) usage
     | ConstantPart a \<Rightarrow> usage)"

definition preview_expression :: "usage_schema \<Rightarrow> task_tier \<Rightarrow> jsnum \<Rightarrow> preview_part list \<Rightarrow> jsstring" where
  "preview_expression schema tier cst parts =
    js ''tier('' @ json_quote (kt_label tier) @ js '', ''
      @ js_join (js_String_num cst # concat (map (part_term schema) parts)) (js '' + '') @ js '')''"

text \<open>A missing schema is the empty one.\<close>

definition evaluateTaskVisualConfig ::
  "host \<Rightarrow> task_config \<Rightarrow> jsobj \<Rightarrow> usage_schema \<Rightarrow> cache \<Rightarrow> preview_result option \<times> cache" where
  "evaluateTaskVisualConfig h config sample schema cache =
    (if config = [] then (None, cache)
     else
       let tier = matched_task_tier sample config; cst = kt_constant tier in
       if \<not> nonneg_finite cst then (None, cache)
       else
         case usage_parts schema sample (kt_unitPrices tier) of
           None \<Rightarrow> (None, cache)
         | Some usage \<Rightarrow>
             let parts = (if js_lt (Fin 0) cst then [ConstantPart cst] else []) @ usage in
             (case evaluateBillingExpression h (preview_expression schema tier cst parts)
                 \<lparr>ctx_tokens = None, ctx_request = None, ctx_usage = Some (fold set_usage parts sample),
                   ctx_now = None, ctx_context = None\<rparr> cache of
                (EvaluationFailed f, cache1) \<Rightarrow> (None, cache1)
              | (Evaluated r, cache1) \<Rightarrow>
                  (Some \<lparr>pv_tier = tier, pv_total = s_cost r, pv_parts = parts\<rparr>, cache1)))"

subsection \<open>Normalisation and generation\<close>

definition finite_or_zero :: "jsnum \<Rightarrow> jsnum" where
  "finite_or_zero x = (if is_finite x \<and> js_le (Fin 0) x then x else Fin 0)"

definition normalize_task_tier ::
  "collation \<Rightarrow> usage_schema \<Rightarrow> nat \<times> task_tier \<Rightarrow> task_tier" where
  "normalize_task_tier le schema indexed =
    (case indexed of (i, tier) \<Rightarrow>
      \<lparr>kt_label = (if kt_label tier \<noteq> [] then kt_label tier
         else if i = 0 then js ''base'' else js ''tier_'' @ show_int (int i + 1)),
       kt_conditions = filter (\<lambda>(k, v). case map_of (getTaskEnumFields le schema) k of
           Some f \<Rightarrow> v \<in> set (enum_values f) | None \<Rightarrow> False) (kt_conditions tier),
       kt_constant = finite_or_zero (kt_constant tier),
       kt_unitPrices = map (\<lambda>(k, f). (k, case map_of (kt_unitPrices tier) k of
           Some x \<Rightarrow> finite_or_zero x | None \<Rightarrow> Fin 0)) (getTaskNumberFields le schema)\<rparr>)"

definition normalizeTaskVisualConfig :: "collation \<Rightarrow> task_config \<Rightarrow> usage_schema \<Rightarrow> task_config" where
  "normalizeTaskVisualConfig le config schema =
    (if config = [] then createDefaultTaskVisualConfig le schema
     else map (normalize_task_tier le schema) (enumerate 0 config))"

definition generateTaskTierBody :: "task_tier \<Rightarrow> (jsstring \<times> field_schema) list \<Rightarrow> jsstring" where
  "generateTaskTierBody tier numberFields =
    js_join ((if js_lt (Fin 0) (kt_constant tier) then [js_String_num (kt_constant tier)] else [])
      @ map (\<lambda>(k, f). js ''u('' @ json_quote k @ js '') * '' @ js_String_num (price_or_zero (kt_unitPrices tier) k)
          @ (if fs_unit f = Some (js ''token'') then js '' / '' @ js_String_num TASK_TOKEN_PRICE_SCALE else []))
          numberFields) (js '' + '')"

definition generateTaskTierCall :: "task_tier \<Rightarrow> (jsstring \<times> field_schema) list \<Rightarrow> jsstring" where
  "generateTaskTierCall tier numberFields =
    js ''tier('' @ json_quote (kt_label tier) @ js '', '' @ generateTaskTierBody tier numberFields @ js '')''"

definition generateTaskCondition :: "(jsstring \<times> jsstring) list \<Rightarrow> jsstring" where
  "generateTaskCondition conditions =
    js_join (map (\<lambda>(k, v). js ''u('' @ json_quote k @ js '') == '' @ json_quote v) conditions) (js '' && '')"

fun task_parts :: "(jsstring \<times> field_schema) list \<Rightarrow> task_tier list \<Rightarrow> jsstring list option" where
  "task_parts numberFields [] = Some []"
| "task_parts numberFields [tier] = Some [generateTaskTierCall tier numberFields]"
| "task_parts numberFields (tier # tiers) =
    (let condition = generateTaskCondition (kt_conditions tier) in
     if condition = [] then None
     else map_option (\<lambda>ps. (condition @ js '' ? '' @ generateTaskTierCall tier numberFields) # ps)
       (task_parts numberFields tiers))"

definition generateTaskExprFromConfig :: "collation \<Rightarrow> task_config \<Rightarrow> usage_schema \<Rightarrow> jsstring" where
  "generateTaskExprFromConfig le config schema =
    (let numberFields = getTaskNumberFields le schema in
     if numberFields = [] then []
     else case task_parts numberFields (normalizeTaskVisualConfig le config schema) of
       Some parts \<Rightarrow> js_join parts (js '' : '')
     | None \<Rightarrow> [])"

definition tryParseTaskVisualConfig ::
  "collation \<Rightarrow> jsstring \<Rightarrow> usage_schema \<Rightarrow> cache \<Rightarrow> task_config option res \<times> cache" where
  "tryParseTaskVisualConfig le expr schema cache =
    (if expr = [] then (Inr None, cache)
     else
       let (tiers, cache1) = parseTaskTiersFromExpr expr schema False cache
       in (sbind tiers (\<lambda>ts. Inr (if ts = [] then None
             else Some (normalizeTaskVisualConfig le ts schema))), cache1))"

record usage_example =
  ue_label :: jsstring
  ue_facts :: jsobj

fun examples_loop ::
  "host \<Rightarrow> task_config \<Rightarrow> usage_schema \<Rightarrow> usage_example list \<Rightarrow> cache
     \<Rightarrow> (jsstring \<times> jsnum) list \<times> cache" where
  "examples_loop h config schema [] cache = ([], cache)"
| "examples_loop h config schema (e # es) cache =
    (let (result, cache1) = evaluateTaskVisualConfig h config (ue_facts e) schema cache;
         (rows, cache2) = examples_loop h config schema es cache1
     in (case result of Some r \<Rightarrow> (ue_label e, pv_total r) # rows | None \<Rightarrow> rows, cache2))"

definition evaluateTaskUsageExamples ::
  "host \<Rightarrow> collation \<Rightarrow> jsstring \<Rightarrow> usage_schema option \<Rightarrow> usage_example list \<Rightarrow> cache
     \<Rightarrow> (jsstring \<times> jsnum) list res \<times> cache" where
  "evaluateTaskUsageExamples h le expr schema examples cache =
    (case schema of
       None \<Rightarrow> (Inr [], cache)
     | Some sch \<Rightarrow>
         if expr = [] \<or> examples = [] then (Inr [], cache)
         else
           case splitBillingExprAndRequestRules expr of
             Inl err \<Rightarrow> (Inl err, cache)
           | Inr (billingExpr, rules) \<Rightarrow>
               (case tryParseTaskVisualConfig le billingExpr sch cache of
                  (Inl err, cache1) \<Rightarrow> (Inl err, cache1)
                | (Inr None, cache1) \<Rightarrow> (Inr [], cache1)
                | (Inr (Some config), cache1) \<Rightarrow>
                    let (rows, cache2) = examples_loop h config sch examples cache1 in (Inr rows, cache2)))"

end
