(* ===== verification/TaskLaws.thy ===== *)
theory TaskLaws
  imports TaskExpr "HOL-Library.Multiset"
begin

section \<open>Task pricing: the matrix and its tiers\<close>

text \<open>
  The combinations of the enumerated fields are the Cartesian product of their values
  (\<open>combinations_product\<close>). A usage sample that reports one combination is charged by the row of
  that combination (\<open>matrix_selects_row\<close>), although the tiers are tested one after the other and
  the last one has no condition. Reading the tiers of a matrix gives the matrix back
  (\<open>matrix_roundtrip\<close>).
\<close>

subsection \<open>Sorting\<close>

lemma mset_insert_by: "mset (insert_by le x xs) = add_mset x (mset xs)"
  by (induction le x xs rule: insert_by.induct) auto

lemma mset_sort_by [simp]: "mset (sort_by le xs) = mset xs"
  by (induction xs) (simp_all add: mset_insert_by)

lemma set_sort_by [simp]: "set (sort_by le xs) = set xs"
  by (metis mset_sort_by set_mset_mset)

lemma length_sort_by [simp]: "length (sort_by le xs) = length xs"
  by (metis mset_sort_by size_mset)

lemma distinct_keys_sort_by [simp]: "distinct (map fst (sort_by le xs)) = distinct (map fst xs)"
  by (metis mset_map mset_sort_by mset_eq_imp_distinct_iff)

lemma map_of_sort_by: "distinct (map fst xs) \<Longrightarrow> map_of (sort_by le xs) = map_of xs"
  by (rule map_of_inject_set[THEN iffD2]) simp_all

lemma distinct_filter_keys: "distinct (map fst xs) \<Longrightarrow> distinct (map fst (filter P xs))"
  by (induction xs) auto

subsection \<open>Combinations\<close>

definition field_choices :: "jsstring \<times> field_schema \<Rightarrow> (jsstring \<times> jsstring) list" where
  "field_choices field = map (Pair (fst field)) (enum_values (snd field))"

lemma extend_fresh:
  assumes "\<And>c. c \<in> set cs \<Longrightarrow> fst field \<notin> fst ` set c"
  shows "extend_combinations field cs = concat (map (\<lambda>c. map (\<lambda>x. c @ [x]) (field_choices field)) cs)"
proof -
  have "map_set (fst field) v c = c @ [(fst field, v)]" if "c \<in> set cs" for c v
    using assms[OF that] by (intro map_set_new) (simp add: map_of_eq_None_iff)
  then show ?thesis
    unfolding extend_combinations_def field_choices_def
    by (intro arg_cong[where f = concat] map_cong) simp_all
qed

lemma concat_map_concat: "concat (map f (concat (map g cs))) = concat (map (\<lambda>c. concat (map f (g c))) cs)"
  by (induction cs) simp_all

lemma append_snoc: "(@) (c @ [x]) = (\<lambda>y. c @ x # y)"
  by (rule ext) simp

lemma fold_extend:
  assumes "distinct (map fst fs)" "\<And>c. c \<in> set cs \<Longrightarrow> fst ` set c \<inter> fst ` set fs = {}"
  shows "fold extend_combinations fs cs
     = concat (map (\<lambda>c. map (append c) (product_lists (map field_choices fs))) cs)"
  using assms
proof (induction fs arbitrary: cs)
  case Nil
  show ?case by (induction cs) simp_all
next
  case (Cons field fs)
  have e: "extend_combinations field cs = concat (map (\<lambda>c. map (\<lambda>x. c @ [x]) (field_choices field)) cs)"
    by (rule extend_fresh) (use Cons.prems(2) in auto)
  have fresh: "fst ` set c \<inter> fst ` set fs = {}" if c: "c \<in> set (extend_combinations field cs)" for c
  proof -
    obtain d v where d: "d \<in> set cs" "c = d @ [(fst field, v)]"
      using c by (auto simp: e field_choices_def)
    then show ?thesis using Cons.prems(2)[OF d(1)] Cons.prems(1) by auto
  qed
  have "fold extend_combinations (field # fs) cs
      = concat (map (\<lambda>c. map (append c) (product_lists (map field_choices fs))) (extend_combinations field cs))"
    using Cons.IH[OF _ fresh] Cons.prems(1) by simp
  also have "\<dots> = concat (map (\<lambda>c. map (append c) (product_lists (map field_choices (field # fs)))) cs)"
    unfolding e concat_map_concat by (simp add: map_concat comp_def append_snoc)
  finally show ?case .
qed

lemma enum_fields_distinct:
  "distinct (map fst schema) \<Longrightarrow> distinct (map fst (getTaskEnumFields le schema))"
  by (simp add: getTaskEnumFields_def distinct_filter_keys)

lemma combinations_eq:
  assumes "distinct (map fst schema)"
  shows "getTaskEnumCombinations le schema = product_lists (map field_choices (getTaskEnumFields le schema))"
  using fold_extend[OF enum_fields_distinct[OF assms], of "[[]]" le] 
  by (simp add: getTaskEnumCombinations_def map_idI)

text \<open>
  The rows of a task's price matrix are exactly the Cartesian product of the enumerated fields'
  values, in lexicographic order: the loop that extends every partial combination field by field
  neither drops nor invents a combination.
\<close>
theorem combinations_product:
  assumes "distinct (map fst schema)"
  shows "getTaskEnumCombinations le schema = product_lists (map field_choices (getTaskEnumFields le schema))
    \<and> length (getTaskEnumCombinations le schema)
        = prod_list (map (\<lambda>(k, f). length (enum_values f)) (getTaskEnumFields le schema))"
proof -
  have "length (product_lists (map field_choices fs)) = prod_list (map (\<lambda>(k, f). length (enum_values f)) fs)" for fs
    by (induction fs) (auto simp: length_concat comp_def field_choices_def sum_list_triv)
  then show ?thesis by (simp add: combinations_eq[OF assms])
qed

definition tx_schema :: usage_schema where
  "tx_schema =
    [(js ''seconds'', \<lparr>fs_type = Some (js ''number''), fs_unit = Some (js ''second''), fs_enum = None\<rparr>),
     (js ''size'', \<lparr>fs_type = None, fs_unit = None, fs_enum = Some (map js [''sd'', ''hd''])\<rparr>),
     (js ''mode'', \<lparr>fs_type = None, fs_unit = None, fs_enum = Some (map js [''std'', ''pro''])\<rparr>)]"

definition tx_le :: collation where
  "tx_le a b \<longleftrightarrow> a \<le> b"

lemma tx_keys: "distinct (map fst tx_schema)"
  by code_simp

theorem combinations_product_witness:
  "length (getTaskEnumCombinations tx_le tx_schema) = 4"
proof -
  have "prod_list (map (\<lambda>(k, f). length (enum_values f)) (getTaskEnumFields tx_le tx_schema)) = 4" by code_simp
  then show ?thesis using combinations_product[OF tx_keys, of tx_le, THEN conjunct2] by simp
qed

subsection \<open>The row of a sample\<close>

definition sample_shows :: "jsobj \<Rightarrow> combination \<Rightarrow> bool" where
  "sample_shows sample c = list_all (\<lambda>(k, v). sample_get sample k = VStr v) c"

lemma shows_unique:
  "sample_shows sample a \<Longrightarrow> sample_shows sample b \<Longrightarrow> map fst a = map fst b \<Longrightarrow> a = b"
proof (induction a arbitrary: b)
  case (Cons x a)
  then obtain y b' where "b = y # b'" by (cases b) auto
  moreover obtain k v k2 v2 where "x = (k, v)" "y = (k2, v2)" by (cases x; cases y)
  ultimately show ?case using Cons.IH[of b'] Cons.prems by (simp add: sample_shows_def)
qed simp

lemma combination_keys:
  assumes "c \<in> set (product_lists (map field_choices fs))"
  shows "map fst c = map fst fs \<and> list_all2 (\<lambda>(k, v) (k2, f). k = k2 \<and> v \<in> set (enum_values f)) c fs"
  using assms
proof (induction fs arbitrary: c)
  case (Cons f fs)
  then show ?case by (cases f) (auto simp: field_choices_def)
qed simp

lemma distinct_combinations:
  assumes "\<And>k f. (k, f) \<in> set fs \<Longrightarrow> distinct (enum_values f)"
  shows "distinct (product_lists (map field_choices fs))"
  by (rule distinct_product_lists) (use assms in \<open>auto simp: field_choices_def distinct_map inj_on_def\<close>)

definition row_tier :: "collation \<Rightarrow> (jsstring \<times> field_schema) list \<Rightarrow> bool \<Rightarrow> matrix_row \<Rightarrow> task_tier" where
  "row_tier le nfs final row =
    \<lparr>kt_label = taskMatrixRowLabel le (mr_combination row),
     kt_conditions = (if final then [] else sort_by le (mr_combination row)),
     kt_constant = mr_constant row, kt_unitPrices = prices_for nfs (mr_unitPrices row)\<rparr>"

lemma rows_to_tiers_snoc:
  "rows_to_tiers le nfs (rows @ [row]) = map (row_tier le nfs False) rows @ [row_tier le nfs True row]"
  by (induction rows) (simp_all add: row_tier_def)

lemma row_tier_conditions: "kt_conditions (row_tier le nfs True row) = []"
  by (simp add: row_tier_def)

lemma row_tier_matches:
  "tier_matches sample (row_tier le nfs False row) = sample_shows sample (mr_combination row)"
  by (simp add: tier_matches_def row_tier_def sample_shows_def list_all_iff)

lemma matched_row:
  assumes "distinct (map mr_combination rows)" "\<And>r. r \<in> set rows \<Longrightarrow> map fst (mr_combination r) = keys"
    and "row \<in> set rows" "sample_shows sample (mr_combination row)"
  shows "\<exists>final. matched_task_tier sample (rows_to_tiers le nfs rows) = row_tier le nfs final row"
proof -
  obtain rs r where rows: "rows = rs @ [r]" using assms(3) by (cases rows rule: rev_exhaust) auto
  have other: "\<not> sample_shows sample (mr_combination x)" if "x \<in> set rows" "mr_combination x \<noteq> mr_combination row" for x
    using shows_unique[OF _ assms(4)] assms(2)[OF that(1)] assms(2)[OF assms(3)] that(2) by metis
  have inj: "x = y" if "x \<in> set rows" "y \<in> set rows" "mr_combination x = mr_combination y" for x y
    using assms(1) that by (auto simp: distinct_map inj_on_def)
  have m: "matched_task_tier sample (rows_to_tiers le nfs rows) =
      (case find (tier_matches sample) (map (row_tier le nfs False) rs) of
         Some t \<Rightarrow> t | None \<Rightarrow> row_tier le nfs True r)"
    unfolding matched_task_tier_def rows rows_to_tiers_snoc butlast_snoc last_snoc ..
  show ?thesis
  proof (cases "find (tier_matches sample) (map (row_tier le nfs False) rs)")
    case None
    then have "\<not> sample_shows sample (mr_combination x)" if "x \<in> set rs" for x
      using that by (auto simp: find_None_iff row_tier_matches)
    then have "row = r" using assms(3,4) by (auto simp: rows)
    then show ?thesis using m None by auto
  next
    case (Some t)
    then obtain x where x: "x \<in> set rs" "t = row_tier le nfs False x" "sample_shows sample (mr_combination x)"
      using find_SomeD[OF Some] by (auto simp: row_tier_matches)
    then have "x = row" using other[of x] inj[of x row] assms(3) by (auto simp: rows)
    then show ?thesis using m Some x(2) by auto
  qed
qed

text \<open>Two prices that are the same number.\<close>

definition same_number :: "jsnum \<Rightarrow> jsnum \<Rightarrow> bool" where
  "same_number x y \<longleftrightarrow> x = y \<or> js_num_eq x y"

definition charges_row :: "(jsstring \<times> field_schema) list \<Rightarrow> task_tier \<Rightarrow> matrix_row \<Rightarrow> bool" where
  "charges_row nfs t row \<longleftrightarrow> same_number (kt_constant t) (mr_constant row)
     \<and> list_all (\<lambda>(k, f). same_number (price_or_zero (kt_unitPrices t) k) (price_or_zero (mr_unitPrices row) k)) nfs"

lemma prices_for_lookup: "(k, f) \<in> set nfs \<Longrightarrow> price_or_zero (prices_for nfs prices) k = price_or_zero prices k"
proof -
  have "map_of (prices_for nfs prices) k = Some (price_or_zero prices k)" if "k \<in> fst ` set nfs"
    using that by (induction nfs) (auto simp: prices_for_def)
  then show "(k, f) \<in> set nfs \<Longrightarrow> ?thesis" by (force simp: price_or_zero_def[of "prices_for nfs prices"])
qed

lemma row_tier_charges: "charges_row nfs (row_tier le nfs final row) row"
  by (auto simp: charges_row_def row_tier_def same_number_def list_all_iff prices_for_lookup)

lemma js_num_eq_sym: "js_num_eq a b = js_num_eq b a"
  by (cases a; cases b) auto

lemma same_price_zero:
  "same_price (map_of a k) (map_of b k) \<Longrightarrow> same_number (price_or_zero b k) (price_or_zero a k)"
  by (auto simp: same_price_def price_or_zero_def same_number_def js_num_eq_sym split: option.splits)

lemma uniform_charges:
  assumes "uniform_rows nfs r rows" "row \<in> set rows"
  shows "charges_row nfs \<lparr>kt_label = l, kt_conditions = cs, kt_constant = mr_constant r,
     kt_unitPrices = prices_for nfs (mr_unitPrices r)\<rparr> row"
proof -
  have c: "js_num_eq (mr_constant row) (mr_constant r)"
    and p: "\<And>k f. (k, f) \<in> set nfs \<Longrightarrow> same_price (map_of (mr_unitPrices row) k) (map_of (mr_unitPrices r) k)"
    using assms by (auto simp: uniform_rows_def list_all_iff)
  have "same_number (price_or_zero (prices_for nfs (mr_unitPrices r)) k) (price_or_zero (mr_unitPrices row) k)"
    if "(k, f) \<in> set nfs" for k f
    using same_price_zero[OF p[OF that]] prices_for_lookup[OF that] by simp
  then show ?thesis using c by (auto simp: charges_row_def list_all_iff same_number_def js_num_eq_sym)
qed

definition schema_ok :: "usage_schema \<Rightarrow> bool" where
  "schema_ok schema \<longleftrightarrow> distinct (map fst schema) \<and> list_all (\<lambda>(k, f). distinct (enum_values f)) schema"

lemma matrix_facts:
  assumes "schema_ok schema" "map mr_combination rows = getTaskEnumCombinations le schema"
  shows "distinct (map mr_combination rows)"
    "r \<in> set rows \<Longrightarrow> map fst (mr_combination r) = map fst (getTaskEnumFields le schema)"
proof -
  have c: "map mr_combination rows = product_lists (map field_choices (getTaskEnumFields le schema))"
    using assms by (simp add: combinations_eq schema_ok_def)
  show "distinct (map mr_combination rows)"
    unfolding c by (rule distinct_combinations) (use assms(1) in \<open>auto simp: schema_ok_def list_all_iff getTaskEnumFields_def\<close>)
  show "map fst (mr_combination r) = map fst (getTaskEnumFields le schema)" if "r \<in> set rows"
  proof -
    have "mr_combination r \<in> set (map mr_combination rows)" using that by simp
    then show ?thesis unfolding c using combination_keys by blast
  qed
qed

text \<open>
  C17: A usage sample that reports one combination of the enumerated fields is charged by the row of
  that combination, whatever the other rows are: the tier that the preview selects has the row's
  constant and the row's price for every number field, also when all rows collapse into one tier.
\<close>
theorem matrix_selects_row:
  assumes "schema_ok schema" and "map mr_combination rows = getTaskEnumCombinations le schema"
    and "getTaskNumberFields le schema \<noteq> []"
    and "row \<in> set rows" and "sample_shows sample (mr_combination row)"
  shows "charges_row (getTaskNumberFields le schema)
    (matched_task_tier sample (taskMatrixToTiers le rows schema)) row"
proof -
  let ?nfs = "getTaskNumberFields le schema"
  obtain r rest where rows: "rows = r # rest" using assms(4) by (cases rows) auto
  show ?thesis
  proof (cases "uniform_rows ?nfs r rows")
    case True
    then have "taskMatrixToTiers le rows schema = [\<lparr>kt_label = js ''base'', kt_conditions = [],
        kt_constant = mr_constant r, kt_unitPrices = prices_for ?nfs (mr_unitPrices r)\<rparr>]"
      using assms(3) by (simp add: taskMatrixToTiers_def rows)
    then show ?thesis using uniform_charges[OF True assms(4)] by (simp add: matched_task_tier_def)
  next
    case False
    then have "taskMatrixToTiers le rows schema = rows_to_tiers le ?nfs rows"
      using assms(3) by (simp add: taskMatrixToTiers_def rows Let_def)
    then show ?thesis
      using matched_row[OF matrix_facts[OF assms(1,2)] assms(4,5), of le ?nfs] row_tier_charges by metis
  qed
qed

definition tx_rows :: "matrix_row list" where
  "tx_rows = map (\<lambda>(i, c). \<lparr>mr_combination = c, mr_constant = Fin (of_nat i),
     mr_unitPrices = [(js ''seconds'', Fin 2)]\<rparr>) (enumerate 0 (getTaskEnumCombinations tx_le tx_schema))"

definition tx_sample :: jsobj where
  "tx_sample = [(js ''size'', VStr (js ''hd'')), (js ''mode'', VStr (js ''std'')), (js ''seconds'', VNum (Fin 7))]"

lemma tx_facts:
  "schema_ok tx_schema" "map mr_combination tx_rows = getTaskEnumCombinations tx_le tx_schema"
  "getTaskNumberFields tx_le tx_schema \<noteq> []" "tx_rows ! 1 \<in> set tx_rows"
  "sample_shows tx_sample (mr_combination (tx_rows ! 1))"
  by code_simp+

theorem matrix_selects_row_witness:
  "charges_row (getTaskNumberFields tx_le tx_schema)
    (matched_task_tier tx_sample (taskMatrixToTiers tx_le tx_rows tx_schema)) (tx_rows ! 1)"
  by (rule matrix_selects_row[OF tx_facts])

subsection \<open>Reading the tiers back\<close>

lemma values_by_field_ok:
  assumes "distinct (map fst (vals @ cs))"
    and "\<And>k v. (k, v) \<in> set cs \<Longrightarrow> \<exists>f. map_of schema k = Some f \<and> v \<in> set (enum_values f)"
  shows "values_by_field schema cs vals = Some (vals @ cs)"
  using assms
proof (induction schema cs vals rule: values_by_field.induct)
  case (2 schema k v cs vals)
  have k: "map_of vals k = None" using 2(2) by (auto simp: map_of_eq_None_iff)
  then have "map_set k v vals = vals @ [(k, v)]" by (rule map_set_new)
  then show ?case using 2 k by fastforce
qed simp

text \<open>The combination of a row and its key.\<close>

lemma combination_lookup:
  assumes "distinct (map fst fs)" "map fst c = map fst fs" "\<And>k. map_of vals k = map_of c k"
  shows "map (\<lambda>(k, f). (k, case map_of vals k of Some v \<Rightarrow> v | None \<Rightarrow> [])) fs = c"
proof -
  define h where "h = (\<lambda>k. (k, case map_of c k of Some v \<Rightarrow> v | None \<Rightarrow> []))"
  have "distinct (map fst c)" using assms(1,2) by simp
  then have "map (\<lambda>x. h (fst x)) c = c" by (intro map_idI) (auto simp: h_def map_of_is_SomeI)
  then have "map h (map fst c) = c" by (simp add: comp_def)
  moreover have "map (\<lambda>(k, f). (k, case map_of vals k of Some v \<Rightarrow> v | None \<Rightarrow> [])) fs = map h (map fst fs)"
    by (simp add: assms(3) case_prod_beta h_def)
  ultimately show ?thesis using assms(2) by simp
qed

lemma keys_equal:
  assumes "map fst a = map fst fs" "map fst b = map fst fs" "distinct (map fst fs)"
  shows "taskMatrixCombinationKey a fs = taskMatrixCombinationKey b fs \<longleftrightarrow> a = b"
proof
  assume k: "taskMatrixCombinationKey a fs = taskMatrixCombinationKey b fs"
  have dom: "fst ` set a = fst ` set fs" "fst ` set b = fst ` set fs"
    using arg_cong[OF assms(1), of set] arg_cong[OF assms(2), of set] by simp_all
  have "map_of a (fst x) = map_of b (fst x)" if "x \<in> set fs" for x
    using k that by (auto simp: taskMatrixCombinationKey_def case_prod_beta)
  then have "map_of a k = map_of b k" if "k \<in> fst ` set fs" for k
    using that by auto
  moreover have "map_of a k = map_of b k" if "k \<notin> fst ` set fs" for k
  proof -
    have "map_of a k = None" "map_of b k = None" using that dom by (simp_all only: map_of_eq_None_iff not_False_eq_True)
    then show ?thesis by (simp only:)
  qed
  ultimately have "map_of a k = map_of b k" for k by blast
  then have e: "map_of b k = map_of a k" for k by metis
  show "a = b"
    using combination_lookup[OF assms(3,1) e] combination_lookup[OF assms(3,2) refl] by metis
qed simp

definition row_key :: "(jsstring \<times> field_schema) list \<Rightarrow> matrix_row \<Rightarrow> jsstring option list" where
  "row_key fs row = taskMatrixCombinationKey (mr_combination row) fs"

text \<open>A row whose combination the schema allows.\<close>

definition row_ok :: "usage_schema \<Rightarrow> (jsstring \<times> field_schema) list \<Rightarrow> matrix_row \<Rightarrow> bool" where
  "row_ok schema fs row \<longleftrightarrow> map fst (mr_combination row) = map fst fs
     \<and> (\<forall>(k, v) \<in> set (mr_combination row). \<exists>f. map_of schema k = Some f \<and> v \<in> set (enum_values f))"

lemma index_row:
  assumes "distinct (map fst fs)" "row_ok schema fs row" "map_of index (row_key fs row) = None"
  shows "index_tiers schema fs (row_tier le nfs False row # tiers) index
     = index_tiers schema fs tiers (index @ [(row_key fs row, row_tier le nfs False row)])"
proof -
  let ?c = "mr_combination row" and ?s = "sort_by le (mr_combination row)"
  have k: "map fst ?c = map fst fs" using assms(2) by (simp add: row_ok_def)
  have d: "distinct (map fst ?c)" using k assms(1) by simp
  have "\<exists>f. map_of schema k = Some f \<and> v \<in> set (enum_values f)" if "(k, v) \<in> set ?s" for k v
    using assms(2) that by (auto simp: row_ok_def)
  then have v: "values_by_field schema ?s [] = Some ?s"
    using values_by_field_ok[of "[]" ?s schema] d by simp
  have l: "length ?s = length fs" using k by (metis length_map length_sort_by)
  have c: "map (\<lambda>(k, f). (k, case map_of ?s k of Some v \<Rightarrow> v | None \<Rightarrow> [])) fs = ?c"
    using combination_lookup[OF assms(1) k, of ?s] map_of_sort_by[OF d] by simp
  show ?thesis
    using assms(3) v l c map_set_new[OF assms(3)]
    by (simp add: row_tier_def row_key_def Let_def)
qed

lemma index_rows:
  assumes "distinct (map fst fs)" "\<And>r. r \<in> set rows \<Longrightarrow> row_ok schema fs r"
    and "distinct (map mr_combination rows)"
    and "\<And>r. r \<in> set rows \<Longrightarrow> map_of index (row_key fs r) = None"
  shows "index_tiers schema fs (map (row_tier le nfs False) rows) index
     = Some (index @ map (\<lambda>r. (row_key fs r, row_tier le nfs False r)) rows)"
  using assms(2-)
proof (induction rows arbitrary: index)
  case (Cons r rows)
  have fresh: "row_key fs x \<noteq> row_key fs r" if "x \<in> set rows" for x
  proof -
    have "mr_combination x \<noteq> mr_combination r" using Cons.prems(2) that by (auto simp: image_iff)
    then show ?thesis
      using keys_equal[of "mr_combination x" fs "mr_combination r"] assms(1) Cons.prems(1)[of x]
        Cons.prems(1)[of r] that by (simp add: row_key_def row_ok_def)
  qed
  have "map_of (index @ [(row_key fs r, row_tier le nfs False r)]) (row_key fs x) = None" if "x \<in> set rows" for x
    using Cons.prems(3)[of x] fresh[OF that] that by (simp add: map_add_def)
  then have "index_tiers schema fs (map (row_tier le nfs False) rows) (index @ [(row_key fs r, row_tier le nfs False r)])
      = Some ((index @ [(row_key fs r, row_tier le nfs False r)]) @ map (\<lambda>r. (row_key fs r, row_tier le nfs False r)) rows)"
    using Cons.IH Cons.prems(1,2) by simp
  then show ?case
    using index_row[OF assms(1) Cons.prems(1)[of r] Cons.prems(3)[of r], where tiers = "map (row_tier le nfs False) rows"]
    by simp
qed simp

lemma map_of_injective:
  assumes "inj_on f X" "set xs \<subseteq> X" "x \<in> X"
  shows "map_of (map (\<lambda>r. (f r, g r)) xs) (f x) = (if x \<in> set xs then Some (g x) else None)"
  using assms(2)
proof (induction xs)
  case (Cons y ys)
  then show ?case using inj_onD[OF assms(1), of x y] assms(3) by auto
qed simp

lemma matrix_rows_ok:
  assumes "\<And>r. r \<in> set rows \<Longrightarrow>
      \<exists>final. map_of index (row_key fs r) = Some (row_tier le nfs final r)"
    and "\<And>r. r \<in> set rows \<Longrightarrow> prices_for nfs (prices_for nfs (mr_unitPrices r)) = mr_unitPrices r"
  shows "matrix_rows fs nfs index (map mr_combination rows) = Some rows"
  using assms
proof (induction rows)
  case (Cons r rows)
  obtain final where f: "map_of index (taskMatrixCombinationKey (mr_combination r) fs) = Some (row_tier le nfs final r)"
    using Cons.prems(1)[of r] by (auto simp: row_key_def)
  have "prices_for nfs (prices_for nfs (mr_unitPrices r)) = mr_unitPrices r" using Cons.prems(2) by simp
  then show ?case using Cons f by (simp add: row_tier_def)
qed simp

lemma combination_rows_ok:
  assumes "schema_ok schema" "map mr_combination rows = getTaskEnumCombinations le schema" "row \<in> set rows"
  shows "row_ok schema (getTaskEnumFields le schema) row"
proof -
  let ?fs = "getTaskEnumFields le schema"
  have d: "distinct (map fst schema)" using assms(1) by (simp add: schema_ok_def)
  have "mr_combination row \<in> set (product_lists (map field_choices ?fs))"
    using assms(2,3) combinations_eq[OF d, of le] by (metis in_set_conv_nth length_map nth_map)
  note c = combination_keys[OF this]
  have "\<exists>f. map_of schema k = Some f \<and> v \<in> set (enum_values f)" if kv: "(k, v) \<in> set (mr_combination row)" for k v
  proof -
    obtain f where f: "(k, f) \<in> set ?fs" "v \<in> set (enum_values f)"
      using c kv by (fastforce simp: list_all2_conv_all_nth in_set_conv_nth)
    then have "map_of schema k = Some f" using d by (simp add: getTaskEnumFields_def)
    then show ?thesis using f by blast
  qed
  then show ?thesis using c by (auto simp: row_ok_def)
qed

text \<open>
  C18: The tiers of a matrix with different rows determine it: reading them back gives the same rows
  in the same order, the row without a condition being put back at the one combination that no other
  tier names. The rows are expected to hold one price for each number field, as every matrix of
  this module does.
\<close>
theorem matrix_roundtrip:
  assumes "schema_ok schema" and "map mr_combination rows = getTaskEnumCombinations le schema"
    and "getTaskNumberFields le schema \<noteq> []" and "2 \<le> length rows"
    and "\<not> uniform_rows (getTaskNumberFields le schema) (hd rows) rows"
    and "list_all (\<lambda>r. prices_for (getTaskNumberFields le schema) (mr_unitPrices r) = mr_unitPrices r) rows"
  shows "tiers_to_matrix le schema (taskMatrixToTiers le rows schema) = Some rows"
proof -
  let ?nfs = "getTaskNumberFields le schema" and ?fs = "getTaskEnumFields le schema"
  obtain rs r where rows: "rows = rs @ [r]" "rs \<noteq> []"
    using assms(4) by (cases rows rule: rev_exhaust) (auto, metis One_nat_def Suc_1 Suc_le_eq length_0_conv less_irrefl less_one)
  have tiers: "taskMatrixToTiers le rows schema = map (row_tier le ?nfs False) rs @ [row_tier le ?nfs True r]"
    using assms(3,5) by (cases rows) (simp_all add: taskMatrixToTiers_def Let_def flip: rows_to_tiers_snoc rows(1))
  note m = matrix_facts[OF assms(1,2)]
  have fs: "distinct (map fst ?fs)" using assms(1) by (simp add: schema_ok_def enum_fields_distinct)
  have ok: "row_ok schema ?fs x" if "x \<in> set rows" for x using combination_rows_ok[OF assms(1,2) that] .
  have ks: "row_key ?fs x = row_key ?fs y \<longleftrightarrow> mr_combination x = mr_combination y"
    if "x \<in> set rows" "y \<in> set rows" for x y
    using keys_equal[OF m(2)[OF that(1)] m(2)[OF that(2)] fs] by (simp add: row_key_def)
  let ?index = "map (\<lambda>r. (row_key ?fs r, row_tier le ?nfs False r)) rs"
  have index: "index_tiers schema ?fs (map (row_tier le ?nfs False) rs) [] = Some ?index"
    using index_rows[OF fs, of rs schema "[]" le ?nfs] ok m(1) by (simp add: rows(1))
  have inj: "inj_on (row_key ?fs) (set rows)"
  proof (rule inj_onI)
    fix x y
    assume xy: "x \<in> set rows" "y \<in> set rows" "row_key ?fs x = row_key ?fs y"
    then have "mr_combination x = mr_combination y" using ks by blast
    then show "x = y" using m(1) xy(1,2) by (auto simp: distinct_map inj_on_def)
  qed
  have look: "map_of ?index (row_key ?fs x) = (if x \<in> set rs then Some (row_tier le ?nfs False x) else None)"
    if "x \<in> set rows" for x
    by (rule map_of_injective[OF inj]) (use that rows in auto)
  have r: "r \<notin> set rs" using m(1) by (auto simp: rows(1))
  have missing: "filter (\<lambda>c. map_of ?index (taskMatrixCombinationKey c ?fs) = None) (map mr_combination rows)
      = [mr_combination r]"
    using look r by (simp add: filter_map comp_def row_key_def[symmetric] rows(1) filter_empty_conv)
  let ?full = "?index @ [(row_key ?fs r, row_tier le ?nfs True r)]"
  have "\<exists>final. map_of ?full (row_key ?fs x) = Some (row_tier le ?nfs final x)" if "x \<in> set rows" for x
    using look[OF that] look[of r] r that by (auto simp: rows(1) map_add_def)
  then have "matrix_rows ?fs ?nfs ?full (map mr_combination rows) = Some rows"
    using assms(6) by (intro matrix_rows_ok[where le = le]) (simp_all add: list_all_iff)
  moreover have "map_set (row_key ?fs r) (row_tier le ?nfs True r) ?index = ?full"
    using look[of r] r rows(1) by (intro map_set_new) simp
  moreover have "length rows = length (getTaskEnumCombinations le schema)"
    using arg_cong[OF assms(2), of length] by simp
  moreover have "length rows = Suc (length rs)" by (simp add: rows(1))
  ultimately show ?thesis
    using index missing rows(2) unfolding tiers tiers_to_matrix_def Let_def assms(2)[symmetric] row_key_def[symmetric]
    by (simp add: row_key_def row_tier_conditions)
qed

lemma tx_matrix:
  "2 \<le> length tx_rows"
  "\<not> uniform_rows (getTaskNumberFields tx_le tx_schema) (hd tx_rows) tx_rows"
  "list_all (\<lambda>r. prices_for (getTaskNumberFields tx_le tx_schema) (mr_unitPrices r) = mr_unitPrices r) tx_rows"
  by code_simp+

theorem matrix_roundtrip_witness:
  "tiers_to_matrix tx_le tx_schema (taskMatrixToTiers tx_le tx_rows tx_schema) = Some tx_rows"
  by (rule matrix_roundtrip[OF tx_facts(1-3) tx_matrix])

subsection \<open>Normalised configurations\<close>

definition task_tier_ok :: "collation \<Rightarrow> usage_schema \<Rightarrow> task_tier \<Rightarrow> bool" where
  "task_tier_ok le schema t \<longleftrightarrow> kt_label t \<noteq> [] \<and> nonneg_finite (kt_constant t)
     \<and> map fst (kt_unitPrices t) = map fst (getTaskNumberFields le schema)
     \<and> list_all (\<lambda>(k, x). nonneg_finite x) (kt_unitPrices t)
     \<and> list_all (\<lambda>(k, v). \<exists>f. map_of (getTaskEnumFields le schema) k = Some f \<and> v \<in> set (enum_values f))
         (kt_conditions t)"

lemma finite_or_zero_ok: "nonneg_finite (finite_or_zero x)"
  by (cases x) (auto simp: nonneg_finite_def finite_or_zero_def js_le_def)

lemma finite_or_zero_same: "nonneg_finite x \<Longrightarrow> finite_or_zero x = x"
  by (cases x) (auto simp: nonneg_finite_def finite_or_zero_def js_le_def)

lemma nonneg_zero: "nonneg_finite (Fin 0)"
  by (simp add: nonneg_finite_def)

lemma normalized_tier_ok: "task_tier_ok le schema (normalize_task_tier le schema (i, t))"
  by (auto simp: task_tier_ok_def normalize_task_tier_def finite_or_zero_ok nonneg_zero list_all_iff js_def
      split: option.splits)

lemma normalized_tier_same:
  assumes "distinct (map fst schema)" "task_tier_ok le schema t"
  shows "normalize_task_tier le schema (i, t) = t"
proof -
  let ?nfs = "getTaskNumberFields le schema"
  have keys: "map fst (kt_unitPrices t) = map fst ?nfs" using assms(2) by (simp add: task_tier_ok_def)
  have d: "distinct (map fst (kt_unitPrices t))"
    unfolding keys using assms(1) by (simp add: getTaskNumberFields_def distinct_filter_keys)
  define h where "h = (\<lambda>k. (k, case map_of (kt_unitPrices t) k of Some x \<Rightarrow> finite_or_zero x | None \<Rightarrow> Fin 0))"
  have "h (fst p) = p" if "p \<in> set (kt_unitPrices t)" for p
    using that d assms(2) by (cases p) (auto simp: h_def task_tier_ok_def list_all_iff finite_or_zero_same)
  then have "map (\<lambda>p. h (fst p)) (kt_unitPrices t) = kt_unitPrices t" by (intro map_idI) simp
  then have "map h (map fst ?nfs) = kt_unitPrices t" by (simp add: comp_def flip: keys)
  then have prices: "map (\<lambda>(k, f). (k, case map_of (kt_unitPrices t) k of Some x \<Rightarrow> finite_or_zero x | None \<Rightarrow> Fin 0)) ?nfs
      = kt_unitPrices t" by (simp add: h_def case_prod_unfold comp_def)
  have "filter (\<lambda>(k, v). case map_of (getTaskEnumFields le schema) k of
      Some f \<Rightarrow> v \<in> set (enum_values f) | None \<Rightarrow> False) (kt_conditions t) = kt_conditions t"
    using assms(2) by (intro filter_True) (auto simp: task_tier_ok_def list_all_iff)
  then show ?thesis
    using assms(2) prices by (simp add: normalize_task_tier_def task_tier_ok_def finite_or_zero_same)
qed

lemma normalized_tiers_same:
  assumes "distinct (map fst schema)" "list_all (task_tier_ok le schema) ts"
  shows "map (normalize_task_tier le schema) (enumerate i ts) = ts"
  using assms(2) by (induction ts arbitrary: i) (simp_all add: normalized_tier_same[OF assms(1)])

text \<open>
  Whatever an editor hands over, the normalised configuration is one the generator can print:
  it has at least one tier, every tier has a label, a finite non-negative constant and exactly one
  finite non-negative price for each number field of the schema, and conditions only on values that
  the schema enumerates; and normalising it again changes nothing.
\<close>
theorem normalized_config_bounds:
  assumes "distinct (map fst schema)"
  shows "normalizeTaskVisualConfig le config schema \<noteq> []
    \<and> list_all (task_tier_ok le schema) (normalizeTaskVisualConfig le config schema)
    \<and> normalizeTaskVisualConfig le (normalizeTaskVisualConfig le config schema) schema
        = normalizeTaskVisualConfig le config schema"
proof -
  let ?n = "normalizeTaskVisualConfig le config schema"
  have ne: "?n \<noteq> []"
    by (cases config) (simp_all add: normalizeTaskVisualConfig_def createDefaultTaskVisualConfig_def)
  have ok: "list_all (task_tier_ok le schema) ?n"
    using normalized_tier_ok[of le schema]
    by (auto simp: normalizeTaskVisualConfig_def createDefaultTaskVisualConfig_def list_all_iff)
       (auto simp: task_tier_ok_def nonneg_finite_def list_all_iff js_def)
  note same = normalized_tiers_same[OF assms ok, of 0]
  show ?thesis using ne ok same by (simp add: normalizeTaskVisualConfig_def[of le ?n])
qed

definition tx_config :: task_config where
  "tx_config = [\<lparr>kt_label = [], kt_conditions = [(js ''size'', js ''4k'')], kt_constant = NaN,
     kt_unitPrices = [(js ''seconds'', Fin (- 1))]\<rparr>]"

theorem normalized_config_bounds_witness:
  "normalizeTaskVisualConfig tx_le tx_config tx_schema = createDefaultTaskVisualConfig tx_le tx_schema
   \<and> normalizeTaskVisualConfig tx_le (createDefaultTaskVisualConfig tx_le tx_schema) tx_schema
      = createDefaultTaskVisualConfig tx_le tx_schema"
proof -
  have "normalizeTaskVisualConfig tx_le tx_config tx_schema = createDefaultTaskVisualConfig tx_le tx_schema"
    by code_simp
  then show ?thesis using normalized_config_bounds[OF tx_keys, of tx_le tx_config] by simp
qed

end
