(* ===== verification/JsTools.thy ===== *)
theory JsTools
  imports BillingRuntime "HOL-Library.Multiset"
begin

section \<open>Sorting, splitting and decimal numerals\<close>

text \<open>
  Methods of the language that several components use, with their laws: \<open>Array.prototype.sort\<close> with the contract
  of a comparison function, \<open>String.prototype.split\<close> at a single code unit as the inverse of \<open>join\<close>, the
  digits of an integer, properties of unknown values; and the contract of a task that other events may overtake.
\<close>

subsection \<open>Stable sorting\<close>

text \<open>
  \<open>Array.prototype.sort\<close> with a comparison function: stable, and two elements are exchanged only
  if the comparison is positive (not-a-number counts as 0). For a comparison that is no total preorder
  the standard leaves the order open; the model inserts from the right.
\<close>

fun insert_with :: "('a \<Rightarrow> 'a \<Rightarrow> bool) \<Rightarrow> 'a \<Rightarrow> 'a list \<Rightarrow> 'a list" where
  "insert_with after x [] = [x]"
| "insert_with after x (y # ys) = (if after x y then y # insert_with after x ys else x # y # ys)"

definition sort_with :: "('a \<Rightarrow> 'a \<Rightarrow> bool) \<Rightarrow> 'a list \<Rightarrow> 'a list" where
  "sort_with after xs = foldr (insert_with after) xs []"

definition stable_sorted :: "('a \<Rightarrow> 'a \<Rightarrow> bool) \<Rightarrow> 'a list \<Rightarrow> 'a list \<Rightarrow> bool" where
  "stable_sorted before xs ys \<longleftrightarrow> mset ys = mset xs \<and> sorted_wrt before ys
     \<and> (\<forall>x. filter (\<lambda>y. before x y \<and> before y x) ys = filter (\<lambda>y. before x y \<and> before y x) xs)"

text \<open>The contract of a comparison function: a total preorder.\<close>

locale comparison =
  fixes before :: "'a \<Rightarrow> 'a \<Rightarrow> bool"
  assumes total: "before x y \<or> before y x"
    and trans: "before x y \<Longrightarrow> before y z \<Longrightarrow> before x z"
begin

lemma mset_insert: "mset (insert_with (\<lambda>a b. \<not> before a b) x ys) = add_mset x (mset ys)"
  by (induction ys) auto

lemma sorted_insert:
  "sorted_wrt before ys \<Longrightarrow> sorted_wrt before (insert_with (\<lambda>a b. \<not> before a b) x ys)"
proof (induction ys)
  case (Cons y ys)
  show ?case
  proof (cases "before x y")
    case True
    then show ?thesis using Cons.prems by (auto intro: trans)
  next
    case False
    then have "before y x" using total by blast
    moreover have "set (insert_with (\<lambda>a b. \<not> before a b) x ys) = insert x (set ys)"
      using arg_cong[OF mset_insert[of x ys], of set_mset] by simp
    ultimately show ?thesis using False Cons by auto
  qed
qed simp

lemma filter_insert:
  "filter (\<lambda>y. before z y \<and> before y z) (insert_with (\<lambda>a b. \<not> before a b) x ys)
     = filter (\<lambda>y. before z y \<and> before y z) (x # ys)"
proof (induction ys)
  case (Cons y ys)
  show ?case
  proof (cases "before x y")
    case False
    then have "\<not> (before z x \<and> before x z \<and> before z y \<and> before y z)" using trans by blast
    then show ?thesis using False Cons by auto
  qed simp
qed simp

lemma sort_stable: "stable_sorted before xs (sort_with (\<lambda>a b. \<not> before a b) xs)"
proof (induction xs)
  case (Cons x xs)
  have s: "sort_with (\<lambda>a b. \<not> before a b) (x # xs)
      = insert_with (\<lambda>a b. \<not> before a b) x (sort_with (\<lambda>a b. \<not> before a b) xs)"
    by (simp add: sort_with_def)
  show ?case
    using Cons unfolding s stable_sorted_def filter_insert by (auto simp: mset_insert sorted_insert)
qed (simp add: stable_sorted_def sort_with_def)

end

lemma insert_with_cong:
  "(\<And>y. y \<in> set ys \<Longrightarrow> f x y = g x y) \<Longrightarrow> insert_with f x ys = insert_with g x ys"
  by (induction ys) auto

lemma set_insert_with [simp]: "set (insert_with f x ys) = insert x (set ys)"
  by (induction ys) auto

lemma mset_insert_with [simp]: "mset (insert_with f x ys) = add_mset x (mset ys)"
  by (induction ys) simp_all

lemma mset_sort_with [simp]: "mset (sort_with f xs) = mset xs"
  by (induction xs) (simp_all add: sort_with_def)

lemma set_sort_with [simp]: "set (sort_with f xs) = set xs"
  using mset_eq_setD [OF mset_sort_with] .

lemma length_sort_with [simp]: "length (sort_with f xs) = length xs"
  using mset_eq_length [OF mset_sort_with] .

lemma sort_with_cong:
  "(\<And>x y. x \<in> set xs \<Longrightarrow> y \<in> set xs \<Longrightarrow> f x y = g x y) \<Longrightarrow> sort_with f xs = sort_with g xs"
proof (induction xs)
  case (Cons x xs)
  have set: "set (sort_with g xs) = set xs" by simp
  have "sort_with f xs = sort_with g xs" using Cons by simp
  then have "sort_with f (x # xs) = insert_with f x (sort_with g xs)" by (simp add: sort_with_def)
  also have "\<dots> = insert_with g x (sort_with g xs)"
    by (rule insert_with_cong) (use Cons.prems set in auto)
  finally show ?case by (simp add: sort_with_def)
qed (simp add: sort_with_def)

subsection \<open>Splitting\<close>

lemma split_at_unit_nonempty [simp]: "split_at_unit d s \<noteq> []"
  by (cases s) (auto split: list.split)

lemma js_join_Cons: "xs \<noteq> [] \<Longrightarrow> js_join (x # xs) sep = x @ sep @ js_join xs sep"
  by (cases xs) simp_all

lemma split_at_unit_none: "d \<notin> set s \<Longrightarrow> split_at_unit d s = [s]"
  by (induction s) auto

lemma split_at_unit_append: "d \<notin> set x \<Longrightarrow> split_at_unit d (x @ d # s) = x # split_at_unit d s"
  by (induction x) auto

lemma split_join:
  "xs \<noteq> [] \<Longrightarrow> list_all (\<lambda>x. d \<notin> set x) xs \<Longrightarrow> split_at_unit d (js_join xs [d]) = xs"
proof (induction xs)
  case (Cons x xs)
  then show ?case by (cases xs) (simp_all add: split_at_unit_none split_at_unit_append)
qed simp

subsection \<open>Digits\<close>

lemma digits_int_snoc [simp]: "digits_int (s @ [c]) = 10 * digits_int s + digit_value c"
  by (simp add: digits_int_def)

lemma digits_int_Nil [simp]: "digits_int [] = 0"
  by (simp add: digits_int_def)

lemma digit_unit:
  assumes "0 \<le> n" "n < 10"
  shows "is_digit (word_of_int (48 + n))" "digit_value (word_of_int (48 + n)) = n"
proof -
  define w :: unit16 where "w = word_of_int (48 + n)"
  have "uint w = 48 + n" unfolding w_def uint_word_of_int using assms by simp
  then show "is_digit (word_of_int (48 + n))" "digit_value (word_of_int (48 + n)) = n"
    unfolding w_def[symmetric] using assms by (simp_all add: is_digit_def digit_value_def word_le_def)
qed

lemma show_nat_digits: "0 \<le> n \<Longrightarrow> list_all is_digit (show_nat n) \<and> digits_int (show_nat n) = n \<and> show_nat n \<noteq> []"
proof (induction n rule: show_nat.induct)
  case (1 n)
  show ?case
  proof (cases "n < 10")
    case True
    then show ?thesis using digit_unit[of n] 1(2) digits_int_snoc[of "[]"] by (simp add: show_nat.simps[of n])
  next
    case False
    then have "list_all is_digit (show_nat (n div 10)) \<and> digits_int (show_nat (n div 10)) = n div 10"
      using 1 by simp
    then show ?thesis using False digit_unit[of "n mod 10"] by (simp add: show_nat.simps[of n])
  qed
qed

subsection \<open>Properties of unknown values\<close>

text \<open>\<open>value.key\<close> of an object; other values have no such property.\<close>

fun prop_of :: "jsval \<Rightarrow> string \<Rightarrow> jsval" where
  "prop_of (VObj o1) k = (case map_of o1 (js k) of Some v \<Rightarrow> v | None \<Rightarrow> VUndefined)"
| "prop_of v k = VUndefined"

subsection \<open>Stale tasks\<close>

text \<open>
  The contract of a task that runs in several pieces between other events: once it is stale its own events change nothing
  that can be observed, and it stays stale. Then no sequence of them does.
\<close>

locale stale_task =
  fixes step :: "'e \<Rightarrow> 's \<Rightarrow> 's option" and trace :: "'e list \<Rightarrow> 's \<Rightarrow> 's option"
    and own :: "'e \<Rightarrow> bool" and observed :: "'s \<Rightarrow> 'o" and stale :: "'s \<Rightarrow> bool"
  assumes trace_Nil: "trace [] s = Some s"
    and trace_Cons: "trace (e # es) s = Option.bind (step e s) (trace es)"
    and stale_step: "own e \<Longrightarrow> stale s \<Longrightarrow> step e s = Some s1 \<Longrightarrow> stale s1 \<and> observed s1 = observed s"
begin

lemma stale_trace: "list_all own es \<Longrightarrow> stale s \<Longrightarrow> trace es s = Some s1 \<Longrightarrow> observed s1 = observed s"
proof (induction es arbitrary: s)
  case (Cons e es)
  then obtain s' where "step e s = Some s'" and "trace es s' = Some s1"
    by (auto simp: trace_Cons bind_eq_Some_conv)
  with Cons.prems Cons.IH [of s'] stale_step [of e s s'] show ?case by simp
qed (simp add: trace_Nil)

end

text \<open>If every event leaves the task stale, its own events are without effect whatever happens in between.\<close>

locale overtaken_task = stale_task +
  assumes stays_stale: "stale s \<Longrightarrow> step e s = Some s1 \<Longrightarrow> stale s1"
begin

lemma stale_after: "stale s \<Longrightarrow> trace es s = Some s1 \<Longrightarrow> stale s1"
proof (induction es arbitrary: s)
  case (Cons e es)
  then obtain s' where "step e s = Some s'" and "trace es s' = Some s1" by (auto simp: trace_Cons bind_eq_Some_conv)
  with Cons.prems Cons.IH [of s'] stays_stale [of s e s'] show ?case by simp
qed (simp add: trace_Nil)

lemma late_event_silent:
  "stale s \<Longrightarrow> trace es s = Some s1 \<Longrightarrow> own e \<Longrightarrow> step e s1 = Some s2 \<Longrightarrow> observed s2 = observed s1"
  using stale_after stale_step by blast

end

end
