(* ===== verification/Catalog.thy ===== *)
theory Catalog
  imports TaskExpr JsTools
begin

section \<open>The model catalogue\<close>

text \<open>
  Model of \<^verbatim>\<open>web/src/features/pricing/lib/model-helpers.ts\<close>,
  \<^verbatim>\<open>web/src/features/pricing/lib/filters.ts\<close>, \<^verbatim>\<open>web/src/features/pricing/lib/billing-mode.ts\<close> and of the
  classification of models in \<^verbatim>\<open>web/src/features/pricing/lib/dynamic-price.ts\<close>. A missing property
  of a model is \<open>None\<close>. The list can be narrowed by search text, vendor, group, kind of
  billing, endpoint and tag, and sorted by name or by price.
\<close>

subsection \<open>Models\<close>

record pricing_model =
  pm_model_name :: "jsstring option"
  pm_description :: "jsstring option"
  pm_vendor_name :: "jsstring option"
  pm_quota_type :: jsnum
  pm_model_ratio :: jsnum
  pm_completion_ratio :: jsnum
  pm_model_price :: "jsnum option"
  pm_cache_ratio :: "jsnum option"
  pm_create_cache_ratio :: "jsnum option"
  pm_image_ratio :: "jsnum option"
  pm_audio_ratio :: "jsnum option"
  pm_audio_completion_ratio :: "jsnum option"
  pm_enable_groups :: "jsstring list option"
  pm_tags :: "jsstring option"
  pm_supported_endpoint_types :: "jsstring list option"
  pm_group_ratio :: "jsobj option"
  pm_billing_mode :: "jsstring option"
  pm_billing_expr :: "jsstring option"
  pm_billing_usage_schema :: "usage_schema option"
  pm_billing_usage_examples :: "usage_example list option"

definition FILTER_ALL :: jsstring where "FILTER_ALL = js ''all''"
definition EXCLUDED_GROUPS :: "jsstring list" where "EXCLUDED_GROUPS = [[], js ''auto'']"
definition QUOTA_TOKEN :: jsnum where "QUOTA_TOKEN = Fin 0"
definition QUOTA_REQUEST :: jsnum where "QUOTA_REQUEST = Fin 1"

text \<open>\<open>x ?? d\<close> and \<open>x || ''\<close> on an optional property.\<close>

definition default_to :: "'a \<Rightarrow> 'a option \<Rightarrow> 'a" where
  "default_to d x = (case x of Some v \<Rightarrow> v | None \<Rightarrow> d)"

text \<open>\<open>x || 0\<close>: also not-a-number and the negative zero become 0.\<close>

definition num_or_zero :: "jsnum option \<Rightarrow> jsnum" where
  "num_or_zero x = (case x of Some v \<Rightarrow> if v = NaN \<or> js_num_eq v (Fin 0) then Fin 0 else v | None \<Rightarrow> Fin 0)"

subsection \<open>Groups and their ratios\<close>

definition getAvailableGroups :: "pricing_model \<Rightarrow> (jsstring \<times> 'a) list \<Rightarrow> jsstring list" where
  "getAvailableGroups model usableGroup =
    filter (\<lambda>g. g \<in> set (default_to [] (pm_enable_groups model)))
      (filter (\<lambda>g. g \<notin> set EXCLUDED_GROUPS) (map fst usableGroup))"

fun finite_number :: "jsval option \<Rightarrow> jsnum option" where
  "finite_number (Some (VNum x)) = (if is_finite x then Some x else None)"
| "finite_number v = None"

definition getConfiguredGroupRatio :: "jsobj \<Rightarrow> jsstring \<Rightarrow> jsnum" where
  "getConfiguredGroupRatio groupRatio g = default_to (Fin 1) (finite_number (map_of groupRatio g))"

definition min_ratio :: "jsobj \<Rightarrow> jsstring \<Rightarrow> jsnum \<Rightarrow> jsnum" where
  "min_ratio groupRatio g minRatio =
    (case finite_number (map_of groupRatio g) of
       Some ratio \<Rightarrow> if js_lt ratio minRatio then ratio else minRatio
     | None \<Rightarrow> minRatio)"

definition getDisplayGroupRatio :: "pricing_model \<Rightarrow> jsstring option \<Rightarrow> jsnum" where
  "getDisplayGroupRatio model selectedGroup =
    (let modelEnableGroups = default_to [] (pm_enable_groups model);
         groupRatio = default_to [] (pm_group_ratio model);
         selected = default_to [] selectedGroup in
     if selected \<noteq> [] \<and> selected \<noteq> FILTER_ALL \<and> selected \<in> set modelEnableGroups
     then getConfiguredGroupRatio groupRatio selected
     else if modelEnableGroups = [] then Fin 1
     else
       let minRatio = fold (min_ratio groupRatio) modelEnableGroups Infinity
       in if minRatio = Infinity then Fin 1 else minRatio)"

text \<open>
  \<open>path.replaceAll('{model}', modelName)\<close>. The replacement is a template in which \<open>$$\<close>,
  \<open>$&\<close>, \<^verbatim>\<open>$`\<close> and \<^verbatim>\<open>$'\<close> are expanded.
\<close>

fun expand_template :: "jsstring \<Rightarrow> jsstring \<Rightarrow> jsstring \<Rightarrow> jsstring \<Rightarrow> jsstring" where
  "expand_template matched before after (a # b # rest) =
    (if a = 36 \<and> b = 36 then 36 # expand_template matched before after rest
     else if a = 36 \<and> b = 38 then matched @ expand_template matched before after rest
     else if a = 36 \<and> b = 96 then before @ expand_template matched before after rest
     else if a = 36 \<and> b = 39 then after @ expand_template matched before after rest
     else a # expand_template matched before after (b # rest))"
| "expand_template matched before after t = t"

fun replace_text :: "jsstring \<Rightarrow> jsstring \<Rightarrow> jsstring \<Rightarrow> nat \<Rightarrow> jsstring \<Rightarrow> jsstring" where
  "replace_text pat template before skip [] = []"
| "replace_text pat template before skip (c # s) =
    (if 0 < skip then replace_text pat template (before @ [c]) (skip - 1) s
     else if js_startsWith (c # s) pat
     then expand_template pat before (drop (length pat) (c # s)) template
       @ replace_text pat template (before @ [c]) (length pat - 1) s
     else c # replace_text pat template (before @ [c]) 0 s)"

definition replaceModelInPath :: "jsstring \<Rightarrow> jsstring \<Rightarrow> jsstring" where
  "replaceModelInPath path modelName = replace_text (js ''{model}'') modelName [] 0 path"

definition isTokenBasedModel :: "pricing_model \<Rightarrow> bool" where
  "isTokenBasedModel model = js_num_eq (pm_quota_type model) QUOTA_TOKEN"

subsection \<open>Kinds of billing\<close>

definition isDynamicPricingModel :: "pricing_model \<Rightarrow> bool" where
  "isDynamicPricingModel model \<longleftrightarrow>
     pm_billing_mode model = Some (js ''tiered_expr'') \<and> default_to [] (pm_billing_expr model) \<noteq> []"

definition hasTaskUsageSchema :: "pricing_model \<Rightarrow> bool" where
  "hasTaskUsageSchema model \<longleftrightarrow> default_to [] (pm_billing_usage_schema model) \<noteq> []"

definition isTaskUsagePricingModel :: "pricing_model \<Rightarrow> bool" where
  "isTaskUsagePricingModel model \<longleftrightarrow>
     pm_billing_mode model = Some (js ''tiered_expr'') \<and> hasTaskUsageSchema model"

definition isUnconfiguredTaskUsageModel :: "pricing_model \<Rightarrow> bool" where
  "isUnconfiguredTaskUsageModel model \<longleftrightarrow>
     \<not> js_num_eq (pm_quota_type model) (Fin 1) \<and> hasTaskUsageSchema model \<and> \<not> isDynamicPricingModel model"

datatype billing_mode_label = PerRequest | DynamicPricing | TokenBased | TaskBilling

definition getBillingModeLabelKey :: "pricing_model \<Rightarrow> billing_mode_label" where
  "getBillingModeLabelKey model =
    (if hasTaskUsageSchema model then TaskBilling
     else if isDynamicPricingModel model then DynamicPricing
     else if isTokenBasedModel model then TokenBased
     else PerRequest)"

subsection \<open>Filters\<close>

definition contains_text :: "host \<Rightarrow> jsstring \<Rightarrow> jsstring option \<Rightarrow> bool" where
  "contains_text h lowerQuery text =
    (case text of Some s \<Rightarrow> js_includes (host_toLowerCase h s) lowerQuery | None \<Rightarrow> False)"

definition filterBySearch :: "host \<Rightarrow> pricing_model list \<Rightarrow> jsstring \<Rightarrow> pricing_model list" where
  "filterBySearch h models query =
    (if query = [] then models
     else
       let lowerQuery = host_toLowerCase h query in
       filter (\<lambda>m. contains_text h lowerQuery (pm_model_name m) \<or> contains_text h lowerQuery (pm_description m)
         \<or> contains_text h lowerQuery (pm_tags m) \<or> contains_text h lowerQuery (pm_vendor_name m)) models)"

definition filterByVendor :: "pricing_model list \<Rightarrow> jsstring \<Rightarrow> pricing_model list" where
  "filterByVendor models vendor =
    (if vendor = FILTER_ALL then models else filter (\<lambda>m. pm_vendor_name m = Some vendor) models)"

definition listed :: "jsstring \<Rightarrow> jsstring list option \<Rightarrow> bool" where
  "listed x xs = (case xs of Some ys \<Rightarrow> x \<in> set ys | None \<Rightarrow> False)"

definition filterByGroup :: "pricing_model list \<Rightarrow> jsstring \<Rightarrow> pricing_model list" where
  "filterByGroup models g =
    (if g = FILTER_ALL then models else filter (\<lambda>m. listed g (pm_enable_groups m)) models)"

definition filterByQuotaType :: "pricing_model list \<Rightarrow> jsstring \<Rightarrow> pricing_model list" where
  "filterByQuotaType models quotaType =
    (if quotaType = FILTER_ALL then models
     else if quotaType = js ''task'' then filter hasTaskUsageSchema models
     else
       let targetType = (if quotaType = js ''token'' then QUOTA_TOKEN else QUOTA_REQUEST) in
       filter (\<lambda>m. js_num_eq (pm_quota_type m) targetType \<and> \<not> hasTaskUsageSchema m) models)"

definition filterByEndpointType :: "pricing_model list \<Rightarrow> jsstring \<Rightarrow> pricing_model list" where
  "filterByEndpointType models endpointType =
    (if endpointType = FILTER_ALL then models
     else filter (\<lambda>m. listed endpointType (pm_supported_endpoint_types m)) models)"

definition is_tag_separator :: "unit16 \<Rightarrow> bool" where
  "is_tag_separator c \<longleftrightarrow> c = 44 \<or> c = 59 \<or> c = 124 \<or> is_space c"

definition parseTags :: "jsstring option \<Rightarrow> jsstring list" where
  "parseTags tagsString =
    (let s = default_to [] tagsString in
     if s = [] then []
     else filter (\<lambda>t. t \<noteq> []) (map js_trim (split_regex (RPlus (RClass is_tag_separator)) [] s)))"

definition add_tags :: "host \<Rightarrow> pricing_model \<Rightarrow> jsstring list \<Rightarrow> jsstring list" where
  "add_tags h model tagSet =
    (if default_to [] (pm_tags model) = [] then tagSet
     else fold (\<lambda>tag. set_add (host_toLowerCase h tag)) (parseTags (pm_tags model)) tagSet)"

definition sort_strings :: "collation \<Rightarrow> jsstring list \<Rightarrow> jsstring list" where
  "sort_strings le xs = map fst (sort_by le (map (\<lambda>x. (x, ())) xs))"

definition extractAllTags :: "host \<Rightarrow> collation \<Rightarrow> pricing_model list \<Rightarrow> jsstring list" where
  "extractAllTags h le models = sort_strings le (fold (add_tags h) models [])"

definition has_tag :: "host \<Rightarrow> jsstring \<Rightarrow> pricing_model \<Rightarrow> bool" where
  "has_tag h tagLower m \<longleftrightarrow>
     default_to [] (pm_tags m) \<noteq> [] \<and> tagLower \<in> set (map (host_toLowerCase h) (parseTags (pm_tags m)))"

definition filterByTag :: "host \<Rightarrow> pricing_model list \<Rightarrow> jsstring \<Rightarrow> pricing_model list" where
  "filterByTag h models tag =
    (if tag = FILTER_ALL then models else filter (has_tag h (host_toLowerCase h tag)) models)"

subsection \<open>Sorting\<close>

definition getModelPrice :: "pricing_model \<Rightarrow> jsnum" where
  "getModelPrice model =
    (if js_num_eq (pm_quota_type model) (Fin 0) then pm_model_ratio model else num_or_zero (pm_model_price model))"

definition positive :: "jsnum \<Rightarrow> bool" where
  "positive x \<longleftrightarrow> js_lt (Fin 0) x"

definition sortModels :: "collation \<Rightarrow> pricing_model list \<Rightarrow> jsstring \<Rightarrow> pricing_model list" where
  "sortModels le models sortBy =
    (if sortBy = js ''name'' then
       sort_with (\<lambda>a b. \<not> le (default_to [] (pm_model_name a)) (default_to [] (pm_model_name b))) models
     else if sortBy = js ''price-low'' then
       sort_with (\<lambda>a b. positive (js_sub (getModelPrice a) (getModelPrice b))) models
     else if sortBy = js ''price-high'' then
       sort_with (\<lambda>a b. positive (js_sub (getModelPrice b) (getModelPrice a))) models
     else models)"

record catalog_filters =
  cf_search :: jsstring
  cf_vendor :: jsstring
  cf_group :: jsstring
  cf_quotaType :: jsstring
  cf_endpointType :: jsstring
  cf_tag :: jsstring
  cf_sortBy :: jsstring

definition filterAndSortModels ::
  "host \<Rightarrow> collation \<Rightarrow> pricing_model list \<Rightarrow> catalog_filters \<Rightarrow> pricing_model list" where
  "filterAndSortModels h le models fs =
    (let result = filterBySearch h models (cf_search fs);
         result = filterByVendor result (cf_vendor fs);
         result = filterByGroup result (cf_group fs);
         result = filterByQuotaType result (cf_quotaType fs);
         result = filterByEndpointType result (cf_endpointType fs);
         result = filterByTag h result (cf_tag fs)
     in sortModels le result (cf_sortBy fs))"

end
