(* ===== verification/JsRounding.thy ===== *)
theory JsRounding
  imports JsNumber
begin

section \<open>Rounding keeps the sign of a difference\<close>

text \<open>
  Facts about \<open>rnd64\<close> that comparisons by subtraction need: the difference of two binary64
  numbers is a multiple of the smallest positive one, so it is not rounded to zero
  (\<open>js_sub_positive\<close>).
\<close>

lemma pow2_powi: "pow2 e = 2 powi e"
  by (simp add: pow2_def power_int_def inverse_eq_divide power_divide)

lemma pow2_step: "pow2 (e + 1) = 2 * pow2 e"
  by (simp add: pow2_powi power_int_add)

lemma pow2_pos: "0 < pow2 e"
  by (simp add: pow2_powi zero_less_power_int)

lemma pow2_le: "a \<le> b \<Longrightarrow> pow2 a \<le> pow2 b"
  by (simp add: pow2_powi power_int_increasing)

text \<open>The exponent of a positive number bounds it from below.\<close>

lemma flog2_lower:
  assumes "0 < x"
  shows "pow2 (flog2 x) \<le> x"
proof -
  obtain p q where pq: "quotient_of x = (p, q)" by (cases "quotient_of x") auto
  have q: "0 < q" using pq by (rule quotient_of_denom_pos)
  have x: "x = of_int p / of_int q" using pq by (rule quotient_of_div)
  have p: "0 < p" using assms q by (simp add: x zero_less_divide_iff)
  define e where "e = ilog2 p - ilog2 q"
  have "pow2 (ilog2 p) \<le> of_int p"
    using ilog2_bounds[OF p] unfolding pow2_def by (metis of_int_le_iff)
  moreover have "of_int q \<le> pow2 (ilog2 q + 1)"
  proof -
    have "q \<le> 2 ^ nat (ilog2 q + 1)" using ilog2_bounds[OF q] by (simp add: nat_add_distrib)
    then have "of_int q \<le> (of_int (2 ^ nat (ilog2 q + 1)) :: rat)" by (simp only: of_int_le_iff)
    then show ?thesis using ilog2_bounds[OF q] by (simp add: pow2_def)
  qed
  moreover have "pow2 (e - 1) * pow2 (ilog2 q + 1) = pow2 (ilog2 p)"
    by (simp add: pow2_powi e_def flip: power_int_add)
  moreover have "pow2 (e - 1) * of_int q \<le> pow2 (e - 1) * pow2 (ilog2 q + 1)"
    using calculation(2) pow2_pos by (intro mult_left_mono) (simp_all add: less_imp_le)
  ultimately have "pow2 (e - 1) * of_int q \<le> of_int p" by linarith
  then have "pow2 (e - 1) \<le> x" using q by (simp add: x pos_le_divide_eq)
  then show ?thesis using pq by (auto simp: flog2_def e_def Let_def)
qed

lemma round_even_bounds: "\<lfloor>r\<rfloor> \<le> round_even r" "round_even r \<le> \<lfloor>r\<rfloor> + 1"
  by (auto simp: round_even_def Let_def)

text \<open>A difference of binary64 numbers is a multiple of the smallest one, and is never rounded to zero.\<close>

definition on_grid :: "rat \<Rightarrow> bool" where
  "on_grid r \<longleftrightarrow> of_int \<lfloor>r * 2 ^ 1074\<rfloor> = r * 2 ^ 1074"

lemma on_grid_dyadic:
  assumes "n \<le> 1074"
  shows "on_grid (of_int k / 2 ^ n)"
proof -
  have "(2::rat) ^ 1074 = 2 ^ n * 2 ^ (1074 - n)" using assms by (metis le_add_diff_inverse power_add)
  moreover have "a / 2 ^ n * (2 ^ n * c) = a * c" for a c :: rat by simp
  ultimately have "of_int k / 2 ^ n * (2::rat) ^ 1074 = of_int (k * 2 ^ (1074 - n))"
    by (simp only: of_int_mult of_int_power of_int_numeral)
  then show ?thesis unfolding on_grid_def by (simp only: floor_of_int)
qed

lemma on_grid_diff:
  assumes "on_grid a" "on_grid b"
  shows "on_grid (a - b)"
proof -
  have "(a - b) * 2 ^ 1074 = of_int (\<lfloor>a * 2 ^ 1074\<rfloor> - \<lfloor>b * 2 ^ 1074\<rfloor>)"
    using assms unfolding on_grid_def of_int_diff by (simp only: left_diff_distrib)
  then show ?thesis unfolding on_grid_def by (simp only: floor_of_int)
qed

text \<open>The distance of neighbouring numbers around \<open>x\<close>.\<close>

definition ulp :: "rat \<Rightarrow> rat" where
  "ulp x = pow2 (max (flog2 \<bar>x\<bar>) (- 1022) - 52)"

lemma ulp_pos: "0 < ulp x"
  by (simp add: ulp_def pow2_pos)

lemma rnd64_rounded:
  assumes "x \<noteq> 0" "r = of_int (round_even (x / ulp x)) * ulp x"
  shows "rnd64 x = (if pow2 1024 \<le> r then Infinity else if r \<le> - pow2 1024 then NegInfinity
     else if r = 0 then (if x < 0 then NegZero else Fin 0) else Fin r)"
  unfolding rnd64_def Let_def assms(2) ulp_def using assms(1) by (simp only: if_False)

lemma ulp_le:
  assumes "0 < x" "on_grid x"
  shows "ulp x \<le> x"
proof (cases "flog2 x \<le> - 1022")
  case True
  have "(0::rat) < 2 ^ 1074" by simp
  then have "0 < x * 2 ^ 1074" using assms(1) by (rule mult_pos_pos[rotated])
  then have "0 < \<lfloor>x * 2 ^ 1074\<rfloor>" using assms(2) unfolding on_grid_def by (metis of_int_0_less_iff)
  then have "(1::rat) \<le> of_int \<lfloor>x * 2 ^ 1074\<rfloor>" by (simp only: of_int_1_le_iff)
  then have "1 \<le> x * 2 ^ 1074" using assms(2) unfolding on_grid_def by simp
  moreover have "ulp x = 1 / 2 ^ 1074" using True assms(1) by (simp add: ulp_def pow2_def)
  ultimately show ?thesis by (simp only: pos_divide_le_eq[OF \<open>(0::rat) < 2 ^ 1074\<close>])
next
  case False
  then have "ulp x \<le> pow2 (flog2 x)" using assms(1) by (simp add: ulp_def pow2_le)
  also have "\<dots> \<le> x" by (rule flog2_lower[OF assms(1)])
  finally show ?thesis .
qed

lemma rnd64_pos:
  assumes "0 < x" "on_grid x"
  shows "js_lt (Fin 0) (rnd64 x)"
proof -
  define r where "r = of_int (round_even (x / ulp x)) * ulp x"
  have "1 \<le> x / ulp x" using ulp_le[OF assms] ulp_pos[of x] by (simp add: pos_le_divide_eq)
  then have "1 \<le> \<lfloor>x / ulp x\<rfloor>" by simp
  then have "1 \<le> round_even (x / ulp x)" using round_even_bounds(1)[of "x / ulp x"] by linarith
  then have "0 < r" unfolding r_def using ulp_pos by (intro mult_pos_pos) simp_all
  moreover have "\<not> r \<le> - pow2 1024" using calculation pow2_pos[of 1024] by linarith
  ultimately show ?thesis using assms(1) by (simp add: rnd64_rounded[OF _ r_def])
qed

lemma rnd64_neg:
  assumes "x < 0"
  shows "\<not> js_lt (Fin 0) (rnd64 x)"
proof -
  define r where "r = of_int (round_even (x / ulp x)) * ulp x"
  have "x / ulp x < 0" using assms ulp_pos by (simp add: divide_neg_pos)
  then have "\<lfloor>x / ulp x\<rfloor> \<le> - 1" by linarith
  then have "round_even (x / ulp x) \<le> 0" using round_even_bounds(2)[of "x / ulp x"] by linarith
  then have "r \<le> 0" unfolding r_def using ulp_pos[of x] by (simp add: mult_nonpos_nonneg)
  moreover have "\<not> pow2 1024 \<le> r" using calculation pow2_pos[of 1024] by linarith
  ultimately show ?thesis using assms by (simp add: rnd64_rounded[OF _ r_def])
qed

text \<open>\<open>a - b > 0\<close> decides \<open>a > b\<close>, although the difference is rounded.\<close>

lemma js_sub_positive:
  assumes "is_finite a" "is_finite b" "on_grid (num_val a)" "on_grid (num_val b)"
  shows "js_lt (Fin 0) (js_sub a b) \<longleftrightarrow> num_val b < num_val a"
proof -
  have b: "is_finite (js_neg b)" "num_val (js_neg b) = - num_val b" using assms(2) by (cases b; simp)+
  have nn: "a \<noteq> NaN" "js_neg b \<noteq> NaN" using assms(1) b(1) by auto
  show ?thesis
  proof (cases "a = NegZero \<and> js_neg b = NegZero")
    case True
    then show ?thesis using b(2) by (simp add: js_sub_def js_add_def)
  next
    case False
    then have s: "js_sub a b = rnd64 (num_val a - num_val b)"
      using assms(1) b nn by (auto simp: js_sub_def js_add_def)
    have g: "on_grid (num_val a - num_val b)" using assms(3,4) by (rule on_grid_diff)
    show ?thesis
      using rnd64_pos[OF _ g] rnd64_neg[of "num_val a - num_val b"]
      by (cases "num_val a" "num_val b" rule: linorder_cases) (auto simp: s rnd64_def[of 0])
  qed
qed

end
