(* ===== verification/CatalogLaws.thy ===== *)
theory CatalogLaws
  imports Catalog JsRounding
begin

section \<open>The model catalogue: selection, order, tags and ratios\<close>

text \<open>
  The list shown is a stable sort of exactly the models that meet every filter
  (\<open>catalog_selection\<close>); the kinds of billing partition the catalogue
  (\<open>quota_buckets_partition\<close>); the tags offered are the tags of the models, each selects
  at least one (\<open>extracted_tags_select\<close>); the ratio shown is the best of the enabled groups
  (\<open>display_ratio_best\<close>).
\<close>

subsection \<open>Order by price\<close>

definition price_value :: "pricing_model \<Rightarrow> rat" where
  "price_value m = num_val (getModelPrice m)"

interpretation low: comparison "\<lambda>a b. price_value a \<le> price_value b"
  by unfold_locales auto

interpretation high: comparison "\<lambda>a b. price_value b \<le> price_value a"
  by unfold_locales auto

definition catalog_order :: "collation \<Rightarrow> jsstring \<Rightarrow> pricing_model \<Rightarrow> pricing_model \<Rightarrow> bool" where
  "catalog_order le sortBy a b \<longleftrightarrow>
     (if sortBy = js ''name'' then le (default_to [] (pm_model_name a)) (default_to [] (pm_model_name b))
      else if sortBy = js ''price-low'' then price_value a \<le> price_value b
      else if sortBy = js ''price-high'' then price_value b \<le> price_value a
      else True)"

definition usable_price :: "pricing_model \<Rightarrow> bool" where
  "usable_price m \<longleftrightarrow> is_finite (getModelPrice m) \<and> on_grid (num_val (getModelPrice m))"

lemma price_after:
  "usable_price a \<Longrightarrow> usable_price b \<Longrightarrow>
     positive (js_sub (getModelPrice a) (getModelPrice b)) \<longleftrightarrow> \<not> price_value a \<le> price_value b"
  by (auto simp: usable_price_def positive_def price_value_def js_sub_positive)

lemma sortModels_stable:
  assumes le: "\<And>a b. le a b \<or> le b a" "\<And>a b c. le a b \<Longrightarrow> le b c \<Longrightarrow> le a c"
    and prices: "\<forall>m \<in> set ms. usable_price m"
  shows "stable_sorted (catalog_order le sortBy) ms (sortModels le ms sortBy)"
proof -
  let ?name = "\<lambda>m. default_to [] (pm_model_name m)"
  have "comparison (\<lambda>a b. le (?name a) (?name b))" using le by unfold_locales blast+
  note names = comparison.sort_stable[OF this, of ms]
  have lo: "sort_with (\<lambda>a b. positive (js_sub (getModelPrice a) (getModelPrice b))) ms
      = sort_with (\<lambda>a b. \<not> price_value a \<le> price_value b) ms"
    by (rule sort_with_cong) (use prices price_after in blast)
  have hi: "sort_with (\<lambda>a b. positive (js_sub (getModelPrice b) (getModelPrice a))) ms
      = sort_with (\<lambda>a b. \<not> price_value b \<le> price_value a) ms"
    by (rule sort_with_cong) (use prices price_after in blast)
  have triv: "sorted_wrt (\<lambda>a b. True) ms" by (induction ms) auto
  consider "sortBy = js ''name''" | "sortBy = js ''price-low''" | "sortBy = js ''price-high''"
    | "sortBy \<notin> {js ''name'', js ''price-low'', js ''price-high''}" by blast
  then show ?thesis
  proof cases
    case 1
    then show ?thesis using names by (simp add: catalog_order_def [abs_def] sortModels_def)
  next
    case 2
    then show ?thesis using low.sort_stable[of ms] by (simp add: catalog_order_def [abs_def] sortModels_def lo)
  next
    case 3
    then show ?thesis using high.sort_stable[of ms] by (simp add: catalog_order_def [abs_def] sortModels_def hi)
  next
    case 4
    then show ?thesis using triv by (simp add: catalog_order_def [abs_def] sortModels_def stable_sorted_def)
  qed
qed

subsection \<open>Selection\<close>

text \<open>What it means to meet every filter.\<close>

definition selected :: "host \<Rightarrow> catalog_filters \<Rightarrow> pricing_model \<Rightarrow> bool" where
  "selected h fs m \<longleftrightarrow>
     (cf_search fs = [] \<or> (\<exists>text \<in> set [pm_model_name m, pm_description m, pm_tags m, pm_vendor_name m].
        \<exists>s. text = Some s \<and> js_includes (host_toLowerCase h s) (host_toLowerCase h (cf_search fs))))
     \<and> (cf_vendor fs \<in> {FILTER_ALL, default_to FILTER_ALL (pm_vendor_name m)})
     \<and> (cf_group fs = FILTER_ALL \<or> cf_group fs \<in> set (default_to [] (pm_enable_groups m)))
     \<and> (cf_quotaType fs = FILTER_ALL
        \<or> (if hasTaskUsageSchema m then cf_quotaType fs = js ''task''
           else cf_quotaType fs \<noteq> js ''task''
             \<and> js_num_eq (pm_quota_type m) (if cf_quotaType fs = js ''token'' then Fin 0 else Fin 1)))
     \<and> (cf_endpointType fs = FILTER_ALL
        \<or> cf_endpointType fs \<in> set (default_to [] (pm_supported_endpoint_types m)))
     \<and> (cf_tag fs = FILTER_ALL
        \<or> host_toLowerCase h (cf_tag fs) \<in> host_toLowerCase h ` set (parseTags (pm_tags m)))"

lemma filterBySearch_eq:
  "filterBySearch h ms q = filter (\<lambda>m. q = [] \<or> (\<exists>text \<in> set [pm_model_name m, pm_description m, pm_tags m,
     pm_vendor_name m]. \<exists>s. text = Some s \<and> js_includes (host_toLowerCase h s) (host_toLowerCase h q))) ms"
  by (auto simp: filterBySearch_def contains_text_def Let_def split: option.splits intro!: filter_cong)

lemma filterByVendor_eq:
  "filterByVendor ms v = filter (\<lambda>m. v \<in> {FILTER_ALL, default_to FILTER_ALL (pm_vendor_name m)}) ms"
  by (auto simp: filterByVendor_def default_to_def split: option.splits intro!: filter_cong)

lemma listed_iff: "listed x xs \<longleftrightarrow> x \<in> set (default_to [] xs)"
  by (simp add: listed_def default_to_def split: option.splits)

lemma filterByQuotaType_eq:
  "filterByQuotaType ms q = filter (\<lambda>m. q = FILTER_ALL
     \<or> (if hasTaskUsageSchema m then q = js ''task''
        else q \<noteq> js ''task'' \<and> js_num_eq (pm_quota_type m) (if q = js ''token'' then Fin 0 else Fin 1))) ms"
  by (auto simp: filterByQuotaType_def QUOTA_TOKEN_def QUOTA_REQUEST_def FILTER_ALL_def Let_def
      intro!: filter_cong)

lemma has_tag_iff: "has_tag h t m \<longleftrightarrow> t \<in> host_toLowerCase h ` set (parseTags (pm_tags m))"
  by (auto simp: has_tag_def parseTags_def Let_def)

lemma filterByTag_eq:
  "filterByTag h ms t = filter (\<lambda>m. t = FILTER_ALL
     \<or> host_toLowerCase h t \<in> host_toLowerCase h ` set (parseTags (pm_tags m))) ms"
  by (simp add: filterByTag_def has_tag_iff [abs_def])

lemmas filter_eqs = filterBySearch_eq filterByVendor_eq filterByQuotaType_eq filterByTag_eq

lemma filters_selected:
  "filterAndSortModels h le ms fs = sortModels le (filter (selected h fs) ms) (cf_sortBy fs)"
proof -
  have g: "filterByGroup xs g = filter (\<lambda>m. g = FILTER_ALL \<or> g \<in> set (default_to [] (pm_enable_groups m))) xs"
    for xs g by (simp add: filterByGroup_def listed_iff)
  have e: "filterByEndpointType xs t
      = filter (\<lambda>m. t = FILTER_ALL \<or> t \<in> set (default_to [] (pm_supported_endpoint_types m))) xs"
    for xs t by (simp add: filterByEndpointType_def listed_iff)
  show ?thesis
    unfolding filterAndSortModels_def Let_def filter_eqs g e filter_filter
    by (intro arg_cong[where f = "\<lambda>xs. sortModels le xs (cf_sortBy fs)"] filter_cong refl)
      (simp only: selected_def)
qed

text \<open>
  C19: The catalogue list is a stable sort of exactly the models that meet every filter: nothing is
  lost or repeated, the list is ordered by the chosen criterion, and models that are equal under
  it keep their order. Prices are finite binary64 numbers and the collation is a total preorder.
\<close>

theorem catalog_selection:
  assumes le: "\<And>a b. le a b \<or> le b a" "\<And>a b c. le a b \<Longrightarrow> le b c \<Longrightarrow> le a c"
    and prices: "\<forall>m \<in> set ms. usable_price m"
  shows "stable_sorted (catalog_order le (cf_sortBy fs)) (filter (selected h fs) ms)
    (filterAndSortModels h le ms fs)"
  unfolding filters_selected
  using le prices by (intro sortModels_stable) auto

definition cx_host :: host where
  "cx_host = \<lparr>host_clock = None, host_toLowerCase = map (\<lambda>c. if is_upper c then c + 32 else c),
     host_DateTimeFormat = (\<lambda>zone. None)\<rparr>"

definition cx_model :: "string \<Rightarrow> rat \<Rightarrow> rat \<Rightarrow> pricing_model" where
  "cx_model name quota ratio =
    \<lparr>pm_model_name = Some (js name), pm_description = None, pm_vendor_name = Some (js ''Acme''),
     pm_quota_type = Fin quota, pm_model_ratio = Fin ratio, pm_completion_ratio = Fin 1,
     pm_model_price = Some (Fin 3), pm_cache_ratio = None, pm_create_cache_ratio = None, pm_image_ratio = None,
     pm_audio_ratio = None, pm_audio_completion_ratio = None,
     pm_enable_groups = Some [js ''default''], pm_tags = Some (js ''Fast, chat''),
     pm_supported_endpoint_types = Some [js ''openai''], pm_group_ratio = None, pm_billing_mode = None,
     pm_billing_expr = None, pm_billing_usage_schema = None, pm_billing_usage_examples = None\<rparr>"

definition cx_models :: "pricing_model list" where
  "cx_models = [cx_model ''large'' 0 (5 / 2), cx_model ''small'' 0 (1 / 4), cx_model ''image'' 1 9]"

definition cx_filters :: catalog_filters where
  "cx_filters = \<lparr>cf_search = js ''FAST'', cf_vendor = js ''Acme'', cf_group = FILTER_ALL,
     cf_quotaType = js ''token'', cf_endpointType = js ''openai'', cf_tag = js ''chat'', cf_sortBy = js ''price-low''\<rparr>"

lemma cx_prices: "list_all usable_price cx_models"
proof -
  have "map getModelPrice cx_models = [Fin (of_int 5 / 2 ^ 1), Fin (of_int 1 / 2 ^ 2), Fin (of_int 3 / 2 ^ 0)]"
    by code_simp
  then have "list_all (\<lambda>x. is_finite x \<and> on_grid (num_val x)) (map getModelPrice cx_models)"
    using on_grid_dyadic[of 1 5] on_grid_dyadic[of 2 1] on_grid_dyadic[of 0 3] by simp
  then show ?thesis by (simp add: list_all_iff usable_price_def)
qed

lemma cx_result:
  "map pm_model_name (filterAndSortModels cx_host (\<le>) cx_models cx_filters) = [Some (js ''small''), Some (js ''large'')]"
  by code_simp

theorem catalog_selection_witness:
  "map pm_model_name (filterAndSortModels cx_host (\<le>) cx_models cx_filters) = [Some (js ''small''), Some (js ''large'')]
    \<and> stable_sorted (catalog_order (\<le>) (cf_sortBy cx_filters)) (filter (selected cx_host cx_filters) cx_models)
        (filterAndSortModels cx_host (\<le>) cx_models cx_filters)"
proof -
  have "\<forall>m \<in> set cx_models. usable_price m" using cx_prices by (simp only: list_all_iff)
  from catalog_selection[of "(\<le>)" cx_models cx_filters cx_host, OF linear _ this] cx_result
  show ?thesis by (blast intro: order_trans)
qed

subsection \<open>Kinds of billing\<close>

text \<open>
  Every model with a known quota type is in exactly one of the three lists token, request and
  task, and the task list holds the models that carry the badge of task billing.
\<close>

theorem quota_buckets_partition:
  assumes "\<forall>m \<in> set ms. pm_quota_type m \<in> {Fin 0, Fin 1}"
  shows "mset ms = mset (filterByQuotaType ms (js ''token'')) + mset (filterByQuotaType ms (js ''request''))
      + mset (filterByQuotaType ms (js ''task''))
    \<and> filterByQuotaType ms (js ''task'') = filter (\<lambda>m. getBillingModeLabelKey m = TaskBilling) ms
    \<and> (\<forall>m \<in> set (filterByQuotaType ms (js ''token'')). getBillingModeLabelKey m \<in> {DynamicPricing, TokenBased})"
proof -
  have m: "mset ms = mset (filterByQuotaType ms (js ''token'')) + mset (filterByQuotaType ms (js ''request''))
      + mset (filterByQuotaType ms (js ''task''))"
    using assms by (induction ms) (auto simp: filterByQuotaType_eq FILTER_ALL_def)
  have t: "filterByQuotaType ms (js ''task'') = filter (\<lambda>m. getBillingModeLabelKey m = TaskBilling) ms"
    by (auto simp: filterByQuotaType_def FILTER_ALL_def getBillingModeLabelKey_def intro!: filter_cong)
  have k: "\<forall>m \<in> set (filterByQuotaType ms (js ''token'')). getBillingModeLabelKey m \<in> {DynamicPricing, TokenBased}"
    by (auto simp: filterByQuotaType_eq FILTER_ALL_def getBillingModeLabelKey_def isTokenBasedModel_def
        QUOTA_TOKEN_def split: if_splits)
  show ?thesis using m t k by blast
qed

theorem quota_buckets_partition_witness:
  "mset cx_models = mset (filterByQuotaType cx_models (js ''token'')) + mset (filterByQuotaType cx_models (js ''request''))
      + mset (filterByQuotaType cx_models (js ''task''))"
proof -
  have "\<forall>m \<in> set cx_models. pm_quota_type m \<in> {Fin 0, Fin 1}" by (simp add: cx_models_def cx_model_def)
  from quota_buckets_partition[OF this] show ?thesis by (rule conjunct1)
qed

subsection \<open>Tags\<close>

lemma split_class_step:
  "match_prefix (RPlus (RClass p)) (c # s) = (if p c then Some (dropWhile p s, []) else None)"
proof (cases "p c")
  case True
  let ?v = "c # takeWhile p s"
  have "list_all p (takeWhile p s)" by (induction s) auto
  then have "class_run p ?v (dropWhile p s)"
    using True hd_dropWhile[of p s] by (auto simp: class_run_def)
  from matches_plus[OF this, of "[]"] obtain sts where
      "matches (RPlus (RClass p)) (c # s, []) = (dropWhile p s, []) # sts"
    using runs_first[of "tl ?v" "dropWhile p s" "[]"] by auto
  then show ?thesis using True by (simp add: match_prefix_def)
qed (simp add: match_prefix_def RPlus_def eat_class_def)

lemma split_class_pieces:
  assumes "\<forall>c \<in> set piece. \<not> p c"
  shows "(\<forall>t \<in> set (split_regex (RPlus (RClass p)) piece s). \<forall>c \<in> set t. \<not> p c)
    \<and> concat (split_regex (RPlus (RClass p)) piece s) = piece @ filter (\<lambda>c. \<not> p c) s"
  using assms
proof (induction s arbitrary: piece rule: length_induct)
  case (1 s)
  show ?case
  proof (cases s)
    case (Cons c u)
    have d: "length (dropWhile p u) < length s" using length_dropWhile_le[of p u] by (simp add: Cons less_Suc_eq_le)
    have f: "filter (\<lambda>c. \<not> p c) (dropWhile p u) = filter (\<lambda>c. \<not> p c) u" by (induction u) auto
    have e: "split_regex (RPlus (RClass p)) piece s =
        (if p c then piece # split_regex (RPlus (RClass p)) [] (dropWhile p u)
         else split_regex (RPlus (RClass p)) (piece @ [c]) u)"
      using d by (simp add: Cons split_class_step)
    show ?thesis
    proof (cases "p c")
      case True
      then show ?thesis using 1(1)[rule_format, OF d, of "[]"] 1(2) unfolding e by (simp add: Cons f)
    next
      case False
      then show ?thesis using 1(1)[rule_format, of u "piece @ [c]"] 1(2) unfolding e by (auto simp: Cons)
    qed
  qed (use 1(2) in simp)
qed

lemma tag_trimmed: "\<forall>c \<in> set t. \<not> is_tag_separator c \<Longrightarrow> js_trim t = t"
proof (rule js_trim_trimmed)
  assume t: "\<forall>c \<in> set t. \<not> is_tag_separator c"
  have "\<forall>c \<in> set t. \<not> is_space c" using t unfolding is_tag_separator_def by blast
  then show "trimmed t" by (cases t rule: rev_cases) (simp_all add: trimmed_def hd_append)
qed

lemma concat_nonempty: "concat (filter (\<lambda>t. t \<noteq> []) ts) = concat ts"
  by (induction ts) auto

lemma parseTags_pieces:
  "(\<forall>t \<in> set (parseTags ts). t \<noteq> [] \<and> (\<forall>c \<in> set t. \<not> is_tag_separator c))
    \<and> concat (parseTags ts) = filter (\<lambda>c. \<not> is_tag_separator c) (default_to [] ts)"
proof -
  let ?ps = "split_regex (RPlus (RClass is_tag_separator)) [] (default_to [] ts)"
  note pieces = split_class_pieces[of "[]" is_tag_separator "default_to [] ts"]
  then have "map js_trim ?ps = ?ps" by (intro map_idI) (simp add: tag_trimmed)
  then show ?thesis using pieces by (auto simp: parseTags_def Let_def concat_nonempty)
qed

lemma add_tags_set [simp]: "set (add_tags h m ts) = host_toLowerCase h ` set (parseTags (pm_tags m)) \<union> set ts"
proof -
  have "set (fold (\<lambda>tag. set_add (f tag)) xs ts) = f ` set xs \<union> set ts" for f xs
    by (induction xs arbitrary: ts) auto
  then show ?thesis by (auto simp: add_tags_def parseTags_def Let_def)
qed

lemma add_tags_distinct: "distinct ts \<Longrightarrow> distinct (add_tags h m ts)"
proof -
  assume "distinct ts"
  then have "distinct (fold (\<lambda>tag. set_add (f tag)) xs ts)" for f :: "jsstring \<Rightarrow> jsstring" and xs
    by (induction xs arbitrary: ts) auto
  with \<open>distinct ts\<close> show ?thesis by (simp add: add_tags_def)
qed

lemma mset_sort_strings: "mset (sort_strings le xs) = mset xs"
proof -
  have i: "mset (insert_by le x ys) = add_mset x (mset ys)" for x and ys :: "(jsstring \<times> unit) list"
    by (induction ys) auto
  have "mset (sort_by le ys) = mset ys" for ys :: "(jsstring \<times> unit) list"
    by (induction ys) (simp_all add: i)
  then have "mset (sort_strings le xs) = image_mset fst (mset (map (\<lambda>x. (x, ())) xs))"
    unfolding sort_strings_def mset_map by simp
  then show ?thesis by (simp add: multiset.map_comp comp_def)
qed

lemma extracted_tags:
  "set (extractAllTags h le ms) = (\<Union>m \<in> set ms. host_toLowerCase h ` set (parseTags (pm_tags m)))"
  "distinct (extractAllTags h le ms)"
proof -
  have s: "set (fold (add_tags h) ms ts) = (\<Union>m \<in> set ms. host_toLowerCase h ` set (parseTags (pm_tags m))) \<union> set ts"
    for ts by (induction ms arbitrary: ts) auto
  have d: "distinct ts \<Longrightarrow> distinct (fold (add_tags h) ms ts)" for ts
    by (induction ms arbitrary: ts) (auto simp: add_tags_distinct)
  note m = mset_sort_strings[of le "fold (add_tags h) ms []"]
  show "set (extractAllTags h le ms) = (\<Union>m \<in> set ms. host_toLowerCase h ` set (parseTags (pm_tags m)))"
    using mset_eq_setD[OF m] s[of "[]"] by (simp add: extractAllTags_def)
  show "distinct (extractAllTags h le ms)"
    using mset_eq_imp_distinct_iff[OF m] d[of "[]"] by (simp add: extractAllTags_def)
qed

text \<open>
  Tags are the maximal runs of characters between separators. The tags offered as filters are the lower-case tags of the
  models, each once, and choosing one of them never gives an empty list. Lower-casing twice is lower-casing once.
\<close>

theorem extracted_tags_select:
  assumes "\<And>s. host_toLowerCase h (host_toLowerCase h s) = host_toLowerCase h s"
  shows "(\<forall>t \<in> set (parseTags ts). t \<noteq> [] \<and> (\<forall>c \<in> set t. \<not> is_tag_separator c))
    \<and> concat (parseTags ts) = filter (\<lambda>c. \<not> is_tag_separator c) (default_to [] ts)
    \<and> distinct (extractAllTags h le ms)
    \<and> set (extractAllTags h le ms) = (\<Union>m \<in> set ms. host_toLowerCase h ` set (parseTags (pm_tags m)))
    \<and> (\<forall>t \<in> set (extractAllTags h le ms). filterByTag h ms t \<noteq> [])"
proof -
  have "filterByTag h ms t \<noteq> []" if t: "t \<in> set (extractAllTags h le ms)" for t
  proof -
    from t obtain m where m: "m \<in> set ms" "t \<in> host_toLowerCase h ` set (parseTags (pm_tags m))"
      by (auto simp: extracted_tags)
    then have "host_toLowerCase h t \<in> host_toLowerCase h ` set (parseTags (pm_tags m))" using assms by auto
    with m(1) show ?thesis by (auto simp: filterByTag_eq filter_empty_conv)
  qed
  then have "\<forall>t \<in> set (extractAllTags h le ms). filterByTag h ms t \<noteq> []" ..
  then show ?thesis
    using parseTags_pieces[of ts] extracted_tags(1)[of h le ms] extracted_tags(2)[of h le ms]
    by (intro conjI) simp_all
qed

lemma cx_lower: "host_toLowerCase cx_host (host_toLowerCase cx_host s) = host_toLowerCase cx_host s"
proof -
  have "\<not> is_upper (c + 32)" if "is_upper c" for c :: unit16
  proof -
    have "65 \<le> c" "c \<le> 90" using that by (simp_all add: is_upper_def)
    then have "unat c \<le> 90" "65 \<le> unat c" by (simp_all add: word_le_nat_alt)
    then have "unat (c + 32) = unat c + 32" by (subst unat_add_lem[THEN iffD1]) simp_all
    then show ?thesis using \<open>65 \<le> unat c\<close> by (simp add: is_upper_def word_le_nat_alt)
  qed
  then show ?thesis by (simp add: cx_host_def)
qed

theorem extracted_tags_select_witness:
  "parseTags (Some (js ''Fast, chat'')) = [js ''Fast'', js ''chat'']
    \<and> extractAllTags cx_host (\<le>) cx_models = [js ''chat'', js ''fast'']
    \<and> filterByTag cx_host cx_models (js ''chat'') \<noteq> []"
proof -
  have t: "parseTags (Some (js ''Fast, chat'')) = [js ''Fast'', js ''chat'']" by code_simp
  have e: "extractAllTags cx_host (\<le>) cx_models = [js ''chat'', js ''fast'']" by code_simp
  show ?thesis
    using extracted_tags_select[of cx_host None "(\<le>)" cx_models, OF cx_lower] unfolding e t by auto
qed

subsection \<open>Group ratios\<close>

definition configured :: "pricing_model \<Rightarrow> jsstring \<Rightarrow> jsnum option" where
  "configured model g = finite_number (map_of (default_to [] (pm_group_ratio model)) g)"

lemma finite_number_finite: "finite_number v = Some x \<Longrightarrow> is_finite x"
  by (cases v rule: finite_number.cases) (auto split: if_splits)

text \<open>Numbers other than not-a-number are linearly ordered.\<close>

fun rank :: "jsnum \<Rightarrow> int \<times> rat" where
  "rank NegInfinity = (- 1, 0)"
| "rank Infinity = (1, 0)"
| "rank a = (0, num_val a)"

definition rank_lt :: "int \<times> rat \<Rightarrow> int \<times> rat \<Rightarrow> bool" where
  "rank_lt a b \<longleftrightarrow> fst a < fst b \<or> fst a = fst b \<and> snd a < snd b"

lemma js_lt_rank: "a \<noteq> NaN \<Longrightarrow> b \<noteq> NaN \<Longrightarrow> js_lt a b \<longleftrightarrow> rank_lt (rank a) (rank b)"
  by (cases a; cases b) (simp_all add: rank_lt_def)

lemma js_lt_irrefl: "\<not> js_lt a a"
  by (cases a) auto

lemma js_lt_asym: "js_lt a b \<Longrightarrow> \<not> js_lt b a"
  by (cases "a = NaN"; cases "b = NaN") (auto simp: js_lt_rank rank_lt_def)

lemma not_js_lt_trans:
  "\<not> js_lt a b \<Longrightarrow> \<not> js_lt b c \<Longrightarrow> a \<noteq> NaN \<Longrightarrow> b \<noteq> NaN \<Longrightarrow> c \<noteq> NaN \<Longrightarrow> \<not> js_lt a c"
  by (auto simp: js_lt_rank rank_lt_def)

lemma min_ratio_step:
  assumes "m0 \<noteq> NaN"
  shows "min_ratio o1 g m0 \<noteq> NaN"
    and "min_ratio o1 g m0 = m0 \<or> finite_number (map_of o1 g) = Some (min_ratio o1 g m0)"
    and "\<not> js_lt m0 (min_ratio o1 g m0)"
    and "finite_number (map_of o1 g) = Some x \<Longrightarrow> \<not> js_lt x (min_ratio o1 g m0)"
proof -
  consider (none) "min_ratio o1 g m0 = m0" "finite_number (map_of o1 g) = None"
    | (low) y where "finite_number (map_of o1 g) = Some y" "js_lt y m0" "min_ratio o1 g m0 = y"
    | (high) y where "finite_number (map_of o1 g) = Some y" "\<not> js_lt y m0" "min_ratio o1 g m0 = m0"
    by (cases "finite_number (map_of o1 g)") (auto simp: min_ratio_def split: if_splits)
  note cs = this
  show "min_ratio o1 g m0 \<noteq> NaN" using cs by cases (use assms finite_number_finite in force)+
  show "min_ratio o1 g m0 = m0 \<or> finite_number (map_of o1 g) = Some (min_ratio o1 g m0)" using cs by cases simp_all
  show "\<not> js_lt m0 (min_ratio o1 g m0)" using cs by cases (simp_all add: js_lt_irrefl js_lt_asym)
  show "finite_number (map_of o1 g) = Some x \<Longrightarrow> \<not> js_lt x (min_ratio o1 g m0)"
    using cs by cases (simp_all add: js_lt_irrefl)
qed

lemma min_ratio_fold:
  assumes "m0 \<noteq> NaN" "res = fold (min_ratio o1) gs m0"
  shows "res \<noteq> NaN \<and> (res = m0 \<or> (\<exists>g \<in> set gs. finite_number (map_of o1 g) = Some res))
    \<and> \<not> js_lt m0 res \<and> (\<forall>g \<in> set gs. \<forall>x. finite_number (map_of o1 g) = Some x \<longrightarrow> \<not> js_lt x res)"
  using assms
proof (induction gs arbitrary: m0)
  case Nil
  then show ?case by (simp add: js_lt_irrefl)
next
  case (Cons g gs)
  let ?m = "min_ratio o1 g m0"
  note m = min_ratio_step[OF Cons.prems(1), of o1 g]
  have IH: "res \<noteq> NaN" "res = ?m \<or> (\<exists>g \<in> set gs. finite_number (map_of o1 g) = Some res)" "\<not> js_lt ?m res"
      "\<And>g x. g \<in> set gs \<Longrightarrow> finite_number (map_of o1 g) = Some x \<Longrightarrow> \<not> js_lt x res"
    using Cons.IH[OF m(1)] Cons.prems(2) by auto
  have up: "\<not> js_lt a res" if "\<not> js_lt a ?m" "a \<noteq> NaN" for a
    using that IH(1,3) m(1) not_js_lt_trans by blast
  have "\<not> js_lt m0 res" using up m(3) Cons.prems(1) by blast
  moreover have "\<not> js_lt x res" if "finite_number (map_of o1 g) = Some x" for x
    using up[OF m(4)[OF that]] finite_number_finite[OF that] by (cases "x = NaN") auto
  ultimately show ?case using IH m(2) by auto
qed

text \<open>
  The ratio shown for a model is the configured ratio of the selected group if the model is enabled
  for it; otherwise it is a smallest finite ratio of the enabled groups, and 1 if none of them has
  a finite ratio. It is always a finite number.
\<close>

theorem display_ratio_best:
  "is_finite (getDisplayGroupRatio model selectedGroup)
    \<and> (let gs = default_to [] (pm_enable_groups model); g = default_to [] selectedGroup;
           r = getDisplayGroupRatio model selectedGroup
       in if g \<noteq> [] \<and> g \<noteq> FILTER_ALL \<and> g \<in> set gs then r = default_to (Fin 1) (configured model g)
          else if \<forall>g \<in> set gs. configured model g = None then r = Fin 1
          else (\<exists>g \<in> set gs. configured model g = Some r)
            \<and> (\<forall>g \<in> set gs. \<forall>x. configured model g = Some x \<longrightarrow> \<not> js_lt x r))"
proof -
  define gs where "gs = default_to [] (pm_enable_groups model)"
  define g where "g = default_to [] selectedGroup"
  define o1 where "o1 = default_to [] (pm_group_ratio model)"
  define res where "res = fold (min_ratio o1) gs Infinity"
  have c: "configured model = (\<lambda>g. finite_number (map_of o1 g))" by (simp add: configured_def [abs_def] o1_def)
  have r: "getDisplayGroupRatio model selectedGroup =
      (if g \<noteq> [] \<and> g \<noteq> FILTER_ALL \<and> g \<in> set gs then default_to (Fin 1) (configured model g)
       else if res = Infinity then Fin 1 else res)"
    unfolding getDisplayGroupRatio_def Let_def c res_def o1_def[symmetric] gs_def[symmetric] g_def[symmetric]
    by (simp add: getConfiguredGroupRatio_def)
  note f = min_ratio_fold[of Infinity res o1 gs, OF _ res_def, simplified]
  have fin: "\<And>g x. configured model g = Some x \<Longrightarrow> is_finite x" by (simp add: c finite_number_finite)
  have none: "res = Infinity \<longleftrightarrow> (\<forall>g \<in> set gs. configured model g = None)"
  proof
    assume i: "res = Infinity"
    have "configured model g = None" if g: "g \<in> set gs" for g
    proof (rule ccontr)
      assume "configured model g \<noteq> None"
      then obtain x where x: "configured model g = Some x" by auto
      then have "\<not> js_lt x res" using f g by (auto simp: c)
      then show False using fin[OF x] i by (cases x) auto
    qed
    then show "\<forall>g \<in> set gs. configured model g = None" by blast
  qed (use f in \<open>auto simp: c\<close>)
  have "is_finite (default_to (Fin 1) (configured model g))"
    using fin by (auto simp: default_to_def split: option.splits)
  moreover have "res \<noteq> Infinity \<Longrightarrow> is_finite res" using f fin by (auto simp: c)
  ultimately show ?thesis
    using f none unfolding Let_def r gs_def[symmetric] g_def[symmetric] by (auto simp: c)
qed

definition rx_model :: pricing_model where
  "rx_model = (cx_model ''shared'' 0 1)\<lparr>pm_enable_groups := Some [js ''default'', js ''vip'', js ''free''],
     pm_group_ratio := Some [(js ''default'', VNum (Fin 1)), (js ''vip'', VNum (Fin (1 / 2))), (js ''free'', VStr (js ''0''))]\<rparr>"

theorem display_ratio_best_witness:
  "getDisplayGroupRatio rx_model None = Fin (1 / 2) \<and> configured rx_model (js ''default'') = Some (Fin 1)
    \<and> \<not> js_lt (Fin 1) (getDisplayGroupRatio rx_model None)"
proof -
  have r: "getDisplayGroupRatio rx_model None = Fin (1 / 2)" by code_simp
  have g: "default_to [] (pm_enable_groups rx_model) = [js ''default'', js ''vip'', js ''free'']"
      "configured rx_model (js ''default'') = Some (Fin 1)" by code_simp+
  have "default_to [] (None :: jsstring option) = []" by (simp add: default_to_def)
  with display_ratio_best[of rx_model None] g have "\<not> js_lt (Fin 1) (getDisplayGroupRatio rx_model None)"
    by (simp add: Let_def split: if_splits)
  with r g(2) show ?thesis by blast
qed

end
