(* ===== verification/Currency.thy ===== *)
theory Currency
  imports TierExpr
begin

section \<open>Amounts of money\<close>

text \<open>
  Model of \<^verbatim>\<open>web/src/lib/currency.ts\<close>: the display currency configured by the administrator and the
  formatting of amounts. The store's configuration is an argument, with \<open>None\<close> for a property that
  it does not have. \<open>Intl.NumberFormat\<close>, which formats from the engine's locale tables and may
  throw, is the parameter \<open>intl\<close>; \<open>toFixed\<close> is defined by the language and computed here.
  Numbers of fraction digits are integers, as everywhere in the program.
\<close>

subsection \<open>Configuration\<close>

record currency_config =
  cc_displayInCurrency :: bool
  cc_quotaDisplayType :: jsstring
  cc_quotaPerUnit :: jsnum
  cc_usdExchangeRate :: jsnum
  cc_customCurrencySymbol :: jsstring
  cc_customCurrencyExchangeRate :: jsnum

definition DEFAULT_CURRENCY_CONFIG :: currency_config where
  "DEFAULT_CURRENCY_CONFIG =
    \<lparr>cc_displayInCurrency = True, cc_quotaDisplayType = js ''USD'', cc_quotaPerUnit = Fin 500000,
     cc_usdExchangeRate = Fin 1, cc_customCurrencySymbol = [164], cc_customCurrencyExchangeRate = Fin 1\<rparr>"

record stored_currency =
  sc_displayInCurrency :: "bool option"
  sc_quotaDisplayType :: "jsstring option"
  sc_quotaPerUnit :: "jsnum option"
  sc_usdExchangeRate :: "jsnum option"
  sc_customCurrencySymbol :: "jsstring option"
  sc_customCurrencyExchangeRate :: "jsnum option"

definition DISPLAY_TYPE_VALUES :: "jsstring list" where
  "DISPLAY_TYPE_VALUES = map js [''USD'', ''CNY'', ''TOKENS'', ''CUSTOM'']"

definition isCurrencyDisplayType :: "jsval \<Rightarrow> bool" where
  "isCurrencyDisplayType v = (case v of VStr s \<Rightarrow> s \<in> set DISPLAY_TYPE_VALUES | _ \<Rightarrow> False)"

definition parseCurrencyDisplayType :: "jsval \<Rightarrow> jsstring \<Rightarrow> jsstring" where
  "parseCurrencyDisplayType v fallback =
    (case v of VStr s \<Rightarrow> if isCurrencyDisplayType v then s else fallback | _ \<Rightarrow> fallback)"

text \<open>\<open>x && x > 0 ? x : d\<close>, \<open>{...d, ...x}\<close> and \<open>x?.trim() || d\<close>.\<close>

definition positive_or :: "jsnum \<Rightarrow> jsnum option \<Rightarrow> jsnum" where
  "positive_or d x = (case x of Some v \<Rightarrow> if js_lt (Fin 0) v then v else d | None \<Rightarrow> d)"

definition given_or :: "'a \<Rightarrow> 'a option \<Rightarrow> 'a" where
  "given_or d x = (case x of Some v \<Rightarrow> v | None \<Rightarrow> d)"

definition symbol_or :: "jsstring \<Rightarrow> jsstring option \<Rightarrow> jsstring" where
  "symbol_or d x = (case x of Some s \<Rightarrow> if js_trim s = [] then d else js_trim s | None \<Rightarrow> d)"

definition getConfig :: "stored_currency option \<Rightarrow> currency_config" where
  "getConfig store =
    (case store of
       None \<Rightarrow> DEFAULT_CURRENCY_CONFIG
     | Some currency \<Rightarrow>
         \<lparr>cc_displayInCurrency = given_or (cc_displayInCurrency DEFAULT_CURRENCY_CONFIG) (sc_displayInCurrency currency),
          cc_quotaDisplayType = given_or (cc_quotaDisplayType DEFAULT_CURRENCY_CONFIG) (sc_quotaDisplayType currency),
          cc_quotaPerUnit = positive_or (cc_quotaPerUnit DEFAULT_CURRENCY_CONFIG) (sc_quotaPerUnit currency),
          cc_usdExchangeRate = positive_or (cc_usdExchangeRate DEFAULT_CURRENCY_CONFIG) (sc_usdExchangeRate currency),
          cc_customCurrencySymbol =
            symbol_or (cc_customCurrencySymbol DEFAULT_CURRENCY_CONFIG) (sc_customCurrencySymbol currency),
          cc_customCurrencyExchangeRate =
            positive_or (cc_customCurrencyExchangeRate DEFAULT_CURRENCY_CONFIG) (sc_customCurrencyExchangeRate currency)\<rparr>)"

datatype display_meta =
    CurrencyMeta (dm_symbol: jsstring) (dm_currencyCode: jsstring) (dm_exchangeRate: jsnum)
  | CustomMeta (dm_symbol: jsstring) (dm_exchangeRate: jsnum)
  | TokensMeta (dm_quotaPerUnit: jsnum)

definition dollars :: display_meta where
  "dollars = CurrencyMeta (js ''$'') (js ''USD'') (Fin 1)"

definition getDisplayMeta :: "currency_config \<Rightarrow> display_meta" where
  "getDisplayMeta config =
    (if cc_quotaDisplayType config = js ''CNY'' then CurrencyMeta [165] (js ''CNY'') (cc_usdExchangeRate config)
     else if cc_quotaDisplayType config = js ''CUSTOM''
     then CustomMeta (cc_customCurrencySymbol config) (cc_customCurrencyExchangeRate config)
     else if cc_quotaDisplayType config = js ''TOKENS'' then TokensMeta (cc_quotaPerUnit config)
     else dollars)"

definition getBillingDisplayMeta :: "currency_config \<Rightarrow> display_meta" where
  "getBillingDisplayMeta config =
    (case getDisplayMeta config of TokensMeta q \<Rightarrow> dollars | meta \<Rightarrow> meta)"

subsection \<open>Options\<close>

record format_options =
  fo_digitsLarge :: "int option"
  fo_digitsSmall :: "int option"
  fo_abbreviate :: "bool option"
  fo_minimumNonZero :: "jsnum option"
  fo_compact :: "bool option"
  fo_showSymbol :: "bool option"
  fo_locale :: "jsstring option"

record resolved_options =
  ro_digitsLarge :: int
  ro_digitsSmall :: int
  ro_abbreviate :: bool
  ro_minimumNonZero :: jsnum
  ro_compact :: bool
  ro_showSymbol :: bool
  ro_locale :: "jsstring option"

definition DEFAULT_FORMAT_OPTIONS :: resolved_options where
  "DEFAULT_FORMAT_OPTIONS =
    \<lparr>ro_digitsLarge = 2, ro_digitsSmall = 4, ro_abbreviate = True, ro_minimumNonZero = Fin 0, ro_compact = False,
     ro_showSymbol = True, ro_locale = None\<rparr>"

definition mergeOptions :: "format_options option \<Rightarrow> resolved_options" where
  "mergeOptions options =
    (case options of
       None \<Rightarrow> DEFAULT_FORMAT_OPTIONS
     | Some o1 \<Rightarrow>
         \<lparr>ro_digitsLarge = given_or (ro_digitsLarge DEFAULT_FORMAT_OPTIONS) (fo_digitsLarge o1),
          ro_digitsSmall = given_or (ro_digitsSmall DEFAULT_FORMAT_OPTIONS) (fo_digitsSmall o1),
          ro_abbreviate = given_or (ro_abbreviate DEFAULT_FORMAT_OPTIONS) (fo_abbreviate o1),
          ro_minimumNonZero = given_or (ro_minimumNonZero DEFAULT_FORMAT_OPTIONS) (fo_minimumNonZero o1),
          ro_compact = given_or (ro_compact DEFAULT_FORMAT_OPTIONS) (fo_compact o1),
          ro_showSymbol = given_or (ro_showSymbol DEFAULT_FORMAT_OPTIONS) (fo_showSymbol o1),
          ro_locale = fo_locale o1\<rparr>)"

definition getFractionDigits :: "jsnum \<Rightarrow> int \<Rightarrow> int \<Rightarrow> int" where
  "getFractionDigits v digitsLarge digitsSmall =
    (if js_le (Fin 1) (math_abs v) then digitsLarge else digitsSmall)"

definition getCurrencyFractionDigits :: "jsnum \<Rightarrow> format_options option \<Rightarrow> int" where
  "getCurrencyFractionDigits v options =
    (let merged = mergeOptions options in getFractionDigits v (ro_digitsLarge merged) (ro_digitsSmall merged))"

subsection \<open>Decimal text\<close>

text \<open>\<open>Number.prototype.toFixed\<close>: of two equally close decimals the larger one is taken.\<close>

definition point_text :: "int \<Rightarrow> int \<Rightarrow> jsstring" where
  "point_text n f =
    (let m = show_nat n; m = zeros (f + 1 - int (length m)) @ m; k = length m - nat f
     in if f = 0 then m else take k m @ DOT # drop k m)"

definition toFixed :: "jsnum \<Rightarrow> int \<Rightarrow> jsstring res" where
  "toFixed v f =
    (if f < 0 \<or> 100 < f then Inl (NativeError (js ''toFixed() digits argument must be between 0 and 100''))
     else if \<not> is_finite v then Inr (js_String_num v)
     else
       let r = num_val v; x = \<bar>r\<bar> in
       Inr ((if r < 0 then [45] else [])
         @ (if 10 ^ 21 \<le> x then js_String_num (Fin x) else point_text \<lfloor>x * pow10 f + 1 / 2\<rfloor> f)))"

text \<open>
  \<^verbatim>\<open>/(\.[0-9]*?)0+$/\<close> can only match at the last point of the text, when digits follow it up to the end
  and the last one is a zero.
\<close>

definition fraction_of :: "jsstring \<Rightarrow> jsstring" where
  "fraction_of s = rev (takeWhile (\<lambda>c. c \<noteq> DOT) (rev s))"

definition strip_zeros :: "jsstring \<Rightarrow> jsstring" where
  "strip_zeros s = rev (dropWhile (\<lambda>c. c = 48) (rev s))"

definition removeTrailingZeros :: "jsstring \<Rightarrow> jsstring" where
  "removeTrailingZeros str =
    (if DOT \<notin> set str then str
     else
       let frac = fraction_of str;
           t = (if frac \<noteq> [] \<and> last frac = 48 \<and> list_all is_digit frac then strip_zeros str else str)
       in if last t = DOT then butlast t else t)"

definition formatNumberWithSuffix :: "jsnum \<Rightarrow> int \<Rightarrow> int \<Rightarrow> bool \<Rightarrow> jsstring res" where
  "formatNumberWithSuffix v digitsLarge digitsSmall abbreviate =
    (if abbreviate \<and> js_le (Fin 1000) (math_abs v)
     then sbind (toFixed (js_div v (Fin 1000)) 1) (\<lambda>t. Inr (removeTrailingZeros t @ js ''k''))
     else sbind (toFixed v (getFractionDigits v digitsLarge digitsSmall)) (\<lambda>t. Inr (removeTrailingZeros t)))"

text \<open>\<open>Math.pow(10, -digits)\<close> is the rounded power.\<close>

definition adjustForMinimum :: "jsnum \<Rightarrow> int \<Rightarrow> jsnum \<Rightarrow> jsnum" where
  "adjustForMinimum v digits minimumNonZero =
    (if js_num_eq v (Fin 0) then v
     else
       let threshold = (if js_lt (Fin 0) minimumNonZero then minimumNonZero else rnd64 (pow10 (- digits)));
           a = math_abs v
       in if js_lt (Fin 0) a \<and> js_lt a threshold
          then (if js_lt (Fin 0) v then threshold else js_neg threshold)
          else v)"

subsection \<open>Formatting\<close>

text \<open>What the program asks of \<open>Intl.NumberFormat\<close>; a minimum of \<open>None\<close> is not set.\<close>

record number_format =
  nf_currency :: "jsstring option"
  nf_compact :: bool
  nf_minimumFractionDigits :: "int option"
  nf_maximumFractionDigits :: int

type_synonym intl = "jsstring option \<Rightarrow> number_format \<Rightarrow> jsnum \<Rightarrow> jsstring res"

definition compact_format :: number_format where
  "compact_format = \<lparr>nf_currency = None, nf_compact = True, nf_minimumFractionDigits = None, nf_maximumFractionDigits = 1\<rparr>"

definition amount_format :: "resolved_options \<Rightarrow> jsstring option \<Rightarrow> int \<Rightarrow> number_format" where
  "amount_format options currency digits =
    \<lparr>nf_currency = currency, nf_compact = ro_compact options, nf_minimumFractionDigits = Some 0,
     nf_maximumFractionDigits = (if ro_compact options then 1 else digits)\<rparr>"

definition formatCurrencyValue :: "intl \<Rightarrow> jsnum \<Rightarrow> resolved_options \<Rightarrow> display_meta \<Rightarrow> jsstring res" where
  "formatCurrencyValue intl v options meta =
    (let digits = getFractionDigits v (ro_digitsLarge options) (ro_digitsSmall options);
         adjustedValue = adjustForMinimum v digits (ro_minimumNonZero options)
     in case meta of
          TokensMeta q \<Rightarrow>
            if ro_compact options then intl (ro_locale options) compact_format v
            else formatNumberWithSuffix v (ro_digitsLarge options) (ro_digitsSmall options) (ro_abbreviate options)
        | CurrencyMeta symbol code rate \<Rightarrow>
            intl (ro_locale options)
              (amount_format options (if ro_showSymbol options then Some code else None) digits) adjustedValue
        | CustomMeta symbol rate \<Rightarrow>
            sbind (intl (ro_locale options) (amount_format options None digits) adjustedValue) (\<lambda>decimal.
            Inr (if ro_showSymbol options then symbol @ js '' '' @ decimal else decimal)))"

definition getCurrencyDisplay :: "stored_currency option \<Rightarrow> currency_config \<times> display_meta" where
  "getCurrencyDisplay store = (let config = getConfig store in (config, getDisplayMeta config))"

definition formatCurrencyFromUSD ::
  "intl \<Rightarrow> stored_currency option \<Rightarrow> jsnum option \<Rightarrow> format_options option \<Rightarrow> jsstring res" where
  "formatCurrencyFromUSD intl store amountUSD options =
    (case amountUSD of
       None \<Rightarrow> Inr (js ''-'')
     | Some amount \<Rightarrow>
         if amount = NaN then Inr (js ''-'')
         else
           let (config, meta) = getCurrencyDisplay store; merged = mergeOptions options in
           case meta of
             TokensMeta q \<Rightarrow>
               let tokens = js_mul amount (cc_quotaPerUnit config) in
               if ro_compact merged then intl (ro_locale merged) compact_format tokens
               else formatNumberWithSuffix tokens 0 (ro_digitsSmall merged) (ro_abbreviate merged)
           | _ \<Rightarrow> formatCurrencyValue intl (js_mul amount (dm_exchangeRate meta)) merged meta)"

definition formatBillingCurrencyFromUSD ::
  "intl \<Rightarrow> stored_currency option \<Rightarrow> jsnum option \<Rightarrow> format_options option \<Rightarrow> jsstring res" where
  "formatBillingCurrencyFromUSD intl store amountUSD options =
    (case amountUSD of
       None \<Rightarrow> Inr (js ''-'')
     | Some amount \<Rightarrow>
         if amount = NaN then Inr (js ''-'')
         else
           let (config, _) = getCurrencyDisplay store; meta = getBillingDisplayMeta config;
               merged = mergeOptions options;
               v = (case meta of TokensMeta q \<Rightarrow> amount | _ \<Rightarrow> js_mul amount (dm_exchangeRate meta))
           in formatCurrencyValue intl v merged meta)"

definition formatQuotaWithCurrency ::
  "intl \<Rightarrow> stored_currency option \<Rightarrow> jsnum option \<Rightarrow> format_options option \<Rightarrow> jsstring res" where
  "formatQuotaWithCurrency intl store quota options =
    (case quota of
       None \<Rightarrow> Inr (js ''-'')
     | Some q \<Rightarrow>
         if q = NaN then Inr (js ''-'')
         else formatCurrencyFromUSD intl store
           (Some (js_div q (cc_quotaPerUnit (fst (getCurrencyDisplay store))))) options)"

definition getCurrencyLabel :: "stored_currency option \<Rightarrow> jsstring" where
  "getCurrencyLabel store =
    (let (config, meta) = getCurrencyDisplay store in
     case meta of
       TokensMeta q \<Rightarrow> js ''Tokens''
     | _ \<Rightarrow>
         if cc_quotaDisplayType config = js ''CNY'' then js ''CNY''
         else if cc_quotaDisplayType config = js ''CUSTOM''
         then (case meta of CustomMeta symbol rate \<Rightarrow> symbol | _ \<Rightarrow> js ''Custom'')
         else js ''USD'')"

definition isCurrencyDisplayEnabled :: "stored_currency option \<Rightarrow> bool" where
  "isCurrencyDisplayEnabled store = (case snd (getCurrencyDisplay store) of TokensMeta q \<Rightarrow> False | _ \<Rightarrow> True)"

definition formatLocalCurrencyAmount ::
  "intl \<Rightarrow> stored_currency option \<Rightarrow> jsnum option \<Rightarrow> format_options option \<Rightarrow> jsstring res" where
  "formatLocalCurrencyAmount intl store amount options =
    (case amount of
       None \<Rightarrow> Inr (js ''-'')
     | Some a \<Rightarrow>
         if a = NaN then Inr (js ''-'')
         else
           let config = fst (getCurrencyDisplay store)
           in formatCurrencyValue intl a (mergeOptions options) (getBillingDisplayMeta config))"

end
