(* ===== verification/CurrencyLaws.thy ===== *)
theory CurrencyLaws
  imports Currency JsTools JsRounding
begin

section \<open>Amounts of money: accuracy and the billing currency\<close>

text \<open>
  A printed decimal is within half a unit of its last digit and has no superfluous zeros
  (\<open>fixed_text_accurate\<close>); prices are never shown in tokens, and the configured rates are
  positive whatever the store holds (\<open>billing_display_never_tokens\<close>).
\<close>

subsection \<open>Digits\<close>

lemma digits_int_zeros: "digits_int (zeros k @ s) = digits_int s"
proof -
  have "foldl (\<lambda>n c. 10 * n + digit_value c) 0 (replicate m 48 @ s) = foldl (\<lambda>n c. 10 * n + digit_value c) 0 s" for m
    by (induction m) (simp_all add: digit_value_def)
  then show ?thesis by (simp add: digits_int_def zeros_def)
qed

lemma zeros_digits: "list_all is_digit (zeros k)"
  by (simp add: zeros_def list_all_iff is_digit_def)

lemma digits_int_trailing: "digits_int (s @ replicate k 48) = digits_int s * 10 ^ k"
proof (induction k)
  case (Suc k)
  have "s @ replicate (Suc k) 48 = (s @ replicate k 48) @ [48]"
    by (simp only: replicate_Suc replicate_append_same[symmetric] append_assoc)
  then show ?case using Suc by (simp only: digits_int_snoc) (simp add: digit_value_def)
qed simp

lemma takeWhile_digits:
  assumes "list_all is_digit a"
  shows "takeWhile is_digit a = a" "takeWhile is_digit (a @ DOT # b) = a"
proof -
  have "\<not> is_digit DOT" by (simp add: is_digit_def)
  then show "takeWhile is_digit a = a" "takeWhile is_digit (a @ DOT # b) = a"
    using assms by (simp_all add: list_all_iff takeWhile_eq_all_conv takeWhile_append2)
qed

lemma decimal_value_digits: "list_all is_digit a \<Longrightarrow> decimal_value a = of_int (digits_int a)"
  by (simp add: decimal_value_def takeWhile_digits Let_def pow10_def)

lemma decimal_value_point:
  "list_all is_digit a \<Longrightarrow> list_all is_digit b \<Longrightarrow>
     decimal_value (a @ DOT # b) = of_int (digits_int (a @ b)) * pow10 (- int (length b))"
  by (simp add: decimal_value_def takeWhile_digits Let_def)

lemma scan_digits: "list_all is_digit a \<Longrightarrow> a \<noteq> [] \<Longrightarrow> scan_decimal a = Some (length a)"
  by (simp add: scan_decimal_def scan_mantissa_def scan_exponent_def takeWhile_digits Let_def)

lemma scan_point:
  "list_all is_digit a \<Longrightarrow> a \<noteq> [] \<Longrightarrow> list_all is_digit b \<Longrightarrow>
     scan_decimal (a @ DOT # b) = Some (length (a @ DOT # b))"
  by (simp add: scan_decimal_def scan_mantissa_def scan_exponent_def takeWhile_digits Let_def)

lemma pow10_neg: "pow10 (- int n) = 1 / 10 ^ n"
  by (cases n) (simp_all add: pow10_def nat_add_distrib)

lemma pow10_split: "pow10 (- int (k + m)) * 10 ^ m = pow10 (- int k)"
  unfolding pow10_neg by (simp add: power_add)

subsection \<open>Trailing zeros\<close>

lemma strip_zeros_parts: "\<exists>k. s = strip_zeros s @ replicate k 48"
proof -
  have "rev (dropWhile (\<lambda>c. c = 48) (rev s)) @ rev (takeWhile (\<lambda>c. c = 48) (rev s)) = s"
    by (simp flip: rev_append)
  moreover have "takeWhile (\<lambda>c. c = 48) (rev s) = replicate (length (takeWhile (\<lambda>c. c = 48) (rev s))) 48"
    by (rule replicate_eqI) (auto dest: set_takeWhileD)
  ultimately show ?thesis unfolding strip_zeros_def by (metis rev_replicate)
qed

lemma strip_zeros_last: "strip_zeros s \<noteq> [] \<Longrightarrow> last (strip_zeros s) \<noteq> 48"
  unfolding strip_zeros_def by (metis (mono_tags, lifting) hd_dropWhile last_rev rev_is_Nil_conv)

lemma strip_zeros_point: "strip_zeros (a @ DOT # b) = a @ DOT # strip_zeros b"
proof -
  have "dropWhile (\<lambda>c. c = 48) (rev b @ DOT # rev a)
      = dropWhile (\<lambda>c. c = 48) (rev b) @ DOT # rev a" if "\<not> (DOT :: unit16) = 48"
    using that by (induction "rev b" arbitrary: b) (auto simp: dropWhile_append dropWhile_eq_Nil_conv)
  then show ?thesis by (simp add: strip_zeros_def)
qed

lemma removeTrailingZeros_point:
  assumes "list_all is_digit b"
  shows "removeTrailingZeros (a @ DOT # b) = a @ (if strip_zeros b = [] then [] else DOT # strip_zeros b)"
proof -
  have nd: "DOT \<notin> set b" using assms by (auto simp: list_all_iff is_digit_def)
  have f: "fraction_of (a @ DOT # b) = b"
  proof -
    have "takeWhile (\<lambda>c. c \<noteq> DOT) (rev (a @ DOT # b)) = takeWhile (\<lambda>c. c \<noteq> DOT) (rev b)"
      by (simp add: takeWhile_tail)
    also have "\<dots> = rev b" using nd unfolding takeWhile_eq_all_conv by auto
    finally show ?thesis by (simp only: fraction_of_def rev_rev_ident)
  qed
  have same: "strip_zeros b = b" if "b = [] \<or> last b \<noteq> 48"
    using that by (cases b rule: rev_cases) (auto simp: strip_zeros_def)
  have t: "(if b \<noteq> [] \<and> last b = 48 \<and> list_all is_digit b then strip_zeros (a @ DOT # b) else a @ DOT # b)
      = a @ DOT # strip_zeros b"
    using same assms by (auto simp: strip_zeros_point)
  have "DOT \<notin> set (strip_zeros b)" using nd by (auto simp: strip_zeros_def dest: set_dropWhileD)
  then have "last (a @ DOT # strip_zeros b) = DOT \<longleftrightarrow> strip_zeros b = []"
    by (cases "strip_zeros b" rule: rev_cases) auto
  then show ?thesis unfolding removeTrailingZeros_def Let_def f t by (auto simp: butlast_append)
qed

lemma removed_zeros_value:
  assumes "list_all is_digit a" "list_all is_digit b" "a \<noteq> []"
    and u: "u = a @ (if strip_zeros b = [] then [] else DOT # strip_zeros b)"
  shows "decimal_value u = decimal_value (a @ DOT # b)" "scan_decimal u = Some (length u)"
    and "DOT \<in> set u \<Longrightarrow> last u \<noteq> 48 \<and> last u \<noteq> DOT"
proof -
  obtain k where k: "b = strip_zeros b @ replicate k 48" using strip_zeros_parts by blast
  define c where "c = strip_zeros b"
  have c: "list_all is_digit c" using assms(2) by (subst (asm) k) (simp add: c_def)
  have b: "b = c @ replicate k 48" using k by (simp add: c_def)
  have "decimal_value (a @ DOT # b) = of_int (digits_int (a @ c)) * pow10 (- int (length c))"
    using decimal_value_point[OF assms(1,2)] digits_int_trailing[of "a @ c" k] pow10_split[of "length c" k]
    by (simp add: b algebra_simps)
  then show "decimal_value u = decimal_value (a @ DOT # b)"
    using decimal_value_point[OF assms(1) c] decimal_value_digits[OF assms(1)]
    by (cases "c = []") (simp_all add: u pow10_def flip: c_def)
  show "scan_decimal u = Some (length u)"
    using scan_digits[OF assms(1,3)] scan_point[OF assms(1,3) c] by (cases "c = []") (simp_all add: u flip: c_def)
  assume "DOT \<in> set u"
  moreover have "DOT \<notin> set a" using assms(1) by (auto simp: list_all_iff is_digit_def)
  ultimately have n: "c \<noteq> []" "u = a @ DOT # c" by (auto simp: u c_def split: if_splits)
  moreover have "last c \<noteq> DOT" using c n(1) by (cases c rule: rev_cases) (auto simp: is_digit_def)
  ultimately show "last u \<noteq> 48 \<and> last u \<noteq> DOT" using strip_zeros_last[of b] by (simp add: c_def)
qed

subsection \<open>Fixed-point text\<close>

text \<open>The text of \<open>n\<close> units of the last of \<open>f\<close> digits, without superfluous zeros.\<close>

lemma point_text_value:
  assumes "0 \<le> n" "u = removeTrailingZeros (point_text n (int f))"
  shows "decimal_value u = of_int n * pow10 (- int f)" "scan_decimal u = Some (length u)"
    and "DOT \<in> set u \<Longrightarrow> last u \<noteq> 48 \<and> last u \<noteq> DOT"
    and "removeTrailingZeros (p @ point_text n (int f)) = p @ u \<or> DOT \<in> set p"
proof -
  define m where "m = zeros (int f + 1 - int (length (show_nat n))) @ show_nat n"
  note sn = show_nat_digits[OF assms(1)]
  have m: "list_all is_digit m" "digits_int m = n" "f < length m"
    using sn by (auto simp: m_def zeros_digits digits_int_zeros) (simp add: zeros_def)
  define a where "a = take (length m - f) m"
  define b where "b = drop (length m - f) m"
  have ab: "list_all is_digit a" "list_all is_digit b" "a \<noteq> []" "a @ b = m" "length b = f"
    using m list_all_append[of is_digit a b] by (auto simp add: a_def b_def)
  have nd: "DOT \<notin> set m" using m(1) by (auto simp: list_all_iff is_digit_def)
  have "decimal_value u = of_int n * pow10 (- int f) \<and> scan_decimal u = Some (length u)
    \<and> (DOT \<in> set u \<longrightarrow> last u \<noteq> 48 \<and> last u \<noteq> DOT)
    \<and> (removeTrailingZeros (p @ point_text n (int f)) = p @ u \<or> DOT \<in> set p)"
  proof (cases "f = 0")
    case True
    then have pt: "point_text n (int f) = m" by (simp add: point_text_def m_def Let_def)
    then have "u = m" using nd by (simp add: assms(2) removeTrailingZeros_def)
    moreover have "m \<noteq> []" using m(3) by auto
    ultimately show ?thesis
      using True m decimal_value_digits[OF m(1)] scan_digits[OF m(1)] nd pt
      by (auto simp: pow10_def removeTrailingZeros_def)
  next
    case False
    then have pt: "point_text n (int f) = a @ DOT # b" by (simp add: point_text_def m_def a_def b_def Let_def)
    have u: "u = a @ (if strip_zeros b = [] then [] else DOT # strip_zeros b)"
      unfolding assms(2) pt by (rule removeTrailingZeros_point[OF ab(2)])
    have "removeTrailingZeros (p @ point_text n (int f)) = p @ u"
      unfolding pt using removeTrailingZeros_point[OF ab(2), of "p @ a"] u by simp
    then show ?thesis
      using removed_zeros_value[OF ab(1-3) u] decimal_value_point[OF ab(1,2)] ab(4,5) m(2) by auto
  qed
  then show "decimal_value u = of_int n * pow10 (- int f)" "scan_decimal u = Some (length u)"
    "DOT \<in> set u \<Longrightarrow> last u \<noteq> 48 \<and> last u \<noteq> DOT"
    "removeTrailingZeros (p @ point_text n (int f)) = p @ u \<or> DOT \<in> set p" by blast+
qed

lemma rounding_error:
  assumes "0 \<le> f"
  shows "\<bar>of_int \<lfloor>x * pow10 f + 1 / 2\<rfloor> * pow10 (- f) - x\<bar> \<le> pow10 (- f) / 2"
proof -
  have p: "0 < pow10 (- f)" "pow10 f * pow10 (- f) = 1" using assms by (auto simp: pow10_def)
  have "\<bar>of_int \<lfloor>x * pow10 f + 1 / 2\<rfloor> - x * pow10 f\<bar> \<le> 1 / 2" by linarith
  then have "\<bar>of_int \<lfloor>x * pow10 f + 1 / 2\<rfloor> - x * pow10 f\<bar> * pow10 (- f) \<le> 1 / 2 * pow10 (- f)"
    using p(1) by (intro mult_right_mono) simp_all
  moreover have "\<bar>a - x * pow10 f\<bar> * pow10 (- f) = \<bar>a * pow10 (- f) - x\<bar>" for a
  proof -
    have "(a - x * pow10 f) * pow10 (- f) = a * pow10 (- f) - x * (pow10 f * pow10 (- f))"
      by (simp only: left_diff_distrib mult.assoc)
    then have "\<bar>a * pow10 (- f) - x\<bar> = \<bar>a - x * pow10 f\<bar> * \<bar>pow10 (- f)\<bar>" using p(2) by (simp flip: abs_mult)
    then show ?thesis using p(1) by simp
  qed
  ultimately show ?thesis by simp
qed

lemma formatted_fixed:
  assumes "is_finite v" "\<bar>num_val v\<bar> < 10 ^ 21" "0 \<le> f" "f \<le> 100"
  shows "\<exists>u. sbind (toFixed v f) (\<lambda>t. Inr (removeTrailingZeros t)) = Inr ((if num_val v < 0 then [45] else []) @ u)
    \<and> scan_decimal u = Some (length u) \<and> \<bar>decimal_value u - \<bar>num_val v\<bar>\<bar> \<le> pow10 (- f) / 2
    \<and> (DOT \<in> set u \<longrightarrow> last u \<noteq> 48 \<and> last u \<noteq> DOT)"
proof -
  define p :: jsstring where "p = (if num_val v < 0 then [45] else [])"
  define n where "n = \<lfloor>\<bar>num_val v\<bar> * pow10 f + 1 / 2\<rfloor>"
  define u where "u = removeTrailingZeros (point_text n (int (nat f)))"
  have f: "int (nat f) = f" using assms(3) by simp
  have "0 \<le> pow10 f" by (simp add: pow10_def)
  then have "0 \<le> n" by (simp add: n_def)
  note u = point_text_value[OF this u_def]
  have "toFixed v f = Inr (p @ point_text n f)" using assms by (simp add: toFixed_def p_def n_def Let_def)
  moreover have "removeTrailingZeros (p @ point_text n f) = p @ u" using u(4)[of p] f by (auto simp: p_def)
  moreover have "\<bar>decimal_value u - \<bar>num_val v\<bar>\<bar> \<le> pow10 (- f) / 2"
    using rounding_error[OF assms(3), of "\<bar>num_val v\<bar>"] u(1) f by (simp add: n_def)
  ultimately show ?thesis using u(2,3) by (auto simp: p_def)
qed

text \<open>A quotient is rounded with a relative error of at most \<open>2\<close> to the power \<open>-52\<close>.\<close>

lemma ulp_relative:
  assumes "1 \<le> \<bar>x\<bar>"
  shows "ulp x \<le> \<bar>x\<bar> / 2 ^ 52"
proof -
  have step: "pow2 (e - 52) = pow2 e / 2 ^ 52" for e by (simp add: pow2_powi power_int_diff)
  show ?thesis
  proof (cases "flog2 \<bar>x\<bar> \<le> - 1022")
    case True
    then have "ulp x = pow2 (- 1022) / 2 ^ 52" using step[of "- 1022"] by (simp add: ulp_def max_def)
    moreover have "pow2 (- 1022) \<le> pow2 0" by (rule pow2_le) simp
    moreover have "pow2 0 = 1" by (simp add: pow2_powi)
    ultimately show ?thesis using assms by (simp add: divide_right_mono)
  next
    case False
    then have "ulp x = pow2 (flog2 \<bar>x\<bar>) / 2 ^ 52" using step by (simp add: ulp_def max_def)
    moreover have "pow2 (flog2 \<bar>x\<bar>) \<le> \<bar>x\<bar>" using assms by (intro flog2_lower) simp
    ultimately show ?thesis by (simp add: divide_right_mono)
  qed
qed

lemma rnd64_near:
  assumes "1 \<le> \<bar>x\<bar>" "\<bar>x\<bar> < 10 ^ 18"
  obtains r where "rnd64 x = Fin r" "\<bar>r - x\<bar> \<le> \<bar>x\<bar> / 2 ^ 52" "r \<noteq> 0"
proof -
  define t where "t = x / ulp x"
  define r where "r = of_int (round_even t) * ulp x"
  have x: "x \<noteq> 0" "x = t * ulp x" using assms(1) ulp_pos[of x] by (auto simp: t_def)
  have "\<bar>of_int (round_even t) - t\<bar> \<le> 1" using round_even_bounds[of t] by linarith
  then have "\<bar>(of_int (round_even t) - t) * ulp x\<bar> \<le> ulp x"
    using ulp_pos[of x] by (simp add: abs_mult mult_left_le_one_le)
  moreover have "r - x = (of_int (round_even t) - t) * ulp x" unfolding r_def by (subst x(2)) (simp add: left_diff_distrib)
  ultimately have near: "\<bar>r - x\<bar> \<le> \<bar>x\<bar> / 2 ^ 52" using ulp_relative[OF assms(1)] by linarith
  have half: "\<bar>x\<bar> / 2 ^ 52 \<le> \<bar>x\<bar> / 2" by (simp add: divide_left_mono)
  have "pow2 64 \<le> pow2 1024" by (rule pow2_le) simp
  moreover have "pow2 64 = 2 ^ 64" by (simp add: pow2_def)
  moreover have "(2::rat) * 10 ^ 18 < 2 ^ 64" by simp
  ultimately have big: "2 * 10 ^ 18 < pow2 1024" by (simp only: less_le_trans)
  have "r \<noteq> 0" "\<bar>r\<bar> < 2 * 10 ^ 18" using near half assms by linarith+
  then have "rnd64 x = Fin r" using rnd64_rounded[OF x(1) r_def[unfolded t_def]] big by auto
  then show thesis using that near \<open>r \<noteq> 0\<close> by blast
qed

lemma thousands:
  assumes "is_finite v" "1000 \<le> \<bar>num_val v\<bar>" "\<bar>num_val v\<bar> < 10 ^ 21"
  obtains r where "js_div v (Fin 1000) = Fin r" "\<bar>1000 * r - num_val v\<bar> \<le> \<bar>num_val v\<bar> / 2 ^ 52"
    "r < 0 \<longleftrightarrow> num_val v < 0" "\<bar>r\<bar> < 10 ^ 21"
proof -
  let ?x = "num_val v / 1000"
  have "1 \<le> \<bar>?x\<bar>" "\<bar>?x\<bar> < 10 ^ 18" using assms by (auto simp: abs_if split: if_splits)
  then obtain r where r: "rnd64 ?x = Fin r" "\<bar>r - ?x\<bar> \<le> \<bar>?x\<bar> / 2 ^ 52" "r \<noteq> 0" by (rule rnd64_near)
  have "v \<noteq> NaN" "num_val v \<noteq> 0" using assms(1,2) by auto
  then have "js_div v (Fin 1000) = Fin r" using assms(1) r(1) by (simp add: js_div_def Let_def)
  moreover have "\<bar>1000 * r - num_val v\<bar> \<le> \<bar>num_val v\<bar> / 2 ^ 52" using r(2) by (simp add: abs_if field_simps split: if_splits)
  moreover have "\<bar>num_val v\<bar> / 2 ^ 52 \<le> \<bar>num_val v\<bar> / 2" by (simp add: divide_left_mono)
  ultimately show thesis using that[of r] r(3) assms(2,3) by (auto simp: abs_if split: if_splits)
qed

lemma abbreviated_iff: "is_finite v \<Longrightarrow> js_le (Fin 1000) (math_abs v) \<longleftrightarrow> 1000 \<le> \<bar>num_val v\<bar>"
  by (cases v) (auto simp: math_abs_def js_le_def)

text \<open>
  C36: Every finite amount below \<open>10\<^sup>2\<^sup>1\<close>, with 0 to 100 fraction digits requested, is printed as a
  decimal numeral with a minus sign exactly for negative amounts and without superfluous zeros behind
  the point. Without abbreviation, and for amounts below 1000, the numeral is within half a unit of the
  last requested fraction digit of the amount. With abbreviation an amount from 1000 on is printed with
  the suffix \<open>k\<close>, and a thousand times the numeral is within 50, and the rounding error of the
  division, of the amount.
\<close>

theorem fixed_text_accurate:
  assumes "is_finite v" "\<bar>num_val v\<bar> < 10 ^ 21" "0 \<le> digitsLarge" "digitsLarge \<le> 100" "0 \<le> digitsSmall" "digitsSmall \<le> 100"
  shows "\<exists>u. formatNumberWithSuffix v digitsLarge digitsSmall abbreviate
      = Inr ((if num_val v < 0 then [45] else []) @ u @ (if abbreviate \<and> 1000 \<le> \<bar>num_val v\<bar> then js ''k'' else []))
    \<and> scan_decimal u = Some (length u)
    \<and> (if abbreviate \<and> 1000 \<le> \<bar>num_val v\<bar>
       then \<bar>1000 * decimal_value u - \<bar>num_val v\<bar>\<bar> \<le> 50 + \<bar>num_val v\<bar> / 2 ^ 52
       else \<bar>decimal_value u - \<bar>num_val v\<bar>\<bar> \<le> pow10 (- getFractionDigits v digitsLarge digitsSmall) / 2)
    \<and> (DOT \<in> set u \<longrightarrow> last u \<noteq> 48 \<and> last u \<noteq> DOT)"
proof (cases "abbreviate \<and> 1000 \<le> \<bar>num_val v\<bar>")
  case True
  obtain r where r: "js_div v (Fin 1000) = Fin r" "\<bar>1000 * r - num_val v\<bar> \<le> \<bar>num_val v\<bar> / 2 ^ 52"
      "r < 0 \<longleftrightarrow> num_val v < 0" "\<bar>r\<bar> < 10 ^ 21"
    using thousands[OF assms(1) conjunct2[OF True] assms(2)] .
  obtain u where u: "sbind (toFixed (Fin r) 1) (\<lambda>t. Inr (removeTrailingZeros t)) = Inr ((if r < 0 then [45] else []) @ u)"
      "scan_decimal u = Some (length u)" "\<bar>decimal_value u - \<bar>r\<bar>\<bar> \<le> pow10 (- 1) / 2" "DOT \<in> set u \<longrightarrow> last u \<noteq> 48 \<and> last u \<noteq> DOT"
    using formatted_fixed[of "Fin r" 1] r(4) by auto
  have "sbind (toFixed (Fin r) 1) (\<lambda>t. Inr (removeTrailingZeros t @ js ''k'')) = Inr ((if r < 0 then [45] else []) @ u @ js ''k'')"
    using u(1) by (cases "toFixed (Fin r) 1") auto
  moreover have "\<bar>1000 * decimal_value u - \<bar>num_val v\<bar>\<bar> \<le> 50 + \<bar>num_val v\<bar> / 2 ^ 52"
    using u(3) r(2,3) by (auto simp: pow10_def abs_if split: if_splits)
  ultimately show ?thesis
    using True abbreviated_iff[OF assms(1)] u(2,4) r(3) by (auto simp: formatNumberWithSuffix_def r(1))
next
  case False
  have "0 \<le> getFractionDigits v digitsLarge digitsSmall" "getFractionDigits v digitsLarge digitsSmall \<le> 100"
    using assms by (simp_all add: getFractionDigits_def)
  from formatted_fixed[OF assms(1,2) this] show ?thesis
    using False abbreviated_iff[OF assms(1)] by (auto simp: formatNumberWithSuffix_def)
qed

theorem fixed_text_accurate_witness:
  "formatNumberWithSuffix (Fin (- 5 / 4)) 4 6 False = Inr (js ''-1.25'')
    \<and> (\<exists>u. formatNumberWithSuffix (Fin (- 5 / 4)) 4 6 False = Inr ([45] @ u)
      \<and> \<bar>decimal_value u - 5 / 4\<bar> \<le> pow10 (- getFractionDigits (Fin (- 5 / 4)) 4 6) / 2)
    \<and> (\<exists>u. formatNumberWithSuffix (Fin 5000000) 2 6 True = Inr (u @ js ''k'')
      \<and> \<bar>1000 * decimal_value u - 5000000\<bar> \<le> 50 + 5000000 / 2 ^ 52)"
proof -
  have e: "formatNumberWithSuffix (Fin (- 5 / 4)) 4 6 False = Inr (js ''-1.25'')" by code_simp
  from fixed_text_accurate[of "Fin (- 5 / 4)" 4 6 False]
  have "\<exists>u. formatNumberWithSuffix (Fin (- 5 / 4)) 4 6 False = Inr ([45] @ u)
      \<and> \<bar>decimal_value u - 5 / 4\<bar> \<le> pow10 (- getFractionDigits (Fin (- 5 / 4)) 4 6) / 2" by auto
  moreover from fixed_text_accurate[of "Fin 5000000" 2 6 True]
  have "\<exists>u. formatNumberWithSuffix (Fin 5000000) 2 6 True = Inr (u @ js ''k'')
      \<and> \<bar>1000 * decimal_value u - 5000000\<bar> \<le> 50 + 5000000 / 2 ^ 52" by auto
  ultimately show ?thesis using e by blast
qed

subsection \<open>The billing currency\<close>

text \<open>The store with dollars in place of tokens.\<close>

definition priced :: "stored_currency option \<Rightarrow> stored_currency option" where
  "priced store =
    (if cc_quotaDisplayType (getConfig store) = js ''TOKENS''
     then map_option (\<lambda>s. s\<lparr>sc_quotaDisplayType := Some (js ''USD'')\<rparr>) store else store)"

lemma positive_or_pos: "js_lt (Fin 0) d \<Longrightarrow> js_lt (Fin 0) (positive_or d x)"
  by (auto simp: positive_or_def split: option.splits)

lemma config_positive:
  "js_lt (Fin 0) (cc_quotaPerUnit (getConfig store))" "js_lt (Fin 0) (cc_usdExchangeRate (getConfig store))"
  "js_lt (Fin 0) (cc_customCurrencyExchangeRate (getConfig store))"
  by (auto simp: getConfig_def DEFAULT_CURRENCY_CONFIG_def intro!: positive_or_pos split: option.splits)

lemma priced_meta: "getDisplayMeta (getConfig (priced store)) = getBillingDisplayMeta (getConfig store)"
proof (cases "cc_quotaDisplayType (getConfig store) = js ''TOKENS''")
  case True
  then have "store \<noteq> None" by (cases store) (simp_all add: getConfig_def DEFAULT_CURRENCY_CONFIG_def)
  then have "cc_quotaDisplayType (getConfig (priced store)) = js ''USD''"
    using True by (auto simp: priced_def getConfig_def given_or_def)
  then show ?thesis using True by (simp add: getBillingDisplayMeta_def getDisplayMeta_def)
next
  case False
  then show ?thesis
    by (auto simp: priced_def getBillingDisplayMeta_def getDisplayMeta_def dollars_def)
qed

lemma billing_meta_no_tokens: "getBillingDisplayMeta c \<noteq> TokensMeta q"
  by (auto simp: getBillingDisplayMeta_def dollars_def split: display_meta.splits)

text \<open>
  A price is shown as any amount would be if the configured unit were dollars instead of
  tokens, and exactly as any amount if the configured unit is a currency; the configured rates are positive
  whatever the store holds.
\<close>

theorem billing_display_never_tokens:
  "formatBillingCurrencyFromUSD intl store amount options = formatCurrencyFromUSD intl (priced store) amount options
    \<and> isCurrencyDisplayEnabled (priced store)
    \<and> (priced store = store \<longleftrightarrow> isCurrencyDisplayEnabled store)
    \<and> js_lt (Fin 0) (cc_quotaPerUnit (getConfig store)) \<and> js_lt (Fin 0) (cc_usdExchangeRate (getConfig store))
    \<and> js_lt (Fin 0) (cc_customCurrencyExchangeRate (getConfig store))"
proof -
  have "formatBillingCurrencyFromUSD intl store amount options = formatCurrencyFromUSD intl (priced store) amount options"
    using billing_meta_no_tokens[of "getConfig store"]
    by (auto simp: formatBillingCurrencyFromUSD_def formatCurrencyFromUSD_def getCurrencyDisplay_def Let_def priced_meta
        split: option.splits display_meta.splits)
  moreover have "isCurrencyDisplayEnabled (priced store)"
    using billing_meta_no_tokens[of "getConfig store"]
    by (auto simp: isCurrencyDisplayEnabled_def getCurrencyDisplay_def Let_def priced_meta split: display_meta.splits)
  moreover have "priced store = store \<longleftrightarrow> isCurrencyDisplayEnabled store"
  proof
    assume "priced store = store"
    then show "isCurrencyDisplayEnabled store" using calculation(2) by simp
  next
    assume "isCurrencyDisplayEnabled store"
    then show "priced store = store"
      by (auto simp: isCurrencyDisplayEnabled_def getCurrencyDisplay_def getDisplayMeta_def priced_def Let_def)
  qed
  ultimately show ?thesis using config_positive by blast
qed

text \<open>
  The comments of \<open>formatCurrencyFromUSD\<close> show \<^verbatim>\<open>5,000,000\<close> for ten dollars in tokens; by default
  large numbers are abbreviated.
\<close>

lemma tokens_are_abbreviated:
  "formatCurrencyFromUSD intl (Some \<lparr>sc_displayInCurrency = None, sc_quotaDisplayType = Some (js ''TOKENS''),
     sc_quotaPerUnit = Some (Fin 500000), sc_usdExchangeRate = None, sc_customCurrencySymbol = None,
     sc_customCurrencyExchangeRate = None\<rparr>) (Some (Fin 10)) None = Inr (js ''5000k'')"
  by code_simp

end
