(* ===== verification/PriceFormat.thy ===== *)
theory PriceFormat
  imports Catalog Currency
begin

section \<open>Prices of models\<close>

text \<open>
  Model of \<^verbatim>\<open>web/src/features/pricing/lib/price.ts\<close>: the price of a model per token or per request from its
  ratios, the group ratio and the recharge rate, formatted as an amount. A missing ratio gives
  not-a-number, which is shown as a dash.
\<close>

subsection \<open>Numerals in formatted text\<close>

text \<open>\<open>Number.parseFloat\<close>: the longest numeral at the start.\<close>

definition unsigned_prefix :: "jsstring \<Rightarrow> jsnum" where
  "unsigned_prefix s =
    (if js_startsWith s (js ''Infinity'') then Infinity
     else case scan_decimal s of Some n \<Rightarrow> rnd64 (decimal_value (take n s)) | None \<Rightarrow> NaN)"

definition parseFloat :: "jsstring \<Rightarrow> jsnum" where
  "parseFloat text =
    (case dropWhile is_space text of
       [] \<Rightarrow> NaN
     | c # u \<Rightarrow>
         if c = 45 then js_neg (unsigned_prefix u)
         else if c = 43 then unsigned_prefix u else unsigned_prefix (c # u))"

text \<open>\<^verbatim>\<open>/^([^\d-]*)([-\d,]+\.?\d*)(k?)$/\<close>.\<close>

definition re_formatted :: regex where
  "re_formatted = RSeq [RGroup 1 (RStar (RClass (\<lambda>c. \<not> is_digit c \<and> c \<noteq> 45))),
     RGroup 2 (RSeq [RPlus (RClass (\<lambda>c. c = 45 \<or> is_digit c \<or> c = 44)), ROpt (RText [DOT]), RStar (RClass is_digit)]),
     RGroup 3 (ROpt (RText (js ''k'')))]"

text \<open>\<^verbatim>\<open>text.replace(/\.?0+$/, '')\<close>.\<close>

definition drop_zero_tail :: "jsstring \<Rightarrow> jsstring" where
  "drop_zero_tail s =
    (let t = strip_zeros s in if t = s then s else if t \<noteq> [] \<and> last t = DOT then butlast t else t)"

definition stripTrailingZeros :: "jsstring \<Rightarrow> jsstring res" where
  "stripTrailingZeros formatted =
    (case match_whole re_formatted formatted of
       None \<Rightarrow> Inr formatted
     | Some m \<Rightarrow>
         let parsed = parseFloat (filter (\<lambda>c. c \<noteq> 44) (captured m 2)) in
         if parsed = NaN then Inr formatted
         else
           let result = js_String_num parsed in
           sbind (if 101 \<in> set result then sbind (toFixed parsed 20) (\<lambda>t. Inr (drop_zero_tail t)) else Inr result)
             (\<lambda>r. Inr (captured m 1 @ r @ captured m 3)))"

subsection \<open>Prices\<close>

datatype price_type = PInput | POutput | PCache | PCreateCache | PImage | PAudioInput | PAudioOutput

definition hasRatio :: "jsnum option \<Rightarrow> bool" where
  "hasRatio v = (case v of Some x \<Rightarrow> is_finite x | None \<Rightarrow> False)"

definition times_ratio :: "jsnum \<Rightarrow> jsnum option \<Rightarrow> jsnum" where
  "times_ratio base v = (if hasRatio v then js_mul base (default_to NaN v) else NaN)"

fun calculateTokenPrice :: "pricing_model \<Rightarrow> price_type \<Rightarrow> jsnum \<Rightarrow> jsnum" where
  "calculateTokenPrice model PInput ratio = js_mul (js_mul (pm_model_ratio model) (Fin 2)) ratio"
| "calculateTokenPrice model POutput ratio =
    js_mul (js_mul (js_mul (pm_model_ratio model) (Fin 2)) ratio) (pm_completion_ratio model)"
| "calculateTokenPrice model PCache ratio =
    times_ratio (js_mul (js_mul (pm_model_ratio model) (Fin 2)) ratio) (pm_cache_ratio model)"
| "calculateTokenPrice model PCreateCache ratio =
    times_ratio (js_mul (js_mul (pm_model_ratio model) (Fin 2)) ratio) (pm_create_cache_ratio model)"
| "calculateTokenPrice model PImage ratio =
    times_ratio (js_mul (js_mul (pm_model_ratio model) (Fin 2)) ratio) (pm_image_ratio model)"
| "calculateTokenPrice model PAudioInput ratio =
    times_ratio (js_mul (js_mul (pm_model_ratio model) (Fin 2)) ratio) (pm_audio_ratio model)"
| "calculateTokenPrice model PAudioOutput ratio =
    (if hasRatio (pm_audio_ratio model) \<and> hasRatio (pm_audio_completion_ratio model)
     then times_ratio (times_ratio (js_mul (js_mul (pm_model_ratio model) (Fin 2)) ratio) (pm_audio_ratio model))
       (pm_audio_completion_ratio model)
     else NaN)"

definition applyRechargeRate :: "jsnum \<Rightarrow> bool \<Rightarrow> jsnum \<Rightarrow> jsnum \<Rightarrow> jsnum" where
  "applyRechargeRate price showWithRecharge priceRate usdExchangeRate =
    (if showWithRecharge then js_div (js_mul price priceRate) usdExchangeRate else price)"

datatype token_unit_size = UnitM | UnitK

fun TOKEN_UNIT_DIVISORS :: "token_unit_size \<Rightarrow> jsnum" where
  "TOKEN_UNIT_DIVISORS UnitM = Fin 1"
| "TOKEN_UNIT_DIVISORS UnitK = Fin 1000"

definition price_options :: "int \<Rightarrow> bool option \<Rightarrow> format_options" where
  "price_options digitsSmall showSymbol =
    \<lparr>fo_digitsLarge = Some 4, fo_digitsSmall = Some digitsSmall, fo_abbreviate = Some False, fo_minimumNonZero = None,
     fo_compact = None, fo_showSymbol = showSymbol, fo_locale = None\<rparr>"

definition formatPrice ::
  "intl \<Rightarrow> stored_currency option \<Rightarrow> pricing_model \<Rightarrow> price_type \<Rightarrow> token_unit_size \<Rightarrow> bool \<Rightarrow> jsnum \<Rightarrow> jsnum
     \<Rightarrow> jsstring option \<Rightarrow> bool \<Rightarrow> jsstring res" where
  "formatPrice intl store model type tokenUnit showWithRecharge priceRate usdExchangeRate selectedGroup showSymbol =
    (if js_num_eq (pm_quota_type model) QUOTA_REQUEST then Inr (js ''-'')
     else
       let priceInUSD = calculateTokenPrice model type (getDisplayGroupRatio model selectedGroup);
           priceInUSD = applyRechargeRate priceInUSD showWithRecharge priceRate usdExchangeRate;
           price = js_div priceInUSD (TOKEN_UNIT_DIVISORS tokenUnit)
       in formatBillingCurrencyFromUSD intl store (Some price) (Some (price_options 6 (Some showSymbol))))"

definition formatGroupPrice ::
  "intl \<Rightarrow> stored_currency option \<Rightarrow> pricing_model \<Rightarrow> jsstring \<Rightarrow> price_type \<Rightarrow> token_unit_size \<Rightarrow> bool \<Rightarrow> jsnum \<Rightarrow> jsnum
     \<Rightarrow> jsobj \<Rightarrow> jsstring res" where
  "formatGroupPrice intl store model g type tokenUnit showWithRecharge priceRate usdExchangeRate groupRatio =
    (if js_num_eq (pm_quota_type model) QUOTA_REQUEST then Inr (js ''-'')
     else
       let priceInUSD = calculateTokenPrice model type (getConfiguredGroupRatio groupRatio g);
           priceInUSD = applyRechargeRate priceInUSD showWithRecharge priceRate usdExchangeRate;
           price = js_div priceInUSD (TOKEN_UNIT_DIVISORS tokenUnit)
       in formatBillingCurrencyFromUSD intl store (Some price) (Some (price_options 6 None)))"

definition formatFixedPrice ::
  "intl \<Rightarrow> stored_currency option \<Rightarrow> pricing_model \<Rightarrow> jsstring \<Rightarrow> bool \<Rightarrow> jsnum \<Rightarrow> jsnum \<Rightarrow> jsobj \<Rightarrow> jsstring res" where
  "formatFixedPrice intl store model g showWithRecharge priceRate usdExchangeRate groupRatio =
    (if \<not> js_num_eq (pm_quota_type model) QUOTA_REQUEST then Inr (js ''-'')
     else
       let priceInUSD = js_mul (num_or_zero (pm_model_price model)) (getConfiguredGroupRatio groupRatio g);
           priceInUSD = applyRechargeRate priceInUSD showWithRecharge priceRate usdExchangeRate
       in formatBillingCurrencyFromUSD intl store (Some priceInUSD) (Some (price_options 4 None)))"

definition formatRequestPrice ::
  "intl \<Rightarrow> stored_currency option \<Rightarrow> pricing_model \<Rightarrow> bool \<Rightarrow> jsnum \<Rightarrow> jsnum \<Rightarrow> jsstring option \<Rightarrow> bool \<Rightarrow> jsstring res" where
  "formatRequestPrice intl store model showWithRecharge priceRate usdExchangeRate selectedGroup showSymbol =
    (if \<not> js_num_eq (pm_quota_type model) QUOTA_REQUEST then Inr (js ''-'')
     else
       let priceInUSD = js_mul (num_or_zero (pm_model_price model)) (getDisplayGroupRatio model selectedGroup);
           priceInUSD = applyRechargeRate priceInUSD showWithRecharge priceRate usdExchangeRate
       in formatBillingCurrencyFromUSD intl store (Some priceInUSD) (Some (price_options 4 (Some showSymbol))))"

text \<open>
  A numeral too large for plain notation keeps its exponent in \<open>toFixed\<close>, and the trailing zeros of
  the exponent are then removed.
\<close>

lemma exponent_loses_zeros: "stripTrailingZeros (js ''$1000000000000000000000000000000'') = Inr (js ''$1e+3'')"
  by code_simp

end
