(* ===== verification/DynamicPrice.thy ===== *)
theory DynamicPrice
  imports PriceFormat
begin

section \<open>Price summaries of dynamically priced models\<close>

text \<open>
  Model of \<^verbatim>\<open>web/src/features/pricing/lib/dynamic-price.ts\<close>,
  \<^verbatim>\<open>web/src/features/pricing/lib/breakdown-tier-match.ts\<close>,
  \<^verbatim>\<open>web/src/features/pricing/lib/task-matrix-display.ts\<close> and of \<open>hasSimpleTaskPricing\<close> in
  \<^verbatim>\<open>web/src/features/pricing/lib/task-price-display.ts\<close>. The cache of compiled expressions is passed along.
  The descriptions of usage fields, which are only handed through to the page, are left out.
\<close>

subsection \<open>Options, entries and tiers\<close>

record dynamic_options =
  do_tokenUnit :: token_unit_size
  do_showCurrencySymbol :: "bool option"
  do_showRechargePrice :: "bool option"
  do_priceRate :: "jsnum option"
  do_usdExchangeRate :: "jsnum option"
  do_groupRatioMultiplier :: "jsnum option"
  do_usageSchema :: "usage_schema option"
  do_now :: "int option option"

datatype label_kind = I18nLabel | SchemaLabel

record price_entry =
  en_key :: jsstring
  en_field :: jsstring
  en_label :: jsstring
  en_shortLabel :: jsstring
  en_labelKind :: label_kind
  en_value :: jsnum
  en_formatted :: jsstring
  en_formattedRange :: "jsstring option"
  en_unit :: jsstring
  en_variable :: "billing_var option"

datatype dynamic_tier = ChatTier parsed_tier | TaskTier task_tier

record pricing_summary =
  su_tiers :: "dynamic_tier list"
  su_tier :: "dynamic_tier option"
  su_tierCount :: nat
  su_hasRequestRules :: bool
  su_isSpecialExpression :: bool
  su_rawExpression :: jsstring
  su_entries :: "price_entry list"
  su_primaryEntries :: "price_entry list"
  su_secondaryEntries :: "price_entry list"
  su_isTaskUsage :: bool
  su_isTimePricing :: bool
  su_isMixedBilling :: "bool option"

definition getTaskUsageQuantityUnitLabelKey :: "jsstring option \<Rightarrow> jsstring" where
  "getTaskUsageQuantityUnitLabelKey u =
    (if u = Some (js ''second'') then js ''s'' else if u = Some (js ''token'') then js ''token (unit)''
     else if u = Some (js ''credit'') then js ''credit'' else js ''unit'')"

definition getTaskUsagePriceUnitLabelKey :: "jsstring option \<Rightarrow> jsstring" where
  "getTaskUsagePriceUnitLabelKey u =
    (if u = Some (js ''second'') then js ''second'' else if u = Some (js ''token'') then js ''1M token''
     else if u = Some (js ''credit'') then js ''credit'' else js ''unit'')"

definition getDynamicPriceUnitLabelKey :: "price_entry \<Rightarrow> jsstring option" where
  "getDynamicPriceUnitLabelKey entry =
    (if en_unit entry = js ''second'' then Some (js ''s'')
     else if en_unit entry = js ''count'' then Some (js ''unit'')
     else if en_unit entry = js ''credit'' then Some (js ''credit'')
     else if en_unit entry = js ''token'' \<and> en_variable entry = None then Some (js ''1M token'')
     else if en_unit entry = js ''request'' then Some (js ''request'')
     else None)"

definition PRIMARY_DYNAMIC_FIELDS :: "jsstring list" where
  "PRIMARY_DYNAMIC_FIELDS = [js ''inputPrice'', js ''outputPrice'']"

definition getTaskPricingUnit :: "collation \<Rightarrow> pricing_model \<Rightarrow> jsstring option" where
  "getTaskPricingUnit le model =
    (case getTaskNumberFields le (default_to [] (pm_billing_usage_schema model)) of
       [] \<Rightarrow> None
     | (k, f) # rest \<Rightarrow> fs_unit f)"

definition getDynamicDisplayGroupRatio :: "pricing_model \<Rightarrow> jsstring option \<Rightarrow> jsnum" where
  "getDynamicDisplayGroupRatio model selectedGroup = getDisplayGroupRatio model selectedGroup"

subsection \<open>Formatting\<close>

definition recharged :: "jsnum \<Rightarrow> dynamic_options \<Rightarrow> jsnum" where
  "recharged priceUSD options =
    applyRechargeRate priceUSD (default_to False (do_showRechargePrice options))
      (default_to (Fin 1) (do_priceRate options)) (default_to (Fin 1) (do_usdExchangeRate options))"

definition formatDynamicUnitPrice :: "intl \<Rightarrow> stored_currency option \<Rightarrow> jsnum \<Rightarrow> dynamic_options \<Rightarrow> jsstring res" where
  "formatDynamicUnitPrice intl store valuePerMillionTokens options =
    (let priceUSD = js_div (js_mul valuePerMillionTokens (default_to (Fin 1) (do_groupRatioMultiplier options)))
           (TOKEN_UNIT_DIVISORS (do_tokenUnit options))
     in formatBillingCurrencyFromUSD intl store (Some (recharged priceUSD options))
          (Some (price_options 6 (Some (default_to True (do_showCurrencySymbol options))))))"

definition formatTaskUsageUnitPrice :: "intl \<Rightarrow> stored_currency option \<Rightarrow> jsnum \<Rightarrow> dynamic_options \<Rightarrow> jsstring res" where
  "formatTaskUsageUnitPrice intl store valuePerUnit options =
    (let priceUSD = js_mul valuePerUnit (default_to (Fin 1) (do_groupRatioMultiplier options))
     in formatBillingCurrencyFromUSD intl store (Some (recharged priceUSD options))
          (Some (price_options 6 (Some (default_to True (do_showCurrencySymbol options))))))"

subsection \<open>Tiers\<close>

definition getDynamicPricingTiers ::
  "host \<Rightarrow> pricing_model \<Rightarrow> cache \<Rightarrow> dynamic_tier list res \<times> cache" where
  "getDynamicPricingTiers h model cache =
    (if \<not> isDynamicPricingModel model then (Inr [], cache)
     else
       case splitBillingExprAndRequestRules (default_to [] (pm_billing_expr model)) of
         Inl err \<Rightarrow> (Inl err, cache)
       | Inr (billingExpr, rules) \<Rightarrow>
           if isTaskUsagePricingModel model then
             let (tiers, cache1) =
               parseTaskTiersFromExpr billingExpr (default_to [] (pm_billing_usage_schema model)) True cache
             in (sbind tiers (\<lambda>ts. Inr (map TaskTier ts)), cache1)
           else
             let (tiers, cache1) = parseTiersFromExpr h billingExpr cache
             in (sbind tiers (\<lambda>ts. Inr (map ChatTier ts)), cache1))"

definition hasDynamicRequestRules :: "pricing_model \<Rightarrow> bool res" where
  "hasDynamicRequestRules model =
    (if \<not> isDynamicPricingModel model then Inr False
     else
       sbind (splitBillingExprAndRequestRules (default_to [] (pm_billing_expr model))) (\<lambda>(billingExpr, rules).
       sbind (tryParseRequestRuleExpr rules) (\<lambda>groups.
       Inr (case groups of Some gs \<Rightarrow> gs \<noteq> [] | None \<Rightarrow> False))))"

subsection \<open>Entries\<close>

definition fixed_entry :: "intl \<Rightarrow> stored_currency option \<Rightarrow> dynamic_options \<Rightarrow> jsnum \<Rightarrow> price_entry res" where
  "fixed_entry intl store options price =
    sbind (formatTaskUsageUnitPrice intl store price options) (\<lambda>formatted.
    Inr \<lparr>en_key = js ''fixed'', en_field = js ''fixedPrice'', en_label = js ''Price per request'',
      en_shortLabel = js ''Per-call'', en_labelKind = I18nLabel, en_value = price, en_formatted = formatted,
      en_formattedRange = None, en_unit = js ''request'', en_variable = None\<rparr>)"

text \<open>A price that is missing, not finite or negative has no entry.\<close>

definition shown_price :: "(jsstring \<times> jsnum) list \<Rightarrow> jsstring \<Rightarrow> jsnum option" where
  "shown_price prices k =
    (case map_of prices k of Some x \<Rightarrow> if is_finite x \<and> \<not> js_lt x (Fin 0) then Some x else None | None \<Rightarrow> None)"

definition usage_entry ::
  "intl \<Rightarrow> stored_currency option \<Rightarrow> dynamic_options \<Rightarrow> task_tier \<Rightarrow> jsstring \<times> field_schema \<Rightarrow> price_entry list res" where
  "usage_entry intl store options tier field =
    (case (shown_price (kt_unitPrices tier) (fst field), fs_unit (snd field)) of
       (Some x, Some u) \<Rightarrow>
         if u = [] then Inr []
         else
           sbind (formatTaskUsageUnitPrice intl store x options) (\<lambda>formatted.
           Inr [\<lparr>en_key = fst field, en_field = fst field, en_label = fst field, en_shortLabel = fst field,
             en_labelKind = SchemaLabel, en_value = x, en_formatted = formatted, en_formattedRange = None,
             en_unit = u, en_variable = None\<rparr>])
     | _ \<Rightarrow> Inr [])"

definition constant_entry ::
  "intl \<Rightarrow> stored_currency option \<Rightarrow> dynamic_options \<Rightarrow> jsnum \<Rightarrow> price_entry list res" where
  "constant_entry intl store options cst =
    (if js_lt (Fin 0) cst then
       sbind (formatTaskUsageUnitPrice intl store cst options) (\<lambda>formatted.
       Inr [\<lparr>en_key = js ''constant'', en_field = js ''constant'', en_label = js ''Additional charge'',
         en_shortLabel = js ''Additional charge'', en_labelKind = I18nLabel, en_value = cst, en_formatted = formatted,
         en_formattedRange = None, en_unit = js ''request'', en_variable = None\<rparr>])
     else Inr [])"

definition token_entry ::
  "intl \<Rightarrow> stored_currency option \<Rightarrow> dynamic_options \<Rightarrow> (jsstring \<times> jsnum) list \<Rightarrow> billing_var \<Rightarrow> price_entry list res" where
  "token_entry intl store options prices v =
    (case bv_field v of
       None \<Rightarrow> Inr []
     | Some field \<Rightarrow>
         (case if field = [] then None else shown_price prices field of
            None \<Rightarrow> Inr []
          | Some x \<Rightarrow>
              sbind (formatDynamicUnitPrice intl store x options) (\<lambda>formatted.
              Inr [\<lparr>en_key = bv_key v, en_field = field, en_label = bv_label v, en_shortLabel = bv_shortLabel v,
                en_labelKind = I18nLabel, en_value = x, en_formatted = formatted, en_formattedRange = None,
                en_unit = js ''token'', en_variable = Some v\<rparr>])))"

definition is_primary :: "price_entry \<Rightarrow> bool" where
  "is_primary e \<longleftrightarrow> en_field e \<in> set PRIMARY_DYNAMIC_FIELDS"

fun getDynamicPriceEntries ::
  "intl \<Rightarrow> collation \<Rightarrow> stored_currency option \<Rightarrow> dynamic_tier option \<Rightarrow> dynamic_options \<Rightarrow> price_entry list res" where
  "getDynamicPriceEntries intl le store None options = Inr []"
| "getDynamicPriceEntries intl le store (Some (TaskTier tier)) options =
    (case do_usageSchema options of
       None \<Rightarrow> Inr []
     | Some schema \<Rightarrow>
         sbind (smap (usage_entry intl store options tier) (getTaskNumberFields le schema)) (\<lambda>usage.
         sbind (constant_entry intl store options (kt_constant tier)) (\<lambda>cst.
         Inr (concat usage @ cst))))"
| "getDynamicPriceEntries intl le store (Some (ChatTier tier)) options =
    (case (pt_billingUnit tier, pt_fixedPrice tier) of
       (Some RequestUnit, Some price) \<Rightarrow> sbind (fixed_entry intl store options price) (\<lambda>e. Inr [e])
     | _ \<Rightarrow>
         sbind (smap (token_entry intl store options (pt_fields tier)) BILLING_PRICING_VARS) (\<lambda>es.
         Inr (sort_with (\<lambda>a b. \<not> is_primary a \<and> is_primary b) (concat es))))"

subsection \<open>The summary\<close>

fun request_unit :: "dynamic_tier \<Rightarrow> bool" where
  "request_unit (ChatTier t) = (pt_billingUnit t = Some RequestUnit)"
| "request_unit (TaskTier t) = False"

fun token_unit_tier :: "dynamic_tier \<Rightarrow> bool" where
  "token_unit_tier (ChatTier t) = (pt_billingUnit t \<noteq> Some RequestUnit)"
| "token_unit_tier (TaskTier t) = False"

fun tier_price :: "jsstring \<Rightarrow> dynamic_tier \<Rightarrow> jsnum option" where
  "tier_price field (TaskTier t) = shown_price (kt_unitPrices t) field"
| "tier_price field (ChatTier t) = None"

definition widen_range :: "jsstring \<Rightarrow> dynamic_tier \<Rightarrow> jsnum \<times> jsnum \<Rightarrow> jsnum \<times> jsnum" where
  "widen_range field tier bounds =
    (case tier_price field tier of
       Some x \<Rightarrow> (math_min (fst bounds) x, math_max (snd bounds) x)
     | None \<Rightarrow> bounds)"

definition range_step ::
  "dynamic_tier list \<Rightarrow> jsstring \<times> field_schema \<Rightarrow> (jsstring \<times> jsnum \<times> jsnum) list \<Rightarrow> (jsstring \<times> jsnum \<times> jsnum) list" where
  "range_step tiers field ranges =
    (let (lo, hi) = fold (widen_range (fst field)) tiers (Infinity, NegInfinity)
     in if is_finite lo \<and> is_finite hi then map_set (fst field) (lo, hi) ranges else ranges)"

definition price_ranges :: "(jsstring \<times> field_schema) list \<Rightarrow> dynamic_tier list \<Rightarrow> (jsstring \<times> jsnum \<times> jsnum) list" where
  "price_ranges numberFields tiers = fold (range_step tiers) numberFields []"

definition with_range ::
  "intl \<Rightarrow> stored_currency option \<Rightarrow> dynamic_options \<Rightarrow> (jsstring \<times> jsnum \<times> jsnum) list \<Rightarrow> price_entry \<Rightarrow> price_entry res" where
  "with_range intl store options ranges entry =
    (case map_of ranges (en_field entry) of
       None \<Rightarrow> Inr entry
     | Some (lo, hi) \<Rightarrow>
         if js_num_eq lo hi then Inr entry
         else
           sbind (formatTaskUsageUnitPrice intl store lo options) (\<lambda>a.
           sbind (formatTaskUsageUnitPrice intl store hi options) (\<lambda>b.
           Inr (entry\<lparr>en_formattedRange := Some (a @ [32, 8211, 32] @ b)\<rparr>))))"

definition mixed_entries ::
  "intl \<Rightarrow> collation \<Rightarrow> stored_currency option \<Rightarrow> dynamic_options \<Rightarrow> dynamic_tier list \<Rightarrow> price_entry list
     \<Rightarrow> (price_entry list \<times> bool) res" where
  "mixed_entries intl le store options summaryTiers entries =
    (case (find token_unit_tier summaryTiers, find request_unit summaryTiers) of
       (Some chatTier, Some requestTier) \<Rightarrow>
         sbind (getDynamicPriceEntries intl le store (Some chatTier) options) (\<lambda>a.
         sbind (getDynamicPriceEntries intl le store (Some requestTier) options) (\<lambda>b.
         Inr (a @ b, True)))
     | _ \<Rightarrow> Inr (entries, False))"

definition summary_entries ::
  "intl \<Rightarrow> collation \<Rightarrow> stored_currency option \<Rightarrow> pricing_model \<Rightarrow> dynamic_options \<Rightarrow> dynamic_tier list
     \<Rightarrow> dynamic_tier list \<Rightarrow> dynamic_tier option \<Rightarrow> (price_entry list \<times> bool) res" where
  "summary_entries intl le store model options tiers summaryTiers tier =
    sbind (getDynamicPriceEntries intl le store tier
      (options\<lparr>do_usageSchema := pm_billing_usage_schema model\<rparr>)) (\<lambda>entries.
    if isTaskUsagePricingModel model then
      let ranges = price_ranges (getTaskNumberFields le (default_to [] (pm_billing_usage_schema model))) tiers
      in sbind (smap (with_range intl store options ranges) entries) (\<lambda>es. Inr (es, False))
    else mixed_entries intl le store options summaryTiers entries)"

definition time_tiers ::
  "host \<Rightarrow> pricing_model \<Rightarrow> dynamic_options \<Rightarrow> cache \<Rightarrow> dynamic_tier list option res \<times> cache" where
  "time_tiers h model options cache =
    (case splitBillingExprAndRequestRules (default_to [] (pm_billing_expr model)) of
       Inl err \<Rightarrow> (Inl err, cache)
     | Inr (baseExpression, rules) \<Rightarrow>
         if isTaskUsagePricingModel model then (Inr None, cache)
         else
           let (tiers, cache1) =
             getCurrentTimePricingTiers h baseExpression (default_to (host_clock h) (do_now options)) cache
           in (sbind tiers (\<lambda>ts. Inr (map_option (map ChatTier) ts)), cache1))"

definition build_summary ::
  "intl \<Rightarrow> collation \<Rightarrow> stored_currency option \<Rightarrow> pricing_model \<Rightarrow> dynamic_options \<Rightarrow> dynamic_tier list
     \<Rightarrow> dynamic_tier list option \<Rightarrow> pricing_summary res" where
  "build_summary intl le store model options tiers timeTiers =
    (let isTaskUsage = isTaskUsagePricingModel model;
         summaryTiers = default_to tiers timeTiers;
         tier = (if summaryTiers = [] then None
           else Some (if isTaskUsage then last summaryTiers else hd summaryTiers));
         rawExpression = default_to [] (pm_billing_expr model)
     in sbind (summary_entries intl le store model options tiers summaryTiers tier) (\<lambda>(entries, mixed).
        sbind (hasDynamicRequestRules model) (\<lambda>hasRules.
        Inr \<lparr>su_tiers = tiers, su_tier = tier, su_tierCount = length tiers, su_hasRequestRules = hasRules,
          su_isSpecialExpression = (js_trim rawExpression \<noteq> [] \<and> tiers = []), su_rawExpression = rawExpression,
          su_entries = entries,
          su_primaryEntries = (if isTaskUsage then filter (\<lambda>e. en_unit e \<noteq> js ''request'') entries
            else filter (\<lambda>e. en_unit e = js ''request'' \<or> is_primary e) entries),
          su_secondaryEntries = (if isTaskUsage then filter (\<lambda>e. en_unit e = js ''request'') entries
            else filter (\<lambda>e. en_unit e \<noteq> js ''request'' \<and> \<not> is_primary e) entries),
          su_isTaskUsage = isTaskUsage, su_isTimePricing = (timeTiers \<noteq> None),
          su_isMixedBilling = (if mixed then Some True else None)\<rparr>)))"

definition getDynamicPricingSummary ::
  "host \<Rightarrow> intl \<Rightarrow> collation \<Rightarrow> stored_currency option \<Rightarrow> pricing_model \<Rightarrow> dynamic_options \<Rightarrow> cache
     \<Rightarrow> pricing_summary option res \<times> cache" where
  "getDynamicPricingSummary h intl le store model options cache =
    (if \<not> isDynamicPricingModel model then (Inr None, cache)
     else
       case getDynamicPricingTiers h model cache of
         (Inl err, cache1) \<Rightarrow> (Inl err, cache1)
       | (Inr tiers, cache1) \<Rightarrow>
           (case time_tiers h model options cache1 of
              (Inl err, cache2) \<Rightarrow> (Inl err, cache2)
            | (Inr timeTiers, cache2) \<Rightarrow>
                (sbind (build_summary intl le store model options tiers timeTiers) (\<lambda>s. Inr (Some s)), cache2)))"

definition getCardExamplePrice ::
  "host \<Rightarrow> intl \<Rightarrow> collation \<Rightarrow> stored_currency option \<Rightarrow> pricing_model \<Rightarrow> dynamic_options \<Rightarrow> cache
     \<Rightarrow> (jsstring \<times> jsstring) option res \<times> cache" where
  "getCardExamplePrice h intl le store model options cache =
    (if \<not> isTaskUsagePricingModel model then (Inr None, cache)
     else
       case (pm_billing_usage_schema model, default_to [] (pm_billing_usage_examples model)) of
         (Some schema, firstExample # _) \<Rightarrow>
           (case splitBillingExprAndRequestRules (default_to [] (pm_billing_expr model)) of
              Inl err \<Rightarrow> (Inl err, cache)
            | Inr (billingExpr, rules) \<Rightarrow>
                (case tryParseTaskVisualConfig le billingExpr schema cache of
                   (Inl err, cache1) \<Rightarrow> (Inl err, cache1)
                 | (Inr None, cache1) \<Rightarrow> (Inr None, cache1)
                 | (Inr (Some config), cache1) \<Rightarrow>
                     (case evaluateTaskVisualConfig h config (ue_facts firstExample) schema cache1 of
                        (None, cache2) \<Rightarrow> (Inr None, cache2)
                      | (Some result, cache2) \<Rightarrow>
                          (sbind (formatTaskUsageUnitPrice intl store (pv_total result) options) (\<lambda>t.
                           Inr (Some (ue_label firstExample, t))), cache2))))
       | _ \<Rightarrow> (Inr None, cache))"

subsection \<open>Matching a settled tier\<close>

fun tier_label_text :: "dynamic_tier \<Rightarrow> jsstring" where
  "tier_label_text (ChatTier t) = pt_label t"
| "tier_label_text (TaskTier t) = kt_label t"

definition tierMatchesNormalizedLabel :: "host \<Rightarrow> jsstring \<Rightarrow> dynamic_tier \<Rightarrow> bool" where
  "tierMatchesNormalizedLabel h normalizedMatchedTierLabel tier \<longleftrightarrow>
     normalizedMatchedTierLabel \<noteq> [] \<and> normalizeTierLabel h (tier_label_text tier) = normalizedMatchedTierLabel"

fun unit_agrees :: "billing_unit option \<Rightarrow> jsnum option \<Rightarrow> dynamic_tier \<Rightarrow> bool" where
  "unit_agrees (Some unit) fixedPrice (ChatTier t) =
    (default_to TokenUnit (pt_billingUnit t) = unit
     \<and> (unit = RequestUnit \<longrightarrow>
         (case (fixedPrice, pt_fixedPrice t) of
            (Some p, Some q) \<Rightarrow> js_num_eq q p
          | (Some p, None) \<Rightarrow> False
          | (None, _) \<Rightarrow> True)))"
| "unit_agrees _ fixedPrice tier = True"

fun facts_agree :: "jsobj \<Rightarrow> dynamic_tier \<Rightarrow> bool" where
  "facts_agree facts (TaskTier t) =
    (kt_conditions t \<noteq> []
     \<and> list_all (\<lambda>(k, v). case map_of facts k of Some x \<Rightarrow> x \<noteq> VUndefined \<and> js_String x = v | None \<Rightarrow> False)
         (kt_conditions t))"
| "facts_agree facts (ChatTier t) = False"

definition isBreakdownTierMatched ::
  "host \<Rightarrow> dynamic_tier \<Rightarrow> dynamic_tier list \<Rightarrow> jsstring option \<Rightarrow> jsobj option \<Rightarrow> billing_unit option \<Rightarrow> jsnum option \<Rightarrow> bool" where
  "isBreakdownTierMatched h tier tiers matchedTierLabel usageFacts unit fixedPrice =
    (if \<not> unit_agrees unit fixedPrice tier then False
     else
       let label = normalizeTierLabel h (default_to [] matchedTierLabel) in
       if tierMatchesNormalizedLabel h label tier then True
       else if list_ex (tierMatchesNormalizedLabel h label) tiers then False
       else case usageFacts of None \<Rightarrow> False | Some facts \<Rightarrow> facts_agree facts tier)"

subsection \<open>Task tables for display\<close>

definition getTaskMatrixDisplayTiers ::
  "collation \<Rightarrow> jsstring \<Rightarrow> usage_schema option \<Rightarrow> cache \<Rightarrow> task_tier list option res \<times> cache" where
  "getTaskMatrixDisplayTiers le expr schema cache =
    (case schema of
       None \<Rightarrow> (Inr None, cache)
     | Some sch \<Rightarrow>
         if getTaskEnumFields le sch = [] then (Inr None, cache)
         else
           let (matrix, cache1) = tryParseTaskMatrixConfig le expr sch cache
           in (sbind matrix (\<lambda>m. Inr (map_option (map (\<lambda>row.
                 \<lparr>kt_label = taskMatrixRowLabel le (mr_combination row), kt_conditions = sort_by le (mr_combination row),
                  kt_constant = mr_constant row, kt_unitPrices = mr_unitPrices row\<rparr>)) m)), cache1))"

definition condition_fields :: "task_tier list \<Rightarrow> jsstring list" where
  "condition_fields previous = sort (fold (\<lambda>t fields. fold set_add (map fst (kt_conditions t)) fields) previous [])"

definition field_values :: "usage_schema \<Rightarrow> jsstring \<Rightarrow> jsstring list" where
  "field_values schema field =
    (case map_of schema field of
       None \<Rightarrow> []
     | Some d \<Rightarrow> if fs_type d = Some (js ''boolean'') then [js ''false'', js ''true'']
         else default_to [] (fs_enum d))"

fun expand_fields :: "usage_schema \<Rightarrow> jsstring list \<Rightarrow> (jsstring \<times> jsstring) list list \<Rightarrow> (jsstring \<times> jsstring) list list option" where
  "expand_fields schema [] combinations = Some combinations"
| "expand_fields schema (field # rest) combinations =
    (let values = field_values schema field in
     if values = [] \<or> length combinations * length values > 256 then None
     else expand_fields schema rest
       (concat (map (\<lambda>combination. map (\<lambda>v. combination @ [(field, v)]) values) combinations)))"

definition covered :: "task_tier list \<Rightarrow> (jsstring \<times> jsstring) list \<Rightarrow> bool" where
  "covered previous combination = list_ex (\<lambda>t. list_all (\<lambda>c. c \<in> set combination) (kt_conditions t)) previous"

definition explicit_fallback :: "usage_schema \<Rightarrow> task_tier list \<Rightarrow> task_tier list" where
  "explicit_fallback schema tiers =
    (if length tiers < 2 then tiers
     else
       let previous = butlast tiers in
       case expand_fields schema (condition_fields previous) [[]] of
         None \<Rightarrow> tiers
       | Some combinations \<Rightarrow>
           (case filter (\<lambda>c. \<not> covered previous c) combinations of
              [remaining] \<Rightarrow> previous @ [(last tiers)\<lparr>kt_conditions := remaining\<rparr>]
            | _ \<Rightarrow> tiers))"

definition getTaskPricingDisplayTiers ::
  "jsstring \<Rightarrow> usage_schema option \<Rightarrow> cache \<Rightarrow> task_tier list res \<times> cache" where
  "getTaskPricingDisplayTiers expr schema cache =
    (let (tiers, cache1) = parseTaskTiersFromExpr expr (default_to [] schema) True cache
     in (sbind tiers (\<lambda>ts. Inr (case schema of None \<Rightarrow> ts | Some sch \<Rightarrow> explicit_fallback sch ts)), cache1))"

definition hasSimpleTaskPricing :: "pricing_model \<Rightarrow> cache \<Rightarrow> bool res \<times> cache" where
  "hasSimpleTaskPricing model cache =
    (case pm_billing_usage_schema model of
       None \<Rightarrow> (Inr False, cache)
     | Some schema \<Rightarrow>
         if \<not> isDynamicPricingModel model then (Inr False, cache)
         else
           case splitBillingExprAndRequestRules (default_to [] (pm_billing_expr model)) of
             Inl err \<Rightarrow> (Inl err, cache)
           | Inr (billingExpr, rules) \<Rightarrow>
               if js_trim rules \<noteq> [] then (Inr False, cache)
               else
                 let (tiers, cache1) = getTaskPricingDisplayTiers billingExpr (Some schema) cache
                 in (sbind tiers (\<lambda>ts. Inr (length ts = 1)), cache1))"

end
