(* ===== verification/DynamicPriceLaws.thy ===== *)
theory DynamicPriceLaws
  imports DynamicPrice CatalogLaws
begin

section \<open>Price summaries: fallback rows, ranges and settled tiers\<close>

text \<open>
  The conditions shown for the fallback row hold exactly for the usage that reaches it
  (\<open>fallback_row_exact\<close>). The range shown for a usage field is spanned by prices of the tiers and covers all of
  them, and primary and secondary entries partition the entries (\<open>summary_ranges\<close>).
\<close>

subsection \<open>The fallback row\<close>

text \<open>
  A usage gives each field a value. A tier applies if all its conditions hold; the last tier is
  reached if no earlier one applies.
\<close>

definition conditions_hold :: "(jsstring \<Rightarrow> jsstring) \<Rightarrow> (jsstring \<times> jsstring) list \<Rightarrow> bool" where
  "conditions_hold usage conditions = list_all (\<lambda>(k, v). usage k = v) conditions"

definition reaches_last :: "(jsstring \<Rightarrow> jsstring) \<Rightarrow> task_tier list \<Rightarrow> bool" where
  "reaches_last usage tiers = list_all (\<lambda>t. \<not> conditions_hold usage (kt_conditions t)) (butlast tiers)"

lemma condition_fields_set: "set (condition_fields ts) = (\<Union>t \<in> set ts. fst ` set (kt_conditions t))"
proof -
  have a: "set (fold set_add xs ys) = set xs \<union> set ys" for xs ys :: "jsstring list"
    by (induction xs arbitrary: ys) auto
  have "set (fold (\<lambda>t fields. fold set_add (map fst (kt_conditions t)) fields) ts ys)
      = (\<Union>t \<in> set ts. fst ` set (kt_conditions t)) \<union> set ys" for ys
    by (induction ts arbitrary: ys) (auto simp: a)
  then show ?thesis by (simp add: condition_fields_def)
qed

lemma expand_fields_set:
  assumes "expand_fields schema fs cs = Some res" "\<forall>c \<in> set cs. map fst c = gs"
  shows "\<forall>c \<in> set res. map fst c = gs @ fs"
    and "\<forall>f \<in> set fs. usage f \<in> set (field_values schema f) \<Longrightarrow> map (\<lambda>g. (g, usage g)) gs \<in> set cs \<Longrightarrow>
      map (\<lambda>g. (g, usage g)) (gs @ fs) \<in> set res"
  using assms
proof (induction schema fs cs arbitrary: gs rule: expand_fields.induct)
  case (2 schema field rest cs)
  let ?cs = "concat (map (\<lambda>c. map (\<lambda>v. c @ [(field, v)]) (field_values schema field)) cs)"
  { case 1
    then show ?case using 2(1)[of "field_values schema field" "gs @ [field]"] by (auto simp: Let_def split: if_splits)
  next
    case 2
    have "map (\<lambda>g. (g, usage g)) (gs @ [field]) \<in> set ?cs" using 2 by auto
    then show ?case using "2.IH"(2)[of "field_values schema field" "gs @ [field]"] 2
      by (auto simp: Let_def split: if_splits)
  }
qed auto

lemma covered_usage:
  "covered previous (map (\<lambda>g. (g, usage g)) (condition_fields previous))
     \<longleftrightarrow> (\<exists>t \<in> set previous. conditions_hold usage (kt_conditions t))"
proof -
  have "list_all (\<lambda>c. c \<in> set (map (\<lambda>g. (g, usage g)) (condition_fields previous))) (kt_conditions t)
      \<longleftrightarrow> conditions_hold usage (kt_conditions t)" if "t \<in> set previous" for t
    using that by (force simp: list_all_iff conditions_hold_def condition_fields_set)
  then show ?thesis by (auto simp: covered_def list_ex_iff)
qed

lemma holds_combination:
  "conditions_hold usage c \<longleftrightarrow> c = map (\<lambda>g. (g, usage g)) (map fst c)"
  by (induction c) (auto simp: conditions_hold_def)

lemma explicit_fallback_cases:
  "explicit_fallback schema tiers = tiers \<or> (\<exists>combinations c.
    expand_fields schema (condition_fields (butlast tiers)) [[]] = Some combinations
    \<and> filter (\<lambda>c. \<not> covered (butlast tiers) c) combinations = [c]
    \<and> explicit_fallback schema tiers = butlast tiers @ [(last tiers)\<lparr>kt_conditions := c\<rparr>])"
  unfolding explicit_fallback_def Let_def
  by (simp split: option.splits list.splits)

text \<open>
  C35: When the table names conditions for its last row, they hold exactly for the usage that no earlier row
  applies to, among all usage that gives the tested fields values of the schema. Labels and
  prices are never changed.
\<close>

theorem fallback_row_exact:
  assumes "explicit_fallback schema tiers \<noteq> tiers"
    and "\<forall>f \<in> set (condition_fields (butlast tiers)). usage f \<in> set (field_values schema f)"
  shows "(reaches_last usage tiers \<longleftrightarrow> conditions_hold usage (kt_conditions (last (explicit_fallback schema tiers))))
    \<and> butlast (explicit_fallback schema tiers) = butlast tiers
    \<and> (last (explicit_fallback schema tiers))\<lparr>kt_conditions := kt_conditions (last tiers)\<rparr> = last tiers"
proof -
  obtain combinations c where 2: "expand_fields schema (condition_fields (butlast tiers)) [[]] = Some combinations"
      "filter (\<lambda>c. \<not> covered (butlast tiers) c) combinations = [c]"
      "explicit_fallback schema tiers = butlast tiers @ [(last tiers)\<lparr>kt_conditions := c\<rparr>]"
    using explicit_fallback_cases[of schema tiers] assms(1) by blast
  define previous where "previous = butlast tiers"
  define u where "u = map (\<lambda>g. (g, usage g)) (condition_fields previous)"
  note expand = expand_fields_set[OF 2(1), of "[]", simplified, folded previous_def]
  have mem: "x \<in> set combinations \<and> \<not> covered previous x \<longleftrightarrow> x = c" for x
    using arg_cong[OF 2(2), of set] by (auto simp: previous_def)
  have "u \<in> set combinations" unfolding u_def using expand(2)[of usage] assms(2) by (simp add: previous_def)
  have "reaches_last usage tiers \<longleftrightarrow> \<not> covered previous u"
    by (auto simp: reaches_last_def u_def covered_usage list_all_iff previous_def)
  also have "\<dots> \<longleftrightarrow> u = c" using mem[of u] \<open>u \<in> set combinations\<close> by blast
  also have "\<dots> \<longleftrightarrow> conditions_hold usage c"
    using mem[of c] expand(1) holds_combination[of usage c] by (auto simp: u_def)
  finally show ?thesis using 2(3) by simp
qed

definition fx_schema :: usage_schema where
  "fx_schema =
    [(js ''quality'', \<lparr>fs_type = None, fs_unit = None, fs_enum = Some [js ''hd'', js ''sd'']\<rparr>),
     (js ''audio'', \<lparr>fs_type = Some (js ''boolean''), fs_unit = None, fs_enum = None\<rparr>),
     (js ''seconds'', \<lparr>fs_type = Some (js ''number''), fs_unit = Some (js ''second''), fs_enum = None\<rparr>)]"

definition fx_tier :: "string \<Rightarrow> (string \<times> string) list \<Rightarrow> rat \<Rightarrow> task_tier" where
  "fx_tier label conditions price =
    \<lparr>kt_label = js label, kt_conditions = map (\<lambda>(k, v). (js k, js v)) conditions, kt_constant = Fin 0,
     kt_unitPrices = [(js ''seconds'', Fin price)]\<rparr>"

definition fx_tiers :: "task_tier list" where
  "fx_tiers = [fx_tier ''hd'' [(''quality'', ''hd'')] 2, fx_tier ''sd+'' [(''quality'', ''sd''), (''audio'', ''true'')] 1,
     fx_tier ''sd'' [] (1 / 2)]"

definition fx_usage :: "jsstring \<Rightarrow> jsstring" where
  "fx_usage k = (if k = js ''quality'' then js ''sd'' else js ''false'')"

lemma fx_rows:
  "map kt_conditions (explicit_fallback fx_schema fx_tiers) =
    [[(js ''quality'', js ''hd'')], [(js ''quality'', js ''sd''), (js ''audio'', js ''true'')],
     [(js ''audio'', js ''false''), (js ''quality'', js ''sd'')]]"
  by code_simp

lemma fx_domain:
  "list_all (\<lambda>f. fx_usage f \<in> set (field_values fx_schema f)) (condition_fields (butlast fx_tiers))"
  by code_simp

theorem fallback_row_exact_witness:
  "kt_conditions (last (explicit_fallback fx_schema fx_tiers)) = [(js ''audio'', js ''false''), (js ''quality'', js ''sd'')]
    \<and> (reaches_last fx_usage fx_tiers \<longleftrightarrow> conditions_hold fx_usage (kt_conditions (last (explicit_fallback fx_schema fx_tiers))))"
proof -
  let ?rows = "explicit_fallback fx_schema fx_tiers"
  have "map kt_conditions ?rows \<noteq> []" unfolding fx_rows by simp
  then have ne: "?rows \<noteq> []" by (simp only: map_is_Nil_conv not_False_eq_True)
  have l: "kt_conditions (last ?rows) = [(js ''audio'', js ''false''), (js ''quality'', js ''sd'')]"
    unfolding last_map[OF ne, of kt_conditions, symmetric] fx_rows by simp
  have "kt_conditions (last fx_tiers) = []" by (simp add: fx_tiers_def fx_tier_def)
  with l have "?rows \<noteq> fx_tiers" by (metis list.simps(3))
  then show ?thesis
    using fallback_row_exact[of fx_schema fx_tiers fx_usage] fx_domain l by (simp only: list_all_iff simp_thms)
qed

subsection \<open>Ranges\<close>

lemma tier_price_finite: "tier_price f t = Some x \<Longrightarrow> is_finite x \<and> x \<noteq> NaN"
  by (cases t) (auto simp: shown_price_def split: option.splits if_splits)

lemma math_min_lower:
  assumes "a \<noteq> NaN" "b \<noteq> NaN"
  shows "math_min a b \<in> {a, b}" "\<not> js_lt a (math_min a b)" "\<not> js_lt b (math_min a b)"
  using assms js_lt_asym[of a b]
  by (cases "js_lt a b"; cases "js_lt b a"; cases "neg_sign a"; simp add: math_min_def js_lt_irrefl)+

lemma math_max_upper:
  assumes "a \<noteq> NaN" "b \<noteq> NaN"
  shows "math_max a b \<in> {a, b}" "\<not> js_lt (math_max a b) a" "\<not> js_lt (math_max a b) b"
  using assms js_lt_asym[of a b]
  by (cases "js_lt a b"; cases "js_lt b a"; cases "neg_sign a"; simp add: math_max_def js_lt_irrefl)+

text \<open>The bounds after the loop over the tiers.\<close>

definition spans_prices :: "jsstring \<Rightarrow> dynamic_tier list \<Rightarrow> jsnum \<times> jsnum \<Rightarrow> bool" where
  "spans_prices field tiers bounds \<longleftrightarrow>
     fst bounds \<noteq> NaN \<and> snd bounds \<noteq> NaN
     \<and> (fst bounds = Infinity \<or> (\<exists>t \<in> set tiers. tier_price field t = Some (fst bounds)))
     \<and> (snd bounds = NegInfinity \<or> (\<exists>t \<in> set tiers. tier_price field t = Some (snd bounds)))
     \<and> (\<forall>t \<in> set tiers. \<forall>x. tier_price field t = Some x \<longrightarrow> \<not> js_lt x (fst bounds) \<and> \<not> js_lt (snd bounds) x)"

lemma spans_step:
  assumes "spans_prices field tiers bounds"
  shows "spans_prices field (tiers @ [t]) (widen_range field t bounds)"
proof (cases "tier_price field t")
  case None
  then show ?thesis using assms by (auto simp: widen_range_def spans_prices_def)
next
  case (Some x)
  note f = tier_price_finite[OF Some]
  note lo = math_min_lower[of "fst bounds" x] and hi = math_max_upper[of "snd bounds" x]
  have nn: "fst bounds \<noteq> NaN" "snd bounds \<noteq> NaN" using assms by (auto simp: spans_prices_def)
  have "math_min (fst bounds) x \<noteq> NaN" "math_max (snd bounds) x \<noteq> NaN" using lo(1) hi(1) nn f by auto
  moreover have "\<not> js_lt y (math_min (fst bounds) x) \<and> \<not> js_lt (math_max (snd bounds) x) y"
    if "r \<in> set tiers" "tier_price field r = Some y" for r y
  proof -
    have "\<not> js_lt y (fst bounds)" "\<not> js_lt (snd bounds) y" using assms that by (auto simp: spans_prices_def)
    then show ?thesis
      using not_js_lt_trans[of y "fst bounds"] not_js_lt_trans[of _ "snd bounds" y] lo(2) hi(2) nn f calculation
        tier_price_finite[OF that(2)] by blast
  qed
  moreover have "math_min (fst bounds) x = Infinity \<or> (\<exists>r \<in> set (tiers @ [t]). tier_price field r = Some (math_min (fst bounds) x))"
    using lo(1)[OF nn(1)] f Some assms
    by (cases "math_min (fst bounds) x = x") (auto simp: spans_prices_def)
  moreover have "math_max (snd bounds) x = NegInfinity \<or> (\<exists>r \<in> set (tiers @ [t]). tier_price field r = Some (math_max (snd bounds) x))"
    using hi(1)[OF nn(2)] f Some assms
    by (cases "math_max (snd bounds) x = x") (auto simp: spans_prices_def)
  ultimately show ?thesis
    using lo(3)[OF nn(1)] hi(3)[OF nn(2)] f Some unfolding spans_prices_def widen_range_def by (simp add: ball_Un)
qed

lemma spans_fold: "spans_prices field tiers (fold (widen_range field) tiers (Infinity, NegInfinity))"
proof (induction tiers rule: rev_induct)
  case Nil
  show ?case by (simp add: spans_prices_def)
next
  case (snoc t ts)
  then show ?case using spans_step by simp
qed

definition ranges_span :: "dynamic_tier list \<Rightarrow> (jsstring \<times> jsnum \<times> jsnum) list \<Rightarrow> bool" where
  "ranges_span tiers ranges \<longleftrightarrow> (\<forall>k bounds. map_of ranges k = Some bounds \<longrightarrow>
     spans_prices k tiers bounds \<and> is_finite (fst bounds) \<and> is_finite (snd bounds))"

lemma range_step_span: "ranges_span tiers ranges \<Longrightarrow> ranges_span tiers (range_step tiers field ranges)"
  using spans_fold[of "fst field" tiers] by (auto simp: ranges_span_def range_step_def split: prod.splits)

lemma price_ranges_span: "ranges_span tiers (price_ranges fs tiers)"
  unfolding price_ranges_def
  by (rule fold_invariant[of fs "\<lambda>x. True"]) (simp_all add: range_step_span, simp add: ranges_span_def)

subsection \<open>Summaries\<close>

lemma smap_members: "smap f xs = Inr ys \<Longrightarrow> y \<in> set ys \<Longrightarrow> \<exists>x \<in> set xs. f x = Inr y"
  by (induction xs arbitrary: ys) auto

lemma usage_entry_no_range:
  "usage_entry intl store options tier field = Inr ys \<Longrightarrow> e \<in> set ys \<Longrightarrow> en_formattedRange e = None"
  by (cases "shown_price (kt_unitPrices tier) (fst field)"; cases "fs_unit (snd field)")
    (auto simp: usage_entry_def split: if_splits)

lemma token_entry_no_range:
  assumes "token_entry intl store options prices v = Inr ys" "e \<in> set ys"
  shows "en_formattedRange e = None"
proof (cases "bv_field v")
  case (Some k)
  then show ?thesis using assms
    by (cases "k = []"; cases "shown_price prices k") (auto simp: token_entry_def)
qed (use assms in \<open>simp add: token_entry_def\<close>)

lemma entries_no_range:
  "getDynamicPriceEntries intl le store tier options = Inr es \<Longrightarrow> e \<in> set es \<Longrightarrow> en_formattedRange e = None"
proof (induction intl le store tier options rule: getDynamicPriceEntries.induct)
  case (2 intl le store tier options)
  then obtain schema usage cst where u: "smap (usage_entry intl store options tier) (getTaskNumberFields le schema) = Inr usage"
      "constant_entry intl store options (kt_constant tier) = Inr cst" "es = concat usage @ cst"
    by (auto split: option.splits)
  have "en_formattedRange e = None" if "e \<in> set cst"
    using that u(2) by (auto simp: constant_entry_def split: if_splits)
  moreover have "en_formattedRange e = None" if "ys \<in> set usage" "e \<in> set ys" for ys
    using smap_members[OF u(1) that(1)] that(2) usage_entry_no_range by blast
  ultimately show ?case using 2(2) u(3) by auto
next
  case (3 intl le store tier options)
  consider (fixed) price x where "fixed_entry intl store options price = Inr x" "es = [x]"
    | (tokens) xs where "smap (token_entry intl store options (pt_fields tier)) BILLING_PRICING_VARS = Inr xs"
        "set es = set (concat xs)"
    using 3(1) by (auto split: option.splits billing_unit.splits)
  then show ?case
  proof cases
    case fixed
    then show ?thesis using 3(2) by (auto simp: fixed_entry_def)
  next
    case tokens
    then obtain ys where "ys \<in> set xs" "e \<in> set ys" using 3(2) by auto
    then show ?thesis using smap_members[OF tokens(1), of ys] token_entry_no_range by blast
  qed
qed simp

text \<open>What a shown range says about the tiers.\<close>

definition range_ok :: "intl \<Rightarrow> stored_currency option \<Rightarrow> dynamic_options \<Rightarrow> dynamic_tier list \<Rightarrow> price_entry \<Rightarrow> bool" where
  "range_ok intl store options tiers e \<longleftrightarrow>
    (\<forall>text. en_formattedRange e = Some text \<longrightarrow> (\<exists>lo hi a b.
       formatTaskUsageUnitPrice intl store lo options = Inr a \<and> formatTaskUsageUnitPrice intl store hi options = Inr b
       \<and> text = a @ [32, 8211, 32] @ b \<and> js_lt lo hi
       \<and> (\<exists>t \<in> set tiers. tier_price (en_field e) t = Some lo) \<and> (\<exists>t \<in> set tiers. tier_price (en_field e) t = Some hi)
       \<and> (\<forall>t \<in> set tiers. \<forall>x. tier_price (en_field e) t = Some x \<longrightarrow> \<not> js_lt x lo \<and> \<not> js_lt hi x)))"

lemma finite_order: "is_finite a \<Longrightarrow> is_finite b \<Longrightarrow> \<not> js_lt b a \<Longrightarrow> \<not> js_num_eq a b \<Longrightarrow> js_lt a b"
  by (cases a; cases b) auto

lemma with_range_ok:
  assumes "with_range intl store options (price_ranges fs tiers) e0 = Inr e" "en_formattedRange e0 = None"
  shows "range_ok intl store options tiers e"
proof (cases "en_formattedRange e")
  case (Some shown)
  then obtain lo hi a b where b: "map_of (price_ranges fs tiers) (en_field e0) = Some (lo, hi)" "\<not> js_num_eq lo hi"
      "formatTaskUsageUnitPrice intl store lo options = Inr a" "formatTaskUsageUnitPrice intl store hi options = Inr b"
      "e = e0\<lparr>en_formattedRange := Some (a @ [32, 8211, 32] @ b)\<rparr>"
    using assms by (auto simp: with_range_def split: option.splits if_splits)
  have s: "spans_prices (en_field e0) tiers (lo, hi)" "is_finite lo" "is_finite hi"
    using price_ranges_span[of tiers fs] b(1) by (auto simp: ranges_span_def)
  then have t: "\<exists>t \<in> set tiers. tier_price (en_field e0) t = Some lo" "\<exists>t \<in> set tiers. tier_price (en_field e0) t = Some hi"
    by (auto simp: spans_prices_def)
  then have "\<not> js_lt hi lo" using s(1) by (auto simp: spans_prices_def)
  then have "js_lt lo hi" using finite_order[OF s(2,3)] b(2) by blast
  moreover have "\<forall>t \<in> set tiers. \<forall>x. tier_price (en_field e0) t = Some x \<longrightarrow> \<not> js_lt x lo \<and> \<not> js_lt hi x"
    using s(1) by (simp add: spans_prices_def)
  moreover have "en_field e = en_field e0" "en_formattedRange e = Some (a @ [32, 8211, 32] @ b)" by (simp_all add: b(5))
  ultimately show ?thesis using b(3,4) t unfolding range_ok_def by (metis option.inject)
qed (simp add: range_ok_def)

lemma mixed_no_range:
  assumes "mixed_entries intl le store options ts es0 = Inr (es, mixed)" "\<forall>e \<in> set es0. en_formattedRange e = None"
    and "e \<in> set es"
  shows "en_formattedRange e = None"
proof (cases "es = es0")
  case False
  then obtain a b x y where "getDynamicPriceEntries intl le store x options = Inr a"
      "getDynamicPriceEntries intl le store y options = Inr b" "es = a @ b"
    using assms(1) by (auto simp: mixed_entries_def split: option.splits)
  then show ?thesis using assms(3) entries_no_range by fastforce
qed (use assms in blast)

lemma summary_entries_ranges:
  assumes "summary_entries intl le store model options tiers summaryTiers tier = Inr (es, mixed)" "e \<in> set es"
  shows "range_ok intl store options tiers e"
proof (cases "isTaskUsagePricingModel model")
  case True
  then obtain es0 where es0: "getDynamicPriceEntries intl le store tier (options\<lparr>do_usageSchema := pm_billing_usage_schema model\<rparr>) = Inr es0"
      "smap (with_range intl store options
         (price_ranges (getTaskNumberFields le (default_to [] (pm_billing_usage_schema model))) tiers)) es0 = Inr es"
    using assms(1) by (auto simp: summary_entries_def Let_def)
  from smap_members[OF es0(2) assms(2)] obtain e0 where "e0 \<in> set es0"
      "with_range intl store options
         (price_ranges (getTaskNumberFields le (default_to [] (pm_billing_usage_schema model))) tiers) e0 = Inr e" by blast
  then show ?thesis using with_range_ok entries_no_range[OF es0(1)] by blast
next
  case False
  then obtain es0 where es0: "getDynamicPriceEntries intl le store tier (options\<lparr>do_usageSchema := pm_billing_usage_schema model\<rparr>) = Inr es0"
      "mixed_entries intl le store options summaryTiers es0 = Inr (es, mixed)"
    using assms(1) by (auto simp: summary_entries_def)
  then have "en_formattedRange e = None" using mixed_no_range[OF es0(2) _ assms(2)] entries_no_range[OF es0(1)] by blast
  then show ?thesis by (simp add: range_ok_def)
qed

text \<open>
  In the summary of a dynamically priced model the primary and the secondary entries partition the
  entries, and the range shown for a usage field goes from the smallest to the largest price of the tiers for this
  field, both of which are prices of a tier.
\<close>

theorem summary_ranges:
  assumes "getDynamicPricingSummary h intl le store model options cache = (Inr (Some s), cache1)"
  shows "fst (getDynamicPricingTiers h model cache) = Inr (su_tiers s)
    \<and> mset (su_entries s) = mset (su_primaryEntries s) + mset (su_secondaryEntries s)
    \<and> (\<forall>e \<in> set (su_entries s). range_ok intl store options (su_tiers s) e)"
proof -
  obtain tiers timeTiers where t: "fst (getDynamicPricingTiers h model cache) = Inr tiers"
      "build_summary intl le store model options tiers timeTiers = Inr s"
    using assms unfolding getDynamicPricingSummary_def by (auto split: if_splits prod.splits sum.splits)
  obtain summaryTiers tier es mixed where e: "summary_entries intl le store model options tiers summaryTiers tier = Inr (es, mixed)"
      "su_tiers s = tiers" "su_entries s = es"
    using t(2) unfolding build_summary_def Let_def by auto
  have "mset (su_entries s) = mset (su_primaryEntries s) + mset (su_secondaryEntries s)"
    using t(2) unfolding build_summary_def Let_def
    by (auto simp: mset_filter multiset_partition[symmetric])
  then show ?thesis using t(1) e summary_entries_ranges by auto
qed

definition sx_intl :: intl where
  "sx_intl loc fmt v = Inr (js_String_num v)"

definition sx_model :: pricing_model where
  "sx_model = (cx_model ''video'' 1 1)\<lparr>pm_billing_mode := Some (js ''tiered_expr''),
     pm_billing_expr := Some (js ''u(\"quality\") == \"hd\" ? tier(\"hd\", u(\"seconds\") * 2) : tier(\"sd\", u(\"seconds\") * 1)''),
     pm_billing_usage_schema := Some fx_schema\<rparr>"

definition sx_options :: dynamic_options where
  "sx_options = \<lparr>do_tokenUnit = UnitM, do_showCurrencySymbol = None, do_showRechargePrice = None, do_priceRate = None,
     do_usdExchangeRate = None, do_groupRatioMultiplier = None, do_usageSchema = None, do_now = None\<rparr>"

lemma sx_shown:
  "(case fst (getDynamicPricingSummary cx_host sx_intl (\<le>) None sx_model sx_options []) of
      Inr (Some s) \<Rightarrow> map (\<lambda>e. (en_field e, en_formattedRange e)) (su_entries s)
    | _ \<Rightarrow> []) = [(js ''seconds'', Some (js ''1 '' @ [8211] @ js '' 2''))]"
  by code_simp

theorem summary_ranges_witness:
  "\<exists>s cache1 e. getDynamicPricingSummary cx_host sx_intl (\<le>) None sx_model sx_options [] = (Inr (Some s), cache1)
    \<and> e \<in> set (su_entries s) \<and> en_field e = js ''seconds''
    \<and> en_formattedRange e = Some (js ''1 '' @ [8211] @ js '' 2'') \<and> range_ok sx_intl None sx_options (su_tiers s) e"
proof -
  let ?r = "getDynamicPricingSummary cx_host sx_intl (\<le>) None sx_model sx_options []"
  obtain s where s: "fst ?r = Inr (Some s)"
    using sx_shown by (cases "fst ?r") (auto split: option.splits)
  then have r: "?r = (Inr (Some s), snd ?r)" by (metis prod.collapse)
  have m: "map (\<lambda>e. (en_field e, en_formattedRange e)) (su_entries s)
      = [(js ''seconds'', Some (js ''1 '' @ [8211] @ js '' 2''))]"
    using sx_shown unfolding s by simp
  then obtain e where e: "su_entries s = [e]" by (cases "su_entries s") auto
  then have "range_ok sx_intl None sx_options (su_tiers s) e" using summary_ranges[OF r] by simp
  moreover have "en_field e = js ''seconds''" "en_formattedRange e = Some (js ''1 '' @ [8211] @ js '' 2'')"
    using m unfolding e by simp_all
  ultimately show ?thesis using r e by (metis list.set_intros(1))
qed

end
