(* ===== verification/AuthSession.thy ===== *)
theory AuthSession
  imports JsTools
begin

section \<open>The login session\<close>

text \<open>
  Model of \<^verbatim>\<open>web/src/lib/auth-session.ts\<close>, of the store in \<^verbatim>\<open>web/src/stores/auth-store.ts\<close>, of the cookie
  reader in \<^verbatim>\<open>web/src/lib/session-hint.ts\<close>, of the messages between tabs in \<^verbatim>\<open>web/src/lib/auth-session-sync.ts\<close>
  and of the listeners that \<^verbatim>\<open>web/src/routes/__root.tsx\<close> registers for both. An access token is renewed by a refresh that runs across several
  turns of the event loop: it may wait for a browser lock, for the server's answer and for a delay, and in
  between any other operation of the page may sign in or out. The state \<open>world\<close> holds the store, the
  counter \<open>authEpoch\<close>, the refresh in flight with the point where it is suspended, and the log of
  what became visible outside (requests, messages to other tabs). Each event runs one uninterrupted
  piece of the program.
\<close>

subsection \<open>Values from the server\<close>

fun isRecord :: "jsval \<Rightarrow> bool" where
  "isRecord (VObj o1) = True"
| "isRecord (VArr xs) = True"
| "isRecord v = False"

record login_session =
  ls_sid :: jsstring
  ls_current :: bool
  ls_login_method :: jsstring
  ls_ip :: jsstring
  ls_user_agent :: jsstring
  ls_created_at :: jsnum
  ls_last_active_at :: jsnum
  ls_expires_at :: jsnum

record auth_bundle =
  ab_access_token :: jsstring
  ab_token_type :: jsstring
  ab_access_expires_at :: jsnum
  ab_user :: jsval
  ab_session :: login_session

definition isAuthUser :: "jsval \<Rightarrow> bool" where
  "isAuthUser v \<longleftrightarrow> isRecord v
     \<and> (case prop_of v ''id'' of VNum x \<Rightarrow> is_integer x \<and> js_lt (Fin 0) x | _ \<Rightarrow> False)
     \<and> is_str (prop_of v ''username'') \<and> is_num (prop_of v ''role'')"

text \<open>The type guards return the same object; the model reads its fields.\<close>

definition read_session :: "jsval \<Rightarrow> login_session option" where
  "read_session v =
    (case (prop_of v ''sid'', prop_of v ''current'', prop_of v ''login_method'', prop_of v ''ip'',
        prop_of v ''user_agent'', prop_of v ''created_at'', prop_of v ''last_active_at'', prop_of v ''expires_at'') of
       (VStr sid, VBool is_current, VStr method, VStr ip, VStr agent, VNum created, VNum active, VNum expires) \<Rightarrow>
         if sid = [] then None
         else Some \<lparr>ls_sid = sid, ls_current = is_current, ls_login_method = method, ls_ip = ip, ls_user_agent = agent,
           ls_created_at = created, ls_last_active_at = active, ls_expires_at = expires\<rparr>
     | _ \<Rightarrow> None)"

definition read_tokens :: "jsval \<Rightarrow> (jsstring \<times> jsstring \<times> jsnum) option" where
  "read_tokens v =
    (case (prop_of v ''access_token'', prop_of v ''token_type'', prop_of v ''access_expires_at'') of
       (VStr token, VStr type, VNum expires) \<Rightarrow>
         if token \<noteq> [] \<and> type \<noteq> [] \<and> is_finite expires \<and> js_lt (Fin 0) expires then Some (token, type, expires) else None
     | _ \<Rightarrow> None)"

definition parseBundle :: "jsval \<Rightarrow> auth_bundle option" where
  "parseBundle v =
    (case (read_tokens v, read_session (prop_of v ''session'')) of
       (Some (token, type, expires), Some session) \<Rightarrow>
         if isAuthUser (prop_of v ''user'') then
           Some \<lparr>ab_access_token = token, ab_token_type = type, ab_access_expires_at = expires,
             ab_user = prop_of v ''user'', ab_session = session\<rparr>
         else None
     | _ \<Rightarrow> None)"

definition read_rotation :: "jsval \<Rightarrow> (jsstring \<times> jsstring \<times> jsnum \<times> login_session) option" where
  "read_rotation v =
    (case (read_tokens v, read_session (prop_of v ''session'')) of
       (Some (token, type, expires), Some session) \<Rightarrow>
         if type = js ''Bearer'' \<and> ls_current session then Some (token, type, expires, session) else None
     | _ \<Rightarrow> None)"

subsection \<open>The store\<close>

datatype bootstrap_state = Idle | Checking | Complete

record auth_store =
  as_user :: "jsval option"
  as_accessToken :: "jsstring option"
  as_accessExpiresAt :: "jsnum option"
  as_session :: "login_session option"
  as_pendingLoginVerification :: "jsval option"
  as_bootstrapState :: bootstrap_state

definition initial_store :: auth_store where
  "initial_store = \<lparr>as_user = None, as_accessToken = None, as_accessExpiresAt = None, as_session = None,
     as_pendingLoginVerification = None, as_bootstrapState = Idle\<rparr>"

definition setBundle :: "auth_bundle \<Rightarrow> auth_store \<Rightarrow> auth_store" where
  "setBundle bundle auth = auth\<lparr>as_user := Some (ab_user bundle), as_accessToken := Some (ab_access_token bundle),
     as_accessExpiresAt := Some (ab_access_expires_at bundle), as_session := Some (ab_session bundle),
     as_pendingLoginVerification := None, as_bootstrapState := Complete\<rparr>"

definition user_id :: "jsval option \<Rightarrow> jsval" where
  "user_id u = (case u of Some v \<Rightarrow> prop_of v ''id'' | None \<Rightarrow> VUndefined)"

definition setUser :: "jsval option \<Rightarrow> auth_store \<Rightarrow> auth_store" where
  "setUser user auth = auth\<lparr>as_user := user, as_pendingLoginVerification :=
     (if strict_eq (user_id (as_user auth)) (user_id user) then as_pendingLoginVerification auth else None)\<rparr>"

definition setPendingLoginVerification :: "jsval option \<Rightarrow> auth_store \<Rightarrow> auth_store" where
  "setPendingLoginVerification pending auth = auth\<lparr>as_pendingLoginVerification := pending\<rparr>"

definition setBootstrapState :: "bootstrap_state \<Rightarrow> auth_store \<Rightarrow> auth_store" where
  "setBootstrapState state auth = auth\<lparr>as_bootstrapState := state\<rparr>"

definition reset :: "bootstrap_state \<Rightarrow> auth_store \<Rightarrow> auth_store" where
  "reset state auth = auth\<lparr>as_user := None, as_accessToken := None, as_accessExpiresAt := None, as_session := None,
     as_pendingLoginVerification := None, as_bootstrapState := state\<rparr>"

definition current_sid :: "auth_store \<Rightarrow> jsstring option" where
  "current_sid auth = map_option ls_sid (as_session auth)"

subsection \<open>The world\<close>

datatype transient_cause = Superseded | Reported jsval

datatype refresh_outcome =
    Authenticated auth_bundle
  | Anonymous
  | TransientError transient_cause
  | OutOfSync "jsstring option"

text \<open>
  Where a refresh is suspended: waiting for the browser lock, for the answer to a request, for the delay
  after a lost race, or settled (with an outcome or a rejection) but not yet cleared by \<open>finally\<close>.
\<close>

datatype refresh_point =
    AtLock
  | AtRequest nat bool
  | AtWait nat bool
  | Settled refresh_outcome
  | Rejected jsval

record refresh =
  rf_epoch :: nat
  rf_point :: refresh_point

datatype sync_kind = SyncAuthenticated | SyncSignedOut

datatype effect =
    Published sync_kind jsstring
  | Requested "jsstring option"
  | Waited nat
  | QueriesCleared
  | Reloaded
  | Navigated jsstring

record world =
  w_auth :: auth_store
  w_epoch :: nat
  w_refresh :: "refresh option"
  w_log :: "effect list"

record http_response =
  hr_status :: jsnum
  hr_data :: jsval
  hr_error :: jsval

definition emit :: "effect \<Rightarrow> world \<Rightarrow> world" where
  "emit e w = w\<lparr>w_log := w_log w @ [e]\<rparr>"

text \<open>
  An update of the store runs its subscribers at once; the root component drops the cached queries when
  the session is another one.
\<close>

definition set_auth :: "(auth_store \<Rightarrow> auth_store) \<Rightarrow> world \<Rightarrow> world" where
  "set_auth f w =
    (let w1 = w\<lparr>w_auth := f (w_auth w)\<rparr>
     in if current_sid (w_auth w1) \<noteq> current_sid (w_auth w) then emit QueriesCleared w1 else w1)"

text \<open>\<open>publishAuthSessionEvent\<close> ignores an empty session id.\<close>

definition publishAuthSessionEvent :: "sync_kind \<Rightarrow> jsstring \<Rightarrow> world \<Rightarrow> world" where
  "publishAuthSessionEvent kind sid w = (if sid = [] then w else emit (Published kind sid) w)"

subsection \<open>Signing in and out\<close>

definition applyAuthBundle :: "auth_bundle \<Rightarrow> bool \<Rightarrow> world \<Rightarrow> world" where
  "applyAuthBundle bundle synchronizeTabs w =
    (let previousSID = current_sid (w_auth w);
         w1 = set_auth (setBundle bundle) (w\<lparr>w_epoch := w_epoch w + 1\<rparr>)
     in if synchronizeTabs \<and> previousSID \<noteq> Some (ls_sid (ab_session bundle))
        then publishAuthSessionEvent SyncAuthenticated (ls_sid (ab_session bundle)) w1 else w1)"

definition applyAuthRotation :: "jsval \<Rightarrow> world \<Rightarrow> jsstring + world" where
  "applyAuthRotation v w =
    (case read_rotation v of
       None \<Rightarrow> Inl (js ''Invalid authentication rotation response'')
     | Some (token, type, expires, session) \<Rightarrow>
         (case (as_user (w_auth w), as_session (w_auth w)) of
            (Some user, Some active) \<Rightarrow>
              if ls_sid session \<noteq> ls_sid active then Inl (js ''Authentication rotation session mismatch'')
              else Inr (applyAuthBundle \<lparr>ab_access_token = token, ab_token_type = type, ab_access_expires_at = expires,
                ab_user = user, ab_session = session\<rparr> False w)
          | _ \<Rightarrow> Inl (js ''Authentication rotation has no active session'')))"

definition clearAuthentication :: "bool \<Rightarrow> bootstrap_state \<Rightarrow> world \<Rightarrow> world" where
  "clearAuthentication synchronizeTabs state w =
    (let sid = current_sid (w_auth w);
         w1 = set_auth (reset state) (w\<lparr>w_epoch := w_epoch w + 1\<rparr>)
     in case sid of
          Some s \<Rightarrow> if synchronizeTabs then publishAuthSessionEvent SyncSignedOut s w1 else w1
        | None \<Rightarrow> w1)"

definition clearAuthenticatedClientState :: "bool \<Rightarrow> world \<Rightarrow> world" where
  "clearAuthenticatedClientState synchronizeTabs w = clearAuthentication synchronizeTabs Complete (emit QueriesCleared w)"

subsection \<open>The refresh\<close>

definition refreshRaceDelays :: "nat list" where
  "refreshRaceDelays = [80, 200, 500]"

definition suspend :: "refresh_point \<Rightarrow> world \<Rightarrow> world" where
  "suspend p w = w\<lparr>w_refresh := map_option (\<lambda>r. r\<lparr>rf_point := p\<rparr>) (w_refresh w)\<rparr>"

text \<open>\<open>run\<close> up to the request.\<close>

definition run :: "nat \<Rightarrow> nat \<Rightarrow> bool \<Rightarrow> world \<Rightarrow> world" where
  "run epoch raceAttempt allowMismatchRetry w =
    (if w_epoch w \<noteq> epoch then suspend (Settled (TransientError Superseded)) w
     else suspend (AtRequest raceAttempt allowMismatchRetry) (emit (Requested (current_sid (w_auth w))) w))"

definition response_code :: "jsval \<Rightarrow> jsstring option" where
  "response_code d = (case prop_of d ''code'' of VStr c \<Rightarrow> Some c | _ \<Rightarrow> None)"

definition accepted_bundle :: "jsval \<Rightarrow> auth_bundle option" where
  "accepted_bundle d = (if prop_of d ''success'' = VBool True then parseBundle (prop_of d ''data'') else None)"

text \<open>\<open>run\<close> from the answer to its end or to the next suspension.\<close>

definition answer :: "nat \<Rightarrow> nat \<Rightarrow> bool \<Rightarrow> http_response \<Rightarrow> world \<Rightarrow> world" where
  "answer epoch raceAttempt allowMismatchRetry response w =
    (if w_epoch w \<noteq> epoch then suspend (Settled (TransientError Superseded)) w
     else
       let code = response_code (hr_data response); status = hr_status response in
       case accepted_bundle (hr_data response) of
         Some bundle \<Rightarrow> suspend (Settled (Authenticated bundle)) (applyAuthBundle bundle False w)
       | None \<Rightarrow>
           if js_num_eq status (Fin 409) \<and> code = Some (js ''AUTH_REFRESH_RACE'') then
             (if raceAttempt < length refreshRaceDelays
              then suspend (AtWait raceAttempt allowMismatchRetry) (emit (Waited (refreshRaceDelays ! raceAttempt)) w)
              else suspend (Settled (OutOfSync code)) (clearAuthentication False Complete w))
           else if js_num_eq status (Fin 409) \<and> code = Some (js ''AUTH_SESSION_MISMATCH'') then
             (if allowMismatchRetry then run epoch 0 False (set_auth (reset Idle) w)
              else suspend (Settled (OutOfSync code)) (clearAuthentication False Complete w))
           else if js_num_eq status (Fin 401) then suspend (Settled Anonymous) (clearAuthentication True Complete w)
           else if status = NaN \<or> js_num_eq status (Fin 0) \<or> js_le (Fin 500) status \<or> js_num_eq status (Fin 429) then
             suspend (Settled (TransientError (Reported
                 (if nullish (hr_error response) then hr_data response else hr_error response))))
               (set_auth (setBootstrapState Idle) w)
           else
             suspend (Settled (OutOfSync (Some (case code of Some c \<Rightarrow> c | None \<Rightarrow> js ''AUTH_INVALID_REFRESH_RESPONSE''))))
               (clearAuthentication False Complete w))"

text \<open>
  \<open>refreshAuthentication\<close>: a refresh in flight is shared. With browser locks it first waits for
  the lock; \<open>locks\<close> says whether the browser has them.
\<close>

definition refreshAuthentication :: "bool \<Rightarrow> world \<Rightarrow> world" where
  "refreshAuthentication locks w =
    (case w_refresh w of
       Some r \<Rightarrow> w
     | None \<Rightarrow>
         let w1 = w\<lparr>w_refresh := Some \<lparr>rf_epoch = w_epoch w, rf_point = AtLock\<rparr>\<rparr>
         in if locks then w1 else run (w_epoch w) 0 True w1)"

subsection \<open>Resolving the session\<close>

text \<open>\<open>now\<close> is \<open>Math.floor(Date.now() / 1000)\<close>.\<close>

definition currentValidAuthBundle :: "jsnum \<Rightarrow> auth_store \<Rightarrow> auth_bundle option" where
  "currentValidAuthBundle now auth =
    (case (as_user auth, as_accessToken auth, as_accessExpiresAt auth, as_session auth) of
       (Some user, Some token, Some expires, Some session) \<Rightarrow>
         if token = [] \<or> expires = NaN \<or> js_num_eq expires (Fin 0) \<or> js_le expires now then None
         else Some \<lparr>ab_access_token = token, ab_token_type = js ''Bearer'', ab_access_expires_at = expires,
           ab_user = user, ab_session = session\<rparr>
     | _ \<Rightarrow> None)"

text \<open>The immediate outcome, or \<open>None\<close> when the caller waits for the refresh in flight.\<close>

definition resolveAuthentication :: "bool \<Rightarrow> jsnum \<Rightarrow> world \<Rightarrow> refresh_outcome option \<times> world" where
  "resolveAuthentication locks now w =
    (case currentValidAuthBundle now (w_auth w) of
       Some bundle \<Rightarrow> (Some (Authenticated bundle), set_auth (setBootstrapState Complete) w)
     | None \<Rightarrow>
         if as_bootstrapState (w_auth w) = Complete \<and> (as_user (w_auth w) = None \<or> as_session (w_auth w) = None)
         then (Some Anonymous, w)
         else (None, refreshAuthentication locks (set_auth (setBootstrapState Checking) w)))"

fun find_cookie :: "jsstring \<Rightarrow> jsstring list \<Rightarrow> jsstring option" where
  "find_cookie name [] = None"
| "find_cookie name (part # parts) =
    (let key = takeWhile (\<lambda>c. c \<noteq> 61) part in
     if length key = length part then find_cookie name parts
     else if js_trim key \<noteq> name then find_cookie name parts
     else Some (js_trim (drop (length key + 1) part)))"

definition readCookie :: "jsstring \<Rightarrow> jsstring \<Rightarrow> jsstring option" where
  "readCookie cookieHeader name = find_cookie name (split_at_unit 59 cookieHeader)"

text \<open>\<open>None\<close> when there is no document.\<close>

definition hasSessionHint :: "jsstring option \<Rightarrow> bool" where
  "hasSessionHint cookie =
    (case cookie of None \<Rightarrow> True | Some header \<Rightarrow> readCookie header (js ''new_api_has_session'') \<noteq> None)"

definition bootstrapAuthentication ::
  "bool \<Rightarrow> jsstring option \<Rightarrow> jsnum \<Rightarrow> world \<Rightarrow> refresh_outcome option \<times> world" where
  "bootstrapAuthentication locks cookie now w =
    (if currentValidAuthBundle now (w_auth w) = None \<and> \<not> hasSessionHint cookie
        \<and> as_user (w_auth w) = None \<and> as_session (w_auth w) = None
     then (Some Anonymous, w) else resolveAuthentication locks now w)"

definition getCommonHeaders :: "auth_store \<Rightarrow> (jsstring \<times> jsstring) list" where
  "getCommonHeaders auth =
    [(js ''Content-Type'', js ''application/json'')]
    @ (case as_accessToken auth of
         Some token \<Rightarrow> if token = [] then [] else [(js ''Authorization'', js ''Bearer '' @ token)]
       | None \<Rightarrow> [])"

definition usable_until :: "jsnum \<Rightarrow> auth_store \<Rightarrow> bool" where
  "usable_until limit auth =
    (case (as_accessToken auth, as_accessExpiresAt auth) of
       (Some token, Some expires) \<Rightarrow>
         token \<noteq> [] \<and> expires \<noteq> NaN \<and> \<not> js_num_eq expires (Fin 0) \<and> js_lt limit expires
     | _ \<Rightarrow> False)"

text \<open>\<open>getFreshAuthHeaders\<close> before and after waiting for the refresh.\<close>

definition freshHeaders_call :: "bool \<Rightarrow> jsnum \<Rightarrow> world \<Rightarrow> (jsstring \<times> jsstring) list option \<times> world" where
  "freshHeaders_call locks now w =
    (if usable_until (js_add now (Fin 60)) (w_auth w) then (Some (getCommonHeaders (w_auth w)), w)
     else (None, refreshAuthentication locks w))"

definition freshHeaders_return :: "refresh_outcome \<Rightarrow> jsnum \<Rightarrow> auth_store \<Rightarrow> jsstring + (jsstring \<times> jsstring) list" where
  "freshHeaders_return outcome now auth =
    (case outcome of
       Authenticated bundle \<Rightarrow> Inr (getCommonHeaders auth)
     | _ \<Rightarrow>
         if usable_until now auth then Inr (getCommonHeaders auth)
         else (case outcome of TransientError e \<Rightarrow> Inl (js ''Request failed'') | _ \<Rightarrow> Inl (js ''Session expired!'')))"

subsection \<open>Messages from other tabs\<close>

record sync_event =
  se_kind :: sync_kind
  se_sid :: jsstring
  se_source :: jsstring
  se_timestamp :: jsnum

definition read_kind :: "jsval \<Rightarrow> sync_kind option" where
  "read_kind v =
    (if v = VStr (js ''authenticated'') then Some SyncAuthenticated
     else if v = VStr (js ''signed_out'') then Some SyncSignedOut else None)"

definition isAuthSessionSyncEvent :: "jsval \<Rightarrow> sync_event option" where
  "isAuthSessionSyncEvent v =
    (case (read_kind (prop_of v ''kind''), prop_of v ''sid'', prop_of v ''source'', prop_of v ''nonce'', prop_of v ''timestamp'') of
       (Some kind, VStr sid, VStr source, VStr nonce, VNum timestamp) \<Rightarrow>
         if sid = [] then None
         else Some \<lparr>se_kind = kind, se_sid = sid, se_source = source, se_timestamp = timestamp\<rparr>
     | _ \<Rightarrow> None)"

text \<open>\<open>deliver\<close>: messages of the tab itself and messages a minute old or more are dropped.\<close>

definition deliver :: "jsstring \<Rightarrow> jsnum \<Rightarrow> jsval \<Rightarrow> sync_event option" where
  "deliver authSyncSource now v =
    (case isAuthSessionSyncEvent v of
       Some ev \<Rightarrow>
         if se_source ev \<noteq> authSyncSource \<and> js_lt (math_abs (js_sub now (se_timestamp ev))) (Fin 60000) then Some ev else None
     | None \<Rightarrow> None)"

text \<open>The listener of the root component.\<close>

definition onSessionEvent :: "sync_event \<Rightarrow> world \<Rightarrow> world" where
  "onSessionEvent ev w =
    (let currentSID = (case current_sid (w_auth w) of Some s \<Rightarrow> if s = [] then None else Some s | None \<Rightarrow> None) in
     case se_kind ev of
       SyncAuthenticated \<Rightarrow>
         if current_sid (w_auth w) = Some (se_sid ev) then w
         else emit Reloaded (if currentSID \<noteq> None then clearAuthentication False Complete w else w)
     | SyncSignedOut \<Rightarrow>
         if currentSID = Some (se_sid ev) then emit (Navigated (js ''/sign-in'')) (clearAuthenticatedClientState False w) else w)"

subsection \<open>Events\<close>

text \<open>
  What can happen next: an operation of the page, or the continuation of the refresh in flight. A rotation
  that is refused leaves the state as it is.
\<close>

datatype auth_event =
    SignIn auth_bundle bool
  | Rotate jsval
  | SignOut bool
  | SetUser "jsval option"
  | SetPending "jsval option"
  | CallRefresh bool
  | CallResolve bool jsnum
  | TabMessage jsstring jsnum jsval
  | LockGranted
  | LockRefused jsval
  | Response http_response
  | TimeOut
  | Finally

fun continuation :: "auth_event \<Rightarrow> bool" where
  "continuation LockGranted = True"
| "continuation (LockRefused e) = True"
| "continuation (Response r) = True"
| "continuation TimeOut = True"
| "continuation Finally = True"
| "continuation e = False"

text \<open>
  The lock request is returned, not awaited, inside the \<open>try\<close> of \<open>performRefreshWithBrowserLock\<close>; its
  rejection is therefore not caught, and the refresh is rejected.
\<close>

fun resume :: "auth_event \<Rightarrow> refresh \<Rightarrow> world \<Rightarrow> world option" where
  "resume LockGranted r w = (if rf_point r = AtLock then Some (run (rf_epoch r) 0 True w) else None)"
| "resume (LockRefused e) r w = (if rf_point r = AtLock then Some (suspend (Rejected e) w) else None)"
| "resume (Response resp) r w =
    (case rf_point r of AtRequest n allow \<Rightarrow> Some (answer (rf_epoch r) n allow resp w) | _ \<Rightarrow> None)"
| "resume TimeOut r w =
    (case rf_point r of AtWait n allow \<Rightarrow> Some (run (rf_epoch r) (n + 1) allow w) | _ \<Rightarrow> None)"
| "resume Finally r w =
    (case rf_point r of Settled outcome \<Rightarrow> Some (w\<lparr>w_refresh := None\<rparr>) | Rejected e \<Rightarrow> Some (w\<lparr>w_refresh := None\<rparr>)
     | _ \<Rightarrow> None)"
| "resume e r w = None"

fun happen :: "auth_event \<Rightarrow> world \<Rightarrow> world option" where
  "happen (SignIn bundle sync) w = Some (applyAuthBundle bundle sync w)"
| "happen (Rotate v) w = Some (case applyAuthRotation v w of Inr w1 \<Rightarrow> w1 | Inl e \<Rightarrow> w)"
| "happen (SignOut sync) w = Some (clearAuthenticatedClientState sync w)"
| "happen (SetUser u) w = Some (set_auth (setUser u) w)"
| "happen (SetPending p) w = Some (set_auth (setPendingLoginVerification p) w)"
| "happen (CallRefresh locks) w = Some (refreshAuthentication locks w)"
| "happen (CallResolve locks now) w = Some (snd (resolveAuthentication locks now w))"
| "happen (TabMessage source now v) w = Some (case deliver source now v of Some ev \<Rightarrow> onSessionEvent ev w | None \<Rightarrow> w)"
| "happen e w = (case w_refresh w of Some r \<Rightarrow> resume e r w | None \<Rightarrow> None)"

definition initial_world :: world where
  "initial_world = \<lparr>w_auth = initial_store, w_epoch = 0, w_refresh = None, w_log = []\<rparr>"

inductive auth_reachable :: "world \<Rightarrow> bool" where
  start: "auth_reachable initial_world"
| event: "auth_reachable w \<Longrightarrow> happen e w = Some w1 \<Longrightarrow> auth_reachable w1"

text \<open>A sequence of events from a state.\<close>

fun events :: "auth_event list \<Rightarrow> world \<Rightarrow> world option" where
  "events [] w = Some w"
| "events (e # es) w = (case happen e w of Some w1 \<Rightarrow> events es w1 | None \<Rightarrow> None)"

end
