(* ===== verification/AuthSessionLaws.thy ===== *)
theory AuthSessionLaws
  imports AuthSession
begin

section \<open>Laws of the login session\<close>

text \<open>
  Properties of the session state machine of \<open>AuthSession\<close>: which operations move the epoch, what a refresh
  may still do after it was superseded, how long it runs, when it drops the session, and the invariant of the
  reachable states.
\<close>

subsection \<open>Frame lemmas\<close>

named_theorems auth_defs

lemmas [auth_defs] = set_auth_def emit_def suspend_def publishAuthSessionEvent_def applyAuthBundle_def
  clearAuthentication_def clearAuthenticatedClientState_def Let_def

lemma set_auth_simps [simp]:
  "w_auth (set_auth f w) = f (w_auth w)" "w_epoch (set_auth f w) = w_epoch w" "w_refresh (set_auth f w) = w_refresh w"
  by (simp_all add: auth_defs)

lemma emit_simps [simp]:
  "w_auth (emit e w) = w_auth w" "w_epoch (emit e w) = w_epoch w" "w_refresh (emit e w) = w_refresh w"
  "w_log (emit e w) = w_log w @ [e]"
  by (simp_all add: emit_def)

lemma publish_simps [simp]:
  "w_auth (publishAuthSessionEvent k s w) = w_auth w" "w_epoch (publishAuthSessionEvent k s w) = w_epoch w"
  "w_refresh (publishAuthSessionEvent k s w) = w_refresh w"
  by (simp_all add: publishAuthSessionEvent_def)

lemma suspend_simps [simp]:
  "w_auth (suspend p w) = w_auth w" "w_epoch (suspend p w) = w_epoch w" "w_log (suspend p w) = w_log w"
  "w_refresh (suspend p w) = map_option (\<lambda>r. r\<lparr>rf_point := p\<rparr>) (w_refresh w)"
  by (simp_all add: suspend_def)

lemma applyAuthBundle_simps [simp]:
  "w_auth (applyAuthBundle b sync w) = setBundle b (w_auth w)" "w_epoch (applyAuthBundle b sync w) = w_epoch w + 1"
  "w_refresh (applyAuthBundle b sync w) = w_refresh w"
  by (simp_all add: applyAuthBundle_def Let_def)

lemma clearAuthentication_simps [simp]:
  "w_auth (clearAuthentication sync st w) = reset st (w_auth w)" "w_epoch (clearAuthentication sync st w) = w_epoch w + 1"
  "w_refresh (clearAuthentication sync st w) = w_refresh w"
  by (simp_all add: clearAuthentication_def Let_def split: option.split)

lemma clearAuthenticatedClientState_simps [simp]:
  "w_auth (clearAuthenticatedClientState sync w) = reset Complete (w_auth w)"
  "w_epoch (clearAuthenticatedClientState sync w) = w_epoch w + 1"
  "w_refresh (clearAuthenticatedClientState sync w) = w_refresh w"
  by (simp_all add: clearAuthenticatedClientState_def)

lemma run_simps [simp]:
  "w_auth (run ep n a w) = w_auth w" "w_epoch (run ep n a w) = w_epoch w"
  "w_refresh (run ep n a w) = map_option (\<lambda>r. r\<lparr>rf_point :=
      (if w_epoch w = ep then AtRequest n a else Settled (TransientError Superseded))\<rparr>) (w_refresh w)"
  by (simp_all add: run_def)

lemma rotation_is_bundle:
  assumes "applyAuthRotation v w = Inr w1"
  obtains b where "w1 = applyAuthBundle b False w" and "as_user (w_auth w) = Some (ab_user b)"
    and "current_sid (w_auth w) = Some (ls_sid (ab_session b))"
  using assms by (fastforce simp: applyAuthRotation_def current_sid_def split: option.splits if_splits)

lemma rotation_simps:
  assumes "applyAuthRotation v w = Inr w1"
  shows "w_epoch w1 = w_epoch w + 1" "w_refresh w1 = w_refresh w"
  using assms by (auto elim: rotation_is_bundle)

lemma onSessionEvent_simps [simp]: "w_refresh (onSessionEvent ev w) = w_refresh w"
  by (simp add: onSessionEvent_def Let_def split: sync_kind.split)

subsection \<open>The requests made\<close>

fun is_request :: "effect \<Rightarrow> bool" where
  "is_request (Requested sid) = True"
| "is_request e = False"

definition requests :: "world \<Rightarrow> nat" where
  "requests w = length (filter is_request (w_log w))"

lemma requests_emit [simp]: "requests (emit e w) = requests w + (if is_request e then 1 else 0)"
  by (simp add: requests_def)

lemma requests_frame [simp]:
  "requests (suspend p w) = requests w" "requests (w\<lparr>w_epoch := n\<rparr>) = requests w" "requests (w\<lparr>w_refresh := r\<rparr>) = requests w"
  "requests (w\<lparr>w_auth := a\<rparr>) = requests w"
  by (simp_all add: requests_def)

lemma requests_store [simp]:
  "requests (set_auth f w) = requests w" "requests (publishAuthSessionEvent k s w) = requests w"
  by (simp_all add: set_auth_def publishAuthSessionEvent_def Let_def)

lemma requests_sessions [simp]:
  "requests (applyAuthBundle b sync w) = requests w" "requests (clearAuthentication sync st w) = requests w"
  "requests (clearAuthenticatedClientState sync w) = requests w"
  by (simp_all add: applyAuthBundle_def clearAuthentication_def clearAuthenticatedClientState_def Let_def split: option.split)

lemma requests_messages [simp]: "requests (onSessionEvent ev w) = requests w"
  by (simp add: onSessionEvent_def Let_def split: sync_kind.split)

lemma requests_run [simp]: "requests (run ep n a w) = requests w + (if w_epoch w = ep then 1 else 0)"
  by (simp add: run_def)

lemma requests_rotation: "applyAuthRotation v w = Inr w1 \<Longrightarrow> requests w1 = requests w"
  by (erule rotation_is_bundle) simp

subsection \<open>Events of the page\<close>

lemma page_event_shares_refresh:
  assumes "happen e w = Some w1" and "\<not> continuation e" and "w_refresh w = Some r"
  shows "w_refresh w1 = Some r" and "requests w1 = requests w" and "w_epoch w \<le> w_epoch w1"
  using assms
  by (cases e; auto simp: rotation_simps requests_rotation refreshAuthentication_def resolveAuthentication_def
        onSessionEvent_def Let_def split: sum.splits option.splits sync_kind.splits)+

lemma continuation_resumes:
  "continuation e \<Longrightarrow> happen e w = (case w_refresh w of Some r \<Rightarrow> resume e r w | None \<Rightarrow> None)"
  by (cases e; simp split: option.split)

subsection \<open>A superseded refresh\<close>

lemma superseded_step:
  assumes "continuation e" and "happen e w = Some w1" and "w_refresh w = Some r" and "rf_epoch r \<noteq> w_epoch w"
  shows "w_auth w1 = w_auth w" "w_epoch w1 = w_epoch w" "w_log w1 = w_log w"
    "\<And>r1. w_refresh w1 = Some r1 \<Longrightarrow> rf_epoch r1 = rf_epoch r"
  using assms by (cases e; auto simp: run_def answer_def split: refresh_point.splits if_splits)+

lemma continuation_in_flight: "continuation e \<Longrightarrow> happen e w = Some w1 \<Longrightarrow> \<exists>r. w_refresh w = Some r"
  by (cases "w_refresh w") (simp_all add: continuation_resumes)

definition superseded :: "world \<Rightarrow> bool" where
  "superseded w \<longleftrightarrow> pred_option (\<lambda>r. rf_epoch r \<noteq> w_epoch w) (w_refresh w)"

interpretation late: stale_task happen events continuation "\<lambda>w. (w_auth w, w_epoch w, w_log w)" superseded
proof
  fix e s s1 assume e: "continuation e" "superseded s" and step: "happen e s = Some s1"
  obtain r where r: "w_refresh s = Some r" using continuation_in_flight [OF e(1) step] by blast
  with e have "rf_epoch r \<noteq> w_epoch s" by (simp add: superseded_def)
  from superseded_step [OF e(1) step r this] this
  show "superseded s1 \<and> (w_auth s1, w_epoch s1, w_log s1) = (w_auth s, w_epoch s, w_log s)"
    by (cases "w_refresh s1") (auto simp: superseded_def)
qed (auto split: option.split)

subsection \<open>The invariant of the reachable states\<close>

text \<open>How far a refresh may have got, and that an outcome which changed the session has moved the epoch.\<close>

fun point_ok :: "nat \<Rightarrow> nat \<Rightarrow> refresh_point \<Rightarrow> bool" where
  "point_ok started epoch (AtRequest n a) = (n \<le> length refreshRaceDelays)"
| "point_ok started epoch (AtWait n a) = (n < length refreshRaceDelays)"
| "point_ok started epoch (Settled (TransientError c)) = True"
| "point_ok started epoch (Settled out) = (started < epoch)"
| "point_ok started epoch p = True"

definition refresh_ok :: "nat \<Rightarrow> refresh \<Rightarrow> bool" where
  "refresh_ok epoch r \<longleftrightarrow> rf_epoch r \<le> epoch \<and> point_ok (rf_epoch r) epoch (rf_point r)"

definition store_ok :: "auth_store \<Rightarrow> bool" where
  "store_ok a \<longleftrightarrow> (as_accessToken a = None \<longleftrightarrow> as_session a = None) \<and> (as_accessExpiresAt a = None \<longleftrightarrow> as_session a = None)"

lemma store_ok_updates [simp]:
  "store_ok (setBundle b a)" "store_ok (reset st a)" "store_ok (setUser u a) = store_ok a"
  "store_ok (setPendingLoginVerification p a) = store_ok a" "store_ok (setBootstrapState st a) = store_ok a"
  "store_ok initial_store"
  by (simp_all add: store_ok_def setBundle_def reset_def setUser_def setPendingLoginVerification_def setBootstrapState_def
      initial_store_def)

lemma point_ok_mono: "point_ok s e p \<Longrightarrow> e \<le> e' \<Longrightarrow> point_ok s e' p"
  by (induction s e p rule: point_ok.induct) auto

lemma refresh_ok_mono: "refresh_ok e r \<Longrightarrow> e \<le> e' \<Longrightarrow> refresh_ok e' r"
  by (auto simp: refresh_ok_def intro: point_ok_mono)

lemma store_ok_answer:
  "store_ok (w_auth w) \<Longrightarrow> store_ok (w_auth (answer ep n a resp w))"
  by (simp add: answer_def Let_def split: option.split)

lemma store_ok_call:
  "store_ok (w_auth w) \<Longrightarrow> store_ok (w_auth (refreshAuthentication locks w))"
  "store_ok (w_auth w) \<Longrightarrow> store_ok (w_auth (snd (resolveAuthentication locks now w)))"
  "store_ok (w_auth w) \<Longrightarrow> store_ok (w_auth (onSessionEvent ev w))"
  by (simp_all add: refreshAuthentication_def resolveAuthentication_def onSessionEvent_def Let_def
      split: option.split sync_kind.split)

lemma store_ok_resume: "resume e r w = Some w1 \<Longrightarrow> store_ok (w_auth w) \<Longrightarrow> store_ok (w_auth w1)"
  by (cases e) (auto simp: store_ok_answer split: refresh_point.splits if_splits)

lemma store_ok_happen:
  assumes "happen e w = Some w1" and "store_ok (w_auth w)"
  shows "store_ok (w_auth w1)"
proof (cases "continuation e")
  case True
  with assms show ?thesis by (auto simp: continuation_resumes dest: store_ok_resume split: option.splits)
next
  case False
  with assms show ?thesis
    by (cases e) (auto simp: store_ok_call elim!: rotation_is_bundle split: sum.splits option.splits)
qed

lemma refresh_ok_answer:
  assumes "w_refresh w = Some r" and "rf_epoch r \<le> w_epoch w"
  shows "pred_option (refresh_ok (w_epoch (answer (rf_epoch r) n a resp w))) (w_refresh (answer (rf_epoch r) n a resp w))"
  using assms by (simp add: answer_def Let_def refresh_ok_def split: option.split)

lemma refresh_ok_resume:
  assumes "resume e r w = Some w1" and "w_refresh w = Some r" and "refresh_ok (w_epoch w) r" and "w_refresh w1 = Some r1"
  shows "refresh_ok (w_epoch w1) r1"
proof (cases "\<exists>resp n a. e = Response resp \<and> rf_point r = AtRequest n a")
  case True
  then obtain resp n a where e: "e = Response resp" "rf_point r = AtRequest n a" by blast
  with assms have "w1 = answer (rf_epoch r) n a resp w" by simp
  with assms refresh_ok_answer [of w r n a resp] show ?thesis by (simp add: refresh_ok_def)
next
  case False
  with assms show ?thesis
    by (cases e) (auto simp: refresh_ok_def split: refresh_point.splits if_splits)
qed

lemma refresh_ok_start:
  assumes "happen e w = Some w1" and "\<not> continuation e" and "w_refresh w = None" and "w_refresh w1 = Some r1"
  shows "refresh_ok (w_epoch w1) r1"
  using assms
  by (cases e) (auto simp: rotation_simps refreshAuthentication_def resolveAuthentication_def refresh_ok_def
        onSessionEvent_def Let_def split: sum.splits option.splits sync_kind.splits if_splits)

lemma refresh_ok_happen:
  assumes "happen e w = Some w1" and "\<And>r. w_refresh w = Some r \<Longrightarrow> refresh_ok (w_epoch w) r" and "w_refresh w1 = Some r1"
  shows "refresh_ok (w_epoch w1) r1"
proof (cases "continuation e")
  case True
  then obtain r where "w_refresh w = Some r" using continuation_in_flight assms(1) by blast
  with True assms show ?thesis by (auto simp: continuation_resumes intro: refresh_ok_resume)
next
  case False
  show ?thesis
  proof (cases "w_refresh w")
    case None
    with False assms show ?thesis by (blast intro: refresh_ok_start)
  next
    case (Some r)
    with False assms page_event_shares_refresh [OF assms(1) False Some] show ?thesis
      by (auto intro: refresh_ok_mono)
  qed
qed

lemma reachable_store_ok: "auth_reachable w \<Longrightarrow> store_ok (w_auth w)"
  by (induction rule: auth_reachable.induct) (simp_all add: initial_world_def store_ok_happen)

lemma reachable_refresh_ok: "auth_reachable w \<Longrightarrow> w_refresh w = Some r \<Longrightarrow> refresh_ok (w_epoch w) r"
  by (induction arbitrary: r rule: auth_reachable.induct) (simp add: initial_world_def, blast intro: refresh_ok_happen)

subsection \<open>How long a refresh runs\<close>

text \<open>Steps and requests a refresh may still make before it is settled.\<close>

fun steps_left :: "refresh_point \<Rightarrow> nat" where
  "steps_left AtLock = 15"
| "steps_left (AtRequest n a) = (if a then 7 else 0) + 2 * (3 - n) + 1"
| "steps_left (AtWait n a) = (if a then 7 else 0) + 2 * (3 - n)"
| "steps_left p = 0"

fun requests_left :: "refresh_point \<Rightarrow> nat" where
  "requests_left AtLock = 8"
| "requests_left (AtRequest n a) = (if a then 4 else 0) + (3 - n)"
| "requests_left (AtWait n a) = (if a then 4 else 0) + (3 - n)"
| "requests_left p = 0"

text \<open>Where an answer to request \<open>n\<close> can lead, with the number of requests it makes at once.\<close>

fun answer_leads :: "nat \<Rightarrow> bool \<Rightarrow> refresh_point \<Rightarrow> nat \<Rightarrow> bool" where
  "answer_leads n a (Settled out) k = (k = 0)"
| "answer_leads n a (AtWait m b) k = (k = 0 \<and> m = n \<and> b = a \<and> n < 3)"
| "answer_leads n a (AtRequest m b) k = (k = 1 \<and> m = 0 \<and> a \<and> \<not> b)"
| "answer_leads n a p k = False"

lemma answer_shape:
  assumes "w_refresh w = Some r"
  shows "pred_option (\<lambda>r1. answer_leads n a (rf_point r1) (requests (answer ep n a resp w) - requests w))
    (w_refresh (answer ep n a resp w))"
  using assms by (simp add: answer_def Let_def refreshRaceDelays_def split: option.split)

lemma requests_answer: "requests w \<le> requests (answer ep n a resp w)"
  by (simp add: answer_def Let_def split: option.split)

lemma answer_in_flight [simp]: "w_refresh (answer ep n a resp w) = None \<longleftrightarrow> w_refresh w = None"
  by (simp add: answer_def Let_def split: option.split)

lemma answer_leads_less:
  assumes "answer_leads n a p k"
  shows "steps_left p < steps_left (AtRequest n a)" and "k + requests_left p \<le> requests_left (AtRequest n a)"
  using assms by (cases p; auto)+

lemma run_progress:
  assumes "w_refresh w = Some r"
  obtains r1 where "w_refresh (run ep n a w) = Some r1" and "steps_left (rf_point r1) \<le> steps_left (AtRequest n a)"
    and "requests (run ep n a w) + requests_left (rf_point r1) \<le> requests w + requests_left (AtRequest n a) + 1"
  using assms by (cases "w_epoch w = ep") simp_all

lemma answer_progress:
  assumes "w_refresh w = Some r"
  obtains r1 where "w_refresh (answer ep n a resp w) = Some r1" and "steps_left (rf_point r1) < steps_left (AtRequest n a)"
    and "requests (answer ep n a resp w) + requests_left (rf_point r1) \<le> requests w + requests_left (AtRequest n a)"
proof -
  obtain r1 where r1: "w_refresh (answer ep n a resp w) = Some r1"
    using assms by (cases "w_refresh (answer ep n a resp w)") auto
  then have "answer_leads n a (rf_point r1) (requests (answer ep n a resp w) - requests w)"
    using answer_shape [OF assms, of n a ep resp] by simp
  from answer_leads_less [OF this] requests_answer [of w ep n a resp] show ?thesis
    by (intro that [OF r1]) linarith+
qed

lemma resume_progress:
  assumes "resume e r w = Some w1" and "e \<noteq> Finally" and "w_refresh w = Some r" and "refresh_ok (w_epoch w) r"
  obtains r1 where "w_refresh w1 = Some r1" and "steps_left (rf_point r1) < steps_left (rf_point r)"
    and "requests w1 + requests_left (rf_point r1) \<le> requests w + requests_left (rf_point r)"
proof (cases e)
  case LockGranted
  with assms have p: "rf_point r = AtLock" and w1: "w1 = run (rf_epoch r) 0 True w" by (simp_all split: if_splits)
  show ?thesis by (rule run_progress [OF assms(3), of "rf_epoch r" 0 True]) (use w1 p that in simp)
next
  case (LockRefused x)
  with assms that show ?thesis by (auto split: if_splits)
next
  case (Response resp)
  with assms obtain n a where p: "rf_point r = AtRequest n a" and w1: "w1 = answer (rf_epoch r) n a resp w"
    by (auto split: refresh_point.splits)
  show ?thesis by (rule answer_progress [OF assms(3), of "rf_epoch r" n a resp]) (use w1 p that in simp)
next
  case TimeOut
  with assms obtain n a where p: "rf_point r = AtWait n a" and w1: "w1 = run (rf_epoch r) (n + 1) a w" and n: "n < 3"
    by (auto simp: refresh_ok_def refreshRaceDelays_def split: refresh_point.splits)
  show ?thesis
  proof (rule run_progress [OF assms(3), of "rf_epoch r" "n + 1" a])
    fix r1 assume "w_refresh (run (rf_epoch r) (n + 1) a w) = Some r1"
      "steps_left (rf_point r1) \<le> steps_left (AtRequest (n + 1) a)"
      "requests (run (rf_epoch r) (n + 1) a w) + requests_left (rf_point r1) \<le> requests w + requests_left (AtRequest (n + 1) a) + 1"
    then show ?thesis by (intro that [of r1]) (use w1 p n in auto)
  qed
qed (use assms in simp_all)

lemma events_progress:
  assumes "events es w = Some w2" and "Finally \<notin> set es" and "w_refresh w = Some r" and "refresh_ok (w_epoch w) r"
  shows "\<exists>r2. w_refresh w2 = Some r2 \<and> length (filter continuation es) + steps_left (rf_point r2) \<le> steps_left (rf_point r)
    \<and> requests w2 + requests_left (rf_point r2) \<le> requests w + requests_left (rf_point r)"
  using assms
proof (induction es arbitrary: w r)
  case (Cons e es)
  then obtain w' where step: "happen e w = Some w'" and rest: "events es w' = Some w2" and fin: "e \<noteq> Finally" "Finally \<notin> set es"
    by (auto split: option.splits)
  obtain r' where r': "w_refresh w' = Some r'"
    and less: "(if continuation e then 1 else 0) + steps_left (rf_point r') \<le> steps_left (rf_point r)"
      "requests w' + requests_left (rf_point r') \<le> requests w + requests_left (rf_point r)"
  proof (cases "continuation e")
    case True
    with step Cons.prems have "resume e r w = Some w'" by (simp add: continuation_resumes)
    then show ?thesis by (rule resume_progress) (use True fin Cons.prems that in auto)
  next
    case False
    from page_event_shares_refresh [OF step False Cons.prems(3)] False that show ?thesis by simp
  qed
  have "refresh_ok (w_epoch w') r'" by (rule refresh_ok_happen [OF step _ r']) (use Cons.prems in simp)
  from Cons.IH [OF rest fin(2) r' this] less show ?case by (auto split: if_splits)
qed simp

lemma point_enabled: "w_refresh w = Some r \<Longrightarrow> \<exists>e w1. continuation e \<and> happen e w = Some w1"
proof (cases "rf_point r")
  case AtLock
  moreover assume "w_refresh w = Some r"
  ultimately show ?thesis by (intro exI [of _ LockGranted]) simp
next
  case (AtRequest n a)
  moreover assume "w_refresh w = Some r"
  ultimately show ?thesis by (intro exI [of _ "Response undefined"]) simp
next
  case (AtWait n a)
  moreover assume "w_refresh w = Some r"
  ultimately show ?thesis by (intro exI [of _ TimeOut]) simp
qed (auto intro!: exI [of _ Finally])

lemma refresh_started:
  assumes "happen (CallRefresh locks) w = Some w1" and "w_refresh w = None"
  obtains r where "w_refresh w1 = Some r" and "refresh_ok (w_epoch w1) r" and "steps_left (rf_point r) \<le> 15"
    and "requests w1 + requests_left (rf_point r) \<le> requests w + 8"
  using assms by (auto simp: refreshAuthentication_def Let_def refresh_ok_def split: if_splits)

subsection \<open>Outcomes and the store\<close>

text \<open>A settled refresh agrees with the store unless the session was replaced since.\<close>

fun outcome_holds :: "refresh_point \<Rightarrow> auth_store \<Rightarrow> bool" where
  "outcome_holds (Settled (Authenticated b)) a =
     (as_accessToken a = Some (ab_access_token b) \<and> as_session a = Some (ab_session b))"
| "outcome_holds (Settled Anonymous) a = (as_session a = None)"
| "outcome_holds (Settled (OutOfSync c)) a = (as_session a = None)"
| "outcome_holds p a = True"

definition agrees :: "world \<Rightarrow> refresh \<Rightarrow> bool" where
  "agrees w r \<longleftrightarrow> (w_epoch w = rf_epoch r + 1 \<longrightarrow> outcome_holds (rf_point r) (w_auth w))"

lemma store_read_simps [simp]:
  "as_session (setBundle b a) = Some (ab_session b)" "as_accessToken (setBundle b a) = Some (ab_access_token b)"
  "as_session (reset st a) = None" "as_accessToken (reset st a) = None"
  "as_session (setUser u a) = as_session a" "as_accessToken (setUser u a) = as_accessToken a"
  "as_session (setPendingLoginVerification p a) = as_session a"
  "as_accessToken (setPendingLoginVerification p a) = as_accessToken a"
  "as_session (setBootstrapState st a) = as_session a" "as_accessToken (setBootstrapState st a) = as_accessToken a"
  by (simp_all add: setBundle_def reset_def setUser_def setPendingLoginVerification_def setBootstrapState_def)

lemma page_event_keeps_session:
  assumes "happen e w = Some w1" and "\<not> continuation e" and "w_epoch w1 = w_epoch w"
  shows "as_session (w_auth w1) = as_session (w_auth w) \<and> as_accessToken (w_auth w1) = as_accessToken (w_auth w)"
  using assms
  by (cases e) (auto simp: refreshAuthentication_def resolveAuthentication_def onSessionEvent_def Let_def
      elim!: rotation_is_bundle split: sum.splits option.splits sync_kind.splits if_splits)

lemma outcome_holds_cong:
  "as_session a = as_session b \<Longrightarrow> as_accessToken a = as_accessToken b \<Longrightarrow> outcome_holds p a = outcome_holds p b"
  by (cases "(p, a)" rule: outcome_holds.cases) auto

lemma agrees_answer:
  assumes "w_refresh w = Some r" and "rf_epoch r = ep"
  shows "pred_option (agrees (answer ep n a resp w)) (w_refresh (answer ep n a resp w))"
  using assms by (simp add: answer_def Let_def agrees_def split: option.split)

lemma agrees_resume:
  assumes "resume e r w = Some w1" and "w_refresh w = Some r" and "w_refresh w1 = Some r1"
  shows "agrees w1 r1"
proof (cases "\<exists>resp n a. e = Response resp \<and> rf_point r = AtRequest n a")
  case True
  then obtain resp n a where e: "e = Response resp" "rf_point r = AtRequest n a" by blast
  with assms have "w1 = answer (rf_epoch r) n a resp w" by simp
  with assms agrees_answer [of w r "rf_epoch r" n a resp] show ?thesis by simp
next
  case False
  with assms show ?thesis
    by (cases e) (auto simp: agrees_def split: refresh_point.splits if_splits)
qed

lemma outcome_moved_epoch: "refresh_ok epoch r \<Longrightarrow> \<not> outcome_holds (rf_point r) a \<Longrightarrow> rf_epoch r < epoch"
  by (cases "(rf_point r, a)" rule: outcome_holds.cases) (auto simp: refresh_ok_def)

lemma agrees_page_event:
  assumes "happen e w = Some w1" and "\<not> continuation e" and "w_refresh w = Some r" and "refresh_ok (w_epoch w) r" and "agrees w r"
  shows "agrees w1 r"
proof (cases "w_epoch w1 = w_epoch w")
  case True
  with page_event_keeps_session [OF assms(1,2)] assms(5) show ?thesis
    unfolding agrees_def by (metis outcome_holds_cong)
next
  case False
  with page_event_shares_refresh [OF assms(1-3)] outcome_moved_epoch [OF assms(4)] show ?thesis
    unfolding agrees_def by (metis Suc_eq_plus1 le_antisym less_eq_Suc_le)
qed

lemma start_epoch:
  assumes "happen e w = Some w1" and "\<not> continuation e" and "w_refresh w = None" and "w_refresh w1 = Some r1"
  shows "rf_epoch r1 = w_epoch w1"
  using assms
  by (cases e) (auto simp: rotation_simps refreshAuthentication_def resolveAuthentication_def
        onSessionEvent_def Let_def split: sum.splits option.splits sync_kind.splits if_splits)

lemma agrees_start:
  "happen e w = Some w1 \<Longrightarrow> \<not> continuation e \<Longrightarrow> w_refresh w = None \<Longrightarrow> w_refresh w1 = Some r1 \<Longrightarrow> agrees w1 r1"
  by (simp add: start_epoch agrees_def)

lemma reachable_agrees: "auth_reachable w \<Longrightarrow> w_refresh w = Some r \<Longrightarrow> agrees w r"
proof (induction arbitrary: r rule: auth_reachable.induct)
  case (event w e w1)
  show ?case
  proof (cases "continuation e")
    case True
    with event obtain r0 where "w_refresh w = Some r0" and "resume e r0 w = Some w1"
      by (auto simp: continuation_resumes split: option.splits)
    with event.prems show ?thesis by (blast intro: agrees_resume)
  next
    case False
    show ?thesis
    proof (cases "w_refresh w")
      case None
      with False event show ?thesis by (blast intro: agrees_start)
    next
      case (Some r0)
      with page_event_shares_refresh [OF event.hyps(2) False Some] event.prems have "r = r0" by simp
      with False event Some show ?thesis by (blast intro: agrees_page_event reachable_refresh_ok)
    qed
  qed
qed (simp add: initial_world_def)

subsection \<open>Verdicts of the server\<close>

definition transient_status :: "jsnum \<Rightarrow> bool" where
  "transient_status s \<longleftrightarrow> s = NaN \<or> js_num_eq s (Fin 0) \<or> js_le (Fin 500) s \<or> js_num_eq s (Fin 429)"

lemma verdict_not_transient:
  "js_num_eq s (Fin 409) \<Longrightarrow> \<not> transient_status s" "js_num_eq s (Fin 401) \<Longrightarrow> \<not> transient_status s"
  by (cases s; simp add: transient_status_def js_le_def)+

lemma answer_sign_out:
  assumes "as_session (w_auth w) \<noteq> None"
  shows "as_session (w_auth (answer ep n a resp w)) = None \<longrightarrow>
    w_epoch w = ep \<and> accepted_bundle (hr_data resp) = None \<and> \<not> transient_status (hr_status resp)"
  using assms verdict_not_transient [of "hr_status resp"]
  by (simp add: answer_def Let_def transient_status_def split: option.split)

fun is_published :: "effect \<Rightarrow> bool" where
  "is_published (Published k sid) = True"
| "is_published e = False"

definition published :: "world \<Rightarrow> effect list" where
  "published w = filter is_published (w_log w)"

lemma published_frame [simp]:
  "published (emit e w) = published w @ (if is_published e then [e] else [])"
  "published (suspend p w) = published w" "published (w\<lparr>w_epoch := n\<rparr>) = published w" "published (w\<lparr>w_refresh := r\<rparr>) = published w"
  "published (w\<lparr>w_auth := a\<rparr>) = published w"
  by (simp_all add: published_def)

lemma published_store [simp]: "published (set_auth f w) = published w"
  by (simp add: set_auth_def Let_def)

lemma published_silent [simp]:
  "published (applyAuthBundle b False w) = published w" "published (clearAuthentication False st w) = published w"
  "published (run ep n a w) = published w"
  by (simp_all add: applyAuthBundle_def clearAuthentication_def run_def Let_def split: option.split)

lemma answer_published:
  "published (answer ep n a resp w) \<noteq> published w \<longrightarrow> js_num_eq (hr_status resp) (Fin 401)"
  by (simp add: answer_def Let_def split: option.split)

lemma resume_response:
  assumes "resume e r w = Some w1"
  obtains (answer) resp n a where "e = Response resp" and "w1 = answer (rf_epoch r) n a resp w"
    | (silent) "w_auth w1 = w_auth w" and "published w1 = published w"
  using assms by (cases e) (auto split: refresh_point.splits if_splits)

subsection \<open>Properties of the session\<close>

lemma events_reachable: "auth_reachable w \<Longrightarrow> events es w = Some w1 \<Longrightarrow> auth_reachable w1"
  by (induction es arbitrary: w) (auto split: option.splits intro: auth_reachable.event)

text \<open>A user who has signed in on a page that has asked for a refresh.\<close>

definition demo_bundle :: auth_bundle where
  "demo_bundle = \<lparr>ab_access_token = js ''t'', ab_token_type = js ''Bearer'', ab_access_expires_at = Fin 1000,
     ab_user = VObj [(js ''id'', VNum (Fin 7))],
     ab_session = \<lparr>ls_sid = js ''s'', ls_current = True, ls_login_method = js ''password'', ls_ip = [], ls_user_agent = [],
       ls_created_at = Fin 1, ls_last_active_at = Fin 2, ls_expires_at = Fin 9000\<rparr>\<rparr>"

definition demo_world :: world where
  "demo_world = \<lparr>w_auth = setBundle demo_bundle initial_store, w_epoch = 1,
     w_refresh = Some \<lparr>rf_epoch = 1, rf_point = AtRequest 0 True\<rparr>,
     w_log = [QueriesCleared, Published SyncAuthenticated (js ''s''), Requested (Some (js ''s''))]\<rparr>"

definition demo_answer :: "jsnum \<Rightarrow> http_response" where
  "demo_answer status = \<lparr>hr_status = status, hr_data = VUndefined, hr_error = VUndefined\<rparr>"

lemma demo_events: "events [SignIn demo_bundle True, CallRefresh False] initial_world = Some demo_world"
  by (simp add: demo_world_def demo_bundle_def initial_world_def applyAuthBundle_def set_auth_def emit_def Let_def
      publishAuthSessionEvent_def refreshAuthentication_def run_def suspend_def current_sid_def setBundle_def initial_store_def js_def)

lemma demo_reachable: "auth_reachable demo_world"
  using events_reachable [OF auth_reachable.start demo_events] .

lemma demo_session [simp]: "as_session (w_auth demo_world) \<noteq> None"
  by (simp add: demo_world_def)

text \<open>
  C20: once the session was replaced on the page (by a sign-out, a sign-in, an accepted rotation or a message of another
  tab) while a refresh was in flight, nothing that this refresh still does, whatever the server answers,
  changes the store, sends a request or informs other tabs: a late answer cannot sign the user in again.
\<close>

theorem late_refresh_harmless:
  assumes "auth_reachable w" and "w_refresh w = Some r" and "\<not> continuation e" and "happen e w = Some w1"
    and "(\<exists>sync. e = SignOut sync) \<or> (\<exists>b sync. e = SignIn b sync) \<or> w_epoch w1 \<noteq> w_epoch w"
    and "list_all continuation es" and "events es w1 = Some w2"
  shows "w_auth w2 = w_auth w1 \<and> w_log w2 = w_log w1 \<and> w_epoch w2 = w_epoch w1"
proof -
  note frame = page_event_shares_refresh [OF assms(4,3,2)]
  have "w_epoch w1 \<noteq> w_epoch w" using assms(4,5) by auto
  then have "rf_epoch r < w_epoch w1"
    using frame reachable_refresh_ok [OF assms(1,2)] by (auto simp: refresh_ok_def)
  with frame have "superseded w1" by (simp add: superseded_def)
  from late.stale_trace [OF assms(6) this assms(7)] show ?thesis by simp
qed

theorem late_refresh_harmless_witness:
  "\<exists>w1 w2. happen (SignOut True) demo_world = Some w1 \<and> events [Response (demo_answer (Fin 200)), Finally] w1 = Some w2
     \<and> w_refresh w2 = None \<and> w_auth w2 = w_auth w1 \<and> w_log w2 = w_log w1 \<and> w_epoch w2 = w_epoch w1"
proof -
  let ?w1 = "clearAuthenticatedClientState True demo_world"
  let ?w2 = "suspend (Settled (TransientError Superseded)) ?w1\<lparr>w_refresh := None\<rparr>"
  have r: "w_refresh demo_world = Some \<lparr>rf_epoch = 1, rf_point = AtRequest 0 True\<rparr>" and ep: "w_epoch demo_world = 1"
    by (simp_all add: demo_world_def)
  have s: "happen (SignOut True) demo_world = Some ?w1" by simp
  have t: "events [Response (demo_answer (Fin 200)), Finally] ?w1 = Some ?w2" by (simp add: r ep answer_def)
  have "list_all continuation [Response (demo_answer (Fin 200)), Finally]" by simp
  from late_refresh_harmless [OF demo_reachable r _ s _ this t] s t show ?thesis by (intro exI [of _ ?w1] exI [of _ ?w2]) simp
qed

text \<open>
  C21: a refresh ends. From the call on, whatever the page does meanwhile, it is resumed at most fifteen times before it
  is cleared and sends at most eight requests; and as long as it is in flight one of the events it can
  wait for is enabled, so it is never stuck in a state of its own.
\<close>

theorem refresh_settles:
  assumes "w_refresh w = None" and "happen (CallRefresh locks) w = Some w1" and "events es w1 = Some w2" and "Finally \<notin> set es"
  shows "length (filter continuation es) \<le> 15 \<and> requests w2 \<le> requests w + 8
    \<and> (\<exists>e w3. continuation e \<and> happen e w2 = Some w3)"
proof -
  obtain r where r: "w_refresh w1 = Some r" "refresh_ok (w_epoch w1) r" "steps_left (rf_point r) \<le> 15"
    "requests w1 + requests_left (rf_point r) \<le> requests w + 8"
    using refresh_started [OF assms(2,1)] .
  obtain r2 where "w_refresh w2 = Some r2" "length (filter continuation es) + steps_left (rf_point r2) \<le> steps_left (rf_point r)"
    "requests w2 + requests_left (rf_point r2) \<le> requests w1 + requests_left (rf_point r)"
    using events_progress [OF assms(3,4) r(1,2)] by blast
  with r point_enabled show ?thesis by auto
qed

theorem refresh_settles_witness:
  "\<exists>w1 w2. happen (CallRefresh True) initial_world = Some w1 \<and> events [LockGranted, SetPending None] w1 = Some w2
     \<and> requests w2 \<le> 8 \<and> (\<exists>e w3. continuation e \<and> happen e w2 = Some w3)"
proof -
  let ?w1 = "refreshAuthentication True initial_world"
  let ?w2 = "set_auth (setPendingLoginVerification None) (run 0 0 True ?w1)"
  have w: "w_refresh initial_world = None" "requests initial_world = 0" by (simp_all add: initial_world_def requests_def)
  have t: "events [LockGranted, SetPending None] ?w1 = Some ?w2" by (simp add: refreshAuthentication_def w(1)) (simp add: initial_world_def)
  from refresh_settles [OF w(1) _ t, of True] w(2) t show ?thesis by (intro exI [of _ ?w1] exI [of _ ?w2]) simp
qed

text \<open>
  C22: in every reachable state token, expiry and session of the store are there together or not at all, so no
  request carries a token without a session; a refresh in flight is not from a later epoch; and the outcome
  of a settled refresh is what the store holds, unless the session was replaced since.
\<close>

theorem session_invariant:
  assumes "auth_reachable w"
  shows "(as_accessToken (w_auth w) = None \<longleftrightarrow> as_session (w_auth w) = None)
    \<and> (as_accessExpiresAt (w_auth w) = None \<longleftrightarrow> as_session (w_auth w) = None)
    \<and> (as_session (w_auth w) = None \<longrightarrow> getCommonHeaders (w_auth w) = [(js ''Content-Type'', js ''application/json'')])
    \<and> (case w_refresh w of None \<Rightarrow> True
       | Some r \<Rightarrow> rf_epoch r \<le> w_epoch w \<and> (w_epoch w \<le> rf_epoch r + 1 \<longrightarrow> outcome_holds (rf_point r) (w_auth w)))"
proof -
  have store: "store_ok (w_auth w)" by (rule reachable_store_ok [OF assms])
  have "rf_epoch r \<le> w_epoch w \<and> (w_epoch w \<le> rf_epoch r + 1 \<longrightarrow> outcome_holds (rf_point r) (w_auth w))"
    if r: "w_refresh w = Some r" for r
    using reachable_agrees [OF assms r] reachable_refresh_ok [OF assms r]
      outcome_moved_epoch [OF reachable_refresh_ok [OF assms r], of "w_auth w"]
    by (cases "outcome_holds (rf_point r) (w_auth w)") (auto simp: agrees_def refresh_ok_def le_Suc_eq)
  with store show ?thesis by (auto simp: store_ok_def getCommonHeaders_def split: option.split)
qed

theorem session_invariant_witness:
  "(as_accessToken (w_auth demo_world) = None \<longleftrightarrow> as_session (w_auth demo_world) = None)
   \<and> as_accessToken (w_auth demo_world) = Some (js ''t'')"
proof -
  have "as_accessToken (w_auth demo_world) = Some (js ''t'')" by (simp add: demo_world_def demo_bundle_def)
  with session_invariant [OF demo_reachable] show ?thesis by simp
qed

text \<open>
  C23: a refresh drops the session only on a verdict of the server: on an answer to a refresh that was not
  superseded, without a valid bundle and with a status that is not a transient failure (none, 429, 500 or more). Other
  tabs are informed only when the server answered 401.
\<close>

theorem sign_out_is_verdict:
  assumes "continuation e" and "happen e w = Some w1"
    and "as_session (w_auth w) \<noteq> None \<and> as_session (w_auth w1) = None \<or> published w1 \<noteq> published w"
  shows "\<exists>resp. e = Response resp
    \<and> (as_session (w_auth w) \<noteq> None \<and> as_session (w_auth w1) = None \<longrightarrow>
         map_option rf_epoch (w_refresh w) = Some (w_epoch w) \<and> accepted_bundle (hr_data resp) = None
         \<and> \<not> transient_status (hr_status resp))
    \<and> (published w1 \<noteq> published w \<longrightarrow> js_num_eq (hr_status resp) (Fin 401))"
proof -
  obtain r where r: "w_refresh w = Some r" and "resume e r w = Some w1"
    using assms(1,2) continuation_in_flight by (fastforce simp: continuation_resumes)
  from this(2) show ?thesis
  proof (cases rule: resume_response)
    case (answer resp n a)
    with r answer_sign_out [of w "rf_epoch r" n a resp] answer_published [of "rf_epoch r" n a resp w] show ?thesis by auto
  next
    case silent
    with assms(3) show ?thesis by auto
  qed
qed

theorem sign_out_is_verdict_witness:
  "\<exists>w1. happen (Response (demo_answer (Fin 401))) demo_world = Some w1 \<and> as_session (w_auth w1) = None
     \<and> \<not> transient_status (Fin 401)"
proof -
  let ?w1 = "answer 1 0 True (demo_answer (Fin 401)) demo_world"
  have h: "happen (Response (demo_answer (Fin 401))) demo_world = Some ?w1" by (simp add: demo_world_def)
  have s: "as_session (w_auth ?w1) = None"
    by (simp add: answer_def demo_answer_def Let_def demo_world_def accepted_bundle_def response_code_def)
  have "as_session (w_auth demo_world) \<noteq> None \<and> as_session (w_auth ?w1) = None \<or> published ?w1 \<noteq> published demo_world"
    using s by simp
  from sign_out_is_verdict [OF _ h this] s h show ?thesis by (auto simp: demo_answer_def)
qed

end
