(* ===== verification/StatusCodes.thy ===== *)
theory StatusCodes
  imports JsTools
begin

section \<open>Rules for HTTP status codes\<close>

text \<open>
  Model of \<^verbatim>\<open>web/src/lib/http-status-code-rules.ts\<close>: a list such as \<^verbatim>\<open>401, 500-503\<close> is read into ranges, which are
  sorted, merged and printed again. The argument is the text of the input. Codes are integers:
  \<open>parseInt\<close> of a string of digits is its value rounded to binary64, which is exact below \<open>2^53\<close> and not below it
  otherwise, so that the comparison with 100 and 599 is the comparison of the value itself.
\<close>

record status_range =
  sr_start :: int
  sr_end :: int

record parsed_rules =
  pr_ok :: bool
  pr_ranges :: "status_range list"
  pr_tokens :: "jsstring list"
  pr_normalized :: jsstring
  pr_invalidTokens :: "jsstring list"

definition isNumber :: "jsstring \<Rightarrow> bool" where
  "isNumber s \<longleftrightarrow> s \<noteq> [] \<and> list_all is_digit s"

definition isValidCode :: "int \<Rightarrow> bool" where
  "isValidCode code \<longleftrightarrow> 100 \<le> code \<and> code \<le> 599"

text \<open>Only the first two parts of a token with hyphens are looked at.\<close>

definition parseToken :: "jsstring \<Rightarrow> status_range option" where
  "parseToken token =
    (let cleaned = filter (\<lambda>c. \<not> is_space c) (js_trim token) in
     if cleaned = [] then None
     else if 45 \<in> set cleaned then
       (case split_at_unit 45 cleaned of
          a # b # rest \<Rightarrow>
            if \<not> isNumber a \<or> \<not> isNumber b then None
            else if \<not> isValidCode (digits_int a) \<or> \<not> isValidCode (digits_int b) \<or> digits_int a > digits_int b then None
            else Some \<lparr>sr_start = digits_int a, sr_end = digits_int b\<rparr>
        | _ \<Rightarrow> None)
     else if \<not> isNumber cleaned then None
     else if \<not> isValidCode (digits_int cleaned) then None
     else Some \<lparr>sr_start = digits_int cleaned, sr_end = digits_int cleaned\<rparr>)"

text \<open>The comparison function of the sort is positive.\<close>

definition range_after :: "status_range \<Rightarrow> status_range \<Rightarrow> bool" where
  "range_after a b =
    ((if sr_start a \<noteq> sr_start b then sr_start a - sr_start b else sr_end a - sr_end b) > 0)"

text \<open>The callback of \<open>reduce\<close>; the last merged range is updated in place.\<close>

definition merge_range :: "status_range list \<Rightarrow> status_range \<Rightarrow> status_range list" where
  "merge_range merged r =
    (if merged = [] \<or> sr_start r > sr_end (last merged) + 1 then merged @ [r]
     else butlast merged @ [(last merged)\<lparr>sr_end := max (sr_end (last merged)) (sr_end r)\<rparr>])"

definition mergeRanges :: "status_range list \<Rightarrow> status_range list" where
  "mergeRanges ranges = (if ranges = [] then [] else foldl merge_range [] (sort_with range_after ranges))"

definition range_token :: "status_range \<Rightarrow> jsstring" where
  "range_token r =
    (if sr_start r = sr_end r then show_int (sr_start r) else show_int (sr_start r) @ [45] @ show_int (sr_end r))"

definition segments :: "jsstring \<Rightarrow> jsstring list" where
  "segments raw =
    filter (\<lambda>s. s \<noteq> []) (map js_trim (split_at_unit 44 (map (\<lambda>c. if c = 65292 then 44 else c) raw)))"

definition parseHttpStatusCodeRules :: "jsstring \<Rightarrow> parsed_rules" where
  "parseHttpStatusCodeRules input =
    (let raw = js_trim input in
     if raw = [] then \<lparr>pr_ok = True, pr_ranges = [], pr_tokens = [], pr_normalized = [], pr_invalidTokens = []\<rparr>
     else
       let invalidTokens = filter (\<lambda>s. parseToken s = None) (segments raw);
           ranges = List.map_filter parseToken (segments raw)
       in if invalidTokens \<noteq> [] then
            \<lparr>pr_ok = False, pr_ranges = [], pr_tokens = [], pr_normalized = raw, pr_invalidTokens = invalidTokens\<rparr>
          else
            let merged = mergeRanges ranges; tokens = map range_token merged
            in \<lparr>pr_ok = True, pr_ranges = merged, pr_tokens = tokens, pr_normalized = js_join tokens [44], pr_invalidTokens = []\<rparr>)"

subsection \<open>Merging\<close>

text \<open>The codes of a list of ranges, and the canonical form: proper ranges, in order, neither overlapping nor adjacent.\<close>

definition codes :: "status_range list \<Rightarrow> int set" where
  "codes rs = (\<Union>r \<in> set rs. {sr_start r..sr_end r})"

definition proper :: "status_range \<Rightarrow> bool" where
  "proper r \<longleftrightarrow> isValidCode (sr_start r) \<and> isValidCode (sr_end r) \<and> sr_start r \<le> sr_end r"

definition canonical :: "status_range list \<Rightarrow> bool" where
  "canonical rs \<longleftrightarrow> list_all proper rs \<and> sorted_wrt (\<lambda>a b. sr_end a + 1 < sr_start b) rs"

definition range_before :: "status_range \<Rightarrow> status_range \<Rightarrow> bool" where
  "range_before a b \<longleftrightarrow> sr_start a < sr_start b \<or> sr_start a = sr_start b \<and> sr_end a \<le> sr_end b"

interpretation ranges: comparison range_before
  by unfold_locales (auto simp: range_before_def)

lemma range_after_iff: "range_after a b \<longleftrightarrow> \<not> range_before a b"
  by (auto simp: range_after_def range_before_def)

lemma range_after_before: "range_after = (\<lambda>a b. \<not> range_before a b)"
  by (intro ext) (rule range_after_iff)

lemma sorted_ranges:
  "mset (sort_with range_after rs) = mset rs" "sorted_wrt range_before (sort_with range_after rs)"
  using ranges.sort_stable [of rs] by (simp_all add: range_after_before stable_sorted_def)

lemma codes_append [simp]: "codes (xs @ ys) = codes xs \<union> codes ys"
  by (simp add: codes_def)

lemma codes_single [simp]: "codes [r] = {sr_start r..sr_end r}"
  by (simp add: codes_def)

lemma canonical_snoc:
  "canonical (rs @ [r]) \<longleftrightarrow> canonical rs \<and> proper r \<and> (\<forall>a \<in> set rs. sr_end a + 1 < sr_start r)"
  by (auto simp: canonical_def sorted_wrt_append)

lemma canonical_last:
  assumes "canonical rs" and "rs \<noteq> []" and "a \<in> set rs"
  shows "sr_end a \<le> sr_end (last rs)"
proof -
  have rs: "rs = butlast rs @ [last rs]" using assms(2) by simp
  from assms(1) rs have "\<forall>a \<in> set (butlast rs). sr_end a + 1 < sr_start (last rs)" and "proper (last rs)"
    by (metis canonical_snoc)+
  moreover have "a \<in> set (butlast rs) \<or> a = last rs" using assms(3) rs by (metis Un_iff empty_iff insert_iff list.set(1,2) set_append)
  ultimately show ?thesis by (auto simp: proper_def)
qed

lemma merge_range_correct:
  assumes "canonical merged" and "proper r" and "merged \<noteq> [] \<Longrightarrow> sr_start (last merged) \<le> sr_start r"
  shows "canonical (merge_range merged r) \<and> codes (merge_range merged r) = codes merged \<union> {sr_start r..sr_end r}
    \<and> merge_range merged r \<noteq> [] \<and> sr_start (last (merge_range merged r)) \<le> sr_start r"
proof (cases "merged = [] \<or> sr_start r > sr_end (last merged) + 1")
  case True
  then have "\<forall>a \<in> set merged. sr_end a + 1 < sr_start r"
    using canonical_last [OF assms(1)] by fastforce
  then show ?thesis using True assms by (simp add: merge_range_def canonical_snoc)
next
  case False
  then obtain ms l where m: "merged = ms @ [l]" by (cases merged rule: rev_cases) auto
  have l: "sr_start l \<le> sr_start r" "sr_start r \<le> sr_end l + 1" using False assms(3) m by auto
  have "canonical ms" "proper l" "\<forall>a \<in> set ms. sr_end a + 1 < sr_start l" using assms(1) m by (simp_all add: canonical_snoc)
  then have "canonical (ms @ [l\<lparr>sr_end := max (sr_end l) (sr_end r)\<rparr>])"
    using assms(2) by (auto simp: canonical_snoc proper_def isValidCode_def)
  moreover have "{sr_start l..max (sr_end l) (sr_end r)} = {sr_start l..sr_end l} \<union> {sr_start r..sr_end r}"
    using l assms(2) \<open>proper l\<close> by (auto simp: proper_def)
  ultimately show ?thesis using False m l by (simp add: merge_range_def Un_assoc)
qed

lemma merge_fold:
  assumes "list_all proper rs" and "sorted_wrt range_before rs" and "canonical merged"
    and "\<And>r. r \<in> set rs \<Longrightarrow> merged \<noteq> [] \<Longrightarrow> sr_start (last merged) \<le> sr_start r"
  shows "canonical (foldl merge_range merged rs) \<and> codes (foldl merge_range merged rs) = codes merged \<union> codes rs"
  using assms
proof (induction rs arbitrary: merged)
  case (Cons r rs)
  have m: "canonical (merge_range merged r)" "codes (merge_range merged r) = codes merged \<union> {sr_start r..sr_end r}"
    "sr_start (last (merge_range merged r)) \<le> sr_start r"
    using merge_range_correct [OF Cons.prems(3), of r] Cons.prems by auto
  have "sr_start r \<le> sr_start r'" if "r' \<in> set rs" for r'
    using Cons.prems(2) that by (fastforce simp: range_before_def)
  with Cons m have "canonical (foldl merge_range (merge_range merged r) rs)
    \<and> codes (foldl merge_range (merge_range merged r) rs) = codes (merge_range merged r) \<union> codes rs"
    by (intro Cons.IH) force+
  then show ?case using m by (auto simp: codes_def)
qed (simp add: codes_def)

lemma mergeRanges_correct:
  assumes "list_all proper rs"
  shows "canonical (mergeRanges rs)" and "codes (mergeRanges rs) = codes rs"
proof -
  have set: "set (sort_with range_after rs) = set rs" using arg_cong [OF sorted_ranges(1), of set_mset] by simp
  with assms have "list_all proper (sort_with range_after rs)" by (simp add: list_all_iff)
  from merge_fold [OF this sorted_ranges(2), of "[]"] set show "canonical (mergeRanges rs)" "codes (mergeRanges rs) = codes rs"
    by (auto simp: mergeRanges_def canonical_def codes_def)
qed

text \<open>A canonical list is its own merge.\<close>

lemma canonical_before: "canonical rs \<Longrightarrow> sorted_wrt range_before rs"
  unfolding canonical_def by (induction rs) (auto simp: range_before_def proper_def list_all_iff)

lemma insert_first: "list_all (range_before r) rs \<Longrightarrow> insert_with range_after r rs = r # rs"
  by (cases rs) (simp_all add: range_after_iff)

lemma sort_sorted: "sorted_wrt range_before rs \<Longrightarrow> sort_with range_after rs = rs"
  by (induction rs) (simp_all add: sort_with_def insert_first list_all_iff)

lemma merge_canonical: "canonical (ms @ rs) \<Longrightarrow> foldl merge_range ms rs = ms @ rs"
proof (induction rs arbitrary: ms)
  case (Cons r rs)
  have "canonical ((ms @ [r]) @ rs)" using Cons.prems by simp
  then have "canonical (ms @ [r])" by (simp add: canonical_def sorted_wrt_append)
  then have "merge_range ms r = ms @ [r]" by (auto simp: merge_range_def canonical_snoc)
  then show ?case using Cons.IH [of "ms @ [r]"] Cons.prems by simp
qed simp

lemma mergeRanges_canonical: "canonical rs \<Longrightarrow> mergeRanges rs = rs"
  using merge_canonical [of "[]" rs] by (simp add: mergeRanges_def sort_sorted canonical_before)

subsection \<open>Reading what was printed\<close>

definition plain :: "unit16 \<Rightarrow> bool" where
  "plain c \<longleftrightarrow> is_digit c \<or> c = 45 \<or> c = 44"

lemma plain_unit: "plain c \<Longrightarrow> \<not> is_space c \<and> c \<noteq> 65292"
  by (auto simp: plain_def is_space_def is_digit_def word_le_def)

lemma plain_trim: "list_all plain s \<Longrightarrow> js_trim s = s"
  by (rule js_trim_trimmed) (auto simp: trimmed_def list_all_iff dest: plain_unit)

lemma show_code:
  assumes "isValidCode n"
  shows "isNumber (show_int n)" and "digits_int (show_int n) = n"
  using assms show_nat_digits [of n] by (simp_all add: isValidCode_def show_int_def isNumber_def)

lemma number_units: "isNumber s \<Longrightarrow> 45 \<notin> set s \<and> 44 \<notin> set s \<and> list_all plain s"
  by (auto simp: isNumber_def list_all_iff plain_def is_digit_def word_le_def)

lemma plain_filter: "list_all plain s \<Longrightarrow> filter (\<lambda>c. \<not> is_space c) s = s"
  by (rule filter_True) (auto simp: list_all_iff dest: plain_unit)

lemma range_token_plain:
  assumes "proper r"
  shows "list_all plain (range_token r) \<and> range_token r \<noteq> [] \<and> 44 \<notin> set (range_token r)"
  using assms number_units [OF show_code(1), of "sr_start r"] number_units [OF show_code(1), of "sr_end r"] show_code(1) [of "sr_start r"]
  by (auto simp: proper_def range_token_def isNumber_def plain_def)

lemma parse_token_print: "proper r \<Longrightarrow> parseToken (range_token r) = Some r"
proof -
  assume r: "proper r"
  then have v: "isValidCode (sr_start r)" "isValidCode (sr_end r)" "sr_start r \<le> sr_end r" by (simp_all add: proper_def)
  note s = show_code [OF v(1)] number_units [OF show_code(1) [OF v(1)]]
  note e = show_code [OF v(2)] number_units [OF show_code(1) [OF v(2)]]
  have clean: "filter (\<lambda>c. \<not> is_space c) (js_trim (range_token r)) = range_token r"
    using range_token_plain [OF r] by (simp add: plain_trim plain_filter)
  show ?thesis
  proof (cases "sr_start r = sr_end r")
    case True
    then have t: "range_token r = show_int (sr_start r)" by (simp add: range_token_def)
    have "parseToken (range_token r) = Some \<lparr>sr_start = sr_start r, sr_end = sr_start r\<rparr>"
      unfolding parseToken_def Let_def clean unfolding t using v(1) s by (simp add: isNumber_def)
    with True show ?thesis by simp
  next
    case False
    then have t: "range_token r = show_int (sr_start r) @ [45] @ show_int (sr_end r)" by (simp add: range_token_def)
    have "split_at_unit 45 (range_token r) = [show_int (sr_start r), show_int (sr_end r)]"
      unfolding t using s e by (simp add: split_at_unit_append split_at_unit_none)
    moreover have "45 \<in> set (range_token r)" "range_token r \<noteq> []" by (simp_all add: t)
    ultimately have "parseToken (range_token r) = Some \<lparr>sr_start = sr_start r, sr_end = sr_end r\<rparr>"
      unfolding parseToken_def clean Let_def using v s(1,2) e(1,2) by simp
    then show ?thesis by simp
  qed
qed

lemma join_plain: "list_all (\<lambda>t. list_all plain t) ts \<Longrightarrow> list_all plain (js_join ts [44])"
  by (induction ts "[44] :: jsstring" rule: js_join.induct) (auto simp: plain_def)

lemma join_nonempty: "ts \<noteq> [] \<Longrightarrow> list_all (\<lambda>t. t \<noteq> []) ts \<Longrightarrow> js_join ts sep \<noteq> []"
  by (cases ts rule: list.exhaust) (auto simp: neq_Nil_conv, metis js_join.simps(2,3) append_is_Nil_conv neq_Nil_conv)

lemma segments_join:
  assumes "ts \<noteq> []" and "list_all (\<lambda>t. list_all plain t \<and> t \<noteq> [] \<and> 44 \<notin> set t) ts"
  shows "segments (js_join ts [44]) = ts"
proof -
  have "list_all plain (js_join ts [44])" using assms(2) by (intro join_plain) (simp add: list_all_iff)
  then have "map (\<lambda>c. if c = 65292 then 44 else c) (js_join ts [44]) = js_join ts [44]"
    by (intro map_idI) (auto simp: list_all_iff dest: plain_unit)
  moreover have "split_at_unit 44 (js_join ts [44]) = ts" using assms by (intro split_join) (auto simp: list_all_iff)
  moreover have "map js_trim ts = ts" using assms(2) by (intro map_idI) (auto simp: list_all_iff intro: plain_trim)
  moreover have "filter (\<lambda>s. s \<noteq> []) ts = ts" using assms(2) by (auto simp: list_all_iff)
  ultimately show ?thesis by (simp add: segments_def)
qed

lemma parse_token_proper: "parseToken s = Some r \<Longrightarrow> proper r"
  by (auto simp: parseToken_def Let_def proper_def split: if_splits list.splits)

lemma parse_printed:
  assumes "canonical rs"
  shows "parseHttpStatusCodeRules (js_join (map range_token rs) [44]) =
    \<lparr>pr_ok = True, pr_ranges = rs, pr_tokens = map range_token rs, pr_normalized = js_join (map range_token rs) [44],
      pr_invalidTokens = []\<rparr>"
proof (cases "rs = []")
  case True
  then show ?thesis by (simp add: parseHttpStatusCodeRules_def js_trim_def)
next
  case False
  let ?ts = "map range_token rs" let ?raw = "js_join ?ts [44]"
  have p: "proper r" if "r \<in> set rs" for r using assms that by (simp add: canonical_def list_all_iff)
  have ts: "list_all (\<lambda>t. list_all plain t \<and> t \<noteq> [] \<and> 44 \<notin> set t) ?ts"
    using p range_token_plain by (auto simp: list_all_iff)
  have raw: "js_trim ?raw = ?raw" by (rule plain_trim, rule join_plain) (use ts in \<open>simp add: list_all_iff\<close>)
  have "?raw \<noteq> []" using ts False by (intro join_nonempty) (auto simp: list_all_iff)
  moreover have "segments ?raw = ?ts" using ts False by (intro segments_join) simp_all
  moreover have "filter (\<lambda>s. parseToken s = None) ?ts = []" using p by (auto simp: filter_empty_conv parse_token_print)
  moreover have "List.map_filter parseToken ?ts = rs" using p by (induction rs) (simp_all add: List.map_filter_simps parse_token_print)
  ultimately show ?thesis using mergeRanges_canonical [OF assms]
    by (simp add: parseHttpStatusCodeRules_def raw Let_def)
qed

subsection \<open>Properties\<close>

text \<open>
  C24: an accepted list of status code rules gives ranges of valid codes in ascending order that neither overlap nor touch,
  and they contain exactly the codes that some token of the list names; the normalised text is read back as
  the same result, so normalising is idempotent.
\<close>

theorem status_rules_normal_form:
  assumes "pr_ok (parseHttpStatusCodeRules input)"
  shows "canonical (pr_ranges (parseHttpStatusCodeRules input))
    \<and> codes (pr_ranges (parseHttpStatusCodeRules input))
        = {c. \<exists>t \<in> set (segments (js_trim input)). \<exists>r. parseToken t = Some r \<and> sr_start r \<le> c \<and> c \<le> sr_end r}
    \<and> parseHttpStatusCodeRules (pr_normalized (parseHttpStatusCodeRules input)) = parseHttpStatusCodeRules input"
proof (cases "js_trim input = []")
  case True
  moreover have "segments [] = []" "js_trim [] = []" by (simp_all add: segments_def js_trim_def)
  ultimately show ?thesis by (simp add: parseHttpStatusCodeRules_def canonical_def codes_def)
next
  case False
  let ?rs = "List.map_filter parseToken (segments (js_trim input))"
  have res: "parseHttpStatusCodeRules input = \<lparr>pr_ok = True, pr_ranges = mergeRanges ?rs,
      pr_tokens = map range_token (mergeRanges ?rs), pr_normalized = js_join (map range_token (mergeRanges ?rs)) [44],
      pr_invalidTokens = []\<rparr>"
    using assms False by (auto simp: parseHttpStatusCodeRules_def Let_def split: if_splits)
  have set: "set ?rs = {r. \<exists>t \<in> set (segments (js_trim input)). parseToken t = Some r}"
    by (force simp: List.map_filter_def image_iff)
  then have "list_all proper ?rs" by (auto simp: list_all_iff intro: parse_token_proper)
  note merged = mergeRanges_correct [OF this]
  have "codes ?rs = {c. \<exists>t \<in> set (segments (js_trim input)). \<exists>r. parseToken t = Some r \<and> sr_start r \<le> c \<and> c \<le> sr_end r}"
    unfolding codes_def set by (auto, blast)
  then show ?thesis using merged parse_printed [OF merged(1)] by (simp add: res)
qed

lemma demo_rules:
  "pr_ok (parseHttpStatusCodeRules (js ''503, 500-502,401''))"
  "pr_normalized (parseHttpStatusCodeRules (js ''503, 500-502,401'')) = js ''401,500-503''"
  by code_simp+

theorem status_rules_normal_form_witness:
  "canonical (pr_ranges (parseHttpStatusCodeRules (js ''503, 500-502,401'')))
   \<and> parseHttpStatusCodeRules (js ''401,500-503'') = parseHttpStatusCodeRules (js ''503, 500-502,401'')"
  using status_rules_normal_form [OF demo_rules(1)] by (simp add: demo_rules(2))

text \<open>A token with more than two parts is read from its first two.\<close>

lemma third_part_ignored:
  "parseToken (js ''400-500-x'') = Some \<lparr>sr_start = 400, sr_end = 500\<rparr>"
  by code_simp

end
