(* ===== verification/Chat.thy ===== *)
theory Chat
  imports JsTools
begin

section \<open>Messages of the playground\<close>

text \<open>
  Model of \<^verbatim>\<open>web/src/features/playground/lib/message\<close>: \<^verbatim>\<open>message-utils.ts\<close>, \<^verbatim>\<open>message-reasoning-utils.ts\<close>,
  \<^verbatim>\<open>message-timing-utils.ts\<close>, \<^verbatim>\<open>message-streaming-utils.ts\<close>, \<^verbatim>\<open>message-update-utils.ts\<close> and
  \<^verbatim>\<open>conversation-message-utils.ts\<close>. An answer arrives in chunks of text, in which the model's reasoning may stand between
  tags; the message keeps the raw text while it grows, and separates the two at the end. Each reading of
  the clock is an argument, as are the random keys and the translation function.
\<close>

subsection \<open>Data\<close>

datatype role = RUser | RAssistant | RSystem

datatype message_status = SLoading | SStreaming | SComplete | SError

record version =
  mv_id :: jsstring
  mv_content :: jsstring
  mv_images :: "jsstring list option"

record reasoning =
  rs_content :: jsstring
  rs_duration :: jsnum
  rs_startedAt :: "jsnum option"
  rs_completedAt :: "jsnum option"
  rs_durationMs :: "jsnum option"

text \<open>An absent or null error code is \<open>None\<close>.\<close>

record message =
  ms_key :: jsstring
  ms_from :: role
  ms_versions :: "version list"
  ms_createdAt :: "jsnum option"
  ms_startedAt :: "jsnum option"
  ms_completedAt :: "jsnum option"
  ms_durationMs :: "jsnum option"
  ms_sources :: "(jsstring \<times> jsstring) list option"
  ms_reasoning :: "reasoning option"
  ms_isReasoningStreaming :: "bool option"
  ms_isReasoningComplete :: "bool option"
  ms_isContentComplete :: "bool option"
  ms_status :: "message_status option"
  ms_errorCode :: "jsstring option"

subsection \<open>Versions\<close>

definition createMessageVersion :: "jsstring \<Rightarrow> jsstring \<Rightarrow> jsstring list option \<Rightarrow> version" where
  "createMessageVersion nanoid content images =
    \<lparr>mv_id = nanoid, mv_content = content, mv_images = (if images = Some [] then None else images)\<rparr>"

definition getCurrentVersion :: "message \<Rightarrow> version" where
  "getCurrentVersion m =
    (case ms_versions m of v # vs \<Rightarrow> v | [] \<Rightarrow> \<lparr>mv_id = js ''default'', mv_content = [], mv_images = None\<rparr>)"

definition getMessageContent :: "message \<Rightarrow> jsstring" where
  "getMessageContent m = mv_content (getCurrentVersion m)"

definition hasMessageContent :: "message \<Rightarrow> bool" where
  "hasMessageContent m \<longleftrightarrow> js_trim (getMessageContent m) \<noteq> []
     \<or> (case mv_images (getCurrentVersion m) of Some xs \<Rightarrow> xs \<noteq> [] | None \<Rightarrow> False)"

definition updateCurrentVersionContent :: "message \<Rightarrow> jsstring \<Rightarrow> message" where
  "updateCurrentVersionContent m content = m\<lparr>ms_versions := [(getCurrentVersion m)\<lparr>mv_content := content\<rparr>]\<rparr>"

definition createUserMessage :: "jsstring \<Rightarrow> jsstring \<Rightarrow> jsstring \<Rightarrow> jsnum \<Rightarrow> jsstring list option \<Rightarrow> message" where
  "createUserMessage key nanoid content createdAt images =
    \<lparr>ms_key = key, ms_from = RUser, ms_versions = [createMessageVersion nanoid content images], ms_createdAt = Some createdAt,
     ms_startedAt = None, ms_completedAt = None, ms_durationMs = None, ms_sources = None, ms_reasoning = None,
     ms_isReasoningStreaming = None, ms_isReasoningComplete = None, ms_isContentComplete = None, ms_status = None, ms_errorCode = None\<rparr>"

definition createLoadingAssistantMessage :: "jsstring \<Rightarrow> jsstring \<Rightarrow> jsnum \<Rightarrow> message" where
  "createLoadingAssistantMessage key nanoid startedAt =
    \<lparr>ms_key = key, ms_from = RAssistant, ms_versions = [createMessageVersion nanoid [] None], ms_createdAt = Some startedAt,
     ms_startedAt = Some startedAt, ms_completedAt = None, ms_durationMs = None, ms_sources = None, ms_reasoning = None,
     ms_isReasoningStreaming = Some False, ms_isReasoningComplete = Some False, ms_isContentComplete = Some False,
     ms_status = Some SLoading, ms_errorCode = None\<rparr>"

datatype content_part = TextPart jsstring | ImagePart jsstring

datatype api_content = PlainText jsstring | Parts "content_part list"

definition buildMessageContent :: "jsstring \<Rightarrow> jsstring list \<Rightarrow> api_content" where
  "buildMessageContent txt imageUrls =
    (let validImages = filter (\<lambda>url. js_trim url \<noteq> []) imageUrls in
     if validImages = [] then PlainText txt
     else Parts (TextPart txt # map (\<lambda>url. ImagePart (js_trim url)) validImages))"

definition formatMessageForAPI :: "message \<Rightarrow> role \<times> api_content" where
  "formatMessageForAPI m =
    (ms_from m, buildMessageContent (getMessageContent m) (case mv_images (getCurrentVersion m) of Some xs \<Rightarrow> xs | None \<Rightarrow> []))"

definition getTextContent :: "api_content \<Rightarrow> jsstring" where
  "getTextContent content =
    (case content of
       PlainText s \<Rightarrow> s
     | Parts ps \<Rightarrow> (case find (\<lambda>p. case p of TextPart s \<Rightarrow> True | ImagePart u \<Rightarrow> False) ps of Some (TextPart s) \<Rightarrow> s | _ \<Rightarrow> []))"

definition isValidMessage :: "message \<Rightarrow> bool" where
  "isValidMessage m \<longleftrightarrow> ms_versions m \<noteq> [] \<and> \<not> (ms_from m = RAssistant \<and> \<not> hasMessageContent m)"

subsection \<open>Reasoning between tags\<close>

definition open_tag :: jsstring where
  "open_tag = js ''<think>''"

definition close_tag :: jsstring where
  "close_tag = js ''</think>''"

text \<open>\<open>indexOf\<close> on a string and, from a position, on its suffix.\<close>

fun index_in :: "jsstring \<Rightarrow> jsstring \<Rightarrow> nat option" where
  "index_in [] sub = (if sub = [] then Some 0 else None)"
| "index_in (c # s) sub = (if js_startsWith (c # s) sub then Some 0 else map_option Suc (index_in s sub))"

definition js_indexOf :: "jsstring \<Rightarrow> jsstring \<Rightarrow> nat \<Rightarrow> nat option" where
  "js_indexOf s sub from = map_option (\<lambda>i. from + i) (index_in (drop from s) sub)"

lemma index_in_bound: "index_in s sub = Some i \<Longrightarrow> i + length sub \<le> length s"
proof (induction s arbitrary: i)
  case (Cons c s)
  show ?case
  proof (cases "js_startsWith (c # s) sub")
    case True
    then have "length (take (length sub) (c # s)) = length sub" unfolding js_startsWith_def by (rule arg_cong)
    then have "length sub \<le> length (c # s)" by (simp add: min_def split: if_splits)
    with True Cons.prems show ?thesis by simp
  qed (use Cons in auto)
qed (auto split: if_splits)

record parsed_tags =
  pt_visibleContent :: jsstring
  pt_reasoning :: jsstring
  pt_hasUnclosedTag :: bool

text \<open>The loop: the visible parts, the reasoning parts and whether a tag stayed open.\<close>

function think_loop :: "jsstring \<Rightarrow> nat \<Rightarrow> jsstring list \<Rightarrow> jsstring list \<Rightarrow> jsstring list \<times> jsstring list \<times> bool" where
  "think_loop content currentPos visibleParts reasoningParts =
    (case js_indexOf content open_tag currentPos of
       None \<Rightarrow> (visibleParts @ (if currentPos < length content then [drop currentPos content] else []), reasoningParts, False)
     | Some openPos \<Rightarrow>
         let visible1 = visibleParts @ (if openPos > currentPos then [js_slice content currentPos openPos] else []) in
         case js_indexOf content close_tag (openPos + 7) of
           None \<Rightarrow> (visible1, reasoningParts @ [drop (openPos + 7) content], True)
         | Some closePos \<Rightarrow>
             think_loop content (closePos + 8) visible1 (reasoningParts @ [js_slice content (openPos + 7) closePos]))"
  by pat_completeness auto
termination
proof (relation "measure (\<lambda>(content, pos, v, r). length content - pos)")
  fix content and pos openPos closePos and v v1 r
  assume o1: "js_indexOf content open_tag pos = Some openPos" and c1: "js_indexOf content close_tag (openPos + 7) = Some closePos"
  have len: "length close_tag = 8" by (simp add: close_tag_def js_def)
  from o1 have "pos \<le> openPos" by (auto simp: js_indexOf_def)
  moreover from c1 obtain i where i: "closePos = openPos + 7 + i" and "index_in (drop (openPos + 7) content) close_tag = Some i"
    by (auto simp: js_indexOf_def)
  moreover have "i + 8 \<le> length content - (openPos + 7)" using index_in_bound [OF calculation(3)] len by simp
  ultimately show "((content, closePos + 8, v1, r @ [js_slice content (openPos + 7) closePos]), content, pos, v, r)
      \<in> measure (\<lambda>(content, pos, v, r). length content - pos)" by simp
qed simp

declare think_loop.simps [simp del]

definition parseThinkTags :: "jsstring \<Rightarrow> parsed_tags" where
  "parseThinkTags content =
    (if \<not> js_includes content open_tag then \<lparr>pt_visibleContent = content, pt_reasoning = [], pt_hasUnclosedTag = False\<rparr>
     else case think_loop content 0 [] [] of
       (visibleParts, reasoningParts, hasUnclosedTag) \<Rightarrow>
         \<lparr>pt_visibleContent = js_trim (js_join visibleParts []), pt_reasoning = js_trim (js_join reasoningParts [10, 10]),
          pt_hasUnclosedTag = hasUnclosedTag\<rparr>)"

subsection \<open>Timing\<close>

definition completeAssistantTiming :: "message \<Rightarrow> jsnum \<Rightarrow> message" where
  "completeAssistantTiming m completedAt =
    (if ms_from m \<noteq> RAssistant then m
     else let startedAt = (case ms_startedAt m of Some t \<Rightarrow> t
                           | None \<Rightarrow> (case ms_createdAt m of Some t \<Rightarrow> t | None \<Rightarrow> completedAt))
       in m\<lparr>ms_startedAt := Some startedAt, ms_completedAt := Some completedAt,
            ms_durationMs := Some (math_max (Fin 0) (js_sub completedAt startedAt))\<rparr>)"

definition startReasoningTiming :: "message \<Rightarrow> jsnum \<Rightarrow> reasoning" where
  "startReasoningTiming m startedAt =
    (case ms_reasoning m of
       None \<Rightarrow> \<lparr>rs_content = [], rs_duration = Fin 0, rs_startedAt = Some startedAt, rs_completedAt = None, rs_durationMs = None\<rparr>
     | Some r \<Rightarrow> r\<lparr>rs_startedAt := Some (case rs_startedAt r of Some t \<Rightarrow> t | None \<Rightarrow> startedAt)\<rparr>)"

definition completeReasoningTiming :: "message \<Rightarrow> jsnum \<Rightarrow> message" where
  "completeReasoningTiming m completedAt =
    (case ms_reasoning m of
       None \<Rightarrow> m
     | Some r \<Rightarrow>
         if rs_durationMs r \<noteq> None then m
         else let startedAt = (case rs_startedAt r of Some t \<Rightarrow> t | None \<Rightarrow> (case ms_startedAt m of Some t \<Rightarrow> t | None \<Rightarrow> completedAt));
                  durationMs = math_max (Fin 0) (js_sub completedAt startedAt)
           in m\<lparr>ms_reasoning := Some (r\<lparr>rs_startedAt := Some startedAt, rs_completedAt := Some completedAt,
                rs_durationMs := Some durationMs, rs_duration := math_ceil (js_div durationMs (Fin 1000))\<rparr>)\<rparr>)"

subsection \<open>Streaming\<close>

text \<open>\<open>now\<close> is read by \<open>startReasoningTiming\<close>, \<open>later\<close> by \<open>completeReasoningTiming\<close>.\<close>

definition processStreamingContent :: "jsnum \<Rightarrow> message \<Rightarrow> jsstring \<Rightarrow> message" where
  "processStreamingContent now m contentChunk =
    (let fullContent = getMessageContent m @ contentChunk in
     if ms_reasoning m = None \<and> \<not> js_includes fullContent open_tag
     then (updateCurrentVersionContent m fullContent)\<lparr>ms_isReasoningStreaming := Some False\<rparr>
     else
       let p = parseThinkTags fullContent;
           finalReasoning = (if pt_reasoning p \<noteq> [] then Some ((startReasoningTiming m now)\<lparr>rs_content := pt_reasoning p\<rparr>)
                             else ms_reasoning m)
       in (updateCurrentVersionContent m fullContent)\<lparr>ms_reasoning := finalReasoning,
            ms_isReasoningStreaming := Some (pt_hasUnclosedTag p)\<rparr>)"

datatype chunk_type = ReasoningChunk | ContentChunk

definition getAppendableChunk :: "jsstring \<Rightarrow> jsstring \<Rightarrow> jsstring" where
  "getAppendableChunk currentContent chunk =
    (if currentContent = [] \<or> \<not> js_startsWith chunk currentContent then chunk else drop (length currentContent) chunk)"

definition applyStreamingChunk :: "jsnum \<Rightarrow> jsnum \<Rightarrow> message \<Rightarrow> chunk_type \<Rightarrow> jsstring \<Rightarrow> message" where
  "applyStreamingChunk now later m type chunk =
    (if ms_status m = Some SError then m
     else case type of
       ReasoningChunk \<Rightarrow>
         let r = startReasoningTiming m now
         in m\<lparr>ms_reasoning := Some (r\<lparr>rs_content := rs_content r @ getAppendableChunk (rs_content r) chunk\<rparr>),
              ms_isReasoningStreaming := Some True, ms_status := Some SStreaming\<rparr>
     | ContentChunk \<Rightarrow>
         let contentMessage = processStreamingContent now m (getAppendableChunk (getMessageContent m) chunk)
         in (if ms_isReasoningStreaming contentMessage = Some True then contentMessage
             else completeReasoningTiming contentMessage later)\<lparr>ms_status := Some SStreaming\<rparr>)"

text \<open>\<open>a || b\<close> on texts.\<close>

definition text_or :: "jsstring \<Rightarrow> jsstring \<Rightarrow> jsstring" where
  "text_or a b = (if a = [] then b else a)"

definition reasoning_text :: "message \<Rightarrow> jsstring" where
  "reasoning_text m = (case ms_reasoning m of Some r \<Rightarrow> rs_content r | None \<Rightarrow> [])"

definition finalizeMessage :: "jsnum \<Rightarrow> jsnum \<Rightarrow> message \<Rightarrow> jsstring option \<Rightarrow> message" where
  "finalizeMessage now later m apiReasoningContent =
    (let content = getMessageContent m;
         tagged = js_includes content open_tag;
         visibleContent = (if tagged then pt_visibleContent (parseThinkTags content) else content);
         finalReasoning = text_or (case apiReasoningContent of Some s \<Rightarrow> s | None \<Rightarrow> [])
           (text_or (reasoning_text m) (if tagged then pt_reasoning (parseThinkTags content) else []));
         finalized = (updateCurrentVersionContent m visibleContent)\<lparr>ms_reasoning :=
           (if finalReasoning \<noteq> [] then Some ((startReasoningTiming m now)\<lparr>rs_content := finalReasoning\<rparr>) else None),
           ms_isReasoningStreaming := Some False\<rparr>
     in completeReasoningTiming finalized later)"

definition completeAssistantMessage :: "jsnum \<Rightarrow> jsnum \<Rightarrow> jsnum \<Rightarrow> message \<Rightarrow> message" where
  "completeAssistantMessage now later end1 m =
    completeAssistantTiming ((finalizeMessage now later m None)\<lparr>ms_status := Some SComplete\<rparr>) end1"

definition isAssistantMessageFinal :: "message \<Rightarrow> bool" where
  "isAssistantMessageFinal m \<longleftrightarrow> ms_status m = Some SComplete \<or> ms_status m = Some SError"

definition isAssistantMessagePending :: "message \<Rightarrow> bool" where
  "isAssistantMessagePending m \<longleftrightarrow> ms_status m = Some SLoading \<or> ms_status m = Some SStreaming"

definition isPendingAssistantMessage :: "message \<Rightarrow> bool" where
  "isPendingAssistantMessage m \<longleftrightarrow> ms_from m = RAssistant \<and> isAssistantMessagePending m"

text \<open>The message of the first choice of an answer, where it has one: its content and its reasoning.\<close>

type_synonym choice = "(jsstring option \<times> jsstring option) option"

definition hasChatCompletionChoice :: "choice list \<Rightarrow> bool" where
  "hasChatCompletionChoice choices \<longleftrightarrow> choices \<noteq> []"

definition applyChatCompletionChoice :: "jsnum \<Rightarrow> jsnum \<Rightarrow> jsnum \<Rightarrow> message \<Rightarrow> choice \<Rightarrow> message" where
  "applyChatCompletionChoice now later end1 m c =
    (let content = (case c of Some (Some s, r) \<Rightarrow> s | _ \<Rightarrow> []);
         api = (case c of Some (s, r) \<Rightarrow> r | None \<Rightarrow> None)
     in completeAssistantTiming
          ((finalizeMessage now later (updateCurrentVersionContent m content) api)\<lparr>ms_status := Some SComplete\<rparr>) end1)"

definition applyChatCompletionResponse :: "jsnum \<Rightarrow> jsnum \<Rightarrow> jsnum \<Rightarrow> message \<Rightarrow> choice list \<Rightarrow> message option" where
  "applyChatCompletionResponse now later end1 m choices =
    (case choices of [] \<Rightarrow> None | c # cs \<Rightarrow> Some (applyChatCompletionChoice now later end1 m c))"

text \<open>The position of the last pending message of the assistant; the search runs downwards.\<close>

fun last_pending :: "message list \<Rightarrow> nat \<Rightarrow> nat option" where
  "last_pending ms 0 = None"
| "last_pending ms (Suc i) = (if isPendingAssistantMessage (ms ! i) then Some i else last_pending ms i)"

definition interrupted_text :: "(jsstring \<Rightarrow> jsstring) \<Rightarrow> jsstring" where
  "interrupted_text t = t (js ''Request error occurred'') @ js '': '' @ t (js ''Generation was interrupted'')"

definition sanitizeMessagesOnLoad ::
  "(jsstring \<Rightarrow> jsstring) \<Rightarrow> jsnum \<Rightarrow> jsnum \<Rightarrow> jsnum \<Rightarrow> message list \<Rightarrow> message list" where
  "sanitizeMessagesOnLoad t now later end1 ms =
    (case last_pending ms (length ms) of
       None \<Rightarrow> ms
     | Some i \<Rightarrow>
         let finalized = finalizeMessage now later (ms ! i) None;
             sanitized =
               (if hasMessageContent finalized \<or> js_trim (reasoning_text finalized) \<noteq> []
                then completeAssistantTiming (finalized\<lparr>ms_status := Some SComplete, ms_isReasoningStreaming := Some False\<rparr>) end1
                else completeAssistantTiming ((updateCurrentVersionContent finalized (interrupted_text t))
                  \<lparr>ms_status := Some SError, ms_isReasoningStreaming := Some False\<rparr>) end1)
         in ms[i := sanitized])"

subsection \<open>Changing a conversation\<close>

definition updateLastAssistantMessage :: "message list \<Rightarrow> (message \<Rightarrow> message) \<Rightarrow> message list" where
  "updateLastAssistantMessage ms updater =
    (if ms = [] then ms
     else if ms_from (last ms) \<noteq> RAssistant then ms
     else ms[length ms - 1 := updater (last ms)])"

definition updateAssistantMessageWithError ::
  "jsnum \<Rightarrow> message list \<Rightarrow> jsstring \<Rightarrow> jsstring option \<Rightarrow> jsstring \<Rightarrow> message list" where
  "updateAssistantMessageWithError end1 ms errorMessage errorCode title =
    updateLastAssistantMessage ms (\<lambda>m.
      completeAssistantTiming ((updateCurrentVersionContent m (title @ js '': '' @ errorMessage))
        \<lparr>ms_status := Some SError, ms_isReasoningStreaming := Some False,
         ms_errorCode := (if errorCode = Some [] then None else errorCode)\<rparr>) end1)"

definition appendUserMessagePair ::
  "jsnum \<Rightarrow> jsstring \<times> jsstring \<Rightarrow> jsstring \<times> jsstring \<Rightarrow> message list \<Rightarrow> jsstring \<Rightarrow> jsstring list option \<Rightarrow> message list" where
  "appendUserMessagePair submittedAt ids1 ids2 ms content images =
    ms @ [createUserMessage (fst ids1) (snd ids1) content submittedAt images,
      createLoadingAssistantMessage (fst ids2) (snd ids2) submittedAt]"

fun find_key :: "jsstring \<Rightarrow> message list \<Rightarrow> nat option" where
  "find_key key [] = None"
| "find_key key (m # ms) = (if ms_key m = key then Some 0 else map_option Suc (find_key key ms))"

definition createRegeneratedMessages :: "jsnum \<Rightarrow> jsstring \<times> jsstring \<Rightarrow> message list \<Rightarrow> jsstring \<Rightarrow> message list option" where
  "createRegeneratedMessages now ids ms messageKey =
    (case find_key messageKey ms of
       None \<Rightarrow> None
     | Some i \<Rightarrow>
         if ms_from (ms ! i) = RUser then Some (take (i + 1) ms @ [createLoadingAssistantMessage (fst ids) (snd ids) now])
         else Some (take i ms @ [createLoadingAssistantMessage (fst ids) (snd ids) now]))"

definition removeMessageByKey :: "message list \<Rightarrow> jsstring \<Rightarrow> message list" where
  "removeMessageByKey ms messageKey = filter (\<lambda>m. ms_key m \<noteq> messageKey) ms"

fun getPreviousUserMessage :: "message list \<Rightarrow> nat \<Rightarrow> message option" where
  "getPreviousUserMessage ms 0 = None"
| "getPreviousUserMessage ms (Suc i) = (if ms_from (ms ! i) = RUser then Some (ms ! i) else getPreviousUserMessage ms i)"

definition applyMessageEdit ::
  "jsnum \<Rightarrow> jsstring \<times> jsstring \<Rightarrow> message list \<Rightarrow> jsstring \<Rightarrow> jsstring \<Rightarrow> bool \<Rightarrow> (message list \<times> bool) option" where
  "applyMessageEdit submittedAt ids ms messageKey content shouldSubmit =
    (case find_key messageKey ms of
       None \<Rightarrow> None
     | Some i \<Rightarrow>
         let updated = map (\<lambda>m. if ms_key m = messageKey
               then (updateCurrentVersionContent m content)\<lparr>ms_createdAt := (if shouldSubmit then Some submittedAt else ms_createdAt m)\<rparr>
               else m) ms
         in if \<not> shouldSubmit \<or> ms_from (updated ! i) \<noteq> RUser then Some (updated, False)
            else Some (take (i + 1) updated @ [createLoadingAssistantMessage (fst ids) (snd ids) submittedAt], True))"

definition getEditingMessageContent :: "message list \<Rightarrow> jsstring option \<Rightarrow> jsstring" where
  "getEditingMessageContent ms editingKey =
    (case editingKey of
       None \<Rightarrow> []
     | Some key \<Rightarrow> if key = [] then [] else (case find (\<lambda>m. ms_key m = key) ms of Some m \<Rightarrow> getMessageContent m | None \<Rightarrow> []))"

record render_state =
  rd_alwaysShowActions :: bool
  rd_content :: jsstring
  rd_isEditing :: bool

definition getChatMessageRenderState :: "message list \<Rightarrow> message \<Rightarrow> nat \<Rightarrow> jsstring option \<Rightarrow> render_state" where
  "getChatMessageRenderState ms m messageIndex editingKey =
    \<lparr>rd_alwaysShowActions = (messageIndex + 1 = length ms \<and> ms_from m = RAssistant), rd_content = getMessageContent m,
     rd_isEditing = (editingKey = Some (ms_key m))\<rparr>"

end
