(* ===== verification/ChatStream.thy ===== *)
theory ChatStream
  imports Chat JsJson
begin

section \<open>Requests of the playground\<close>

text \<open>
  Model of \<^verbatim>\<open>web/src/features/playground/hooks/use-stream-request.ts\<close> (the controller of event streams),
  \<^verbatim>\<open>web/src/features/playground/hooks/use-chat-handler.ts\<close> (the handler that turns stream events into updates of the messages) and
  \<^verbatim>\<open>web/src/features/playground/lib/streaming\<close>. Both keep a counter of requests, by which callbacks of earlier requests
  recognise that they are late. The state \<open>chat\<close> holds the mutable references of both, the requests under way, and the
  updates of the message list that React has queued; each event runs one uninterrupted piece of the program. Readings of the clock
  by a queued update come from the argument \<open>clk\<close>; \<open>t\<close> is the translation.
\<close>

subsection \<open>Messages of a stream\<close>

definition API_REQUEST_ERROR :: jsstring where
  "API_REQUEST_ERROR = js ''Request error occurred''"

definition PARSE_ERROR :: jsstring where
  "PARSE_ERROR = js ''Error parsing response data''"

definition STREAM_START_ERROR :: jsstring where
  "STREAM_START_ERROR = js ''Error establishing connection''"

definition CONNECTION_CLOSED :: jsstring where
  "CONNECTION_CLOSED = js ''Connection closed''"

definition known_errors :: "jsstring list" where
  "known_errors = [API_REQUEST_ERROR, js ''Network connection failed or server not responding'', PARSE_ERROR,
     STREAM_START_ERROR, CONNECTION_CLOSED, js ''Generation was interrupted'']"

text \<open>A text property that is present and not empty; the interface gives it no other type.\<close>

fun text_field :: "jsval \<Rightarrow> jsstring option" where
  "text_field (VStr s) = (if s = [] then None else Some s)"
| "text_field v = None"

definition parseStreamErrorDetails :: "jsstring option \<Rightarrow> jsstring \<times> jsstring option" where
  "parseStreamErrorDetails data =
    (case data of
       None \<Rightarrow> (API_REQUEST_ERROR, None)
     | Some d \<Rightarrow>
         if d = [] then (API_REQUEST_ERROR, None)
         else case json_parse d of
           None \<Rightarrow> (d, None)
         | Some parsed \<Rightarrow>
             (case text_field (prop_of (prop_of parsed ''error'') ''message'') of Some s \<Rightarrow> s | None \<Rightarrow> d,
              text_field (prop_of (prop_of parsed ''error'') ''code'')))"

text \<open>\<open>choices?.[0]\<close>: the first element of an array.\<close>

fun first_element :: "jsval \<Rightarrow> jsval" where
  "first_element (VArr (x # xs)) = x"
| "first_element (VObj o1) = prop_of (VObj o1) ''0''"
| "first_element v = VUndefined"

text \<open>\<open>None\<close> when it throws: the text is not JSON, or it is null.\<close>

definition parseStreamMessageUpdates :: "jsstring \<Rightarrow> (chunk_type \<times> jsstring) list option" where
  "parseStreamMessageUpdates data =
    (case json_parse data of
       None \<Rightarrow> None
     | Some VNull \<Rightarrow> None
     | Some c \<Rightarrow>
         let delta = prop_of (first_element (prop_of c ''choices'')) ''delta''
         in Some ((case text_field (prop_of delta ''reasoning_content'') of Some s \<Rightarrow> [(ReasoningChunk, s)] | None \<Rightarrow> [])
              @ (case text_field (prop_of delta ''content'') of Some s \<Rightarrow> [(ContentChunk, s)] | None \<Rightarrow> [])))"

definition isStreamDoneMessage :: "jsstring \<Rightarrow> bool" where
  "isStreamDoneMessage data \<longleftrightarrow> data = js ''[DONE]''"

definition getStreamReadyStateError :: "jsnum option \<Rightarrow> jsnum option \<Rightarrow> jsstring option" where
  "getStreamReadyStateError eventReadyState status =
    (case (eventReadyState, status) of
       (Some st, Some code) \<Rightarrow>
         if js_le (Fin 2) st \<and> \<not> js_num_eq code (Fin 200)
         then Some (js ''HTTP '' @ js_String_num code @ js '': '' @ CONNECTION_CLOSED) else None
     | _ \<Rightarrow> None)"

subsection \<open>State\<close>

text \<open>Updates of the message list, with the request they belong to.\<close>

datatype message_update =
    ReplaceMessages "message list"
  | FlushChunks nat jsstring jsstring
  | CompleteAnswer nat
  | FailAnswer nat jsstring "jsstring option"
  | SetAnswer nat "choice list"
  | SettleStopped nat

record pending_chunks =
  pc_generation :: nat
  pc_reasoning :: jsstring
  pc_content :: jsstring

text \<open>An event source, with the request of the controller and the request of the handler that its callbacks belong to.\<close>

record stream_source =
  so_request :: nat
  so_handler :: nat
  so_completed :: bool
  so_closed :: bool

text \<open>
  \<open>ch_waiting\<close> are the calls of \<open>send\<close> that wait for their headers (request of the controller, request of the handler),
  \<open>ch_answers\<close> the plain requests (request of the handler, whether aborted; \<open>None\<close> when it has returned), \<open>ch_abort\<close> the position of the one that
  can be aborted, \<open>ch_sources\<close> all event sources created so far, \<open>ch_source\<close> the active one.
\<close>

record chat =
  ch_messages :: "message list"
  ch_updates :: "message_update list"
  ch_generation :: nat
  ch_pending :: pending_chunks
  ch_timer :: "nat option"
  ch_requesting :: bool
  ch_abort :: "nat option"
  ch_answers :: "(nat \<times> bool) option list"
  ch_streaming :: bool
  ch_controller :: nat
  ch_source :: "nat option"
  ch_sources :: "stream_source list"
  ch_waiting :: "(nat \<times> nat) list"

definition initial_chat :: "message list \<Rightarrow> chat" where
  "initial_chat ms = \<lparr>ch_messages = ms, ch_updates = [], ch_generation = 0,
     ch_pending = \<lparr>pc_generation = 0, pc_reasoning = [], pc_content = []\<rparr>, ch_timer = None, ch_requesting = False, ch_abort = None,
     ch_answers = [], ch_streaming = False, ch_controller = 0, ch_source = None, ch_sources = [], ch_waiting = []\<rparr>"

definition queue_update :: "message_update \<Rightarrow> chat \<Rightarrow> chat" where
  "queue_update u c = c\<lparr>ch_updates := ch_updates c @ [u]\<rparr>"

subsection \<open>The handler\<close>

definition mergePendingStreamChunk :: "jsstring \<Rightarrow> jsstring \<Rightarrow> jsstring" where
  "mergePendingStreamChunk currentChunk nextChunk =
    (if currentChunk = [] \<or> \<not> js_startsWith nextChunk currentChunk then currentChunk @ nextChunk else nextChunk)"

definition discardPendingStreamUpdates :: "nat \<Rightarrow> chat \<Rightarrow> chat" where
  "discardPendingStreamUpdates generation c =
    c\<lparr>ch_timer := None, ch_pending := \<lparr>pc_generation = generation, pc_reasoning = [], pc_content = []\<rparr>\<rparr>"

definition flushStreamUpdates :: "nat \<Rightarrow> chat \<Rightarrow> chat" where
  "flushStreamUpdates generation c =
    (if generation \<noteq> ch_generation c then c
     else
       let c1 = c\<lparr>ch_timer := None\<rparr>; p = ch_pending c in
       if pc_generation p \<noteq> generation then c1
       else if pc_reasoning p = [] \<and> pc_content p = [] then c1
       else queue_update (FlushChunks generation (pc_reasoning p) (pc_content p))
         (c1\<lparr>ch_pending := \<lparr>pc_generation = generation, pc_reasoning = [], pc_content = []\<rparr>\<rparr>))"

definition scheduleStreamFlush :: "nat \<Rightarrow> chat \<Rightarrow> chat" where
  "scheduleStreamFlush generation c =
    (if generation \<noteq> ch_generation c then c
     else if ch_timer c \<noteq> None then c
     else c\<lparr>ch_timer := Some generation\<rparr>)"

fun merge_chunk :: "chunk_type \<Rightarrow> jsstring \<Rightarrow> pending_chunks \<Rightarrow> pending_chunks" where
  "merge_chunk ReasoningChunk chunk p = p\<lparr>pc_reasoning := mergePendingStreamChunk (pc_reasoning p) chunk\<rparr>"
| "merge_chunk ContentChunk chunk p = p\<lparr>pc_content := mergePendingStreamChunk (pc_content p) chunk\<rparr>"

definition handleStreamUpdate :: "nat \<Rightarrow> chunk_type \<times> jsstring \<Rightarrow> chat \<Rightarrow> chat" where
  "handleStreamUpdate generation update c =
    (if generation \<noteq> ch_generation c then c
     else if pc_generation (ch_pending c) \<noteq> generation then c
     else scheduleStreamFlush generation (c\<lparr>ch_pending := merge_chunk (fst update) (snd update) (ch_pending c)\<rparr>))"

definition handleStreamComplete :: "nat \<Rightarrow> chat \<Rightarrow> chat" where
  "handleStreamComplete generation c =
    (if generation \<noteq> ch_generation c then c
     else queue_update (CompleteAnswer generation) ((flushStreamUpdates generation c)\<lparr>ch_requesting := False\<rparr>))"

definition js_endsWith :: "jsstring \<Rightarrow> jsstring \<Rightarrow> bool" where
  "js_endsWith s p \<longleftrightarrow> length p \<le> length s \<and> drop (length s - length p) s = p"

definition getDisplayError :: "(jsstring \<Rightarrow> jsstring) \<Rightarrow> jsstring \<Rightarrow> jsstring" where
  "getDisplayError t error =
    (if error \<in> set known_errors then t error
     else if js_endsWith error (js '': '' @ CONNECTION_CLOSED)
     then take (length error - length CONNECTION_CLOSED) error @ t CONNECTION_CLOSED
     else error)"

text \<open>The message that \<open>handleServerError\<close> shows is not part of the state.\<close>

definition handleStreamError :: "(jsstring \<Rightarrow> jsstring) \<Rightarrow> nat \<Rightarrow> jsstring \<Rightarrow> jsstring option \<Rightarrow> chat \<Rightarrow> chat" where
  "handleStreamError t generation error errorCode c =
    (if generation \<noteq> ch_generation c then c
     else queue_update (FailAnswer generation (getDisplayError t error) errorCode)
       ((flushStreamUpdates generation c)\<lparr>ch_requesting := False\<rparr>))"

subsection \<open>The controller\<close>

definition update_source :: "nat \<Rightarrow> (stream_source \<Rightarrow> stream_source) \<Rightarrow> chat \<Rightarrow> chat" where
  "update_source i f c =
    (if i < length (ch_sources c) then c\<lparr>ch_sources := (ch_sources c)[i := f (ch_sources c ! i)]\<rparr> else c)"

definition close_source :: "nat \<Rightarrow> chat \<Rightarrow> chat" where
  "close_source i c = update_source i (\<lambda>s. s\<lparr>so_closed := True\<rparr>) c"

text \<open>The active source is detached and closed.\<close>

definition drop_source :: "chat \<Rightarrow> chat" where
  "drop_source c = (case ch_source c of None \<Rightarrow> c | Some i \<Rightarrow> close_source i (c\<lparr>ch_source := None\<rparr>))"

definition closeActiveSource :: "nat \<Rightarrow> chat \<Rightarrow> chat" where
  "closeActiveSource i c =
    (let c1 = close_source i c in
     if ch_source c1 = Some i then c1\<lparr>ch_source := None, ch_streaming := False\<rparr> else c1)"

definition isCurrent :: "nat \<Rightarrow> chat \<Rightarrow> bool" where
  "isCurrent i c \<longleftrightarrow> i < length (ch_sources c) \<and> ch_controller c = so_request (ch_sources c ! i) \<and> ch_source c = Some i"

definition listening :: "nat \<Rightarrow> chat \<Rightarrow> bool" where
  "listening i c \<longleftrightarrow> isCurrent i c \<and> \<not> so_completed (ch_sources c ! i)"

definition handleError :: "(jsstring \<Rightarrow> jsstring) \<Rightarrow> nat \<Rightarrow> jsstring \<Rightarrow> jsstring option \<Rightarrow> chat \<Rightarrow> chat" where
  "handleError t i errorMessage errorCode c =
    (if \<not> listening i c then c
     else closeActiveSource i (handleStreamError t (so_handler (ch_sources c ! i)) errorMessage errorCode
       (update_source i (\<lambda>s. s\<lparr>so_completed := True\<rparr>) c)))"

text \<open>\<open>send\<close> up to the wait for the headers.\<close>

definition send_call :: "nat \<Rightarrow> chat \<Rightarrow> chat" where
  "send_call handler c =
    (let requestGeneration = ch_controller c + 1;
         c1 = drop_source (c\<lparr>ch_controller := requestGeneration\<rparr>)
     in c1\<lparr>ch_streaming := False, ch_waiting := ch_waiting c1 @ [(requestGeneration, handler)]\<rparr>)"

text \<open>
  \<open>send\<close> from the headers on: refused headers with the message of the error, if it is one; otherwise \<open>started\<close> says whether the
  call of \<open>stream\<close> returned.
\<close>

definition send_refused :: "(jsstring \<Rightarrow> jsstring) \<Rightarrow> nat \<times> nat \<Rightarrow> jsstring option \<Rightarrow> chat \<Rightarrow> chat" where
  "send_refused t w error c =
    (if ch_controller c \<noteq> fst w then c
     else handleStreamError t (snd w) (case error of Some s \<Rightarrow> s | None \<Rightarrow> STREAM_START_ERROR) None c)"

definition send_open :: "(jsstring \<Rightarrow> jsstring) \<Rightarrow> nat \<times> nat \<Rightarrow> bool \<Rightarrow> chat \<Rightarrow> chat" where
  "send_open t w started c =
    (if ch_controller c \<noteq> fst w then c
     else
       let i = length (ch_sources c);
           c1 = c\<lparr>ch_sources := ch_sources c @ [\<lparr>so_request = fst w, so_handler = snd w, so_completed = False, so_closed = False\<rparr>],
             ch_source := Some i, ch_streaming := True\<rparr>
       in if started then c1 else handleError t i STREAM_START_ERROR None c1)"

definition cancel :: "bool \<Rightarrow> chat \<Rightarrow> chat" where
  "cancel notify c =
    (let c1 = drop_source (c\<lparr>ch_controller := ch_controller c + 1\<rparr>)
     in if notify then c1\<lparr>ch_streaming := False\<rparr> else c1)"

definition on_message :: "(jsstring \<Rightarrow> jsstring) \<Rightarrow> nat \<Rightarrow> jsstring option \<Rightarrow> chat \<Rightarrow> chat" where
  "on_message t i event_data c =
    (if \<not> listening i c then c
     else
       let data = (case event_data of Some d \<Rightarrow> d | None \<Rightarrow> []); h = so_handler (ch_sources c ! i) in
       if isStreamDoneMessage data
       then handleStreamComplete h (closeActiveSource i (update_source i (\<lambda>s. s\<lparr>so_completed := True\<rparr>) c))
       else case parseStreamMessageUpdates data of
         None \<Rightarrow> handleError t i PARSE_ERROR None c
       | Some updates \<Rightarrow> fold (handleStreamUpdate h) updates c)"

definition on_error :: "(jsstring \<Rightarrow> jsstring) \<Rightarrow> nat \<Rightarrow> jsnum option \<Rightarrow> jsstring option \<Rightarrow> chat \<Rightarrow> chat" where
  "on_error t i readyState event_data c =
    (if \<not> listening i c then c
     else if readyState = Some (Fin 2) then c
     else handleError t i (fst (parseStreamErrorDetails event_data)) (snd (parseStreamErrorDetails event_data)) c)"

definition on_readystatechange :: "(jsstring \<Rightarrow> jsstring) \<Rightarrow> nat \<Rightarrow> jsnum option \<Rightarrow> jsnum option \<Rightarrow> chat \<Rightarrow> chat" where
  "on_readystatechange t i eventReadyState status c =
    (if \<not> listening i c then c
     else case getStreamReadyStateError eventReadyState status of
       None \<Rightarrow> c
     | Some s \<Rightarrow> if s = [] then c else handleError t i s None c)"

subsection \<open>Sending and stopping\<close>

definition abort_answer :: "chat \<Rightarrow> chat" where
  "abort_answer c =
    (case ch_abort c of
       None \<Rightarrow> c
     | Some k \<Rightarrow> c\<lparr>ch_answers := (ch_answers c)[k := map_option (\<lambda>r. (fst r, True)) (ch_answers c ! k)], ch_abort := None\<rparr>)"

definition sendStreamingChat :: "chat \<Rightarrow> chat" where
  "sendStreamingChat c =
    (let generation = ch_generation c + 1;
         c1 = discardPendingStreamUpdates generation (abort_answer (c\<lparr>ch_generation := generation\<rparr>))
     in send_call generation (c1\<lparr>ch_requesting := True\<rparr>))"

definition sendNonStreamingChat :: "chat \<Rightarrow> chat" where
  "sendNonStreamingChat c =
    (let generation = ch_generation c + 1;
         c1 = abort_answer (discardPendingStreamUpdates generation (cancel True (c\<lparr>ch_generation := generation\<rparr>)))
     in c1\<lparr>ch_abort := Some (length (ch_answers c1)), ch_answers := ch_answers c1 @ [Some (generation, False)], ch_requesting := True\<rparr>)"

definition sendChat :: "bool \<Rightarrow> chat \<Rightarrow> chat" where
  "sendChat stream c = (if stream then sendStreamingChat c else sendNonStreamingChat c)"

text \<open>The end of a plain request: an answer, or an error with its message and code.\<close>

definition plain_finally :: "nat \<Rightarrow> chat \<Rightarrow> chat" where
  "plain_finally generation c =
    (if ch_generation c = generation then c\<lparr>ch_abort := None, ch_requesting := False\<rparr> else c)"

definition plain_return ::
  "(jsstring \<Rightarrow> jsstring) \<Rightarrow> nat \<times> bool \<Rightarrow> (jsstring \<times> jsstring option) + choice list \<Rightarrow> chat \<Rightarrow> chat" where
  "plain_return t request result c =
    (let generation = fst request in
     plain_finally generation
       (if snd request \<or> ch_generation c \<noteq> generation then c
        else case result of
          Inl (errorMessage, errorCode) \<Rightarrow> handleStreamError t generation errorMessage errorCode c
        | Inr choices \<Rightarrow>
            if \<not> hasChatCompletionChoice choices then handleStreamError t generation API_REQUEST_ERROR None c
            else queue_update (SetAnswer generation choices) c))"

definition stopGeneration :: "chat \<Rightarrow> chat" where
  "stopGeneration c =
    (let stoppedGeneration = ch_generation c;
         idleGeneration = stoppedGeneration + 1;
         c1 = (flushStreamUpdates stoppedGeneration c)\<lparr>ch_generation := idleGeneration\<rparr>;
         c2 = abort_answer (cancel True (discardPendingStreamUpdates idleGeneration c1))
     in queue_update (SettleStopped idleGeneration) (c2\<lparr>ch_requesting := False\<rparr>))"

text \<open>The clean-up of the two hooks when the page is left.\<close>

definition unmount :: "chat \<Rightarrow> chat" where
  "unmount c = abort_answer ((cancel False c)\<lparr>ch_generation := ch_generation c + 1, ch_timer := None\<rparr>)"

subsection \<open>Queued updates\<close>

definition flush_message :: "(nat \<Rightarrow> jsnum) \<Rightarrow> jsstring \<Rightarrow> jsstring \<Rightarrow> message \<Rightarrow> message" where
  "flush_message clk r s m =
    (let m1 = (if r \<noteq> [] then applyStreamingChunk (clk 0) (clk 1) m ReasoningChunk r else m)
     in if s \<noteq> [] then applyStreamingChunk (clk 2) (clk 3) m1 ContentChunk s else m1)"

definition guarded :: "nat \<Rightarrow> nat \<Rightarrow> message list \<Rightarrow> message list \<Rightarrow> message list" where
  "guarded generation now prev next_list = (if generation \<noteq> now then prev else next_list)"

fun apply_update :: "(jsstring \<Rightarrow> jsstring) \<Rightarrow> (nat \<Rightarrow> jsnum) \<Rightarrow> nat \<Rightarrow> message_update \<Rightarrow> message list \<Rightarrow> message list" where
  "apply_update t clk g (ReplaceMessages ms) prev = ms"
| "apply_update t clk g (FlushChunks n r s) prev = guarded n g prev (updateLastAssistantMessage prev (flush_message clk r s))"
| "apply_update t clk g (CompleteAnswer n) prev =
    guarded n g prev (updateLastAssistantMessage prev
      (\<lambda>m. if isAssistantMessageFinal m then m else completeAssistantMessage (clk 0) (clk 1) (clk 2) m))"
| "apply_update t clk g (FailAnswer n error code) prev =
    guarded n g prev (updateAssistantMessageWithError (clk 0) prev error code (t API_REQUEST_ERROR))"
| "apply_update t clk g (SetAnswer n choices) prev =
    guarded n g prev (updateLastAssistantMessage prev
      (\<lambda>m. case applyChatCompletionResponse (clk 0) (clk 1) (clk 2) m choices of Some m1 \<Rightarrow> m1 | None \<Rightarrow> m))"
| "apply_update t clk g (SettleStopped n) prev =
    guarded n g prev (updateLastAssistantMessage prev
      (\<lambda>m. if isAssistantMessagePending m then completeAssistantMessage (clk 0) (clk 1) (clk 2) m else m))"

subsection \<open>Events\<close>

datatype chat_event =
    UserUpdate "message list"
  | Send bool
  | Stop
  | Unmount
  | Headers nat "jsstring option + bool"
  | SourceMessage nat "jsstring option"
  | SourceError nat "jsnum option" "jsstring option"
  | SourceState nat "jsnum option" "jsnum option"
  | PlainReturn nat "(jsstring \<times> jsstring option) + choice list"
  | Timer
  | ApplyUpdate "nat \<Rightarrow> jsnum"

text \<open>What arrives from the network.\<close>

fun network :: "chat_event \<Rightarrow> bool" where
  "network (Headers k r) = True"
| "network (SourceMessage i d) = True"
| "network (SourceError i rs d) = True"
| "network (SourceState i rs st) = True"
| "network (PlainReturn k r) = True"
| "network e = False"

fun remove_at :: "nat \<Rightarrow> 'a list \<Rightarrow> 'a list" where
  "remove_at k xs = take k xs @ drop (Suc k) xs"

text \<open>Each wait for headers and each plain request ends once.\<close>

fun chat_step :: "(jsstring \<Rightarrow> jsstring) \<Rightarrow> chat_event \<Rightarrow> chat \<Rightarrow> chat option" where
  "chat_step t (UserUpdate ms) c = Some (queue_update (ReplaceMessages ms) c)"
| "chat_step t (Send stream) c = Some (sendChat stream c)"
| "chat_step t Stop c = Some (stopGeneration c)"
| "chat_step t Unmount c = Some (unmount c)"
| "chat_step t (Headers k r) c =
    (if k < length (ch_waiting c) then
       let w = ch_waiting c ! k; c1 = c\<lparr>ch_waiting := remove_at k (ch_waiting c)\<rparr>
       in Some (case r of Inl e \<Rightarrow> send_refused t w e c1 | Inr started \<Rightarrow> send_open t w started c1)
     else None)"
| "chat_step t (SourceMessage i d) c = (if i < length (ch_sources c) then Some (on_message t i d c) else None)"
| "chat_step t (SourceError i rs d) c = (if i < length (ch_sources c) then Some (on_error t i rs d c) else None)"
| "chat_step t (SourceState i rs st) c = (if i < length (ch_sources c) then Some (on_readystatechange t i rs st c) else None)"
| "chat_step t (PlainReturn k r) c =
    (if k < length (ch_answers c) then
       (case ch_answers c ! k of
          Some request \<Rightarrow> Some (plain_return t request r (c\<lparr>ch_answers := (ch_answers c)[k := None]\<rparr>))
        | None \<Rightarrow> None)
     else None)"
| "chat_step t Timer c = (case ch_timer c of Some g \<Rightarrow> Some (flushStreamUpdates g c) | None \<Rightarrow> None)"
| "chat_step t (ApplyUpdate clk) c =
    (case ch_updates c of
       u # us \<Rightarrow> Some (c\<lparr>ch_messages := apply_update t clk (ch_generation c) u (ch_messages c), ch_updates := us\<rparr>)
     | [] \<Rightarrow> None)"

inductive chat_reachable :: "(jsstring \<Rightarrow> jsstring) \<Rightarrow> chat \<Rightarrow> bool" for t where
  start: "chat_reachable t (initial_chat ms)"
| step: "chat_reachable t c \<Longrightarrow> chat_step t e c = Some c1 \<Longrightarrow> chat_reachable t c1"

fun chat_steps :: "(jsstring \<Rightarrow> jsstring) \<Rightarrow> chat_event list \<Rightarrow> chat \<Rightarrow> chat option" where
  "chat_steps t [] c = Some c"
| "chat_steps t (e # es) c = (case chat_step t e c of Some c1 \<Rightarrow> chat_steps t es c1 | None \<Rightarrow> None)"

end
