(* ===== verification/ChatLaws.thy ===== *)
theory ChatLaws
  imports Chat
begin

section \<open>Messages: tags, streaming and recovery\<close>

text \<open>
  The tag parser decomposes a text exactly (\<open>think_tags_decompose\<close>); an answer that arrives in chunks ends as
  the answer that arrives at once (\<open>streamed_equals_whole\<close>: the same visible text and status, and the same
  reasoning when the whole answer has some), as long as no chunk starts with all the text before it; the two
  exceptions are theorems too (\<open>stream_defects\<close>).
\<close>

subsection \<open>Searching\<close>

lemma startsWith_append [simp]: "js_startsWith (sub @ s) sub"
  by (simp add: js_startsWith_def)

lemma startsWith_iff: "js_startsWith s p \<longleftrightarrow> (\<exists>t. s = p @ t)"
  unfolding js_startsWith_def by (metis append_eq_conv_conj append_take_drop_id)

lemma index_in_None: "index_in s sub = None \<longleftrightarrow> \<not> js_includes s sub"
  by (induction s) auto

lemma index_in_Some:
  "index_in s sub = Some i \<Longrightarrow> \<exists>a b. s = a @ sub @ b \<and> length a = i \<and> (sub \<noteq> [] \<longrightarrow> \<not> js_includes a sub)"
proof (induction s arbitrary: i)
  case (Cons c s)
  show ?case
  proof (cases "js_startsWith (c # s) sub")
    case True
    then obtain t where t: "c # s = sub @ t" by (auto simp: startsWith_iff)
    moreover have "i = 0" using True Cons.prems by simp
    ultimately show ?thesis by (intro exI [of _ "[]"] exI [of _ t]) simp
  next
    case False
    with Cons.prems obtain j where j: "i = Suc j" "index_in s sub = Some j" by auto
    from Cons.IH [OF j(2)] obtain a b where ab: "s = a @ sub @ b" "length a = j" "sub \<noteq> [] \<longrightarrow> \<not> js_includes a sub" by blast
    moreover have "\<not> js_startsWith (c # a) sub" using False ab(1) by (metis append_Cons append_assoc startsWith_iff)
    ultimately show ?thesis using j by (intro exI [of _ "c # a"] exI [of _ b]) simp
  qed
qed (auto split: if_splits)

lemma js_indexOf_None: "js_indexOf s sub p = None \<longleftrightarrow> \<not> js_includes (drop p s) sub"
  by (simp add: js_indexOf_def index_in_None)

lemma js_indexOf_Some:
  assumes "js_indexOf s sub p = Some i" and "sub \<noteq> []"
  obtains b where "drop p s = js_slice s p i @ sub @ b" and "\<not> js_includes (js_slice s p i) sub"
    and "p \<le> i" and "drop (i + length sub) s = b"
proof -
  obtain j where j: "i = p + j" "index_in (drop p s) sub = Some j" using assms(1) by (auto simp: js_indexOf_def)
  obtain a b where ab: "drop p s = a @ sub @ b" "length a = j" "\<not> js_includes a sub"
    using index_in_Some [OF j(2)] assms(2) by blast
  have a: "js_slice s p i = a" using j ab by (simp add: js_slice_def)
  have "drop (i + length sub) s = drop (j + length sub) (drop p s)" using j by (simp add: add.commute add.left_commute)
  also have "\<dots> = b" unfolding ab(1) using ab(2) by simp
  finally show ?thesis using that [of b] ab a j by simp
qed

subsection \<open>Tagged texts\<close>

text \<open>
  A tagged text: blocks of visible text and closed reasoning, a visible rest and perhaps reasoning that is still open.
\<close>

fun assemble :: "(jsstring \<times> jsstring) list \<Rightarrow> jsstring \<Rightarrow> jsstring option \<Rightarrow> jsstring" where
  "assemble [] rest unclosed = rest @ (case unclosed of None \<Rightarrow> [] | Some r \<Rightarrow> open_tag @ r)"
| "assemble ((v, r) # blocks) rest unclosed = v @ open_tag @ r @ close_tag @ assemble blocks rest unclosed"

definition well_tagged :: "(jsstring \<times> jsstring) list \<Rightarrow> jsstring \<Rightarrow> jsstring option \<Rightarrow> bool" where
  "well_tagged blocks rest unclosed \<longleftrightarrow>
     list_all (\<lambda>(v, r). \<not> js_includes v open_tag \<and> \<not> js_includes r close_tag) blocks \<and> \<not> js_includes rest open_tag
     \<and> (case unclosed of None \<Rightarrow> True | Some r \<Rightarrow> \<not> js_includes r close_tag)"

lemma tag_lengths [simp]: "length open_tag = 7" "length close_tag = 8" "open_tag \<noteq> []" "close_tag \<noteq> []"
  by (simp_all add: open_tag_def close_tag_def js_def)

lemma join_empty [simp]: "js_join xs [] = concat xs"
  by (induction xs "[] :: jsstring" rule: js_join.induct) simp_all

lemma think_loop_spec:
  "\<exists>blocks rest unclosed ws. drop pos content = assemble blocks rest unclosed \<and> well_tagged blocks rest unclosed
     \<and> think_loop content pos vs rs = (vs @ ws, rs @ map snd blocks @ (case unclosed of None \<Rightarrow> [] | Some r \<Rightarrow> [r]), unclosed \<noteq> None)
     \<and> concat ws = concat (map fst blocks) @ rest"
proof (induction content pos vs rs rule: think_loop.induct)
  case (1 content pos vs rs)
  show ?case
  proof (cases "js_indexOf content open_tag pos")
    case None
    let ?ws = "if pos < length content then [drop pos content] else []"
    have "think_loop content pos vs rs = (vs @ ?ws, rs, False)" using None by (simp add: think_loop.simps [of content pos])
    moreover have "concat ?ws = drop pos content" by simp
    moreover have "\<not> js_includes (drop pos content) open_tag" using None by (simp add: js_indexOf_None)
    ultimately show ?thesis
      by (intro exI [of _ "[]"] exI [of _ "drop pos content"] exI [of _ None] exI [of _ ?ws]) (simp add: well_tagged_def)
  next
    case (Some o1)
    then obtain b where o1: "drop pos content = js_slice content pos o1 @ open_tag @ b" "\<not> js_includes (js_slice content pos o1) open_tag"
      "pos \<le> o1" "drop (o1 + 7) content = b"
      using js_indexOf_Some [OF Some] by (metis tag_lengths(1,3))
    define w where "w = (if o1 > pos then [js_slice content pos o1] else [])"
    have w: "concat w = js_slice content pos o1" using o1(3) by (simp add: w_def js_slice_def)
    show ?thesis
    proof (cases "js_indexOf content close_tag (o1 + 7)")
      case None
      then have "\<not> js_includes b close_tag" using o1(4) by (simp add: js_indexOf_None)
      with Some None o1 w show ?thesis
        by (intro exI [of _ "[]"] exI [of _ "js_slice content pos o1"] exI [of _ "Some b"] exI [of _ w])
          (simp add: think_loop.simps [of content pos] well_tagged_def w_def)
    next
      case (Some c1)
      note oeq = \<open>js_indexOf content open_tag pos = Some o1\<close>
      obtain d where c1: "b = js_slice content (o1 + 7) c1 @ close_tag @ d"
        "\<not> js_includes (js_slice content (o1 + 7) c1) close_tag" "drop (c1 + 8) content = d"
        using js_indexOf_Some [OF Some] o1(4) by (metis tag_lengths(2,4))
      let ?r = "js_slice content (o1 + 7) c1" and ?v = "js_slice content pos o1"
      from 1 [OF oeq refl Some] obtain blocks rest unclosed ws where ih: "d = assemble blocks rest unclosed"
        "well_tagged blocks rest unclosed" "concat ws = concat (map fst blocks) @ rest"
        "think_loop content (c1 + 8) (vs @ w) (rs @ [?r]) =
          ((vs @ w) @ ws, (rs @ [?r]) @ map snd blocks @ (case unclosed of None \<Rightarrow> [] | Some r \<Rightarrow> [r]), unclosed \<noteq> None)"
        unfolding w_def [symmetric] c1(3) by blast
      have "think_loop content pos vs rs = think_loop content (c1 + 8) (vs @ w) (rs @ [?r])"
        by (simp add: think_loop.simps [of content pos] oeq Some w_def)
      then show ?thesis using ih o1 c1 w
        by (intro exI [of _ "(?v, ?r) # blocks"] exI [of _ rest] exI [of _ unclosed] exI [of _ "w @ ws"])
          (simp add: well_tagged_def)
    qed
  qed
qed

definition reasoning_parts :: "(jsstring \<times> jsstring) list \<Rightarrow> jsstring option \<Rightarrow> jsstring list" where
  "reasoning_parts blocks unclosed = map snd blocks @ (case unclosed of None \<Rightarrow> [] | Some r \<Rightarrow> [r])"

lemma parse_tagged:
  assumes "js_includes content open_tag"
  shows "\<exists>blocks rest unclosed. content = assemble blocks rest unclosed \<and> well_tagged blocks rest unclosed
    \<and> parseThinkTags content =
       \<lparr>pt_visibleContent = js_trim (concat (map fst blocks) @ rest),
        pt_reasoning = js_trim (js_join (reasoning_parts blocks unclosed) [10, 10]),
        pt_hasUnclosedTag = (unclosed \<noteq> None)\<rparr>"
proof -
  obtain blocks rest unclosed ws where "drop 0 content = assemble blocks rest unclosed" "well_tagged blocks rest unclosed"
    "think_loop content 0 [] [] = ([] @ ws, [] @ map snd blocks @ (case unclosed of None \<Rightarrow> [] | Some r \<Rightarrow> [r]), unclosed \<noteq> None)"
    "concat ws = concat (map fst blocks) @ rest"
    using think_loop_spec [of 0 content "[]" "[]"] by blast
  with assms show ?thesis
    by (intro exI [of _ blocks] exI [of _ rest] exI [of _ unclosed]) (simp add: parseThinkTags_def reasoning_parts_def)
qed

subsection \<open>Streaming a text\<close>

text \<open>No chunk starts with all that came before it.\<close>

fun fresh_chunks :: "jsstring \<Rightarrow> jsstring list \<Rightarrow> bool" where
  "fresh_chunks sofar [] = True"
| "fresh_chunks sofar (c # cs) = ((sofar = [] \<or> \<not> js_startsWith c sofar) \<and> fresh_chunks (sofar @ c) cs)"

text \<open>The chunks of an answer with the two readings of the clock at each of them.\<close>

definition stream_content :: "(jsnum \<times> jsnum \<times> jsstring) list \<Rightarrow> message \<Rightarrow> message" where
  "stream_content = fold (\<lambda>(now, later, chunk) m. applyStreamingChunk now later m ContentChunk chunk)"

lemma content_update [simp]:
  "getMessageContent (updateCurrentVersionContent m s) = s"
  "getMessageContent (m\<lparr>ms_status := st\<rparr>) = getMessageContent m"
  "getMessageContent (m\<lparr>ms_reasoning := r\<rparr>) = getMessageContent m"
  "getMessageContent (m\<lparr>ms_isReasoningStreaming := b\<rparr>) = getMessageContent m"
  by (simp_all add: getMessageContent_def updateCurrentVersionContent_def getCurrentVersion_def)

lemma content_timing [simp]:
  "getMessageContent (completeReasoningTiming m t) = getMessageContent m"
  "getMessageContent (completeAssistantTiming m t) = getMessageContent m"
  by (simp_all add: completeReasoningTiming_def completeAssistantTiming_def getMessageContent_def getCurrentVersion_def Let_def
      split: option.split)

lemma reasoning_timing [simp]:
  "reasoning_text (completeReasoningTiming m t) = reasoning_text m"
  "reasoning_text (completeAssistantTiming m t) = reasoning_text m"
  "reasoning_text (m\<lparr>ms_status := st\<rparr>) = reasoning_text m"
  "reasoning_text (m\<lparr>ms_isReasoningStreaming := b\<rparr>) = reasoning_text m"
  "reasoning_text (updateCurrentVersionContent m s) = reasoning_text m"
  by (simp_all add: completeReasoningTiming_def completeAssistantTiming_def reasoning_text_def updateCurrentVersionContent_def Let_def
      split: option.split)

lemma process_content: "getMessageContent (processStreamingContent now m c) = getMessageContent m @ c"
  by (simp add: processStreamingContent_def Let_def)

lemma process_reasoning:
  "reasoning_text (processStreamingContent now m c) =
    (if pt_reasoning (parseThinkTags (getMessageContent m @ c)) \<noteq> [] then pt_reasoning (parseThinkTags (getMessageContent m @ c))
     else reasoning_text m)"
  by (simp add: processStreamingContent_def Let_def parseThinkTags_def) (simp add: reasoning_text_def)

lemma chunk_content:
  assumes "ms_status m \<noteq> Some SError"
  shows "getMessageContent (applyStreamingChunk now later m ContentChunk c)
    = getMessageContent m @ getAppendableChunk (getMessageContent m) c"
    and "reasoning_text (applyStreamingChunk now later m ContentChunk c)
      = reasoning_text (processStreamingContent now m (getAppendableChunk (getMessageContent m) c))"
    and "ms_status (applyStreamingChunk now later m ContentChunk c) = Some SStreaming"
  using assms by (simp_all add: applyStreamingChunk_def process_content Let_def)

lemma stream_content_spec:
  assumes "ms_status m \<noteq> Some SError" and "fresh_chunks (getMessageContent m) (map (snd \<circ> snd) chunks)"
  shows "getMessageContent (stream_content chunks m) = getMessageContent m @ concat (map (snd \<circ> snd) chunks)
    \<and> ms_status (stream_content chunks m) \<noteq> Some SError
    \<and> (chunks \<noteq> [] \<longrightarrow> pt_reasoning (parseThinkTags (getMessageContent (stream_content chunks m))) \<noteq> [] \<longrightarrow>
        reasoning_text (stream_content chunks m) = pt_reasoning (parseThinkTags (getMessageContent (stream_content chunks m))))"
  using assms
proof (induction chunks arbitrary: m)
  case (Cons x chunks)
  obtain now later c where x: "x = (now, later, c)" by (cases x)
  let ?m = "applyStreamingChunk now later m ContentChunk c"
  note chunk = chunk_content [OF Cons.prems(1), of now later c]
  have app: "getAppendableChunk (getMessageContent m) c = c" using Cons.prems(2) x by (auto simp: getAppendableChunk_def)
  have step: "stream_content (x # chunks) m = stream_content chunks ?m" by (simp add: stream_content_def x)
  have ih: "getMessageContent (stream_content chunks ?m) = getMessageContent ?m @ concat (map (snd \<circ> snd) chunks)
    \<and> ms_status (stream_content chunks ?m) \<noteq> Some SError
    \<and> (chunks \<noteq> [] \<longrightarrow> pt_reasoning (parseThinkTags (getMessageContent (stream_content chunks ?m))) \<noteq> [] \<longrightarrow>
        reasoning_text (stream_content chunks ?m) = pt_reasoning (parseThinkTags (getMessageContent (stream_content chunks ?m))))"
    by (rule Cons.IH) (use Cons.prems x chunk app in auto)
  show ?case
  proof (cases "chunks = []")
    case True
    then show ?thesis using chunk app x step by (simp add: stream_content_def process_reasoning)
  next
    case False
    then show ?thesis using ih chunk app x unfolding step by (simp add: comp_def)
  qed
qed (simp add: stream_content_def)

lemma finalize_content:
  "getMessageContent (finalizeMessage now later m api) = pt_visibleContent (parseThinkTags (getMessageContent m))"
  by (simp add: finalizeMessage_def Let_def parseThinkTags_def)

lemma finalize_reasoning:
  "reasoning_text (finalizeMessage now later m None)
    = text_or (reasoning_text m) (pt_reasoning (parseThinkTags (getMessageContent m)))"
  by (simp add: finalizeMessage_def Let_def text_or_def parseThinkTags_def) (simp add: reasoning_text_def)

lemma finalize_frame [simp]:
  "ms_status (completeAssistantTiming m t) = ms_status m" "ms_status (completeReasoningTiming m t) = ms_status m"
  "ms_from (completeAssistantTiming m t) = ms_from m" "ms_from (completeReasoningTiming m t) = ms_from m"
  "ms_from (updateCurrentVersionContent m s) = ms_from m" "ms_from (finalizeMessage now later m api) = ms_from m"
  by (simp_all add: completeAssistantTiming_def completeReasoningTiming_def updateCurrentVersionContent_def finalizeMessage_def Let_def
      split: option.split)

lemma completed_message:
  "getMessageContent (completeAssistantMessage now later end1 m) = pt_visibleContent (parseThinkTags (getMessageContent m))"
  "reasoning_text (completeAssistantMessage now later end1 m)
     = text_or (reasoning_text m) (pt_reasoning (parseThinkTags (getMessageContent m)))"
  "ms_status (completeAssistantMessage now later end1 m) = Some SComplete"
  by (simp_all add: completeAssistantMessage_def finalize_content finalize_reasoning)

lemma answered_message:
  "getMessageContent (applyChatCompletionChoice now later end1 m (Some (Some s, None))) = pt_visibleContent (parseThinkTags s)"
  "reasoning_text (applyChatCompletionChoice now later end1 m (Some (Some s, None))) = text_or (reasoning_text m) (pt_reasoning (parseThinkTags s))"
  "ms_status (applyChatCompletionChoice now later end1 m (Some (Some s, None))) = Some SComplete"
  by (simp_all add: applyChatCompletionChoice_def finalize_content finalize_reasoning)

lemma loading_message [simp]:
  "getMessageContent (createLoadingAssistantMessage key nanoid t) = []" "reasoning_text (createLoadingAssistantMessage key nanoid t) = []"
  "ms_status (createLoadingAssistantMessage key nanoid t) = Some SLoading"
  by (simp_all add: createLoadingAssistantMessage_def getMessageContent_def getCurrentVersion_def createMessageVersion_def reasoning_text_def)

subsection \<open>Properties of messages\<close>

text \<open>
  The tag parser decomposes every text. The text is a sequence of visible pieces without an opening tag and closed
  pieces of reasoning without a closing tag, a visible rest, and perhaps reasoning that is still open; the visible
  content is the trimmed concatenation of the visible pieces, the reasoning is made of the pieces of
  reasoning, and a text without a tag is left alone.
\<close>

theorem think_tags_decompose:
  "\<exists>blocks rest unclosed. content = assemble blocks rest unclosed \<and> well_tagged blocks rest unclosed
    \<and> parseThinkTags content =
      (if blocks = [] \<and> unclosed = None then \<lparr>pt_visibleContent = content, pt_reasoning = [], pt_hasUnclosedTag = False\<rparr>
       else \<lparr>pt_visibleContent = js_trim (concat (map fst blocks) @ rest),
             pt_reasoning = js_trim (js_join (reasoning_parts blocks unclosed) [10, 10]),
             pt_hasUnclosedTag = (unclosed \<noteq> None)\<rparr>)"
proof (cases "js_includes content open_tag")
  case True
  then obtain blocks rest unclosed where p: "content = assemble blocks rest unclosed" "well_tagged blocks rest unclosed"
    "parseThinkTags content = \<lparr>pt_visibleContent = js_trim (concat (map fst blocks) @ rest),
       pt_reasoning = js_trim (js_join (reasoning_parts blocks unclosed) [10, 10]), pt_hasUnclosedTag = (unclosed \<noteq> None)\<rparr>"
    using parse_tagged by blast
  have "\<not> (blocks = [] \<and> unclosed = None)" using True p by (cases unclosed) (auto simp: well_tagged_def)
  with p show ?thesis by (intro exI [of _ blocks] exI [of _ rest] exI [of _ unclosed]) auto
next
  case False
  then show ?thesis
    by (intro exI [of _ "[]"] exI [of _ content] exI [of _ None]) (simp add: well_tagged_def parseThinkTags_def)
qed

text \<open>
  C34: An answer that arrives in chunks ends like the same answer received at once, if no chunk starts with all
  the text before it: the same visible content and status, and the same reasoning whenever the answer has any.
\<close>

theorem streamed_equals_whole:
  fixes chunks :: "(jsnum \<times> jsnum \<times> jsstring) list"
  defines "whole \<equiv> concat (map (snd \<circ> snd) chunks)"
  assumes "chunks \<noteq> []" and "fresh_chunks [] (map (snd \<circ> snd) chunks)"
  shows "getMessageContent (completeAssistantMessage now later end1 (stream_content chunks (createLoadingAssistantMessage key nanoid t)))
      = getMessageContent (applyChatCompletionChoice now2 later2 end2 (createLoadingAssistantMessage key nanoid t) (Some (Some whole, None)))
    \<and> ms_status (completeAssistantMessage now later end1 (stream_content chunks (createLoadingAssistantMessage key nanoid t)))
      = ms_status (applyChatCompletionChoice now2 later2 end2 (createLoadingAssistantMessage key nanoid t) (Some (Some whole, None)))
    \<and> (pt_reasoning (parseThinkTags whole) \<noteq> [] \<longrightarrow>
       reasoning_text (completeAssistantMessage now later end1 (stream_content chunks (createLoadingAssistantMessage key nanoid t)))
      = reasoning_text (applyChatCompletionChoice now2 later2 end2 (createLoadingAssistantMessage key nanoid t) (Some (Some whole, None))))"
  using stream_content_spec [of "createLoadingAssistantMessage key nanoid t" chunks] assms
  by (simp add: completed_message answered_message text_or_def whole_def)

theorem streamed_equals_whole_witness:
  "getMessageContent (completeAssistantMessage (Fin 1) (Fin 2) (Fin 3)
      (stream_content [(Fin 1, Fin 1, js ''<think>a''), (Fin 1, Fin 1, js ''b</think>c'')] (createLoadingAssistantMessage [] [] (Fin 0))))
    = getMessageContent (applyChatCompletionChoice (Fin 1) (Fin 2) (Fin 3) (createLoadingAssistantMessage [] [] (Fin 0))
        (Some (Some (js ''<think>a'' @ js ''b</think>c''), None)))"
proof -
  have "fresh_chunks [] (map (snd \<circ> snd) [(Fin 1, Fin 1, js ''<think>a''), (Fin 1, Fin 1, js ''b</think>c'')])" by code_simp
  from streamed_equals_whole [OF _ this, of "Fin 1" "Fin 2" "Fin 3" "[]" "[]" "Fin 0" "Fin 1" "Fin 2" "Fin 3"] show ?thesis by simp
qed





subsection \<open>Recovery\<close>

lemma last_pending_Some:
  "last_pending ms n = Some i \<Longrightarrow> i < n \<and> isPendingAssistantMessage (ms ! i) \<and> (\<forall>j. i < j \<and> j < n \<longrightarrow> \<not> isPendingAssistantMessage (ms ! j))"
  by (induction n) (auto simp: less_Suc_eq split: if_splits)

lemma last_pending_None: "last_pending ms n = None \<longleftrightarrow> (\<forall>j < n. \<not> isPendingAssistantMessage (ms ! j))"
  by (induction n) (auto simp: less_Suc_eq)

lemma trim_nonempty: "c \<in> set s \<Longrightarrow> \<not> is_space c \<Longrightarrow> js_trim s \<noteq> []"
  using js_trim_parts [of s] by (metis UnE UnI1 UnI2 append_Nil set_append)

lemma interrupted_nonempty: "js_trim (interrupted_text t) \<noteq> []"
proof (rule trim_nonempty)
  show "58 \<in> set (interrupted_text t)" by (simp add: interrupted_text_def js_def)
  show "\<not> is_space 58" by (simp add: is_space_def)
qed

lemma filter_update:
  "i < length xs \<Longrightarrow> P (xs ! i) \<Longrightarrow> \<not> P x \<Longrightarrow> length (filter P (xs[i := x])) + 1 = length (filter P xs)"
proof (induction xs arbitrary: i)
  case (Cons y ys)
  then show ?case by (cases i) auto
qed simp

text \<open>The message that takes the place of a pending one.\<close>

definition recovered :: "message \<Rightarrow> message \<Rightarrow> bool" where
  "recovered m x \<longleftrightarrow> ms_from x = ms_from m \<and> ms_key x = ms_key m \<and> isAssistantMessageFinal x
     \<and> (hasMessageContent x \<or> js_trim (reasoning_text x) \<noteq> [])
     \<and> (ms_status x = Some SComplete \<longrightarrow> getMessageContent x = pt_visibleContent (parseThinkTags (getMessageContent m)))"

lemma has_content_frame [simp]:
  "hasMessageContent (completeAssistantTiming m t) = hasMessageContent m" "hasMessageContent (m\<lparr>ms_status := s\<rparr>) = hasMessageContent m"
  "hasMessageContent (m\<lparr>ms_isReasoningStreaming := b\<rparr>) = hasMessageContent m"
  by (simp_all add: hasMessageContent_def getMessageContent_def getCurrentVersion_def completeAssistantTiming_def Let_def)

lemma key_frame [simp]:
  "ms_key (completeAssistantTiming m t) = ms_key m" "ms_key (completeReasoningTiming m t) = ms_key m"
  "ms_key (updateCurrentVersionContent m s) = ms_key m" "ms_key (finalizeMessage now later m api) = ms_key m"
  by (simp_all add: completeAssistantTiming_def completeReasoningTiming_def updateCurrentVersionContent_def finalizeMessage_def Let_def
      split: option.split)

lemma sanitize_cases:
  assumes "last_pending ms (length ms) = Some i"
  obtains x where "sanitizeMessagesOnLoad t now later end1 ms = ms[i := x]" and "recovered (ms ! i) x"
proof (rule that)
  let ?f = "finalizeMessage now later (ms ! i) None"
  let ?x = "if hasMessageContent ?f \<or> js_trim (reasoning_text ?f) \<noteq> []
    then completeAssistantTiming (?f\<lparr>ms_status := Some SComplete, ms_isReasoningStreaming := Some False\<rparr>) end1
    else completeAssistantTiming ((updateCurrentVersionContent ?f (interrupted_text t))
      \<lparr>ms_status := Some SError, ms_isReasoningStreaming := Some False\<rparr>) end1"
  show "sanitizeMessagesOnLoad t now later end1 ms = ms[i := ?x]" using assms by (simp add: sanitizeMessagesOnLoad_def Let_def)
  have "hasMessageContent (updateCurrentVersionContent ?f (interrupted_text t))"
    using interrupted_nonempty by (simp add: hasMessageContent_def)
  then show "recovered (ms ! i) ?x" by (simp add: recovered_def isAssistantMessageFinal_def finalize_content)
qed

text \<open>
  Loading a stored conversation settles its last pending answer, and only that one: the message in its place is
  complete or an error, has something to show, and a completed one keeps the visible content; every other message
  is left as it is, so that of several pending answers all but one stay pending.
\<close>

theorem sanitize_settles_last:
  "case last_pending ms (length ms) of
     None \<Rightarrow> sanitizeMessagesOnLoad t now later end1 ms = ms \<and> list_all (\<lambda>m. \<not> isPendingAssistantMessage m) ms
   | Some i \<Rightarrow> i < length ms \<and> list_all (\<lambda>m. \<not> isPendingAssistantMessage m) (drop (i + 1) ms)
       \<and> (\<exists>x. sanitizeMessagesOnLoad t now later end1 ms = ms[i := x] \<and> recovered (ms ! i) x
            \<and> length (filter isPendingAssistantMessage (ms[i := x])) + 1 = length (filter isPendingAssistantMessage ms))"
proof (cases "last_pending ms (length ms)")
  case None
  then have "list_all (\<lambda>m. \<not> isPendingAssistantMessage m) ms" by (simp add: last_pending_None list_all_length)
  with None show ?thesis by (simp add: sanitizeMessagesOnLoad_def)
next
  case (Some i)
  note i = last_pending_Some [OF Some]
  obtain x where x: "sanitizeMessagesOnLoad t now later end1 ms = ms[i := x]" "recovered (ms ! i) x"
    using sanitize_cases [OF Some] .
  then have "\<not> isPendingAssistantMessage x"
    by (auto simp: recovered_def isPendingAssistantMessage_def isAssistantMessagePending_def isAssistantMessageFinal_def)
  with i have "length (filter isPendingAssistantMessage (ms[i := x])) + 1 = length (filter isPendingAssistantMessage ms)"
    by (intro filter_update) auto
  moreover have "list_all (\<lambda>m. \<not> isPendingAssistantMessage m) (drop (i + 1) ms)" using i by (auto simp: list_all_length)
  ultimately show ?thesis using Some i x by auto
qed

end
