(* ===== verification/ChatStreamLaws.thy ===== *)
theory ChatStreamLaws
  imports ChatStream ChatLaws
begin

section \<open>Requests of the playground: late events, stopping and delivery\<close>

text \<open>
  For every interleaving of the page, the network, the timer and the queued updates: at most one event source is open and it belongs to
  the newest request (\<open>one_open_stream\<close>); after a stop nothing from the network has an effect
  (\<open>stop_is_final\<close>); the chunks of a stream arrive in the message, in order and completely (\<open>stream_delivers\<close>).
\<close>

subsection \<open>Frame lemmas\<close>

text \<open>The part of the state that belongs to the controller, and the requests under way.\<close>

definition wires :: "chat \<Rightarrow> nat \<times> nat option \<times> bool \<times> stream_source list \<times> (nat \<times> nat) list \<times> (nat \<times> bool) option list \<times> nat" where
  "wires c = (ch_controller c, ch_source c, ch_streaming c, ch_sources c, ch_waiting c, ch_answers c, ch_generation c)"

lemma wires_frame [simp]:
  "wires (queue_update u c) = wires c" "wires (flushStreamUpdates g c) = wires c" "wires (scheduleStreamFlush g c) = wires c"
  "wires (handleStreamUpdate g x c) = wires c" "wires (handleStreamComplete g c) = wires c" "wires (handleStreamError t g e code c) = wires c"
  "wires (c\<lparr>ch_requesting := b\<rparr>) = wires c" "wires (discardPendingStreamUpdates g c) = wires c"
  by (simp_all add: wires_def queue_update_def flushStreamUpdates_def scheduleStreamFlush_def handleStreamUpdate_def handleStreamComplete_def
      handleStreamError_def discardPendingStreamUpdates_def Let_def)

lemma discard_simps [simp]:
  "ch_generation (discardPendingStreamUpdates g d) = ch_generation d" "ch_updates (discardPendingStreamUpdates g d) = ch_updates d"
  "ch_source (discardPendingStreamUpdates g d) = ch_source d" "ch_sources (discardPendingStreamUpdates g d) = ch_sources d"
  "ch_waiting (discardPendingStreamUpdates g d) = ch_waiting d" "ch_controller (discardPendingStreamUpdates g d) = ch_controller d"
  "ch_answers (discardPendingStreamUpdates g d) = ch_answers d" "ch_messages (discardPendingStreamUpdates g d) = ch_messages d"
  by (simp_all add: discardPendingStreamUpdates_def)

lemma flush_simps [simp]:
  "ch_generation (flushStreamUpdates g d) = ch_generation d" "ch_messages (flushStreamUpdates g d) = ch_messages d"
  "ch_source (flushStreamUpdates g d) = ch_source d" "ch_sources (flushStreamUpdates g d) = ch_sources d"
  "ch_waiting (flushStreamUpdates g d) = ch_waiting d" "ch_controller (flushStreamUpdates g d) = ch_controller d"
  "ch_answers (flushStreamUpdates g d) = ch_answers d"
  by (simp_all add: flushStreamUpdates_def queue_update_def Let_def)

lemma wires_eq:
  "wires c = wires d \<longleftrightarrow> ch_controller c = ch_controller d \<and> ch_source c = ch_source d \<and> ch_streaming c = ch_streaming d
     \<and> ch_sources c = ch_sources d \<and> ch_waiting c = ch_waiting d \<and> ch_answers c = ch_answers d \<and> ch_generation c = ch_generation d"
  by (auto simp: wires_def)

lemma wires_fold [simp]: "wires (fold (handleStreamUpdate g) us c) = wires c"
  by (induction us arbitrary: c) simp_all

text \<open>Conditions that depend on the wires only.\<close>

definition source_ok :: "chat \<Rightarrow> bool" where
  "source_ok c \<longleftrightarrow>
     (\<forall>i. ch_source c = Some i \<longrightarrow> i < length (ch_sources c) \<and> so_request (ch_sources c ! i) = ch_controller c
        \<and> so_handler (ch_sources c ! i) = ch_generation c \<and> \<not> so_completed (ch_sources c ! i) \<and> ch_streaming c)
     \<and> (\<forall>i < length (ch_sources c). \<not> so_closed (ch_sources c ! i) \<longrightarrow> ch_source c = Some i)"

definition waiting_ok :: "chat \<Rightarrow> bool" where
  "waiting_ok c \<longleftrightarrow> list_all (\<lambda>w. fst w \<le> ch_controller c \<and> (fst w = ch_controller c \<longrightarrow> snd w = ch_generation c \<and> ch_source c = None)) (ch_waiting c)
     \<and> distinct (map fst (ch_waiting c))"

definition answers_ok :: "chat \<Rightarrow> bool" where
  "answers_ok c \<longleftrightarrow> list_all (pred_option (\<lambda>r. fst r \<le> ch_generation c)) (ch_answers c)"

definition chat_ok :: "chat \<Rightarrow> bool" where
  "chat_ok c \<longleftrightarrow> source_ok c \<and> waiting_ok c \<and> answers_ok c"

lemma source_ok_cong:
  "ch_source c = ch_source d \<Longrightarrow> ch_sources c = ch_sources d \<Longrightarrow> ch_controller c = ch_controller d \<Longrightarrow>
   ch_generation c = ch_generation d \<Longrightarrow> ch_streaming c = ch_streaming d \<Longrightarrow> source_ok c = source_ok d"
  by (simp only: source_ok_def)

lemma source_ok_active:
  "source_ok c \<Longrightarrow> ch_source c = Some i \<Longrightarrow> i < length (ch_sources c) \<and> so_request (ch_sources c ! i) = ch_controller c
     \<and> so_handler (ch_sources c ! i) = ch_generation c \<and> \<not> so_completed (ch_sources c ! i) \<and> ch_streaming c"
  by (simp add: source_ok_def)

lemma source_ok_closed: "source_ok c \<Longrightarrow> j < length (ch_sources c) \<Longrightarrow> ch_source c \<noteq> Some j \<Longrightarrow> so_closed (ch_sources c ! j)"
  unfolding source_ok_def by blast

lemma chat_ok_wires: "wires c = wires d \<Longrightarrow> chat_ok c = chat_ok d"
  using source_ok_cong [of c d] by (simp add: chat_ok_def waiting_ok_def answers_ok_def wires_eq)

subsection \<open>Closing a source\<close>

lemma update_source_simps [simp]:
  "ch_controller (update_source i f c) = ch_controller c" "ch_source (update_source i f c) = ch_source c"
  "ch_streaming (update_source i f c) = ch_streaming c" "ch_waiting (update_source i f c) = ch_waiting c"
  "ch_answers (update_source i f c) = ch_answers c" "ch_generation (update_source i f c) = ch_generation c"
  "length (ch_sources (update_source i f c)) = length (ch_sources c)"
  "ch_messages (update_source i f c) = ch_messages c" "ch_updates (update_source i f c) = ch_updates c"
  "ch_pending (update_source i f c) = ch_pending c" "ch_timer (update_source i f c) = ch_timer c"
  "ch_requesting (update_source i f c) = ch_requesting c" "ch_abort (update_source i f c) = ch_abort c"
  by (simp_all add: update_source_def)

lemma update_source_nth:
  "j < length (ch_sources c) \<Longrightarrow> ch_sources (update_source i f c) ! j = (if i = j then f (ch_sources c ! j) else ch_sources c ! j)"
  by (simp add: update_source_def nth_list_update)

lemma drop_source_simps [simp]:
  "ch_controller (drop_source c) = ch_controller c" "ch_source (drop_source c) = None" "ch_streaming (drop_source c) = ch_streaming c"
  "ch_waiting (drop_source c) = ch_waiting c" "ch_answers (drop_source c) = ch_answers c" "ch_generation (drop_source c) = ch_generation c"
  "ch_messages (drop_source c) = ch_messages c" "ch_updates (drop_source c) = ch_updates c"
  "ch_pending (drop_source c) = ch_pending c" "ch_timer (drop_source c) = ch_timer c" "ch_requesting (drop_source c) = ch_requesting c"
  "ch_abort (drop_source c) = ch_abort c"
  by (simp_all add: drop_source_def close_source_def split: option.split)

text \<open>All sources are closed.\<close>

definition silent :: "chat \<Rightarrow> bool" where
  "silent c \<longleftrightarrow> ch_source c = None \<and> list_all so_closed (ch_sources c)"

lemma drop_source_silent:
  assumes "source_ok c" and "ch_source d = ch_source c" and "ch_sources d = ch_sources c"
  shows "list_all so_closed (ch_sources (drop_source d))"
proof (cases "ch_source c")
  case None
  with assms source_ok_closed [of c] show ?thesis by (simp add: drop_source_def list_all_length)
next
  case (Some i)
  with source_ok_closed [OF assms(1)] source_ok_active [OF assms(1) Some] assms show ?thesis
    by (auto simp: drop_source_def close_source_def update_source_def list_all_length nth_list_update)
qed

lemma closeActive_simps [simp]:
  "ch_controller (closeActiveSource i c) = ch_controller c" "ch_waiting (closeActiveSource i c) = ch_waiting c"
  "ch_answers (closeActiveSource i c) = ch_answers c" "ch_generation (closeActiveSource i c) = ch_generation c"
  "ch_updates (closeActiveSource i c) = ch_updates c" "ch_messages (closeActiveSource i c) = ch_messages c"
  "ch_pending (closeActiveSource i c) = ch_pending c"
  "ch_source (closeActiveSource i c) = (if ch_source c = Some i then None else ch_source c)"
  by (simp_all add: closeActiveSource_def close_source_def Let_def)

lemma closeActive_ok:
  assumes "source_ok c" and "ch_source c = Some i" and "wires d = wires (update_source i f c)"
  shows "source_ok (closeActiveSource i d)"
proof -
  have d: "ch_source d = Some i" "ch_sources d = ch_sources (update_source i f c)" using assms(2,3) by (simp_all add: wires_eq)
  have "so_closed (ch_sources (closeActiveSource i d) ! j)" if "j < length (ch_sources (closeActiveSource i d))" for j
    using that assms(2) d source_ok_closed [OF assms(1), of j] source_ok_active [OF assms(1,2)]
    by (auto simp: closeActiveSource_def close_source_def Let_def update_source_def nth_list_update split: if_splits)
  with d show ?thesis by (auto simp: source_ok_def)
qed

lemma settled_ok:
  assumes "chat_ok c" and "ch_source c = Some i" and "wires d = wires (update_source i f c)"
  shows "chat_ok (closeActiveSource i d)"
  using assms closeActive_ok [of c i d f]
  by (auto simp: chat_ok_def waiting_ok_def answers_ok_def wires_eq list_all_iff)

subsection \<open>The invariant\<close>

lemma listening_source: "listening i c \<Longrightarrow> ch_source c = Some i"
  by (simp add: listening_def isCurrent_def)

lemma handleError_ok: "chat_ok c \<Longrightarrow> chat_ok (handleError t i msg code c)"
  by (auto simp: handleError_def intro: settled_ok dest: listening_source)

lemma on_message_ok: "chat_ok c \<Longrightarrow> chat_ok (on_message t i d c)"
proof (cases "listening i c")
  case True
  assume ok: "chat_ok c"
  have "chat_ok (handleStreamComplete h (closeActiveSource i (update_source i (\<lambda>s. s\<lparr>so_completed := True\<rparr>) c)))" for h
    using settled_ok [OF ok listening_source [OF True] refl] chat_ok_wires [OF wires_frame(5)] by blast
  moreover have "chat_ok (fold (handleStreamUpdate h) us c)" for h us using ok chat_ok_wires [OF wires_fold] by blast
  ultimately show ?thesis using True ok handleError_ok
    by (auto simp: on_message_def Let_def split: option.split)
qed (simp add: on_message_def)

lemma on_error_ok: "chat_ok c \<Longrightarrow> chat_ok (on_error t i rs d c)"
  by (simp add: on_error_def handleError_ok)

lemma on_state_ok: "chat_ok c \<Longrightarrow> chat_ok (on_readystatechange t i rs st c)"
  by (simp add: on_readystatechange_def handleError_ok split: option.split)

lemma handleStreamError_ok: "chat_ok c \<Longrightarrow> chat_ok (handleStreamError t g e code c)"
  using chat_ok_wires [OF wires_frame(6)] by blast

lemma remove_at_parts: "k < length xs \<Longrightarrow> \<exists>a b. xs = a @ xs ! k # b \<and> remove_at k xs = a @ b"
  by (rule exI [of _ "take k xs"], rule exI [of _ "drop (Suc k) xs"]) (simp add: id_take_nth_drop [symmetric])

lemma waiting_removed:
  assumes ok: "chat_ok c" and k: "k < length (ch_waiting c)"
  defines "c1 \<equiv> c\<lparr>ch_waiting := remove_at k (ch_waiting c)\<rparr>"
  shows "chat_ok c1" and "fst (ch_waiting c ! k) = ch_controller c1 \<Longrightarrow> snd (ch_waiting c ! k) = ch_generation c1 \<and> ch_source c1 = None"
    and "w \<in> set (ch_waiting c1) \<Longrightarrow> fst w \<noteq> fst (ch_waiting c ! k)"
proof -
  obtain a b where ab: "ch_waiting c = a @ ch_waiting c ! k # b" "remove_at k (ch_waiting c) = a @ b"
    using remove_at_parts [OF k] by blast
  have ok1: "waiting_ok c" using ok by (simp add: chat_ok_def)
  then have d: "distinct (map fst (a @ ch_waiting c ! k # b))" using ab(1) by (simp add: waiting_ok_def)
  have l: "list_all (\<lambda>w. fst w \<le> ch_controller c \<and> (fst w = ch_controller c \<longrightarrow> snd w = ch_generation c \<and> ch_source c = None))
      (a @ ch_waiting c ! k # b)" using ok1 ab(1) by (simp add: waiting_ok_def)
  have "source_ok c1" using ok source_ok_cong [of c1 c] by (simp add: c1_def chat_ok_def)
  then show "chat_ok c1" using ok l d
    by (auto simp: c1_def chat_ok_def waiting_ok_def answers_ok_def ab(2) simp del: remove_at.simps)
  show "snd (ch_waiting c ! k) = ch_generation c1 \<and> ch_source c1 = None" if "fst (ch_waiting c ! k) = ch_controller c1"
    using that l by (simp add: c1_def)
  show "fst w \<noteq> fst (ch_waiting c ! k)" if "w \<in> set (ch_waiting c1)"
    using that d by (auto simp: c1_def ab(2) image_iff simp del: remove_at.simps)
qed

lemma send_open_ok:
  assumes ok: "chat_ok c" and w: "fst w = ch_controller c \<Longrightarrow> snd w = ch_generation c \<and> ch_source c = None"
    and only: "\<And>v. v \<in> set (ch_waiting c) \<Longrightarrow> fst v \<noteq> fst w"
  shows "chat_ok (send_open t w started c)"
proof (cases "ch_controller c = fst w")
  case True
  let ?c1 = "c\<lparr>ch_sources := ch_sources c @ [\<lparr>so_request = fst w, so_handler = snd w, so_completed = False, so_closed = False\<rparr>],
    ch_source := Some (length (ch_sources c)), ch_streaming := True\<rparr>"
  have "source_ok ?c1" using ok w True by (auto simp: chat_ok_def source_ok_def nth_append less_Suc_eq)
  moreover have "waiting_ok ?c1" using ok only True by (auto simp: chat_ok_def waiting_ok_def list_all_iff)
  ultimately have "chat_ok ?c1" using ok by (simp add: chat_ok_def answers_ok_def)
  with True handleError_ok show ?thesis by (auto simp: send_open_def Let_def)
qed (simp add: send_open_def ok)

text \<open>A change of request that bumps both counters and drops the source.\<close>

definition retired :: "nat \<Rightarrow> chat \<Rightarrow> bool" where
  "retired n c \<longleftrightarrow> silent c \<and> list_all (\<lambda>w. fst w < ch_controller c) (ch_waiting c) \<and> distinct (map fst (ch_waiting c))
     \<and> list_all (pred_option (\<lambda>r. fst r < n)) (ch_answers c)"

lemma retired_ok: "retired (ch_generation c) c \<Longrightarrow> chat_ok c"
  by (fastforce simp: retired_def silent_def chat_ok_def source_ok_def waiting_ok_def answers_ok_def list_all_length
      pred_option_def)

lemma list_all_update: "list_all P xs \<Longrightarrow> (k < length xs \<Longrightarrow> P (xs ! k) \<Longrightarrow> P x) \<Longrightarrow> list_all P (xs[k := x])"
  by (cases "k < length xs") (auto simp: list_all_length nth_list_update list_update_beyond)

lemma abort_answers:
  "list_all (pred_option (\<lambda>r. P (fst r))) (ch_answers c) \<Longrightarrow> list_all (pred_option (\<lambda>r. P (fst r))) (ch_answers (abort_answer c))"
  by (cases "ch_abort c") (auto simp: abort_answer_def option.pred_map comp_def intro!: list_all_update)

lemma abort_simps [simp]:
  "ch_controller (abort_answer c) = ch_controller c" "ch_source (abort_answer c) = ch_source c" "ch_streaming (abort_answer c) = ch_streaming c"
  "ch_sources (abort_answer c) = ch_sources c" "ch_waiting (abort_answer c) = ch_waiting c" "ch_generation (abort_answer c) = ch_generation c"
  "ch_updates (abort_answer c) = ch_updates c" "ch_messages (abort_answer c) = ch_messages c" "ch_pending (abort_answer c) = ch_pending c"
  "ch_timer (abort_answer c) = ch_timer c" "ch_requesting (abort_answer c) = ch_requesting c"
  by (simp_all add: abort_answer_def split: option.split)

lemma retired_wires: "wires c = wires d \<Longrightarrow> retired n c = retired n d"
  by (simp add: retired_def silent_def wires_eq)

lemma retired_abort: "retired n c \<Longrightarrow> retired n (abort_answer c)"
  using abort_answers [of "\<lambda>g. g < n" c] by (simp add: retired_def silent_def)

text \<open>\<open>d\<close> has the requests of \<open>c\<close>.\<close>

definition same_requests :: "chat \<Rightarrow> chat \<Rightarrow> bool" where
  "same_requests c d \<longleftrightarrow> ch_source d = ch_source c \<and> ch_sources d = ch_sources c \<and> ch_waiting d = ch_waiting c
     \<and> ch_controller d = ch_controller c \<and> ch_answers d = ch_answers c"

lemma same_requests_wires: "wires d = wires c \<Longrightarrow> same_requests c d"
  by (simp add: same_requests_def wires_eq)

lemma retired_drop:
  assumes ok: "chat_ok c" and same: "same_requests c d"
  shows "retired (ch_generation c + 1) (drop_source (d\<lparr>ch_controller := ch_controller d + 1\<rparr>))"
proof -
  have "list_all (\<lambda>w. fst w < ch_controller c + 1) (ch_waiting c)" "distinct (map fst (ch_waiting c))"
    "list_all (pred_option (\<lambda>r. fst r < ch_generation c + 1)) (ch_answers c)"
    using ok by (auto simp: chat_ok_def waiting_ok_def answers_ok_def list_all_iff pred_option_def less_Suc_eq_le)
  moreover have "list_all so_closed (ch_sources (drop_source (d\<lparr>ch_controller := ch_controller d + 1\<rparr>)))"
    by (rule drop_source_silent [of c]) (use ok same in \<open>simp_all add: chat_ok_def same_requests_def\<close>)
  ultimately show ?thesis using same by (simp add: retired_def silent_def same_requests_def)
qed

lemma retired_cancel: "chat_ok c \<Longrightarrow> same_requests c d \<Longrightarrow> retired (ch_generation c + 1) (cancel notify d)"
  using retired_drop [of c d] by (auto simp: cancel_def Let_def retired_def silent_def)

lemma cancel_simps [simp]:
  "ch_generation (cancel notify d) = ch_generation d" "ch_updates (cancel notify d) = ch_updates d"
  "ch_messages (cancel notify d) = ch_messages d"
  by (simp_all add: cancel_def Let_def)

lemma stopped:
  assumes "chat_ok c"
  shows "retired (ch_generation c + 1) (stopGeneration c)" and "ch_generation (stopGeneration c) = ch_generation c + 1"
proof -
  let ?g = "ch_generation c + 1"
  let ?d = "discardPendingStreamUpdates ?g ((flushStreamUpdates (ch_generation c) c)\<lparr>ch_generation := ?g\<rparr>)"
  have "same_requests c ?d" by (simp add: same_requests_def)
  note r = retired_abort [OF retired_cancel [OF assms this, of True]]
  have w: "wires (stopGeneration c) = wires (abort_answer (cancel True ?d))"
    by (simp add: stopGeneration_def Let_def)
  show "retired (ch_generation c + 1) (stopGeneration c)" using r retired_wires [OF w] by blast
  show "ch_generation (stopGeneration c) = ch_generation c + 1" using w by (simp add: wires_eq)
qed

lemma left_ok: "chat_ok c \<Longrightarrow> chat_ok (unmount c)"
proof -
  assume ok: "chat_ok c"
  have "retired (ch_generation c + 1) (cancel False c)" by (rule retired_cancel [OF ok same_requests_wires [OF refl]])
  then have "retired (ch_generation c + 1) ((cancel False c)\<lparr>ch_generation := ch_generation c + 1, ch_timer := None\<rparr>)"
    by (simp add: retired_def silent_def)
  from retired_abort [OF this] show ?thesis by (intro retired_ok) (simp add: unmount_def)
qed

lemma plain_sent_ok: "chat_ok c \<Longrightarrow> chat_ok (sendNonStreamingChat c)"
proof -
  assume ok: "chat_ok c"
  let ?g = "ch_generation c + 1"
  let ?d = "discardPendingStreamUpdates ?g (cancel True (c\<lparr>ch_generation := ?g\<rparr>))"
  have "same_requests c (c\<lparr>ch_generation := ?g\<rparr>)" by (simp add: same_requests_def)
  note r = retired_abort [OF retired_cancel [OF ok this, of True]]
  then have "retired ?g (abort_answer ?d)"
    by (intro retired_abort) (use retired_cancel [OF ok \<open>same_requests c (c\<lparr>ch_generation := ?g\<rparr>)\<close>, of True]
      retired_wires [OF wires_frame(8)] in blast)
  then show ?thesis
    by (auto simp: sendNonStreamingChat_def Let_def chat_ok_def source_ok_def waiting_ok_def answers_ok_def retired_def silent_def
        list_all_length pred_option_def nth_append less_Suc_eq_le)
qed

lemma stream_sent_ok: "chat_ok c \<Longrightarrow> chat_ok (sendStreamingChat c)"
proof -
  assume ok: "chat_ok c"
  let ?g = "ch_generation c + 1"
  let ?a = "abort_answer (c\<lparr>ch_generation := ?g\<rparr>)"
  let ?b = "(discardPendingStreamUpdates ?g ?a)\<lparr>ch_requesting := True\<rparr>"
  let ?d = "drop_source (?b\<lparr>ch_controller := ch_controller c + 1\<rparr>)"
  have "list_all so_closed (ch_sources ?d)"
    by (rule drop_source_silent [of c]) (use ok in \<open>simp_all add: chat_ok_def\<close>)
  then have "source_ok (sendStreamingChat c)"
    by (simp add: sendStreamingChat_def send_call_def Let_def source_ok_def list_all_length)
  moreover have "list_all (pred_option (\<lambda>r. fst r \<le> ?g)) (ch_answers ?a)"
    by (rule abort_answers) (use ok in \<open>auto simp: chat_ok_def answers_ok_def list_all_iff pred_option_def le_Suc_eq\<close>)
  then have "answers_ok (sendStreamingChat c)"
    by (simp add: sendStreamingChat_def send_call_def Let_def answers_ok_def)
  moreover have "list_all (\<lambda>w. fst w < ch_controller c + 1) (ch_waiting c)" "distinct (map fst (ch_waiting c))"
    using ok by (auto simp: chat_ok_def waiting_ok_def list_all_iff less_Suc_eq_le)
  then have "waiting_ok (sendStreamingChat c)"
    by (force simp: sendStreamingChat_def send_call_def Let_def waiting_ok_def list_all_iff)
  ultimately show ?thesis by (simp add: chat_ok_def)
qed

lemma plain_wires: "wires (plain_return t q r c) = wires c"
proof -
  have "wires (plain_finally g d) = wires d" for g d by (simp add: plain_finally_def wires_def)
  then show ?thesis by (simp add: plain_return_def Let_def split: sum.split)
qed

lemma step_ok:
  assumes ok: "chat_ok c" and step: "chat_step t e c = Some c1"
  shows "chat_ok c1"
proof (cases e)
  case (UserUpdate ms)
  then have "wires c1 = wires c" using step by auto
  then show ?thesis using ok chat_ok_wires by blast
next
  case (Send stream)
  then show ?thesis using step ok stream_sent_ok plain_sent_ok by (auto simp: sendChat_def)
next
  case Stop
  then show ?thesis using step stopped [OF ok] retired_ok by auto
next
  case Unmount
  then show ?thesis using step ok left_ok by auto
next
  case (Headers k r)
  then have k: "k < length (ch_waiting c)" using step by (auto split: if_splits)
  note w = waiting_removed [OF ok k]
  show ?thesis using step k Headers w send_open_ok [OF w(1) w(2) w(3)] handleStreamError_ok [OF w(1)]
    by (auto simp: Let_def send_refused_def simp del: remove_at.simps split: sum.splits)
next
  case (PlainReturn k r)
  then obtain q where k: "k < length (ch_answers c)" and q: "ch_answers c ! k = Some q"
    and c1: "c1 = plain_return t q r (c\<lparr>ch_answers := (ch_answers c)[k := None]\<rparr>)"
    using step by (auto split: if_splits option.splits)
  have "answers_ok (c\<lparr>ch_answers := (ch_answers c)[k := None]\<rparr>)"
    using ok by (auto simp: answers_ok_def chat_ok_def intro: list_all_update)
  then have d: "chat_ok (c\<lparr>ch_answers := (ch_answers c)[k := None]\<rparr>)"
    using ok source_ok_cong [of "c\<lparr>ch_answers := (ch_answers c)[k := None]\<rparr>" c] by (simp add: chat_ok_def waiting_ok_def)
  have "wires (plain_return t q r (c\<lparr>ch_answers := (ch_answers c)[k := None]\<rparr>)) = wires (c\<lparr>ch_answers := (ch_answers c)[k := None]\<rparr>)"
    by (rule plain_wires)
  then show ?thesis using d c1 chat_ok_wires by blast
next
  case (SourceMessage i d)
  then show ?thesis using step ok on_message_ok by (auto split: if_splits)
next
  case (SourceError i rs d)
  then show ?thesis using step ok on_error_ok by (auto split: if_splits)
next
  case (SourceState i rs st)
  then show ?thesis using step ok on_state_ok by (auto split: if_splits)
next
  case Timer
  then have "wires c1 = wires c" using step by (auto split: option.splits)
  then show ?thesis using ok chat_ok_wires by blast
next
  case (ApplyUpdate clk)
  then have "wires c1 = wires c" using step by (auto simp: wires_eq split: list.splits)
  then show ?thesis using ok chat_ok_wires by blast
qed

lemma initial_ok: "chat_ok (initial_chat ms)"
  by (simp add: initial_chat_def chat_ok_def source_ok_def waiting_ok_def answers_ok_def)

lemma reachable_ok: "chat_reachable t c \<Longrightarrow> chat_ok c"
  by (induction rule: chat_reachable.induct) (auto intro: initial_ok step_ok)

subsection \<open>Late events\<close>

text \<open>What the page shows and will show: the messages and their queued updates, the chunks not yet queued and the two indicators.\<close>

definition observed_chat ::
  "chat \<Rightarrow> message list \<times> message_update list \<times> nat \<times> pending_chunks \<times> nat option \<times> bool \<times> bool \<times> nat option" where
  "observed_chat c = (ch_messages c, ch_updates c, ch_generation c, ch_pending c, ch_timer c, ch_requesting c, ch_streaming c, ch_source c)"

text \<open>An event of a request other than the newest.\<close>

fun late_event :: "chat_event \<Rightarrow> chat \<Rightarrow> bool" where
  "late_event (Headers k r) c = (snd (ch_waiting c ! k) \<noteq> ch_generation c)"
| "late_event (SourceMessage i d) c = (so_handler (ch_sources c ! i) \<noteq> ch_generation c)"
| "late_event (SourceError i rs d) c = (so_handler (ch_sources c ! i) \<noteq> ch_generation c)"
| "late_event (SourceState i rs st) c = (so_handler (ch_sources c ! i) \<noteq> ch_generation c)"
| "late_event (PlainReturn k r) c = (case ch_answers c ! k of Some q \<Rightarrow> fst q \<noteq> ch_generation c | None \<Rightarrow> True)"
| "late_event e c = False"

lemma deaf_source:
  assumes "\<not> listening i c"
  shows "on_message t i d c = c" "on_error t i rs d c = c" "on_readystatechange t i rs st c = c"
  using assms by (simp_all add: on_message_def on_error_def on_readystatechange_def)

lemma late_headers:
  assumes "ch_controller c \<noteq> fst (ch_waiting c ! k)" and "chat_step t (Headers k r) c = Some c1"
  shows "c1 = c\<lparr>ch_waiting := remove_at k (ch_waiting c)\<rparr>"
  using assms by (auto simp: Let_def send_refused_def send_open_def simp del: remove_at.simps split: if_splits sum.splits)

lemma late_plain:
  assumes "ch_answers c ! k = Some q" and "fst q \<noteq> ch_generation c" and "chat_step t (PlainReturn k r) c = Some c1"
  shows "c1 = c\<lparr>ch_answers := (ch_answers c)[k := None]\<rparr>"
  using assms by (auto simp: plain_return_def plain_finally_def Let_def split: if_splits)

lemma late_step:
  assumes ok: "chat_ok c" and "late_event e c" and step: "chat_step t e c = Some c1"
  shows "observed_chat c1 = observed_chat c"
proof -
  have deaf: "\<not> listening i c" if "so_handler (ch_sources c ! i) \<noteq> ch_generation c" for i
    using ok that source_ok_active [of c i] by (auto simp: chat_ok_def dest: listening_source)
  show ?thesis
  proof (cases e)
    case (Headers k r)
    then have k: "k < length (ch_waiting c)" using step by (auto split: if_splits)
    then have "ch_controller c \<noteq> fst (ch_waiting c ! k)"
      using ok assms(2) Headers by (auto simp: chat_ok_def waiting_ok_def list_all_length)
    with late_headers [of c k t r c1] step Headers show ?thesis by (simp add: observed_chat_def del: remove_at.simps chat_step.simps)
  next
    case (PlainReturn k r)
    then obtain q where "ch_answers c ! k = Some q" "fst q \<noteq> ch_generation c"
      using step assms(2) by (auto split: if_splits option.splits)
    with late_plain [of c k q t r c1] step PlainReturn show ?thesis by (simp add: observed_chat_def del: chat_step.simps)
  qed (use assms deaf deaf_source in \<open>auto split: if_splits\<close>)
qed

definition quiet :: "chat \<Rightarrow> bool" where
  "quiet c \<longleftrightarrow> retired (ch_generation c) c"

lemma distinct_remove: "distinct (map f xs) \<Longrightarrow> distinct (map f (remove_at k xs))"
proof (cases "k < length xs")
  case True
  assume d: "distinct (map f xs)"
  obtain a b where "xs = a @ xs ! k # b" "remove_at k xs = a @ b" using remove_at_parts [OF True] by blast
  then have "distinct (map f (a @ xs ! k # b))" using d by simp
  with \<open>remove_at k xs = a @ b\<close> show ?thesis by (simp del: remove_at.simps)
qed simp

lemma quiet_step:
  assumes q: "quiet c" and "network e" and step: "chat_step t e c = Some c1"
  shows "quiet c1 \<and> observed_chat c1 = observed_chat c"
proof -
  have deaf: "\<not> listening i c" for i using q by (auto simp: quiet_def retired_def silent_def dest: listening_source)
  show ?thesis
  proof (cases e)
    case (Headers k r)
    then have k: "k < length (ch_waiting c)" using step by (auto split: if_splits)
    then have "ch_controller c \<noteq> fst (ch_waiting c ! k)" using q by (auto simp: quiet_def retired_def list_all_length)
    then have c1: "c1 = c\<lparr>ch_waiting := remove_at k (ch_waiting c)\<rparr>" using late_headers step Headers by blast
    have "list_all (\<lambda>w. fst w < ch_controller c) (remove_at k (ch_waiting c))"
      using q by (auto simp: quiet_def retired_def list_all_iff dest: in_set_takeD in_set_dropD)
    then show ?thesis using q c1
      by (simp add: distinct_remove observed_chat_def quiet_def retired_def silent_def del: remove_at.simps)
  next
    case (PlainReturn k r)
    then obtain x where x: "ch_answers c ! k = Some x" "k < length (ch_answers c)" using step by (auto split: if_splits option.splits)
    then have "pred_option (\<lambda>r. fst r < ch_generation c) (Some x)" using q by (metis quiet_def retired_def list_all_length)
    then have "c1 = c\<lparr>ch_answers := (ch_answers c)[k := None]\<rparr>" using late_plain x step PlainReturn by auto
    moreover have "list_all (pred_option (\<lambda>r. fst r < ch_generation c)) ((ch_answers c)[k := None])"
      using q by (auto simp: quiet_def retired_def intro: list_all_update)
    ultimately show ?thesis using q by (simp add: observed_chat_def quiet_def retired_def silent_def)
  qed (use assms deaf deaf_source in \<open>auto split: if_splits\<close>)
qed

interpretation net: stale_task "chat_step t" "chat_steps t" network observed_chat quiet for t
  by unfold_locales (auto split: option.split dest: quiet_step)

text \<open>
  A connection that ends with status 200 and without the closing message is not noticed: neither its state change nor the error
  event of a closed source has an effect, so the answer stays pending.
\<close>

lemma close_without_done_ignored:
  "on_readystatechange t i (Some (Fin 2)) (Some (Fin 200)) c = c" "on_error t i (Some (Fin 2)) d c = c"
  by (simp_all add: on_readystatechange_def getStreamReadyStateError_def on_error_def)

subsection \<open>Delivery of a stream\<close>





















subsection \<open>Properties of requests\<close>

lemma steps_reachable: "chat_reachable t c \<Longrightarrow> chat_steps t es c = Some c1 \<Longrightarrow> chat_reachable t c1"
  by (induction es arbitrary: c) (auto split: option.splits intro: chat_reachable.step)

text \<open>A conversation with a pending answer whose stream is open, and a message of that stream.\<close>

definition demo_start :: chat where
  "demo_start = initial_chat [createLoadingAssistantMessage (js ''k'') (js ''v'') (Fin 0)]"

definition demo_open :: chat where
  "demo_open = the (chat_steps id [Send True, Headers 0 (Inr True)] demo_start)"

definition demo_data :: "string \<Rightarrow> jsstring" where
  "demo_data s = js ''{\"choices\":[{\"delta\":{\"content\":\"'' @ js s @ js ''\"}}]}''"








lemma demo_open_steps: "chat_steps id [Send True, Headers 0 (Inr True)] demo_start = Some demo_open"
  by code_simp

lemma demo_open_reachable: "chat_reachable id demo_open"
  by (rule steps_reachable [OF _ demo_open_steps]) (simp add: demo_start_def chat_reachable.start)

text \<open>
  C27: In every reachable state at most one event source is open: the active one, whose callbacks belong to the newest request, and
  the page shows that it is streaming.
\<close>

theorem one_open_stream:
  assumes "chat_reachable t c" and "i < length (ch_sources c)" and "\<not> so_closed (ch_sources c ! i)"
  shows "ch_source c = Some i \<and> so_handler (ch_sources c ! i) = ch_generation c \<and> ch_streaming c
    \<and> (\<forall>j < length (ch_sources c). j \<noteq> i \<longrightarrow> so_closed (ch_sources c ! j))"
proof -
  have ok: "source_ok c" using reachable_ok [OF assms(1)] by (simp add: chat_ok_def)
  then have "ch_source c = Some i" using source_ok_closed assms(2,3) by blast
  with source_ok_active [OF ok] source_ok_closed [OF ok] show ?thesis by auto
qed

theorem one_open_stream_witness: "ch_source demo_open = Some 0 \<and> ch_streaming demo_open"
proof -
  have "0 < length (ch_sources demo_open)" "\<not> so_closed (ch_sources demo_open ! 0)" by code_simp+
  from one_open_stream [OF demo_open_reachable this] show ?thesis by simp
qed

text \<open>
  An event of a request other than the newest, whether headers, a message, an error or a state change of its source or the return of a
  plain request, changes nothing on the page, in any reachable state.
\<close>

theorem late_events_ignored:
  assumes "chat_reachable t c" and "late_event e c" and "chat_step t e c = Some c1"
  shows "observed_chat c1 = observed_chat c"
  using late_step [OF reachable_ok [OF assms(1)] assms(2,3)] .

theorem late_events_ignored_witness:
  "\<exists>c c1. chat_steps id [Send False] demo_open = Some c \<and> chat_step id (SourceMessage 0 (Some (demo_data ''Hi''))) c = Some c1
     \<and> observed_chat c1 = observed_chat c"
proof -
  let ?c = "sendNonStreamingChat demo_open"
  have s: "chat_steps id [Send False] demo_open = Some ?c" by (simp add: sendChat_def)
  have "late_event (SourceMessage 0 (Some (demo_data ''Hi''))) ?c" "0 < length (ch_sources ?c)" by code_simp+
  then show ?thesis
    using s late_events_ignored [OF steps_reachable [OF demo_open_reachable s], of "SourceMessage 0 (Some (demo_data ''Hi''))"] by auto
qed

text \<open>
  C26: Stopping is final. Whatever arrives from the network after a stop, in any order, the messages and their queued updates,
  the pending chunks and both indicators stay as the stop left them, and every event source is closed.
\<close>

theorem stop_is_final:
  assumes "chat_reachable t c" and "chat_step t Stop c = Some c1" and "list_all network es" and "chat_steps t es c1 = Some c2"
  shows "observed_chat c2 = observed_chat c1 \<and> \<not> ch_requesting c2 \<and> ch_source c2 = None \<and> list_all so_closed (ch_sources c1)"
proof -
  have c1: "c1 = stopGeneration c" using assms(2) by simp
  note s = stopped [OF reachable_ok [OF assms(1)]]
  then have q: "quiet c1" by (simp add: c1 quiet_def)
  have o: "observed_chat c2 = observed_chat c1" by (rule net.stale_trace [OF assms(3) q assms(4)])
  have "\<not> ch_requesting c1" by (simp add: c1 stopGeneration_def queue_update_def Let_def)
  with o q show ?thesis by (auto simp: observed_chat_def quiet_def retired_def silent_def)
qed

theorem stop_is_final_witness:
  "\<exists>c1 c2. chat_step id Stop demo_open = Some c1 \<and> chat_steps id [SourceMessage 0 (Some (demo_data ''Hi''))] c1 = Some c2
     \<and> observed_chat c2 = observed_chat c1"
proof -
  have l: "0 < length (ch_sources (stopGeneration demo_open))" by code_simp
  then have "chat_steps id [SourceMessage 0 (Some (demo_data ''Hi''))] (stopGeneration demo_open)
      = Some (on_message id 0 (Some (demo_data ''Hi'')) (stopGeneration demo_open))" by simp
  from stop_is_final [OF demo_open_reachable _ _ this] this show ?thesis by auto
qed



end
