(* ===== verification/VideoTask.thy ===== *)
theory VideoTask
  imports ChatStream
begin

section \<open>Video tasks of the playground\<close>

text \<open>
  Model of \<^verbatim>\<open>web/src/features/playground/lib/video/video-generation-utils.ts\<close> and
  \<^verbatim>\<open>web/src/features/playground/hooks/use-video-generation.ts\<close>: a task is submitted, then polled with growing delays until the
  service reports an end, the waiting time is over, or the user cancels or submits again. The state \<open>video\<close> holds what the page shows, the two
  references of the hook, the abort controllers, and everything that the hook waits for; each event runs one
  uninterrupted piece of the program. React applies updates of the state in order, and ignores them once the component is gone.
  Times are integers of milliseconds, as \<open>Date.now\<close> gives them. \<open>lower\<close> is \<open>toLowerCase\<close>.
\<close>

subsection \<open>Requests, outcomes and the rhythm of polling\<close>

definition VIDEO_POLL_INITIAL_MS :: int where
  "VIDEO_POLL_INITIAL_MS = 3000"

definition VIDEO_POLL_MAX_MS :: int where
  "VIDEO_POLL_MAX_MS = 15000"

definition VIDEO_POLL_TIMEOUT_MS :: int where
  "VIDEO_POLL_TIMEOUT_MS = 10 * 60 * 1000"

text \<open>The product is an exact double, or infinite for very large attempts; the minimum is the same.\<close>

definition nextPollDelay :: "int \<Rightarrow> int" where
  "nextPollDelay attempt = min (VIDEO_POLL_INITIAL_MS * 2 ^ nat (max attempt 0)) VIDEO_POLL_MAX_MS"

definition isPollTimedOut :: "int \<Rightarrow> int \<Rightarrow> bool" where
  "isPollTimedOut startedAt now \<longleftrightarrow> now - startedAt \<ge> VIDEO_POLL_TIMEOUT_MS"

record video_request =
  vr_model :: jsstring
  vr_prompt :: jsstring
  vr_group :: "jsstring option"
  vr_seconds :: "jsstring option"
  vr_size :: "jsstring option"

definition buildVideoGenerationRequest ::
  "jsstring \<Rightarrow> jsstring \<Rightarrow> jsstring option \<Rightarrow> jsstring option \<Rightarrow> jsstring option \<Rightarrow> video_request" where
  "buildVideoGenerationRequest model prompt grp seconds dims =
    (let given = (\<lambda>x. if x = Some [] then None else x) in
     \<lparr>vr_model = model, vr_prompt = prompt, vr_group = given grp, vr_seconds = given seconds, vr_size = given dims\<rparr>)"

text \<open>The first property that is a text with more than white space.\<close>

fun first_text :: "jsval \<Rightarrow> string list \<Rightarrow> jsstring option" where
  "first_text response [] = None"
| "first_text response (key # keys) =
    (case prop_of response key of
       VStr value \<Rightarrow> if js_trim value \<noteq> [] then Some value else first_text response keys
     | _ \<Rightarrow> first_text response keys)"

definition extractTaskId :: "jsval \<Rightarrow> jsstring option" where
  "extractTaskId response =
    (if \<not> is_container response then None else first_text response [''task_id'', ''id'', ''taskId''])"

datatype video_status = StIdle | StPending | StSucceeded | StFailed

definition normalizeVideoStatus :: "(jsstring \<Rightarrow> jsstring) \<Rightarrow> jsstring option \<Rightarrow> video_status" where
  "normalizeVideoStatus lower raw =
    (let s = lower (case raw of Some r \<Rightarrow> r | None \<Rightarrow> []) in
     if s \<in> set [js ''success'', js ''succeeded'', js ''completed'', js ''complete''] then StSucceeded
     else if s \<in> set [js ''failure'', js ''failed'', js ''error''] then StFailed
     else StPending)"

record poll_outcome =
  vo_status :: video_status
  vo_url :: "jsstring option"
  vo_failReason :: "jsstring option"
  vo_progress :: "jsnum option"

fun first_data_url :: "jsval list \<Rightarrow> jsstring option" where
  "first_data_url [] = None"
| "first_data_url (item # items) =
    (case first_text item [''url''] of Some url \<Rightarrow> Some url | None \<Rightarrow> first_data_url items)"

definition extractResultUrl :: "jsval \<Rightarrow> jsstring option" where
  "extractResultUrl response =
    (if \<not> is_container response then None
     else case first_text response [''result_url'', ''url'', ''video_url''] of
       Some url \<Rightarrow> Some url
     | None \<Rightarrow> (case prop_of response ''data'' of VArr items \<Rightarrow> first_data_url items | _ \<Rightarrow> None))"

definition parsePollResponse :: "(jsstring \<Rightarrow> jsstring) \<Rightarrow> jsval \<Rightarrow> poll_outcome" where
  "parsePollResponse lower response =
    (let none = \<lparr>vo_status = StPending, vo_url = None, vo_failReason = None, vo_progress = None\<rparr> in
     if \<not> is_container response then none
     else
       let status = normalizeVideoStatus lower (case prop_of response ''status'' of VStr s \<Rightarrow> Some s | _ \<Rightarrow> None) in
       if status = StPending
       then none\<lparr>vo_progress := (case prop_of response ''progress'' of VNum n \<Rightarrow> Some n | _ \<Rightarrow> None)\<rparr>
       else if status = StFailed
       then none\<lparr>vo_status := status, vo_failReason :=
         (case text_field (prop_of response ''fail_reason'') of Some s \<Rightarrow> Some s | None \<Rightarrow> text_field (prop_of response ''error''))\<rparr>
       else none\<lparr>vo_status := status, vo_url := extractResultUrl response\<rparr>)"

definition shouldKeepPolling :: "poll_outcome \<Rightarrow> int \<Rightarrow> int \<Rightarrow> bool" where
  "shouldKeepPolling outcome startedAt now \<longleftrightarrow> vo_status outcome = StPending \<and> \<not> isPollTimedOut startedAt now"

definition isVideoModel :: "(jsstring \<Rightarrow> jsstring) \<Rightarrow> jsstring \<Rightarrow> bool" where
  "isVideoModel lower model \<longleftrightarrow>
    (let m = lower model in
     m \<noteq> [] \<and> list_ex (\<lambda>keyword. js_includes m (js keyword))
       [''video'', ''kling'', ''jimeng'', ''sora'', ''veo'', ''hailuo'', ''vidu'', ''runway'', ''pika'', ''luma'', ''seedance'',
        ''wan2'', ''wanx-video''])"

subsection \<open>State of the hook\<close>

record generation_state =
  vs_isGenerating :: bool
  vs_status :: video_status
  vs_url :: "jsstring option"
  vs_failReason :: "jsstring option"
  vs_progress :: "jsnum option"
  vs_error :: "jsstring option"

definition IDLE :: generation_state where
  "IDLE = \<lparr>vs_isGenerating = False, vs_status = StIdle, vs_url = None, vs_failReason = None, vs_progress = None, vs_error = None\<rparr>"

text \<open>What a \<open>poll\<close> function closes over: its abort controller, the task, the start and the number of the attempt.\<close>

record poll_task =
  pk_controller :: nat
  pk_task :: jsstring
  pk_started :: int
  pk_attempt :: nat

text \<open>A call or timer that the hook waits for: the submission, a timer with the time it is due, a call that reads the task.\<close>

datatype video_wait =
    SubmitCall nat video_request
  | PollTimer int poll_task
  | PollCall poll_task

fun controller_of :: "video_wait \<Rightarrow> nat" where
  "controller_of (SubmitCall c r) = c"
| "controller_of (PollTimer due p) = pk_controller p"
| "controller_of (PollCall p) = pk_controller p"

text \<open>
  \<open>vi_controllers\<close> lists the abort controllers created so far, each with whether it is aborted; \<open>vi_waits\<close> the waits, each until it ends or
  is cleared; the references point into them. \<open>vi_clock\<close> is the time of the last event with a time.
\<close>

record video =
  vi_state :: generation_state
  vi_mounted :: bool
  vi_timerRef :: "nat option"
  vi_abortRef :: "nat option"
  vi_controllers :: "bool list"
  vi_waits :: "video_wait option list"
  vi_clock :: int

definition initial_video :: "int \<Rightarrow> video" where
  "initial_video now = \<lparr>vi_state = IDLE, vi_mounted = True, vi_timerRef = None, vi_abortRef = None, vi_controllers = [], vi_waits = [],
     vi_clock = now\<rparr>"

definition aborted :: "video \<Rightarrow> nat \<Rightarrow> bool" where
  "aborted v c \<longleftrightarrow> c < length (vi_controllers v) \<and> vi_controllers v ! c"

definition set_state :: "(generation_state \<Rightarrow> generation_state) \<Rightarrow> video \<Rightarrow> video" where
  "set_state f v = (if vi_mounted v then v\<lparr>vi_state := f (vi_state v)\<rparr> else v)"

subsection \<open>Operations of the hook\<close>

definition clearTimer :: "video \<Rightarrow> video" where
  "clearTimer v =
    (case vi_timerRef v of
       None \<Rightarrow> v
     | Some k \<Rightarrow> v\<lparr>vi_waits := (vi_waits v)[k := None], vi_timerRef := None\<rparr>)"

definition abort_current :: "video \<Rightarrow> video" where
  "abort_current v =
    (case vi_abortRef v of
       None \<Rightarrow> v
     | Some c \<Rightarrow> v\<lparr>vi_controllers := (vi_controllers v)[c := True]\<rparr>)"

definition video_cancel :: "video \<Rightarrow> video" where
  "video_cancel v = set_state (\<lambda>_. IDLE) ((abort_current (clearTimer v))\<lparr>vi_abortRef := None\<rparr>)"

definition video_leave :: "video \<Rightarrow> video" where
  "video_leave v = (abort_current (clearTimer v))\<lparr>vi_mounted := False\<rparr>"

text \<open>\<open>generate\<close> up to the wait for the submission.\<close>

definition video_generate :: "jsstring \<Rightarrow> jsstring \<Rightarrow> jsstring \<Rightarrow> jsstring option \<Rightarrow> jsstring option \<Rightarrow> video \<Rightarrow> video" where
  "video_generate model grp rawPrompt seconds dims v =
    (let prompt = js_trim rawPrompt in
     if prompt = [] \<or> model = [] then v
     else
       let v1 = abort_current (clearTimer v);
           c = length (vi_controllers v1);
           v2 = set_state (\<lambda>_. IDLE\<lparr>vs_isGenerating := True, vs_status := StPending\<rparr>)
             (v1\<lparr>vi_controllers := vi_controllers v1 @ [False], vi_abortRef := Some c\<rparr>)
       in v2\<lparr>vi_waits := vi_waits v2 @ [Some (SubmitCall c (buildVideoGenerationRequest model prompt (Some grp) seconds dims))]\<rparr>)"

definition schedule_poll :: "int \<Rightarrow> poll_task \<Rightarrow> video \<Rightarrow> video" where
  "schedule_poll now p v =
    v\<lparr>vi_timerRef := Some (length (vi_waits v)), vi_waits := vi_waits v @ [Some (PollTimer (now + nextPollDelay (int (pk_attempt p))) p)]\<rparr>"

text \<open>\<open>generate\<close> from the submission on: an error, with its message if it is an \<open>Error\<close>, or an answer.\<close>

definition submit_return :: "nat \<Rightarrow> int \<Rightarrow> jsstring option + jsval \<Rightarrow> video \<Rightarrow> video" where
  "submit_return c now result v =
    (case result of
       Inl error \<Rightarrow>
         if aborted v c then v
         else set_state (\<lambda>_. IDLE\<lparr>vs_status := StFailed, vs_error := Some (case error of Some m \<Rightarrow> m | None \<Rightarrow> js ''submit_failed'')\<rparr>) v
     | Inr submitted \<Rightarrow>
         (case extractTaskId submitted of
            None \<Rightarrow> set_state (\<lambda>_. IDLE\<lparr>vs_status := StFailed, vs_error := Some (js ''no_task_id'')\<rparr>) v
          | Some taskId \<Rightarrow> schedule_poll now \<lparr>pk_controller = c, pk_task = taskId, pk_started = now, pk_attempt = 0\<rparr> v))"

text \<open>\<open>poll\<close> from the answer on.\<close>

definition poll_return :: "(jsstring \<Rightarrow> jsstring) \<Rightarrow> poll_task \<Rightarrow> int \<Rightarrow> jsstring option + jsval \<Rightarrow> video \<Rightarrow> video" where
  "poll_return lower p now result v =
    (case result of
       Inl error \<Rightarrow>
         if aborted v (pk_controller p) then v
         else set_state (\<lambda>prev. prev\<lparr>vs_isGenerating := False, vs_status := StFailed,
           vs_error := Some (case error of Some m \<Rightarrow> m | None \<Rightarrow> js ''poll_failed'')\<rparr>) v
     | Inr raw \<Rightarrow>
         let outcome = parsePollResponse lower raw in
         if vo_status outcome = StPending then
           if \<not> shouldKeepPolling outcome (pk_started p) now
           then set_state (\<lambda>prev. prev\<lparr>vs_isGenerating := False, vs_status := StFailed, vs_failReason := Some (js ''timeout'')\<rparr>) v
           else schedule_poll now (p\<lparr>pk_attempt := pk_attempt p + 1\<rparr>)
             (set_state (\<lambda>prev. prev\<lparr>vs_progress := (case vo_progress outcome of Some n \<Rightarrow> Some n | None \<Rightarrow> vs_progress prev)\<rparr>) v)
         else if vo_status outcome = StSucceeded
         then set_state (\<lambda>_. \<lparr>vs_isGenerating = False, vs_status = StSucceeded, vs_url = vo_url outcome, vs_failReason = None,
           vs_progress = Some (Fin 100), vs_error = None\<rparr>) v
         else set_state (\<lambda>_. \<lparr>vs_isGenerating = False, vs_status = StFailed, vs_url = None, vs_failReason = vo_failReason outcome,
           vs_progress = None, vs_error = None\<rparr>) v)"

subsection \<open>Events\<close>

text \<open>\<open>Cancel\<close> stands for both \<open>cancel\<close> and \<open>reset\<close>, which are the same. \<open>Returns k now r\<close>: the call \<open>k\<close> ends; \<open>Fires k now\<close>: the timer \<open>k\<close> fires.\<close>

datatype video_event =
    Generate jsstring jsstring jsstring "jsstring option" "jsstring option"
  | Cancel
  | Leave
  | Returns nat int "jsstring option + jsval"
  | Fires nat int

fun video_step :: "(jsstring \<Rightarrow> jsstring) \<Rightarrow> video_event \<Rightarrow> video \<Rightarrow> video option" where
  "video_step lower (Generate model grp prompt seconds dims) v =
    (if vi_mounted v then Some (video_generate model grp prompt seconds dims v) else None)"
| "video_step lower Cancel v = (if vi_mounted v then Some (video_cancel v) else None)"
| "video_step lower Leave v = (if vi_mounted v then Some (video_leave v) else None)"
| "video_step lower (Returns k now r) v =
    (if k < length (vi_waits v) then
       let v1 = v\<lparr>vi_waits := (vi_waits v)[k := None], vi_clock := now\<rparr> in
       case vi_waits v ! k of
         Some (SubmitCall c req) \<Rightarrow> Some (submit_return c now r v1)
       | Some (PollCall p) \<Rightarrow> Some (poll_return lower p now r v1)
       | _ \<Rightarrow> None
     else None)"
| "video_step lower (Fires k now) v =
    (if k < length (vi_waits v) then
       case vi_waits v ! k of
         Some (PollTimer due p) \<Rightarrow>
           Some (v\<lparr>vi_waits := (vi_waits v)[k := None] @ [Some (PollCall p)], vi_clock := now\<rparr>)
       | _ \<Rightarrow> None
     else None)"

text \<open>
  What the hook relies on: a call whose signal was aborted ends with an error (the contract of the \<open>signal\<close> option of the HTTP client), a timer
  does not fire before its delay is over, and the clock does not run backwards.
\<close>

fun honoured :: "video_event \<Rightarrow> video \<Rightarrow> bool" where
  "honoured (Returns k now r) v \<longleftrightarrow> vi_clock v \<le> now
     \<and> (case r of Inl e \<Rightarrow> True | Inr x \<Rightarrow> (case vi_waits v ! k of Some w \<Rightarrow> \<not> aborted v (controller_of w) | None \<Rightarrow> True))"
| "honoured (Fires k now) v \<longleftrightarrow> vi_clock v \<le> now \<and> (case vi_waits v ! k of Some (PollTimer due p) \<Rightarrow> due \<le> now | _ \<Rightarrow> True)"
| "honoured e v \<longleftrightarrow> True"

definition video_next :: "(jsstring \<Rightarrow> jsstring) \<Rightarrow> video_event \<Rightarrow> video \<Rightarrow> video option" where
  "video_next lower e v = (if honoured e v then video_step lower e v else None)"

inductive video_reachable :: "(jsstring \<Rightarrow> jsstring) \<Rightarrow> video \<Rightarrow> bool" for lower where
  start: "video_reachable lower (initial_video now)"
| step: "video_reachable lower v \<Longrightarrow> video_next lower e v = Some v1 \<Longrightarrow> video_reachable lower v1"

fun video_trace :: "(jsstring \<Rightarrow> jsstring) \<Rightarrow> video_event list \<Rightarrow> video \<Rightarrow> video option" where
  "video_trace lower [] v = Some v"
| "video_trace lower (e # es) v = Option.bind (video_next lower e v) (video_trace lower es)"

text \<open>Events that no user causes.\<close>

fun answers :: "video_event \<Rightarrow> bool" where
  "answers (Returns k now r) = True"
| "answers (Fires k now) = True"
| "answers e = False"

end
