(* ===== verification/VideoTaskLaws.thy ===== *)
theory VideoTaskLaws
  imports VideoTask
begin

section \<open>Video tasks: one task at a time, no late effects, an end to polling\<close>

text \<open>
  For every interleaving of the user, the service and the timers: the page says that it generates exactly while it waits for one task
  (\<open>one_task_awaited\<close>), a task that was cancelled or replaced has no effect any more (\<open>overtaken_task_silent\<close>), and polling
  ends by itself (\<open>polling_ends\<close>).
\<close>

subsection \<open>The invariant\<close>

definition live_at :: "video \<Rightarrow> nat \<Rightarrow> bool" where
  "live_at v i \<longleftrightarrow> i < length (vi_waits v)
     \<and> (case vi_waits v ! i of Some w \<Rightarrow> \<not> aborted v (controller_of w) | None \<Rightarrow> False)"

fun is_timer :: "video_wait \<Rightarrow> bool" where
  "is_timer (PollTimer due p) = True"
| "is_timer w = False"

text \<open>The delays up to an attempt; a timer, and a call after it, are not earlier than that.\<close>

primrec total_delay :: "nat \<Rightarrow> int" where
  "total_delay 0 = nextPollDelay 0"
| "total_delay (Suc a) = total_delay a + nextPollDelay (int (Suc a))"

fun timely :: "int \<Rightarrow> video_wait \<Rightarrow> bool" where
  "timely clock (SubmitCall c r) = True"
| "timely clock (PollTimer due p) = (pk_started p + total_delay (pk_attempt p) \<le> due \<and> pk_attempt p \<le> 41)"
| "timely clock (PollCall p) = (pk_started p + total_delay (pk_attempt p) \<le> clock \<and> pk_attempt p \<le> 41)"

definition waits_ok :: "video \<Rightarrow> bool" where
  "waits_ok v \<longleftrightarrow> (\<forall>w. Some w \<in> set (vi_waits v) \<longrightarrow> controller_of w < length (vi_controllers v) \<and> timely (vi_clock v) w)"

definition timers_ok :: "video \<Rightarrow> bool" where
  "timers_ok v \<longleftrightarrow>
     (\<forall>i < length (vi_waits v). \<forall>w. vi_waits v ! i = Some w \<longrightarrow> is_timer w \<longrightarrow> vi_timerRef v = Some i \<and> \<not> aborted v (controller_of w))
     \<and> (\<forall>k. vi_timerRef v = Some k \<longrightarrow> k < length (vi_waits v) \<and> (\<forall>w. vi_waits v ! k = Some w \<longrightarrow> is_timer w))"

definition controllers_ok :: "video \<Rightarrow> bool" where
  "controllers_ok v \<longleftrightarrow> (\<forall>c < length (vi_controllers v). \<not> vi_controllers v ! c \<longrightarrow> vi_abortRef v = Some c)
     \<and> (\<forall>c. vi_abortRef v = Some c \<longrightarrow> c < length (vi_controllers v))"

definition live_ok :: "video \<Rightarrow> bool" where
  "live_ok v \<longleftrightarrow> (\<forall>i j. live_at v i \<longrightarrow> live_at v j \<longrightarrow> i = j)
     \<and> (if vi_mounted v then vs_isGenerating (vi_state v) \<longleftrightarrow> (\<exists>i. live_at v i) else list_all id (vi_controllers v))"

definition video_ok :: "video \<Rightarrow> bool" where
  "video_ok v \<longleftrightarrow> waits_ok v \<and> timers_ok v \<and> controllers_ok v \<and> live_ok v"

lemma set_state_simps [simp]:
  "vi_mounted (set_state f v) = vi_mounted v" "vi_timerRef (set_state f v) = vi_timerRef v" "vi_abortRef (set_state f v) = vi_abortRef v"
  "vi_controllers (set_state f v) = vi_controllers v" "vi_waits (set_state f v) = vi_waits v" "vi_clock (set_state f v) = vi_clock v"
  "vi_mounted v \<Longrightarrow> vi_state (set_state f v) = f (vi_state v)"
  by (simp_all add: set_state_def)

lemma timers_okD:
  "timers_ok v \<Longrightarrow> i < length (vi_waits v) \<Longrightarrow> vi_waits v ! i = Some w \<Longrightarrow> is_timer w \<Longrightarrow> vi_timerRef v = Some i \<and> \<not> aborted v (controller_of w)"
  "timers_ok v \<Longrightarrow> vi_timerRef v = Some k \<Longrightarrow> k < length (vi_waits v)"
  "timers_ok v \<Longrightarrow> vi_timerRef v = Some k \<Longrightarrow> vi_waits v ! k = Some w \<Longrightarrow> is_timer w"
  unfolding timers_ok_def by blast+

lemma controllers_ok_bound: "controllers_ok v \<Longrightarrow> vi_abortRef v = Some c \<Longrightarrow> c < length (vi_controllers v)"
  by (simp add: controllers_ok_def)

lemma controllers_ok_cong: "vi_controllers w = vi_controllers v \<Longrightarrow> vi_abortRef w = vi_abortRef v \<Longrightarrow> controllers_ok w = controllers_ok v"
  by (simp only: controllers_ok_def)

lemma all_aborted_ok:
  "list_all id (vi_controllers v) \<Longrightarrow> (\<And>c. vi_abortRef v = Some c \<Longrightarrow> c < length (vi_controllers v)) \<Longrightarrow> controllers_ok v"
  by (simp add: controllers_ok_def list_all_length)

text \<open>No timer is set and nothing that is awaited can still have an effect.\<close>

definition idle_waits :: "video \<Rightarrow> bool" where
  "idle_waits v \<longleftrightarrow> waits_ok v \<and> (\<forall>w. Some w \<in> set (vi_waits v) \<longrightarrow> aborted v (controller_of w) \<and> \<not> is_timer w)"

lemma idle_nothing: "idle_waits v \<Longrightarrow> \<not> live_at v i"
  by (auto simp: idle_waits_def live_at_def split: option.splits) (metis nth_mem)

lemma idle_timers: "idle_waits v \<Longrightarrow> i < length (vi_waits v) \<Longrightarrow> vi_waits v ! i = Some w \<Longrightarrow> aborted v (controller_of w) \<and> \<not> is_timer w"
  unfolding idle_waits_def by (metis nth_mem)

lemma Some_update: "Some w \<in> set (xs[k := None]) \<Longrightarrow> Some w \<in> set xs"
  using set_update_subset_insert [of xs k None] by auto

lemma nth_cleared: "i < length xs \<Longrightarrow> xs[k := None] ! i = Some w \<Longrightarrow> i \<noteq> k \<and> xs ! i = Some w"
  by (cases "i = k") simp_all

lemma clearTimer_simps [simp]:
  "vi_controllers (clearTimer v) = vi_controllers v" "vi_abortRef (clearTimer v) = vi_abortRef v" "vi_mounted (clearTimer v) = vi_mounted v"
  "vi_state (clearTimer v) = vi_state v" "vi_clock (clearTimer v) = vi_clock v" "vi_timerRef (clearTimer v) = None"
  "length (vi_waits (clearTimer v)) = length (vi_waits v)"
  by (simp_all add: clearTimer_def split: option.split)

lemma abort_current_simps [simp]:
  "length (vi_controllers (abort_current v)) = length (vi_controllers v)" "vi_abortRef (abort_current v) = vi_abortRef v"
  "vi_mounted (abort_current v) = vi_mounted v" "vi_state (abort_current v) = vi_state v" "vi_clock (abort_current v) = vi_clock v"
  "vi_timerRef (abort_current v) = vi_timerRef v" "vi_waits (abort_current v) = vi_waits v"
  by (simp_all add: abort_current_def split: option.split)

lemma cleared_no_timer:
  assumes "timers_ok v" and "Some w \<in> set (vi_waits (clearTimer v))"
  shows "Some w \<in> set (vi_waits v) \<and> \<not> is_timer w"
proof -
  obtain i where i: "i < length (vi_waits v)" "vi_waits (clearTimer v) ! i = Some w"
    using assms(2) by (auto simp: in_set_conv_nth)
  have s: "Some w \<in> set (vi_waits v)" using assms(2) by (auto simp: clearTimer_def dest: Some_update split: option.splits)
  moreover have "\<not> is_timer w"
  proof
    assume "is_timer w"
    show False
    proof (cases "vi_timerRef v")
      case None
      with i have "vi_waits v ! i = Some w" by (simp add: clearTimer_def)
      with \<open>is_timer w\<close> None i(1) assms(1) show False by (simp add: timers_ok_def)
    next
      case (Some k)
      with i have "i \<noteq> k" "vi_waits v ! i = Some w" using nth_cleared [of i "vi_waits v" k w] by (simp_all add: clearTimer_def)
      with \<open>is_timer w\<close> Some i(1) assms(1) show False by (simp add: timers_ok_def)
    qed
  qed
  ultimately show ?thesis by simp
qed

lemma abort_all: "controllers_ok v \<Longrightarrow> list_all id (vi_controllers (abort_current (clearTimer v)))"
  by (cases "vi_abortRef v") (auto simp: controllers_ok_def abort_current_def list_all_length nth_list_update)

lemma abort_clear_idle:
  assumes "video_ok v"
  shows "idle_waits (abort_current (clearTimer v))"
proof -
  have "list_all id (vi_controllers (abort_current (clearTimer v)))" using assms abort_all by (simp add: video_ok_def)
  with assms cleared_no_timer [of v] show ?thesis
    by (auto simp: idle_waits_def waits_ok_def video_ok_def aborted_def list_all_length)
qed

text \<open>The reference of the timer, if any, belongs to one that has fired.\<close>

definition unset_timer :: "video \<Rightarrow> bool" where
  "unset_timer v \<longleftrightarrow> (\<forall>k. vi_timerRef v = Some k \<longrightarrow> k < length (vi_waits v) \<and> vi_waits v ! k = None)"

lemma idle_ok:
  assumes "idle_waits v" and "controllers_ok v" and "unset_timer v" and "\<not> vi_mounted v \<Longrightarrow> list_all id (vi_controllers v)" and "vi_mounted v \<Longrightarrow> \<not> vs_isGenerating (vi_state v)"
  shows "video_ok v"
  using assms idle_nothing [OF assms(1)] idle_timers [OF assms(1)]
  by (auto simp: video_ok_def timers_ok_def live_ok_def idle_waits_def unset_timer_def)

lemma idle_cong:
  "vi_waits w = vi_waits v \<Longrightarrow> vi_controllers w = vi_controllers v \<Longrightarrow> vi_clock w = vi_clock v \<Longrightarrow> idle_waits v \<Longrightarrow> idle_waits w"
  by (simp add: idle_waits_def waits_ok_def aborted_def)

subsection \<open>Steps of the user\<close>

lemma cancel_ok:
  assumes "video_ok v" and "vi_mounted v"
  shows "video_ok (video_cancel v)"
proof (rule idle_ok)
  show "idle_waits (video_cancel v)" by (rule idle_cong [OF _ _ _ abort_clear_idle [OF assms(1)]]) (simp_all add: video_cancel_def)
  show "controllers_ok (video_cancel v)"
    by (rule all_aborted_ok) (use assms abort_all [of v] in \<open>simp_all add: video_cancel_def video_ok_def\<close>)
qed (use assms in \<open>simp_all add: video_cancel_def IDLE_def unset_timer_def\<close>)

lemma leave_ok:
  assumes "video_ok v"
  shows "video_ok (video_leave v)"
proof (rule idle_ok)
  show "idle_waits (video_leave v)" by (rule idle_cong [OF _ _ _ abort_clear_idle [OF assms]]) (simp_all add: video_leave_def)
  show "controllers_ok (video_leave v)"
    by (rule all_aborted_ok) (use assms abort_all [of v] controllers_ok_bound [of v] in \<open>simp_all add: video_leave_def video_ok_def\<close>)
qed (use assms abort_all [of v] in \<open>simp_all add: video_leave_def video_ok_def unset_timer_def\<close>)

text \<open>A wait for a new task, or for the next piece of the only one.\<close>

lemma append_live:
  assumes "idle_waits v" and "vi_waits d = vi_waits v @ [Some w]" and "\<And>c. c < length (vi_controllers v) \<Longrightarrow> aborted v c \<Longrightarrow> aborted d c"
    and "length (vi_controllers v) \<le> length (vi_controllers d)" and "\<not> aborted d (controller_of w)"
  shows "live_at d i \<longleftrightarrow> i = length (vi_waits v)"
proof (cases "i < length (vi_waits v)")
  case True
  with assms(2) have nth: "vi_waits d ! i = vi_waits v ! i" by (simp add: nth_append)
  have "\<not> live_at d i"
  proof
    assume "live_at d i"
    then obtain u where u: "vi_waits v ! i = Some u" "\<not> aborted d (controller_of u)" using nth by (auto simp: live_at_def split: option.splits)
    then have "Some u \<in> set (vi_waits v)" using True by (metis nth_mem)
    then have "controller_of u < length (vi_controllers v)" "aborted v (controller_of u)" using assms(1) by (auto simp: idle_waits_def waits_ok_def)
    with assms(3) u show False by blast
  qed
  with True show ?thesis by simp
next
  case False
  then show ?thesis using assms(2,5) by (auto simp: live_at_def nth_append split: option.splits)
qed

lemma awaited_ok:
  assumes q: "idle_waits v" and d: "vi_waits d = vi_waits v @ [Some w]" and mono: "\<And>c. c < length (vi_controllers v) \<Longrightarrow> aborted v c \<Longrightarrow> aborted d c"
    and len: "length (vi_controllers v) \<le> length (vi_controllers d)" and ctl: "controllers_ok d"
    and w: "controller_of w < length (vi_controllers d)" "\<not> aborted d (controller_of w)" "timely (vi_clock d) w"
    and timer: "if is_timer w then vi_timerRef d = Some (length (vi_waits v)) else unset_timer v \<and> vi_timerRef d = vi_timerRef v"
    and clock: "vi_clock d = vi_clock v" and gen: "vi_mounted d" "vs_isGenerating (vi_state d)"
  shows "video_ok d"
proof -
  note live = append_live [OF q d mono len w(2)]
  have "waits_ok d" using q d len w(1,3) clock by (fastforce simp: idle_waits_def waits_ok_def)
  moreover have "timers_ok d" using idle_timers [OF q] d timer w(2)
    by (auto simp: timers_ok_def nth_append less_Suc_eq unset_timer_def split: if_splits)
  moreover have "live_ok d" using live gen by (auto simp: live_ok_def)
  ultimately show ?thesis using ctl by (simp add: video_ok_def)
qed

lemma generate_ok:
  assumes "video_ok v" and "vi_mounted v"
  shows "video_ok (video_generate model grp prompt seconds dims v)"
proof (cases "js_trim prompt = [] \<or> model = []")
  case False
  let ?v1 = "abort_current (clearTimer v)"
  have all: "list_all id (vi_controllers ?v1)" using assms(1) abort_all by (simp add: video_ok_def)
  show ?thesis
    by (rule awaited_ok [OF abort_clear_idle [OF assms(1)]])
      (use False all assms(2) in \<open>auto simp: video_generate_def Let_def aborted_def nth_append controllers_ok_def list_all_length IDLE_def less_Suc_eq
        unset_timer_def\<close>)
qed (use assms in \<open>auto simp: video_generate_def Let_def\<close>)

subsection \<open>Steps of the service and the timers\<close>

lemma nextPollDelay_from: "3 \<le> a \<Longrightarrow> nextPollDelay (int a) = 15000"
proof -
  assume "3 \<le> a"
  then have "(2::int) ^ 3 \<le> 2 ^ a" by (intro power_increasing) simp_all
  then show ?thesis by (simp add: nextPollDelay_def VIDEO_POLL_INITIAL_MS_def VIDEO_POLL_MAX_MS_def)
qed

lemma total_delay_from: "total_delay (a + 2) = 15000 * int a + 21000"
proof (induction a)
  case 0
  show ?case by (simp add: numeral_2_eq_2 nextPollDelay_def VIDEO_POLL_INITIAL_MS_def VIDEO_POLL_MAX_MS_def)
next
  case (Suc a)
  then show ?case using nextPollDelay_from [of "Suc (a + 2)"] by simp
qed

lemma total_delay_in_time: "total_delay a < VIDEO_POLL_TIMEOUT_MS \<Longrightarrow> a \<le> 40"
proof (cases "a \<le> 1")
  case False
  assume "total_delay a < VIDEO_POLL_TIMEOUT_MS"
  moreover have "total_delay a = 15000 * int (a - 2) + 21000" using total_delay_from [of "a - 2"] False by (simp only: le_add_diff_inverse2)
  ultimately show ?thesis by (simp add: VIDEO_POLL_TIMEOUT_MS_def)
qed simp

lemma timely_later: "timely t w \<Longrightarrow> t \<le> now \<Longrightarrow> timely now w"
  by (cases w) auto

text \<open>The wait \<open>k\<close> is over.\<close>

definition ended :: "nat \<Rightarrow> int \<Rightarrow> video \<Rightarrow> video" where
  "ended k now v = v\<lparr>vi_waits := (vi_waits v)[k := None], vi_clock := now\<rparr>"

lemma ended_simps [simp]:
  "vi_controllers (ended k now v) = vi_controllers v" "vi_abortRef (ended k now v) = vi_abortRef v" "vi_mounted (ended k now v) = vi_mounted v"
  "vi_state (ended k now v) = vi_state v" "vi_clock (ended k now v) = now" "vi_timerRef (ended k now v) = vi_timerRef v"
  "vi_waits (ended k now v) = (vi_waits v)[k := None]" "aborted (ended k now v) = aborted v"
  by (simp_all add: ended_def aborted_def fun_eq_iff)

lemma ended_waits_ok: "waits_ok v \<Longrightarrow> vi_clock v \<le> now \<Longrightarrow> waits_ok (ended k now v)"
  by (auto simp: waits_ok_def dest!: Some_update intro: timely_later)

lemma ended_live_at: "k < length (vi_waits v) \<Longrightarrow> live_at (ended k now v) i \<longleftrightarrow> live_at v i \<and> i \<noteq> k"
  by (cases "i = k") (simp_all add: live_at_def split: option.split)

lemma ended_live:
  assumes ok: "video_ok v" and k: "k < length (vi_waits v)" "vi_waits v ! k = Some w" "\<not> aborted v (controller_of w)" and now: "vi_clock v \<le> now"
  shows "idle_waits (ended k now v)" and "unset_timer (ended k now v)"
proof -
  have "live_at v k" using k by (simp add: live_at_def)
  then have only: "i = k" if "live_at v i" for i using ok that unfolding video_ok_def live_ok_def by blast
  have "aborted v (controller_of u) \<and> \<not> is_timer u" if u: "Some u \<in> set ((vi_waits v)[k := None])" for u
  proof -
    obtain i where i: "i < length (vi_waits v)" "(vi_waits v)[k := None] ! i = Some u" using u by (auto simp: in_set_conv_nth)
    have "i \<noteq> k" "vi_waits v ! i = Some u" using nth_cleared [OF i] by simp_all
    with only [of i] i(1) have "aborted v (controller_of u)" by (auto simp: live_at_def)
    with ok timers_okD(1) [OF _ i(1) \<open>vi_waits v ! i = Some u\<close>] show ?thesis by (auto simp: video_ok_def)
  qed
  with ok now ended_waits_ok [of v now k] show "idle_waits (ended k now v)" by (auto simp: idle_waits_def video_ok_def)
  have "(vi_waits v)[k := None] ! j = None" if "vi_timerRef v = Some j" for j
  proof (rule ccontr)
    assume "(vi_waits v)[k := None] ! j \<noteq> None"
    then obtain u where u: "(vi_waits v)[k := None] ! j = Some u" by auto
    have j: "j < length (vi_waits v)" using ok that timers_okD(2) by (auto simp: video_ok_def)
    have "j \<noteq> k" "vi_waits v ! j = Some u" using nth_cleared [OF j u] by simp_all
    with ok that j have "live_at v j" using timers_okD(1) [OF _ j] timers_okD(3) [OF _ that] by (auto simp: video_ok_def live_at_def)
    with only \<open>j \<noteq> k\<close> show False by blast
  qed
  with ok show "unset_timer (ended k now v)" using timers_okD(2) by (auto simp: unset_timer_def video_ok_def)
qed

lemma ended_aborted_ok:
  assumes ok: "video_ok v" and k: "k < length (vi_waits v)" "vi_waits v ! k = Some w" "aborted v (controller_of w)" and now: "vi_clock v \<le> now"
  shows "video_ok (ended k now v)"
proof -
  have dead: "\<not> live_at v k" using k by (simp add: live_at_def)
  have "live_at (ended k now v) = live_at v" using ended_live_at [OF k(1)] dead by (auto simp: fun_eq_iff)
  then have "live_ok (ended k now v)" using ok unfolding video_ok_def live_ok_def ended_simps by metis
  moreover have "timers_ok (ended k now v)"
    unfolding timers_ok_def ended_simps length_list_update using ok timers_okD [of v] nth_cleared [of _ "vi_waits v" k]
    unfolding video_ok_def by blast
  ultimately show ?thesis using ok now ended_waits_ok [of v now k] controllers_ok_cong [of "ended k now v" v]
    by (simp add: video_ok_def)
qed

lemma live_mounted: "video_ok v \<Longrightarrow> live_at v k \<Longrightarrow> vi_mounted v \<and> vs_isGenerating (vi_state v)"
  by (auto simp: video_ok_def live_ok_def live_at_def waits_ok_def aborted_def list_all_length split: option.splits if_splits)
    (metis nth_mem)+

lemma settled_state_ok:
  assumes "idle_waits d" "unset_timer d" "controllers_ok d" "vi_mounted d" "\<And>s. \<not> vs_isGenerating (f s)"
  shows "video_ok (set_state f d)"
  by (rule idle_ok) (use assms idle_cong [of "set_state f d" d] controllers_ok_cong [of "set_state f d" d] in
    \<open>simp_all add: unset_timer_def\<close>)

lemma scheduled_ok:
  assumes "idle_waits d" "unset_timer d" "controllers_ok d" "vi_mounted d" "vs_isGenerating (vi_state d)"
    and p: "pk_controller p < length (vi_controllers d)" "\<not> aborted d (pk_controller p)" "pk_attempt p \<le> 41"
    and time: "pk_started p + total_delay (pk_attempt p) \<le> now + nextPollDelay (int (pk_attempt p))"
  shows "video_ok (schedule_poll now p d)"
  by (rule awaited_ok [OF assms(1), of _ "PollTimer (now + nextPollDelay (int (pk_attempt p))) p"])
    (use assms controllers_ok_cong [of "schedule_poll now p d" d] in \<open>simp_all add: schedule_poll_def aborted_def\<close>)

text \<open>A call ends, with an answer only if its signal was not aborted.\<close>

lemma controllers_ended: "controllers_ok v \<Longrightarrow> controllers_ok (ended k now v)"
  using controllers_ok_cong [of "ended k now v" v] by simp

lemma submit_return_ok:
  assumes ok: "video_ok v" and k: "k < length (vi_waits v)" "vi_waits v ! k = Some (SubmitCall c req)"
    and now: "vi_clock v \<le> now" and signal: "aborted v c \<Longrightarrow> \<exists>e. r = Inl e"
  shows "video_ok (submit_return c now r (ended k now v))"
proof (cases "aborted v c")
  case True
  then show ?thesis using signal ended_aborted_ok [OF ok k _ now] by (auto simp: submit_return_def)
next
  case False
  then have live: "live_at v k" using k by (simp add: live_at_def)
  note idle_waits = ended_live [OF ok k _ now]
  have c: "c < length (vi_controllers v)" using ok nth_mem [OF k(1)] k(2) by (auto simp: video_ok_def waits_ok_def)
  have m: "vi_mounted v" "vs_isGenerating (vi_state v)" "controllers_ok (ended k now v)"
    using live_mounted [OF ok live] ok controllers_ended by (simp_all add: video_ok_def)
  let ?p = "\<lambda>taskId. \<lparr>pk_controller = c, pk_task = taskId, pk_started = now, pk_attempt = 0\<rparr>"
  have "video_ok (schedule_poll now (?p taskId) (ended k now v))" for taskId
    by (rule scheduled_ok) (use idle_waits m c False in simp_all)
  moreover have "video_ok (set_state (\<lambda>_. IDLE\<lparr>vs_status := StFailed, vs_error := e\<rparr>) (ended k now v))" for e
    by (rule settled_state_ok) (use idle_waits m False in \<open>simp_all add: IDLE_def\<close>)
  ultimately show ?thesis using False by (simp add: submit_return_def split: sum.split option.split)
qed

lemma poll_return_ok:
  assumes ok: "video_ok v" and k: "k < length (vi_waits v)" "vi_waits v ! k = Some (PollCall p)"
    and now: "vi_clock v \<le> now" and signal: "aborted v (pk_controller p) \<Longrightarrow> \<exists>e. r = Inl e"
  shows "video_ok (poll_return lower p now r (ended k now v))"
proof (cases "aborted v (pk_controller p)")
  case True
  then show ?thesis using signal ended_aborted_ok [OF ok k _ now] by (auto simp: poll_return_def)
next
  case False
  then have live: "live_at v k" using k by (simp add: live_at_def)
  note idle_waits = ended_live [OF ok k _ now]
  have p: "pk_controller p < length (vi_controllers v)" "pk_started p + total_delay (pk_attempt p) \<le> now"
    using ok nth_mem [OF k(1)] k(2) now by (auto simp: video_ok_def waits_ok_def)
  have m: "vi_mounted v" "vs_isGenerating (vi_state v)" "controllers_ok (ended k now v)"
    using live_mounted [OF ok live] ok controllers_ended by (simp_all add: video_ok_def)
  have settled: "video_ok (set_state f (ended k now v))" if "\<And>s. \<not> vs_isGenerating (f s)" for f
    by (rule settled_state_ok) (use idle_waits m False that in simp_all)
  have "video_ok (schedule_poll now (p\<lparr>pk_attempt := pk_attempt p + 1\<rparr>) (set_state f (ended k now v)))"
    if f: "\<And>s. vs_isGenerating (f s) = vs_isGenerating s" and in_time: "\<not> isPollTimedOut (pk_started p) now" for f
  proof (rule scheduled_ok)
    have "pk_attempt p \<le> 40" using in_time p(2) by (intro total_delay_in_time) (simp add: isPollTimedOut_def)
    then show "pk_attempt (p\<lparr>pk_attempt := pk_attempt p + 1\<rparr>) \<le> 41" by simp
    show "idle_waits (set_state f (ended k now v))" by (rule idle_cong [OF _ _ _ idle_waits(1)]) (use False in simp_all)
    show "controllers_ok (set_state f (ended k now v))" using m(3) controllers_ok_cong [of "set_state f (ended k now v)" "ended k now v"] by simp
  qed (use idle_waits m p False f in \<open>simp_all add: unset_timer_def aborted_def\<close>)
  with settled False show ?thesis
    by (simp add: poll_return_def Let_def shouldKeepPolling_def split: sum.split)
qed

lemma fires_ok:
  assumes ok: "video_ok v" and k: "k < length (vi_waits v)" "vi_waits v ! k = Some (PollTimer due p)"
    and now: "vi_clock v \<le> now" "due \<le> now"
  shows "video_ok (v\<lparr>vi_waits := (vi_waits v)[k := None] @ [Some (PollCall p)], vi_clock := now\<rparr>)"
proof -
  have w: "Some (PollTimer due p) \<in> set (vi_waits v)" using nth_mem [OF k(1)] k(2) by simp
  have alive: "\<not> aborted v (pk_controller p)" using ok timers_okD(1) [OF _ k] by (simp add: video_ok_def)
  then have live: "live_at v k" using k by (simp add: live_at_def)
  note idle_waits = ended_live [OF ok k _ now(1)]
  let ?d = "v\<lparr>vi_waits := (vi_waits v)[k := None] @ [Some (PollCall p)], vi_clock := now\<rparr>"
  have "controllers_ok ?d" using ok controllers_ok_cong [of ?d v] by (simp add: video_ok_def)
  moreover have "pk_controller p < length (vi_controllers v)" "timely now (PollCall p)" using ok w now by (auto simp: video_ok_def waits_ok_def)
  ultimately show ?thesis
    using idle_waits alive live_mounted [OF ok live]
    by (intro awaited_ok [of "ended k now v" _ "PollCall p"]) (simp_all add: aborted_def)
qed

lemma video_next_ok: "video_ok v \<Longrightarrow> video_next lower e v = Some v1 \<Longrightarrow> video_ok v1"
proof (cases e)
  case (Returns k now r)
  assume ok: "video_ok v" and "video_next lower e v = Some v1"
  then have k: "k < length (vi_waits v)" and h: "honoured (Returns k now r) v" and s: "video_step lower (Returns k now r) v = Some v1"
    using Returns by (auto simp: video_next_def split: if_splits)
  have signal: "\<exists>e. r = Inl e" if "vi_waits v ! k = Some w" "aborted v (controller_of w)" for w using h that by (cases r) simp_all
  show ?thesis
  proof (cases "vi_waits v ! k")
    case (Some w)
    then show ?thesis using k h s signal [OF Some] submit_return_ok [OF ok k] poll_return_ok [OF ok k]
      by (cases w) (auto simp: Let_def ended_def)
  qed (use s in \<open>simp add: Let_def split: if_splits\<close>)
next
  case (Fires k now)
  assume "video_ok v" and "video_next lower e v = Some v1"
  then show ?thesis using Fires fires_ok [of v k _ _ now]
    by (auto simp: video_next_def split: if_splits option.splits video_wait.splits)
qed (auto simp: video_next_def generate_ok cancel_ok leave_ok split: if_splits)

lemma reachable_video_ok: "video_reachable lower v \<Longrightarrow> video_ok v"
proof (induction rule: video_reachable.induct)
  case (start now)
  show ?case by (simp add: initial_video_def video_ok_def waits_ok_def timers_ok_def controllers_ok_def live_ok_def live_at_def IDLE_def)
qed (rule video_next_ok)

subsection \<open>Late answers\<close>

text \<open>What the user sees, and what a later step can depend on: the references, the controllers, and how many calls and timers were started.\<close>

definition video_view :: "video \<Rightarrow> generation_state \<times> nat option \<times> nat option \<times> bool list \<times> nat" where
  "video_view v = (vi_state v, vi_timerRef v, vi_abortRef v, vi_controllers v, length (vi_waits v))"

text \<open>The end of one of the first \<open>n\<close> waits, and the condition that none of them counts any more.\<close>

fun event_before :: "nat \<Rightarrow> video_event \<Rightarrow> bool" where
  "event_before n (Returns k now r) = (k < n)"
| "event_before n (Fires k now) = (k < n)"
| "event_before n e = False"

definition overtaken :: "nat \<Rightarrow> video \<Rightarrow> bool" where
  "overtaken n v \<longleftrightarrow> n \<le> length (vi_waits v)
     \<and> (\<forall>i < n. \<forall>w. vi_waits v ! i = Some w \<longrightarrow> aborted v (controller_of w) \<and> \<not> is_timer w)"

text \<open>Waits are only added at the end or cleared, and a controller stays aborted.\<close>

definition grows :: "video \<Rightarrow> video \<Rightarrow> bool" where
  "grows v d \<longleftrightarrow> length (vi_waits v) \<le> length (vi_waits d) \<and> (\<forall>c. aborted v c \<longrightarrow> aborted d c)
     \<and> (\<forall>i < length (vi_waits v). vi_waits d ! i = vi_waits v ! i \<or> vi_waits d ! i = None)"

lemma grows_refl: "grows v v"
  by (simp add: grows_def)

lemma grows_trans: "grows u v \<Longrightarrow> grows v w \<Longrightarrow> grows u w"
  unfolding grows_def by (metis order.trans order.strict_trans2)

lemma grows_overtaken: "grows v d \<Longrightarrow> overtaken n v \<Longrightarrow> overtaken n d"
  unfolding grows_def overtaken_def by (metis option.distinct(1) order.trans order.strict_trans2)

lemma grows_cleared: "grows v (abort_current (clearTimer v))"
proof -
  have "aborted (abort_current d) c" if "aborted d c" for d c
  proof (cases "vi_abortRef d")
    case (Some k)
    then show ?thesis using that by (cases "k = c") (simp_all add: aborted_def abort_current_def)
  qed (use that in \<open>simp add: abort_current_def\<close>)
  moreover have "aborted (clearTimer v) = aborted v" by (simp add: aborted_def fun_eq_iff)
  moreover have "vi_waits (clearTimer v) ! i = vi_waits v ! i \<or> vi_waits (clearTimer v) ! i = None" if "i < length (vi_waits v)" for i
    using that by (cases "vi_timerRef v") (auto simp: clearTimer_def dest: nth_cleared)
  ultimately show ?thesis by (simp add: grows_def)
qed

lemma grows_set_state: "grows v (set_state f v)"
  by (simp add: grows_def aborted_def)

lemma grows_schedule: "grows v (schedule_poll now p v)"
  by (simp add: grows_def aborted_def schedule_poll_def nth_append)

lemma grows_ended: "k < length (vi_waits v) \<Longrightarrow> grows v (ended k now v)"
  by (simp add: grows_def nth_list_update)

lemma grows_submit: "grows v (submit_return c now r v)"
  by (simp add: submit_return_def grows_refl grows_set_state grows_schedule split: sum.split option.split)

lemma grows_poll: "grows v (poll_return lower p now r v)"
  by (auto simp: poll_return_def Let_def grows_refl grows_set_state split: sum.split intro: grows_trans [OF grows_set_state grows_schedule])

lemma grows_generate: "grows v (video_generate model grp prompt seconds dims v)"
  using grows_cleared [of v]
  by (auto simp: video_generate_def Let_def grows_refl grows_def aborted_def nth_append less_Suc_eq)

lemma grows_cancel: "grows v (video_cancel v)" "grows v (video_leave v)"
  using grows_cleared [of v] by (auto simp: video_cancel_def video_leave_def grows_def aborted_def)

lemma video_next_grows: "video_next lower e v = Some v1 \<Longrightarrow> grows v v1"
proof (cases e)
  case (Returns k now r)
  assume "video_next lower e v = Some v1"
  then show ?thesis using Returns grows_trans [OF grows_ended grows_submit] grows_trans [OF grows_ended grows_poll]
    by (auto simp: video_next_def Let_def ended_def split: if_splits option.splits video_wait.splits)
next
  case (Fires k now)
  assume "video_next lower e v = Some v1"
  then show ?thesis using Fires
    by (auto simp: video_next_def grows_def aborted_def nth_append nth_list_update split: if_splits option.splits video_wait.splits)
qed (auto simp: video_next_def grows_generate grows_cancel split: if_splits)

lemma overtaken_event:
  "event_before n e \<Longrightarrow> overtaken n v \<Longrightarrow> video_next lower e v = Some v1 \<Longrightarrow> overtaken n v1 \<and> video_view v1 = video_view v"
proof -
  assume e: "event_before n e" and o: "overtaken n v" and s: "video_next lower e v = Some v1"
  have "video_view v1 = video_view v"
  proof (cases e)
    case (Returns k now r)
    then have k: "k < n" "k < length (vi_waits v)" using e o by (auto simp: overtaken_def)
    show ?thesis
    proof (cases "vi_waits v ! k")
      case (Some w)
      then have "aborted v (controller_of w)" using o k(1) by (simp add: overtaken_def)
      with s Returns Some k(2) show ?thesis
        by (cases w; cases r) (auto simp: video_next_def Let_def submit_return_def poll_return_def video_view_def aborted_def split: if_splits)
    qed (use s Returns in \<open>simp add: video_next_def Let_def split: if_splits\<close>)
  next
    case (Fires k now)
    then have "k < n" using e by simp
    then show ?thesis using o s Fires
      by (auto simp: video_next_def overtaken_def split: if_splits option.splits video_wait.splits)
  qed (use e in simp_all)
  with grows_overtaken [OF video_next_grows [OF s] o] show ?thesis by simp
qed

interpretation video_late: overtaken_task "video_next lower" "video_trace lower" "event_before n" video_view "overtaken n" for lower n
proof (unfold_locales, goal_cases)
  case (3 e s s1)
  then show ?case by (rule overtaken_event)
next
  case (4 s e s1)
  then show ?case using grows_overtaken video_next_grows by blast
qed simp_all

text \<open>A submission that is accepted, a cancellation, or leaving the page.\<close>

fun overtakes :: "video_event \<Rightarrow> bool" where
  "overtakes (Generate model grp prompt seconds dims) = (js_trim prompt \<noteq> [] \<and> model \<noteq> [])"
| "overtakes Cancel = True"
| "overtakes Leave = True"
| "overtakes e = False"

lemma idle_overtaken:
  assumes "idle_waits d" and "length (vi_waits d) = n" and "grows d v"
  shows "overtaken n v"
  by (rule grows_overtaken [OF assms(3)]) (use assms(2) idle_timers [OF assms(1)] in \<open>auto simp: overtaken_def\<close>)

lemma overtakes_all:
  assumes ok: "video_ok v" and e: "overtakes e" and s: "video_next lower e v = Some v1"
  shows "overtaken (length (vi_waits v)) v1"
proof (rule idle_overtaken [OF abort_clear_idle [OF ok]])
  show "grows (abort_current (clearTimer v)) v1" using e s
    by (cases e) (auto simp: video_next_def video_generate_def video_cancel_def video_leave_def Let_def grows_def aborted_def nth_append less_Suc_eq
        split: if_splits)
qed simp

subsection \<open>Polling ends\<close>

text \<open>How many events a wait can still cause: a submission the 42 polls, each with a timer and a call.\<close>

fun work :: "video_wait option \<Rightarrow> nat" where
  "work None = 0"
| "work (Some (SubmitCall c r)) = 85"
| "work (Some (PollTimer due p)) = 2 * (42 - pk_attempt p)"
| "work (Some (PollCall p)) = 2 * (42 - pk_attempt p) - 1"

definition video_work :: "video \<Rightarrow> nat" where
  "video_work v = sum_list (map work (vi_waits v))"

lemma work_ended: "k < length (vi_waits v) \<Longrightarrow> video_work (ended k now v) + work (vi_waits v ! k) = video_work v"
  by (simp add: video_work_def map_update sum_list_update member_le_sum_list)

lemma work_simps [simp]:
  "video_work (set_state f v) = video_work v"
  "video_work (schedule_poll now p v) = video_work v + 2 * (42 - pk_attempt p)"
  by (simp_all add: video_work_def schedule_poll_def)

lemma work_submit: "video_work (submit_return c now r v) \<le> video_work v + 84"
  by (simp add: submit_return_def split: sum.split option.split)

lemma work_poll: "video_work (poll_return lower p now r v) \<le> video_work v + 2 * (41 - pk_attempt p)"
  by (simp add: poll_return_def Let_def split: sum.split)

lemma work_fires:
  "k < length (vi_waits v) \<Longrightarrow> video_work (v\<lparr>vi_waits := (vi_waits v)[k := None] @ [Some w], vi_clock := now\<rparr>)
     = video_work (ended k now v) + work (Some w)"
  by (simp add: video_work_def)

lemma work_decreases:
  assumes ok: "video_ok v" and e: "answers e" and s: "video_next lower e v = Some v1"
  shows "video_work v1 < video_work v"
proof -
  have attempt: "pk_attempt p \<le> 41" if "k < length (vi_waits v)" "vi_waits v ! k = Some w" "w = PollCall p \<or> w = PollTimer due p" for k w due p
    using ok that nth_mem [OF that(1)] by (auto simp: video_ok_def waits_ok_def)
  show ?thesis
  proof (cases e)
    case (Returns k now r)
    then have k: "k < length (vi_waits v)" using s by (auto simp: video_next_def split: if_splits)
    obtain w where w: "vi_waits v ! k = Some w" using s k Returns by (auto simp: video_next_def Let_def split: if_splits option.splits)
    show ?thesis
    proof (cases w)
      case (SubmitCall c q)
      then have "v1 = submit_return c now r (ended k now v)" using s k w Returns by (simp add: video_next_def Let_def ended_def split: if_splits)
      then show ?thesis using work_ended [OF k, of now] work_submit [of c now r "ended k now v"] w SubmitCall by simp
    next
      case (PollTimer due p)
      then show ?thesis using s k w Returns by (simp add: video_next_def Let_def split: if_splits)
    next
      case (PollCall p)
      then have "v1 = poll_return lower p now r (ended k now v)" using s k w Returns by (simp add: video_next_def Let_def ended_def split: if_splits)
      then show ?thesis using work_ended [OF k, of now] work_poll [of lower p now r "ended k now v"] w PollCall attempt [OF k w, of p] by simp
    qed
  next
    case (Fires k now)
    then have k: "k < length (vi_waits v)" using s by (auto simp: video_next_def split: if_splits)
    obtain due p where w: "vi_waits v ! k = Some (PollTimer due p)"
      using s k Fires by (auto simp: video_next_def split: if_splits option.splits video_wait.splits)
    have "v1 = v\<lparr>vi_waits := (vi_waits v)[k := None] @ [Some (PollCall p)], vi_clock := now\<rparr>"
      using s k w Fires by (simp add: video_next_def split: if_splits)
    then show ?thesis using w work_ended [OF k, of now] attempt [OF k w, of p due] work_fires [OF k, of now "PollCall p"] by simp
  qed (use e in simp_all)
qed

lemma work_length: "video_ok v \<Longrightarrow> list_all answers es \<Longrightarrow> video_trace lower es v = Some v1 \<Longrightarrow> length es + video_work v1 \<le> video_work v \<and> video_ok v1"
proof (induction es arbitrary: v)
  case (Cons e es)
  then obtain d where d: "video_next lower e v = Some d" "video_trace lower es d = Some v1" by (auto simp: bind_eq_Some_conv)
  with Cons.prems Cons.IH [of d] video_next_ok [OF Cons.prems(1) d(1)] work_decreases [OF Cons.prems(1) _ d(1)] show ?case by simp
qed simp

lemma work_bound: "video_work v \<le> 85 * length (filter (\<lambda>w. w \<noteq> None) (vi_waits v))"
proof -
  have w: "work x \<le> (if x \<noteq> None then 85 else 0)" for x by (cases x rule: work.cases) auto
  have "sum_list (map work xs) \<le> 85 * length (filter (\<lambda>w. w \<noteq> None) xs)" for xs
  proof (induction xs)
    case (Cons x xs)
    then show ?case using w [of x] by (cases x) (simp_all add: add_mono)
  qed simp
  then show ?thesis by (simp add: video_work_def)
qed

lemma live_progress:
  assumes "live_at v i"
  shows "\<exists>e. answers e \<and> video_next lower e v \<noteq> None"
proof -
  obtain w where w: "i < length (vi_waits v)" "vi_waits v ! i = Some w" using assms by (auto simp: live_at_def split: option.splits)
  show ?thesis
  proof (cases w)
    case (PollTimer due p)
    with w show ?thesis by (intro exI [of _ "Fires i (max (vi_clock v) due)"]) (simp add: video_next_def)
  qed (use w in \<open>auto simp: video_next_def intro!: exI [of _ "Returns i (vi_clock v) (Inl None)"]\<close>)
qed

subsection \<open>A run\<close>

definition demo_task :: jsval where
  "demo_task = VObj [(js ''id'', VStr (js ''t''))]"

text \<open>A submission, its answer at time 10, and the timer at time 3010.\<close>

definition demo_events :: "video_event list" where
  "demo_events = [Generate (js ''veo'') [] (js ''sea'') None None, Returns 0 10 (Inr demo_task), Fires 1 3010]"

definition demo_video :: video where
  "demo_video = \<lparr>vi_state = IDLE\<lparr>vs_isGenerating := True, vs_status := StPending\<rparr>, vi_mounted = True, vi_timerRef = Some 1, vi_abortRef = Some 0,
     vi_controllers = [False],
     vi_waits = [None, None, Some (PollCall \<lparr>pk_controller = 0, pk_task = js ''t'', pk_started = 10, pk_attempt = 0\<rparr>)], vi_clock = 3010\<rparr>"

lemma demo_trace: "video_trace id demo_events (initial_video 0) = Some demo_video"
  by code_simp

lemma trace_reachable: "video_reachable lower v \<Longrightarrow> video_trace lower es v = Some v1 \<Longrightarrow> video_reachable lower v1"
proof (induction es arbitrary: v)
  case (Cons e es)
  then show ?case by (auto simp: bind_eq_Some_conv intro: video_reachable.step)
qed simp

lemma demo_video_reachable: "video_reachable id demo_video"
  by (rule trace_reachable [OF video_reachable.start demo_trace])

subsection \<open>Properties\<close>

text \<open>
  C30: While the component is shown, it says that it generates exactly if it waits for something of a task that is not aborted, and
  that is then a single call or timer; every timer that is set is the one that \<open>clearTimer\<close> will clear, so there is never a second series of polls.
\<close>

theorem one_task_awaited:
  assumes "video_reachable lower v" and "vi_mounted v"
  shows "(vs_isGenerating (vi_state v) \<longleftrightarrow> (\<exists>!i. live_at v i)) \<and> (\<not> vs_isGenerating (vi_state v) \<longleftrightarrow> (\<forall>i. \<not> live_at v i))
    \<and> (\<forall>i < length (vi_waits v). \<forall>due p. vi_waits v ! i = Some (PollTimer due p) \<longrightarrow> vi_timerRef v = Some i \<and> live_at v i)"
proof -
  have ok: "video_ok v" by (rule reachable_video_ok [OF assms(1)])
  then have only: "\<And>i j. live_at v i \<Longrightarrow> live_at v j \<Longrightarrow> i = j" and gen: "vs_isGenerating (vi_state v) \<longleftrightarrow> (\<exists>i. live_at v i)"
    using assms(2) unfolding video_ok_def live_ok_def by (blast, simp)
  have "vi_timerRef v = Some i \<and> live_at v i" if "i < length (vi_waits v)" "vi_waits v ! i = Some (PollTimer due p)" for i due p
    using ok that timers_okD(1) [OF _ that] by (simp add: video_ok_def live_at_def)
  with only gen show ?thesis by blast
qed

theorem one_task_awaited_witness: "vs_isGenerating (vi_state demo_video) \<and> (\<exists>!i. live_at demo_video i)"
proof -
  have "vi_mounted demo_video" "vs_isGenerating (vi_state demo_video)" by (simp_all add: demo_video_def)
  with one_task_awaited [OF demo_video_reachable] show ?thesis by blast
qed

text \<open>
  C29: A task that was cancelled or replaced has no effect any more. After a cancellation, an accepted submission or the removal of the
  component, and whatever happens in between, the end of a call or timer that was started before changes neither what is shown nor the
  references and controllers, and starts no further call or timer.
\<close>

theorem overtaken_task_silent:
  assumes "video_reachable lower v" and "overtakes e" and "video_next lower e v = Some v0" and "video_trace lower es v0 = Some v1"
    and "event_before (length (vi_waits v)) e1" and "video_next lower e1 v1 = Some v2"
  shows "video_view v2 = video_view v1"
  by (rule video_late.late_event_silent [OF overtakes_all [OF reachable_video_ok [OF assms(1)] assms(2,3)] assms(4-6)])

theorem overtaken_task_silent_witness:
  "\<exists>v1 v2. video_next id Cancel demo_video = Some v1 \<and> video_next id (Returns 2 4000 (Inl None)) v1 = Some v2
     \<and> vi_state v2 = IDLE \<and> video_view v2 = video_view v1"
proof -
  have n: "video_next id Cancel demo_video = Some (video_cancel demo_video)" by (simp add: video_next_def demo_video_def)
  obtain v2 where v2: "video_next id (Returns 2 4000 (Inl None)) (video_cancel demo_video) = Some v2" "vi_state v2 = IDLE"
    by (auto simp: video_next_def demo_video_def video_cancel_def clearTimer_def abort_current_def set_state_def aborted_def poll_return_def Let_def)
  have "event_before (length (vi_waits demo_video)) (Returns 2 4000 (Inl None))" by (simp add: demo_video_def)
  from overtaken_task_silent [OF demo_video_reachable _ n _ this v2(1), of "[]"] n v2 show ?thesis by simp
qed

text \<open>
  C31: Polling ends by itself. Without an action of the user, at most 85 events follow for each call or timer that is awaited (the
  answer to a submission, then 42 polls of a timer and a call each), because the waiting time of ten minutes is over by then; and as long as the
  page says that it generates, an event that continues the task is possible.
\<close>

theorem polling_ends:
  assumes "video_reachable lower v" and "list_all answers es" and "video_trace lower es v = Some v1"
  shows "length es \<le> 85 * length (filter (\<lambda>w. w \<noteq> None) (vi_waits v))
    \<and> (vi_mounted v1 \<longrightarrow> vs_isGenerating (vi_state v1) \<longrightarrow> (\<exists>e. answers e \<and> video_next lower e v1 \<noteq> None))"
proof -
  note w = work_length [OF reachable_video_ok [OF assms(1)] assms(2,3)]
  have "\<exists>i. live_at v1 i" if "vi_mounted v1" "vs_isGenerating (vi_state v1)" using w that by (simp add: video_ok_def live_ok_def)
  with live_progress [of v1] have "vi_mounted v1 \<longrightarrow> vs_isGenerating (vi_state v1) \<longrightarrow> (\<exists>e. answers e \<and> video_next lower e v1 \<noteq> None)"
    by blast
  then show ?thesis using w work_bound [of v] by simp
qed

theorem polling_ends_witness:
  "\<exists>v1. video_trace id [Returns 2 3500 (Inr VNull)] demo_video = Some v1 \<and> (\<exists>e. answers e \<and> video_next id e v1 \<noteq> None)"
proof -
  obtain v1 where v1: "video_trace id [Returns 2 3500 (Inr VNull)] demo_video = Some v1" "vi_mounted v1" "vs_isGenerating (vi_state v1)"
    by (auto simp: video_next_def demo_video_def aborted_def poll_return_def Let_def parsePollResponse_def shouldKeepPolling_def
        isPollTimedOut_def VIDEO_POLL_TIMEOUT_MS_def schedule_poll_def set_state_def)
  from polling_ends [OF demo_video_reachable _ v1(1)] v1 show ?thesis by auto
qed

end
