(* ===== verification/Conversations.thy ===== *)
theory Conversations
  imports ChatStream JsRounding
begin

section \<open>Conversations of the playground\<close>

text \<open>
  Model of \<^verbatim>\<open>web/src/features/playground/lib/storage/conversations.ts\<close> (the stored list of conversations),
  \<^verbatim>\<open>web/src/features/playground/lib/conversations/conversation-grouping.ts\<close> (its groups by date), the reader of stored messages in
  \<^verbatim>\<open>web/src/features/playground/lib/storage/storage.ts\<close>, and of the conversations in \<^verbatim>\<open>web/src/features/playground/hooks/use-playground-state.ts\<close>:
  the page edits the messages of one conversation and writes them back after a delay. The state \<open>desk\<close> holds the React state, the references of
  the hook and the items of \<open>localStorage\<close>; each event runs one uninterrupted piece of the program. Readings of the clock and new identifiers are
  arguments of the events.
\<close>

subsection \<open>Data and host\<close>

record conversation =
  cv_id :: jsstring
  cv_title :: jsstring
  cv_createdAt :: jsnum
  cv_updatedAt :: jsnum
  cv_messages :: "message list"

type_synonym items = "(jsstring \<times> jsstring) list"

text \<open>
  \<open>localStorage\<close> can refuse to be read, and can refuse a value (\<open>sh_accepts\<close>, for instance when the quota is reached). The schemas of the validation
  library: \<open>sh_conversation\<close> and \<open>sh_messages\<close> read an unknown value, \<open>sh_plain\<close> gives the plain value of a valid list of conversations.
\<close>

record storage_host =
  sh_reads :: bool
  sh_accepts :: "items \<Rightarrow> jsstring \<Rightarrow> jsstring \<Rightarrow> bool"
  sh_conversation :: "jsval \<Rightarrow> conversation option"
  sh_messages :: "jsval \<Rightarrow> message list option"
  sh_plain :: "conversation list \<Rightarrow> jsval option"

text \<open>\<open>JSON.stringify\<close> of a plain value; properties that are undefined are left out.\<close>

fun json_stringify :: "jsval \<Rightarrow> jsstring" where
  "json_stringify VUndefined = js ''null''"
| "json_stringify VNull = js ''null''"
| "json_stringify (VBool b) = (if b then js ''true'' else js ''false'')"
| "json_stringify (VNum x) = (if is_finite x then js_String_num x else js ''null'')"
| "json_stringify (VStr s) = json_quote s"
| "json_stringify (VArr xs) = js ''['' @ js_join (map json_stringify xs) (js '','') @ js '']''"
| "json_stringify (VObj kvs) =
    js ''{'' @ js_join (map (\<lambda>(k, v). json_quote k @ js '':'' @ json_stringify v) (filter (\<lambda>(k, v). v \<noteq> VUndefined) kvs)) (js '','') @ js ''}''"

subsection \<open>Stored conversations\<close>

definition CONVERSATIONS_KEY :: jsstring where
  "CONVERSATIONS_KEY = js ''playground_conversations''"

definition ACTIVE_CONVERSATION_KEY :: jsstring where
  "ACTIVE_CONVERSATION_KEY = js ''playground_active_conversation''"

definition MESSAGES_KEY :: jsstring where
  "MESSAGES_KEY = js ''playground_messages''"

definition MAX_CONVERSATIONS :: nat where
  "MAX_CONVERSATIONS = 50"

definition readRaw :: "storage_host \<Rightarrow> items \<Rightarrow> jsstring \<Rightarrow> jsstring option" where
  "readRaw h items key = (if sh_reads h then map_of items key else None)"

definition writeRaw :: "storage_host \<Rightarrow> jsstring \<Rightarrow> jsstring \<Rightarrow> items \<Rightarrow> bool \<times> items" where
  "writeRaw h key v items = (if sh_accepts h items key v then (True, map_set key v items) else (False, items))"

text \<open>\<open>text.replace(/\s+/g, ' ')\<close>\<close>

fun collapse_spaces :: "jsstring \<Rightarrow> jsstring" where
  "collapse_spaces [] = []"
| "collapse_spaces (c # s) =
    (if \<not> is_space c then c # collapse_spaces s
     else case s of
       [] \<Rightarrow> [32]
     | d # r \<Rightarrow> if is_space d then collapse_spaces s else 32 # collapse_spaces s)"

definition deriveConversationTitle :: "message list \<Rightarrow> jsstring" where
  "deriveConversationTitle messages =
    (let txt = (case find (\<lambda>m. ms_from m = RUser) messages of
         Some m \<Rightarrow> (case ms_versions m of v # vs \<Rightarrow> js_trim (mv_content v) | [] \<Rightarrow> [])
       | None \<Rightarrow> []) in
     if txt = [] then js ''New chat''
     else let oneLine = collapse_spaces txt in if length oneLine > 40 then take 40 oneLine @ [0x2026] else oneLine)"

definition createConversation :: "jsstring \<Rightarrow> jsnum \<Rightarrow> message list \<Rightarrow> conversation" where
  "createConversation nanoid now messages =
    \<lparr>cv_id = nanoid, cv_title = deriveConversationTitle messages, cv_createdAt = now, cv_updatedAt = now, cv_messages = messages\<rparr>"

text \<open>The most recently updated conversations, in the order of their creation.\<close>

definition newest_first :: "conversation list \<Rightarrow> conversation list" where
  "newest_first cs = sort_with (\<lambda>a b. js_lt (Fin 0) (js_sub (cv_updatedAt b) (cv_updatedAt a))) cs"

definition oldest_first :: "conversation list \<Rightarrow> conversation list" where
  "oldest_first cs = sort_with (\<lambda>a b. js_lt (Fin 0) (js_sub (cv_createdAt a) (cv_createdAt b))) cs"

definition bounded_list :: "conversation list \<Rightarrow> conversation list" where
  "bounded_list cs = oldest_first (take MAX_CONVERSATIONS (newest_first cs))"

text \<open>The loop over \<open>drop\<close>: the first suffix that is valid and is accepted is written.\<close>

fun save_suffix :: "storage_host \<Rightarrow> conversation list \<Rightarrow> items \<Rightarrow> items" where
  "save_suffix h [] items = items"
| "save_suffix h (c # cs) items =
    (case sh_plain h (c # cs) of
       None \<Rightarrow> save_suffix h cs items
     | Some v \<Rightarrow>
         (case writeRaw h CONVERSATIONS_KEY (json_stringify v) items of
            (True, items1) \<Rightarrow> items1
          | (False, items1) \<Rightarrow> save_suffix h cs items))"

definition saveConversations :: "storage_host \<Rightarrow> conversation list \<Rightarrow> items \<Rightarrow> items" where
  "saveConversations h cs items = save_suffix h (bounded_list cs) items"

definition loadActiveConversationId :: "storage_host \<Rightarrow> items \<Rightarrow> jsstring option" where
  "loadActiveConversationId h items = readRaw h items ACTIVE_CONVERSATION_KEY"

definition saveActiveConversationId :: "storage_host \<Rightarrow> jsstring \<Rightarrow> items \<Rightarrow> items" where
  "saveActiveConversationId h i items = snd (writeRaw h ACTIVE_CONVERSATION_KEY i items)"

definition has_text :: "jsstring option \<Rightarrow> bool" where
  "has_text t \<longleftrightarrow> t \<noteq> None \<and> t \<noteq> Some []"

definition migrateLegacyMessages :: "storage_host \<Rightarrow> jsstring \<Rightarrow> jsnum \<Rightarrow> items \<Rightarrow> conversation list option \<times> items" where
  "migrateLegacyMessages h nanoid now items =
    (if has_text (readRaw h items CONVERSATIONS_KEY) then (None, items)
     else if \<not> has_text (readRaw h items MESSAGES_KEY) then (None, items)
     else case Option.bind (json_parse (the (readRaw h items MESSAGES_KEY))) (sh_messages h) of
       None \<Rightarrow> (None, items)
     | Some parsed \<Rightarrow>
         if parsed = [] then (None, items)
         else let c = createConversation nanoid now parsed;
                  items1 = saveActiveConversationId h (cv_id c) (saveConversations h [c] items)
              in (Some [c], filter (\<lambda>kv. fst kv \<noteq> MESSAGES_KEY) items1))"

text \<open>Each stored conversation is read by itself; those that are not valid are left out.\<close>

definition salvaged :: "storage_host \<Rightarrow> jsstring option \<Rightarrow> conversation list" where
  "salvaged h raw =
    (if \<not> has_text raw then []
     else case json_parse (the raw) of
       Some (VArr decoded) \<Rightarrow> List.map_filter (sh_conversation h) decoded
     | _ \<Rightarrow> [])"

definition loadConversations :: "storage_host \<Rightarrow> jsstring \<Rightarrow> jsnum \<Rightarrow> items \<Rightarrow> conversation list \<times> items" where
  "loadConversations h nanoid now items =
    (let (migrated, items1) = migrateLegacyMessages h nanoid now items;
         found = salvaged h (readRaw h items1 CONVERSATIONS_KEY)
     in if found \<noteq> [] then (found, items1)
        else (case migrated of Some cs \<Rightarrow> cs | None \<Rightarrow> [createConversation nanoid now []], items1))"

subsection \<open>The reader of stored messages\<close>

definition unwrapStoredValue :: "jsval \<Rightarrow> jsval" where
  "unwrapStoredValue v =
    (case v of
       VObj kvs \<Rightarrow>
         if js ''version'' \<in> set (map fst kvs) \<and> js ''data'' \<in> set (map fst kvs) then prop_of v ''data'' else v
     | _ \<Rightarrow> v)"

text \<open>An item that is too long is removed. \<open>None\<close> is also a text that is not JSON, for which \<open>loadMessages\<close> gives null as well.\<close>

definition readStoredMessagesValue :: "storage_host \<Rightarrow> items \<Rightarrow> jsval option \<times> items" where
  "readStoredMessagesValue h items =
    (case readRaw h items MESSAGES_KEY of
       None \<Rightarrow> (None, items)
     | Some saved \<Rightarrow>
         if saved = [] then (None, items)
         else if length saved > 1024 * 1024 then (None, filter (\<lambda>kv. fst kv \<noteq> MESSAGES_KEY) items)
         else (json_parse saved, items))"

text \<open>The messages that \<open>loadMessages\<close> finds, before it trims them.\<close>

definition stored_messages :: "storage_host \<Rightarrow> items \<Rightarrow> message list option" where
  "stored_messages h items = Option.bind (fst (readStoredMessagesValue h items)) (\<lambda>v. sh_messages h (unwrapStoredValue v))"

subsection \<open>Groups by date\<close>

datatype bucket = Today | Yesterday | Last7Days | Last30Days | Older

definition CONVERSATION_BUCKET_ORDER :: "bucket list" where
  "CONVERSATION_BUCKET_ORDER = [Today, Yesterday, Last7Days, Last30Days, Older]"

definition MS_PER_DAY :: jsnum where
  "MS_PER_DAY = Fin (24 * 60 * 60 * 1000)"

text \<open>\<open>Math.round\<close>; \<open>day\<close> is \<open>startOfLocalDay\<close>, which depends on the time zone of the host.\<close>

fun math_round :: "jsnum \<Rightarrow> jsnum" where
  "math_round (Fin r) = Fin (of_int \<lfloor>r + 1 / 2\<rfloor>)"
| "math_round x = x"

definition getConversationBucket :: "(jsnum \<Rightarrow> jsnum) \<Rightarrow> jsnum \<Rightarrow> jsnum \<Rightarrow> bucket" where
  "getConversationBucket day timestamp now =
    (if \<not> is_finite timestamp then Older
     else let today = day now in
       if js_le today timestamp then Today
       else let dayDiff = math_round (js_div (js_sub today (day timestamp)) MS_PER_DAY) in
         if js_le dayDiff (Fin 1) then Yesterday
         else if js_le dayDiff (Fin 7) then Last7Days
         else if js_le dayDiff (Fin 30) then Last30Days
         else Older)"

text \<open>The loop that collects elements under their key, in a \<open>Map\<close>.\<close>

definition push_under :: "('a \<Rightarrow> 'k) \<Rightarrow> 'a \<Rightarrow> ('k \<times> 'a list) list \<Rightarrow> ('k \<times> 'a list) list" where
  "push_under key x m = (case map_of m (key x) of Some existing \<Rightarrow> map_set (key x) (existing @ [x]) m | None \<Rightarrow> map_set (key x) [x] m)"

definition collected :: "('a \<Rightarrow> 'k) \<Rightarrow> 'a list \<Rightarrow> ('k \<times> 'a list) list" where
  "collected key xs = fold (push_under key) xs []"

definition groupConversationsByDate :: "(jsnum \<Rightarrow> jsnum) \<Rightarrow> conversation list \<Rightarrow> jsnum \<Rightarrow> (bucket \<times> conversation list) list" where
  "groupConversationsByDate day cs now =
    (let buckets = collected (\<lambda>c. getConversationBucket day (cv_updatedAt c) now) cs in
     concat (map (\<lambda>b. case map_of buckets b of
         Some xs \<Rightarrow> if xs = [] then [] else [(b, newest_first xs)]
       | None \<Rightarrow> []) CONVERSATION_BUCKET_ORDER))"

definition filterConversationsByTitle :: "(jsstring \<Rightarrow> jsstring) \<Rightarrow> conversation list \<Rightarrow> jsstring \<Rightarrow> conversation list" where
  "filterConversationsByTitle lower cs query =
    (let trimmed = lower (js_trim query) in
     if trimmed = [] then cs else filter (\<lambda>c. js_includes (lower (cv_title c)) trimmed) cs)"

subsection \<open>The page\<close>

text \<open>
  \<open>pd_messages\<close>, \<open>pd_conversations\<close> and \<open>pd_active\<close> are the React state, \<open>pd_latest\<close>, \<open>pd_list\<close> and \<open>pd_current\<close> the references
  \<open>latestMessagesRef\<close>, \<open>conversationsRef\<close> and \<open>activeConversationIdRef\<close>; \<open>pd_timer\<close> says whether the delayed save is pending.
\<close>

record desk =
  pd_messages :: "message list"
  pd_conversations :: "conversation list"
  pd_active :: jsstring
  pd_latest :: "message list"
  pd_list :: "conversation list"
  pd_current :: jsstring
  pd_loading :: bool
  pd_loaded :: bool
  pd_timer :: bool
  pd_mounted :: bool
  pd_items :: items

definition initial_desk :: "items \<Rightarrow> desk" where
  "initial_desk items = \<lparr>pd_messages = [], pd_conversations = [], pd_active = [], pd_latest = [], pd_list = [], pd_current = [],
     pd_loading = True, pd_loaded = False, pd_timer = False, pd_mounted = True, pd_items = items\<rparr>"

definition persistConversations :: "storage_host \<Rightarrow> conversation list \<Rightarrow> desk \<Rightarrow> desk" where
  "persistConversations h nextConversations d =
    d\<lparr>pd_list := nextConversations, pd_items := saveConversations h nextConversations (pd_items d)\<rparr>"

definition persistMessages :: "message list \<Rightarrow> desk \<Rightarrow> desk" where
  "persistMessages messagesToSave d =
    (let d1 = d\<lparr>pd_latest := messagesToSave\<rparr> in
     if \<not> pd_loaded d1 then d1 else d1\<lparr>pd_timer := True\<rparr>)"

text \<open>
  The program calls \<open>persistMessages\<close> inside the function that it passes to \<open>setMessages\<close>. React may defer that function to the next
  rendering; here it runs at once. The difference could only be seen by an operation on another conversation in between, and the
  sidebar that offers these is disabled while an answer is generated.
\<close>

definition updateMessages :: "message list + (message list \<Rightarrow> message list) \<Rightarrow> desk \<Rightarrow> desk" where
  "updateMessages updater d =
    (let newMessages = (case updater of Inl ms \<Rightarrow> ms | Inr f \<Rightarrow> f (pd_messages d))
     in (persistMessages newMessages d)\<lparr>pd_messages := newMessages\<rparr>)"

text \<open>The callback of the delayed save.\<close>

definition save_timer :: "storage_host \<Rightarrow> jsnum \<Rightarrow> desk \<Rightarrow> desk" where
  "save_timer h now d =
    (let updated = map (\<lambda>c. if cv_id c = pd_current d
           then c\<lparr>cv_messages := pd_latest d,
                  cv_title := (if list_ex (\<lambda>m. ms_from m = RUser) (pd_latest d) then deriveConversationTitle (pd_latest d) else cv_title c),
                  cv_updatedAt := now\<rparr>
           else c) (pd_list d)
     in (persistConversations h updated (d\<lparr>pd_timer := False\<rparr>))\<lparr>pd_conversations := updated\<rparr>)"

text \<open>A pending save is done at once when the conversation changes.\<close>

definition flush_pending :: "storage_host \<Rightarrow> jsnum \<Rightarrow> desk \<Rightarrow> desk" where
  "flush_pending h now d =
    (if pd_timer d
     then persistConversations h
       (map (\<lambda>c. if cv_id c = pd_current d then c\<lparr>cv_messages := pd_latest d, cv_updatedAt := now\<rparr> else c) (pd_list d)) (d\<lparr>pd_timer := False\<rparr>)
     else d)"

definition activate :: "storage_host \<Rightarrow> conversation \<Rightarrow> desk \<Rightarrow> desk" where
  "activate h c d = d\<lparr>pd_current := cv_id c, pd_latest := cv_messages c, pd_active := cv_id c, pd_messages := cv_messages c,
     pd_items := saveActiveConversationId h (cv_id c) (pd_items d)\<rparr>"

definition load_desk :: "storage_host \<Rightarrow> jsstring \<Rightarrow> jsnum \<Rightarrow> desk \<Rightarrow> desk" where
  "load_desk h nanoid now d =
    (let (loaded, items1) = loadConversations h nanoid now (pd_items d);
         savedActiveId = loadActiveConversationId h items1;
         active = (case find (\<lambda>c. Some (cv_id c) = savedActiveId) loaded of Some c \<Rightarrow> c | None \<Rightarrow> hd loaded);
         d1 = d\<lparr>pd_loading := False, pd_items := items1\<rparr>
     in if \<not> pd_mounted d then d1
        else activate h active (d1\<lparr>pd_list := loaded, pd_loaded := True, pd_conversations := loaded\<rparr>))"

definition createNewConversation :: "storage_host \<Rightarrow> jsstring \<Rightarrow> jsnum \<Rightarrow> jsnum \<Rightarrow> desk \<Rightarrow> desk" where
  "createNewConversation h nanoid now0 now d =
    (let d1 = flush_pending h now0 d;
         fresh = createConversation nanoid now [];
         next_list = bounded_list (pd_list d1 @ [fresh])
     in activate h fresh ((persistConversations h next_list d1)\<lparr>pd_conversations := next_list\<rparr>))"

definition switchConversation :: "storage_host \<Rightarrow> jsstring \<Rightarrow> jsnum \<Rightarrow> desk \<Rightarrow> desk" where
  "switchConversation h i now d =
    (if i = pd_current d then d
     else let d1 = flush_pending h now d in
       case find (\<lambda>c. cv_id c = i) (pd_list d1) of None \<Rightarrow> d1 | Some target \<Rightarrow> activate h target d1)"

definition deleteConversation :: "storage_host \<Rightarrow> jsstring \<Rightarrow> jsstring \<Rightarrow> jsnum \<Rightarrow> desk \<Rightarrow> desk" where
  "deleteConversation h i nanoid now d =
    (let rest = filter (\<lambda>c. cv_id c \<noteq> i) (pd_list d);
         next_list = (if rest = [] then [createConversation nanoid now []] else rest);
         d1 = (persistConversations h next_list d)\<lparr>pd_conversations := next_list\<rparr>
     in if i = pd_current d then activate h (hd next_list) d1 else d1)"

text \<open>The clean-up when the page is left.\<close>

definition leave_desk :: "storage_host \<Rightarrow> desk \<Rightarrow> desk" where
  "leave_desk h d =
    (let d1 = d\<lparr>pd_mounted := False\<rparr> in
     if pd_timer d1 then persistConversations h (pd_list d1) (d1\<lparr>pd_timer := False\<rparr>) else d1)"

subsection \<open>Events\<close>

datatype desk_event =
    Load jsstring jsnum
  | Edit "message list + (message list \<Rightarrow> message list)"
  | SaveNow jsnum
  | NewConversation jsstring jsnum jsnum
  | Switch jsstring jsnum
  | Delete jsstring jsstring jsnum
  | LeavePage

fun desk_step :: "storage_host \<Rightarrow> desk_event \<Rightarrow> desk \<Rightarrow> desk option" where
  "desk_step h (Load nanoid now) d = (if pd_loading d then Some (load_desk h nanoid now d) else None)"
| "desk_step h (Edit u) d = (if pd_mounted d then Some (updateMessages u d) else None)"
| "desk_step h (SaveNow now) d = (if pd_timer d then Some (save_timer h now d) else None)"
| "desk_step h (NewConversation nanoid now0 now) d = (if pd_mounted d then Some (createNewConversation h nanoid now0 now d) else None)"
| "desk_step h (Switch i now) d = (if pd_mounted d then Some (switchConversation h i now d) else None)"
| "desk_step h (Delete i nanoid now) d = (if pd_mounted d then Some (deleteConversation h i nanoid now d) else None)"
| "desk_step h LeavePage d = (if pd_mounted d then Some (leave_desk h d) else None)"

text \<open>
  What the page relies on: new identifiers are new, a stored list does not have one twice, and when a conversation is created, fewer than
  50 others carry a time of update that is not before the clock.
\<close>

definition not_before :: "jsnum \<Rightarrow> conversation \<Rightarrow> bool" where
  "not_before now c \<longleftrightarrow> num_val now \<le> num_val (cv_updatedAt c)"

definition usable_time :: "jsnum \<Rightarrow> bool" where
  "usable_time x \<longleftrightarrow> is_finite x \<and> on_grid (num_val x)"

definition clock_ok :: "jsnum \<Rightarrow> conversation list \<Rightarrow> bool" where
  "clock_ok now cs \<longleftrightarrow> usable_time now \<and> list_all (\<lambda>c. usable_time (cv_updatedAt c)) cs
     \<and> length (filter (not_before now) cs) < MAX_CONVERSATIONS"

fun host_ok :: "storage_host \<Rightarrow> desk_event \<Rightarrow> desk \<Rightarrow> bool" where
  "host_ok h (Load nanoid now) d = distinct (map cv_id (fst (loadConversations h nanoid now (pd_items d))))"
| "host_ok h (NewConversation nanoid now0 now) d \<longleftrightarrow>
    nanoid \<notin> set (map cv_id (pd_list d)) \<and> clock_ok now (pd_list (flush_pending h now0 d))"
| "host_ok h (Delete i nanoid now) d = (nanoid \<notin> set (map cv_id (pd_list d)))"
| "host_ok h e d = True"

inductive desk_reachable :: "storage_host \<Rightarrow> desk \<Rightarrow> bool" for h where
  start: "desk_reachable h (initial_desk items)"
| step: "desk_reachable h d \<Longrightarrow> host_ok h e d \<Longrightarrow> desk_step h e d = Some d1 \<Longrightarrow> desk_reachable h d1"

end
