(* ===== verification/ConversationLaws.thy ===== *)
theory ConversationLaws
  imports Conversations
begin

section \<open>Conversations: nothing is lost between them, and what is\<close>

text \<open>
  The page with its references, its delayed save and its flushes behaves like a table of conversations with one active entry that is edited in
  place (\<open>desk_refines_table\<close>); the date groups are a partition of the list (\<open>date_groups_partition\<close>); what is lost all the same is
  stated in \<open>conversation_defects\<close>.
\<close>

subsection \<open>The contents of a list\<close>

definition contents :: "conversation list \<Rightarrow> jsstring \<Rightarrow> message list option" where
  "contents cs i = map_option cv_messages (find (\<lambda>c. cv_id c = i) cs)"

abbreviation ids :: "conversation list \<Rightarrow> jsstring set" where
  "ids cs \<equiv> cv_id ` set cs"

lemma contents_Nil [simp]: "contents [] = Map.empty"
  by (simp add: contents_def fun_eq_iff)

lemma contents_Cons [simp]: "contents (c # cs) = (contents cs)(cv_id c \<mapsto> cv_messages c)"
  by (auto simp: contents_def fun_eq_iff)

lemma contents_None: "contents cs i = None \<longleftrightarrow> i \<notin> ids cs"
  by (induction cs) auto

lemma dom_contents [simp]: "dom (contents cs) = ids cs"
  using contents_None [of cs] by (auto simp: dom_def)

lemma contents_member: "distinct (map cv_id cs) \<Longrightarrow> contents cs i = Some ms \<longleftrightarrow> (\<exists>c \<in> set cs. cv_id c = i \<and> cv_messages c = ms)"
proof (induction cs)
  case (Cons c cs)
  then show ?case by (cases "cv_id c = i") (auto simp: image_iff)
qed simp

lemma contents_subset:
  assumes "distinct (map cv_id cs)" and "distinct (map cv_id ds)" and "set ds \<subseteq> set cs"
  shows "contents ds = contents cs |` ids ds"
proof
  fix i
  show "contents ds i = (contents cs |` ids ds) i"
  proof (cases "contents ds i")
    case None
    then show ?thesis by (simp add: contents_None)
  next
    case (Some ms)
    then obtain c where "c \<in> set ds" "cv_id c = i" "cv_messages c = ms" using contents_member [OF assms(2)] by auto
    with assms(1,3) Some show ?thesis using contents_member [OF assms(1), of i ms] by (auto simp: restrict_map_def)
  qed
qed

lemma contents_update:
  assumes "\<And>c. cv_id (g c) = cv_id c" and "\<And>c. cv_messages (g c) = (if cv_id c = i then ms else cv_messages c)"
  shows "contents (map g cs) = (\<lambda>k. if k = i \<and> i \<in> ids cs then Some ms else contents cs k)"
  by (induction cs) (auto simp: assms fun_eq_iff contents_None)

lemma contents_filter: "contents (filter (\<lambda>c. cv_id c \<noteq> i) cs) = (contents cs)(i := None)"
  by (induction cs) (auto simp: fun_eq_iff)

lemma contents_append: "i \<notin> ids cs \<Longrightarrow> cv_id c = i \<Longrightarrow> contents (cs @ [c]) = (contents cs)(i \<mapsto> cv_messages c)"
  by (induction cs) (auto simp: fun_eq_iff)

subsection \<open>The bound\<close>

lemma distinct_sorted: "distinct (map g (sort_with f xs)) = distinct (map g xs)"
  using mset_eq_imp_distinct_iff [of "map g (sort_with f xs)" "map g xs"] by simp

lemma bounded_list_subset: "set (bounded_list cs) \<subseteq> set cs"
  using set_take_subset [of MAX_CONVERSATIONS "newest_first cs"] by (simp add: bounded_list_def oldest_first_def newest_first_def)

lemma bounded_list_distinct: "distinct (map cv_id cs) \<Longrightarrow> distinct (map cv_id (bounded_list cs))"
  by (simp add: bounded_list_def oldest_first_def newest_first_def distinct_sorted distinct_take flip: take_map)

lemma bounded_list_all: "length cs \<le> MAX_CONVERSATIONS \<Longrightarrow> set (bounded_list cs) = set cs"
  by (simp add: bounded_list_def oldest_first_def newest_first_def)

lemma bounded_list_length: "length (bounded_list cs) = min (length cs) MAX_CONVERSATIONS"
  by (simp add: bounded_list_def oldest_first_def newest_first_def min.commute)

text \<open>\<open>newer\<close> is the order that the comparison by a rounded difference means.\<close>

definition newer :: "conversation \<Rightarrow> conversation \<Rightarrow> bool" where
  "newer a b \<longleftrightarrow> num_val (cv_updatedAt b) \<le> num_val (cv_updatedAt a)"

interpretation by_update: comparison newer
  by unfold_locales (auto simp: newer_def)

lemma newest_first_stable:
  assumes "\<forall>c \<in> set cs. usable_time (cv_updatedAt c)"
  shows "stable_sorted newer cs (newest_first cs)"
proof -
  have "newest_first cs = sort_with (\<lambda>a b. \<not> newer a b) cs"
    unfolding newest_first_def
    by (rule sort_with_cong) (use assms in \<open>auto simp: usable_time_def newer_def js_sub_positive not_le\<close>)
  then show ?thesis by (simp add: by_update.sort_stable)
qed

lemma fresh_kept:
  assumes ok: "clock_ok (cv_updatedAt c) cs" and new: "cv_id c \<notin> ids cs"
  shows "c \<in> set (bounded_list (cs @ [c]))"
proof -
  let ?ys = "newest_first (cs @ [c])" and ?P = "not_before (cv_updatedAt c)"
  have s: "stable_sorted newer (cs @ [c]) ?ys"
    by (rule newest_first_stable) (use ok in \<open>auto simp: clock_ok_def list_all_iff\<close>)
  then have m: "mset ?ys = mset (cs @ [c])" and o: "sorted_wrt newer ?ys" by (simp_all add: stable_sorted_def)
  obtain i where i: "i < length ?ys" "?ys ! i = c" using mset_eq_setD [OF m] by (metis in_set_conv_nth list.set_intros(1) set_append UnI2)
  have "?P (?ys ! j)" if "j \<le> i" for j
    using that sorted_wrt_nth_less [OF o, of j i] i by (cases "j = i") (simp_all add: not_before_def newer_def)
  then have "filter ?P (take (Suc i) ?ys) = take (Suc i) ?ys" using i(1) by (intro filter_True) (auto simp: in_set_conv_nth less_Suc_eq_le)
  then have "Suc i \<le> length (filter ?P ?ys)"
  proof -
    assume t: "filter ?P (take (Suc i) ?ys) = take (Suc i) ?ys"
    have "filter ?P ?ys = filter ?P (take (Suc i) ?ys) @ filter ?P (drop (Suc i) ?ys)" by (simp flip: filter_append)
    then have "filter ?P ?ys = take (Suc i) ?ys @ filter ?P (drop (Suc i) ?ys)" by (simp only: t)
    from arg_cong [OF this, of length] show ?thesis using i(1) by simp
  qed
  also have "length (filter ?P ?ys) = length (filter ?P (cs @ [c]))"
    using arg_cong [OF m, of "\<lambda>M. size (filter_mset ?P M)"] by (simp flip: mset_filter)
  also have "\<dots> \<le> MAX_CONVERSATIONS" using ok by (simp add: clock_ok_def)
  finally have "i < MAX_CONVERSATIONS" by simp
  then have "c \<in> set (take MAX_CONVERSATIONS ?ys)" using i by (auto simp: in_set_conv_nth)
  then show ?thesis by (simp add: bounded_list_def oldest_first_def)
qed

subsection \<open>The table\<close>

text \<open>The specification: the active conversation and the messages of each.\<close>

type_synonym table = "jsstring \<times> (jsstring \<Rightarrow> message list option)"

definition table_of :: "desk \<Rightarrow> table" where
  "table_of d = (pd_current d, (contents (pd_list d))(pd_current d \<mapsto> pd_latest d))"

fun table_step :: "desk_event \<Rightarrow> table \<Rightarrow> table \<Rightarrow> bool" where
  "table_step (Edit u) (a, m) t \<longleftrightarrow> t = (a, m(a \<mapsto> (case u of Inl ms \<Rightarrow> ms | Inr f \<Rightarrow> f (the (m a)))))"
| "table_step (NewConversation i now0 now) (a, m) t \<longleftrightarrow>
    (\<exists>K. t = (i, (m(i \<mapsto> [])) |` K) \<and> i \<in> K \<and> card (dom (m |` K)) \<le> MAX_CONVERSATIONS \<and> (card (dom m) < MAX_CONVERSATIONS \<longrightarrow> dom m \<subseteq> K))"
| "table_step (Switch i now) (a, m) t \<longleftrightarrow> t = (if m i = None then a else i, m)"
| "table_step (Delete i j now) (a, m) t \<longleftrightarrow>
    (if dom m \<subseteq> {i} then t = (j, [j \<mapsto> []]) else snd t = m(i := None) \<and> (if i = a then fst t \<in> dom m - {i} else fst t = a))"
| "table_step e t0 t \<longleftrightarrow> t = t0"

lemma table_cases: "table_step e (table_of d) t \<longleftrightarrow> table_step e (pd_current d, snd (table_of d)) t"
  by (simp add: table_of_def)

definition desk_ok :: "desk \<Rightarrow> bool" where
  "desk_ok d \<longleftrightarrow> (if pd_loaded d \<and> pd_mounted d
     then distinct (map cv_id (pd_list d)) \<and> pd_current d \<in> ids (pd_list d) \<and> pd_messages d = pd_latest d \<and> pd_active d = pd_current d
       \<and> (\<not> pd_timer d \<longrightarrow> contents (pd_list d) (pd_current d) = Some (pd_latest d))
     else \<not> pd_timer d)"

lemma persist_simps [simp]:
  "pd_list (persistConversations h cs d) = cs" "pd_current (persistConversations h cs d) = pd_current d"
  "pd_latest (persistConversations h cs d) = pd_latest d" "pd_messages (persistConversations h cs d) = pd_messages d"
  "pd_active (persistConversations h cs d) = pd_active d" "pd_timer (persistConversations h cs d) = pd_timer d"
  "pd_loaded (persistConversations h cs d) = pd_loaded d" "pd_mounted (persistConversations h cs d) = pd_mounted d"
  "pd_conversations (persistConversations h cs d) = pd_conversations d"
  by (simp_all add: persistConversations_def)

lemma activate_simps [simp]:
  "pd_list (activate h c d) = pd_list d" "pd_current (activate h c d) = cv_id c" "pd_latest (activate h c d) = cv_messages c"
  "pd_messages (activate h c d) = cv_messages c" "pd_active (activate h c d) = cv_id c" "pd_timer (activate h c d) = pd_timer d"
  "pd_loaded (activate h c d) = pd_loaded d" "pd_mounted (activate h c d) = pd_mounted d"
  by (simp_all add: activate_def)

lemma desk_flush_simps [simp]:
  "pd_current (flush_pending h now d) = pd_current d" "pd_latest (flush_pending h now d) = pd_latest d"
  "pd_messages (flush_pending h now d) = pd_messages d" "pd_active (flush_pending h now d) = pd_active d"
  "pd_timer (flush_pending h now d) = False" "pd_loaded (flush_pending h now d) = pd_loaded d \<and> pd_mounted (flush_pending h now d) = pd_mounted d"
  "map cv_id (pd_list (flush_pending h now d)) = map cv_id (pd_list d)"
  by (auto simp: flush_pending_def)

text \<open>After a flush the list holds the table.\<close>

lemma flush_contents:
  assumes "desk_ok d" and "pd_loaded d \<and> pd_mounted d"
  shows "contents (pd_list (flush_pending h now d)) = snd (table_of d)"
proof (cases "pd_timer d")
  case True
  let ?g = "\<lambda>c. if cv_id c = pd_current d then c\<lparr>cv_messages := pd_latest d, cv_updatedAt := now\<rparr> else c"
  have "contents (map ?g (pd_list d)) = (\<lambda>k. if k = pd_current d \<and> pd_current d \<in> ids (pd_list d) then Some (pd_latest d) else contents (pd_list d) k)"
    by (rule contents_update) simp_all
  with True assms show ?thesis by (auto simp: flush_pending_def table_of_def desk_ok_def fun_eq_iff)
next
  case False
  with assms show ?thesis by (auto simp: flush_pending_def table_of_def desk_ok_def fun_eq_iff)
qed

lemma flush_ids: "ids (pd_list (flush_pending h now d)) = ids (pd_list d)"
  by (metis desk_flush_simps(7) list.set_map)

subsection \<open>Steps\<close>

lemma edit_step:
  assumes "desk_ok d" and "pd_loaded d \<and> pd_mounted d"
  shows "desk_ok (updateMessages u d) \<and> table_step (Edit u) (table_of d) (table_of (updateMessages u d))"
  using assms by (auto simp: updateMessages_def persistMessages_def Let_def desk_ok_def table_of_def fun_eq_iff split: sum.split)

lemma save_step:
  assumes "desk_ok d" and "pd_loaded d \<and> pd_mounted d"
  shows "desk_ok (save_timer h now d) \<and> table_of (save_timer h now d) = table_of d"
proof -
  define g :: "conversation \<Rightarrow> conversation" where "g = (\<lambda>c. if cv_id c = pd_current d
           then c\<lparr>cv_messages := pd_latest d,
                  cv_title := (if list_ex (\<lambda>m. ms_from m = RUser) (pd_latest d) then deriveConversationTitle (pd_latest d) else cv_title c),
                  cv_updatedAt := now\<rparr>
           else c)"
  have c: "contents (map g (pd_list d)) = (\<lambda>k. if k = pd_current d \<and> pd_current d \<in> ids (pd_list d) then Some (pd_latest d) else contents (pd_list d) k)"
    by (rule contents_update) (simp_all add: g_def)
  have i: "map cv_id (map g (pd_list d)) = map cv_id (pd_list d)" by (simp add: g_def)
  then have "ids (map g (pd_list d)) = ids (pd_list d)" by (metis list.set_map)
  moreover have "pd_list (save_timer h now d) = map g (pd_list d)" by (simp add: save_timer_def Let_def g_def)
  moreover have "pd_current (save_timer h now d) = pd_current d" "pd_latest (save_timer h now d) = pd_latest d"
    "pd_messages (save_timer h now d) = pd_messages d" "pd_active (save_timer h now d) = pd_active d" "pd_loaded (save_timer h now d) = pd_loaded d" "pd_mounted (save_timer h now d) = pd_mounted d"
    by (simp_all add: save_timer_def Let_def)
  ultimately show ?thesis using c i assms by (auto simp: desk_ok_def table_of_def simp del: map_map)
qed

lemma switch_step:
  assumes "desk_ok d" and "pd_loaded d \<and> pd_mounted d"
  shows "desk_ok (switchConversation h i now d) \<and> table_step (Switch i now) (table_of d) (table_of (switchConversation h i now d))"
proof (cases "i = pd_current d")
  case True
  with assms show ?thesis by (simp add: switchConversation_def table_of_def)
next
  case False
  let ?d = "flush_pending h now d"
  note c = flush_contents [OF assms, of h now]
  have ok: "desk_ok ?d" using assms c flush_ids [of h now d] by (simp add: desk_ok_def table_of_def)
  have t: "table_of ?d = table_of d" using c by (simp add: table_of_def fun_eq_iff)
  have f: "map_option cv_messages (find (\<lambda>c. cv_id c = i) (pd_list ?d)) = snd (table_of d) i"
    using fun_cong [OF c, of i] by (simp add: contents_def)
  show ?thesis
  proof (cases "find (\<lambda>c. cv_id c = i) (pd_list ?d)")
    case None
    with f False ok t show ?thesis by (simp add: switchConversation_def Let_def table_of_def)
  next
    case (Some target)
    then have target: "cv_id target = i" "target \<in> set (pd_list ?d)" by (auto simp: find_Some_iff)
    have m: "contents (pd_list ?d) i = Some (cv_messages target)" using Some by (simp add: contents_def)
    have "i \<in> ids (pd_list ?d)" using target by blast
    then have "desk_ok (activate h target ?d)" using ok m target(1) assms(2) by (simp add: desk_ok_def)
    moreover have "table_of (activate h target ?d) = (i, snd (table_of d))" using m target c by (simp add: table_of_def fun_upd_idem)
    moreover have "snd (table_of d) i \<noteq> None" using f Some by (cases "snd (table_of d) i") simp_all
    ultimately show ?thesis using Some False by (cases "table_of d") (auto simp: switchConversation_def Let_def)
  qed
qed

lemma new_step:
  assumes "desk_ok d" and "pd_loaded d \<and> pd_mounted d" and host: "host_ok h (NewConversation i now0 now) d"
  shows "desk_ok (createNewConversation h i now0 now d)
    \<and> table_step (NewConversation i now0 now) (table_of d) (table_of (createNewConversation h i now0 now d))"
proof -
  let ?d = "flush_pending h now0 d" and ?fresh = "createConversation i now []"
  let ?cs = "pd_list ?d @ [?fresh]"
  let ?next = "bounded_list ?cs" and ?m = "snd (table_of d)"
  note c = flush_contents [OF assms(1,2), of h now0]
  have f: "cv_id ?fresh = i" "cv_messages ?fresh = []" "cv_updatedAt ?fresh = now" by (simp_all add: createConversation_def)
  have new: "i \<notin> ids (pd_list ?d)" and clock: "clock_ok now (pd_list ?d)" using host by (simp_all add: flush_ids)
  have dist: "distinct (map cv_id ?cs)" using assms(1,2) new f(1) flush_ids [of h now0 d] by (simp add: desk_ok_def)
  have kept: "?fresh \<in> set ?next" using fresh_kept [of ?fresh "pd_list ?d"] new clock f by simp
  then have i: "i \<in> ids ?next" using f(1) by (metis image_eqI)
  have cm: "contents ?next = (?m(i \<mapsto> [])) |` ids ?next"
    using contents_subset [OF dist bounded_list_distinct [OF dist] bounded_list_subset] contents_append [OF new f(1)] c f(2) by simp
  have m: "contents ?next i = Some []" using cm i by simp
  let ?d1 = "activate h ?fresh ((persistConversations h ?next ?d)\<lparr>pd_conversations := ?next\<rparr>)"
  have "createNewConversation h i now0 now d = ?d1" by (simp add: createNewConversation_def Let_def)
  moreover have "desk_ok ?d1" using assms(2) bounded_list_distinct [OF dist] i m f by (simp add: desk_ok_def)
  moreover have "table_of ?d1 = (i, (?m(i \<mapsto> [])) |` ids ?next)" using cm m f by (simp add: table_of_def fun_upd_idem)
  moreover have "card (dom (?m |` ids ?next)) \<le> MAX_CONVERSATIONS"
  proof -
    have "card (dom (?m |` ids ?next)) \<le> card (ids ?next)" by (intro card_mono) auto
    also have "\<dots> \<le> length ?next" by (meson List.finite_set card_image_le card_length order.trans)
    finally show ?thesis by (simp add: bounded_list_length)
  qed
  moreover have "dom ?m \<subseteq> ids ?next" if "card (dom ?m) < MAX_CONVERSATIONS"
  proof -
    have "dom ?m = ids (pd_list ?d)" using dom_contents [of "pd_list ?d"] c by simp
    moreover have "card (ids (pd_list ?d)) = length (pd_list ?d)"
      using distinct_card [of "map cv_id (pd_list d)"] dist flush_ids [of h now0 d] map_eq_imp_length_eq [OF desk_flush_simps(7)] by simp
    ultimately have "length ?cs \<le> MAX_CONVERSATIONS" using that by simp
    from bounded_list_all [OF this] \<open>dom ?m = ids (pd_list ?d)\<close> show ?thesis by auto
  qed
  moreover have "table_step (NewConversation i now0 now) (pd_current d, ?m) (i, (?m(i \<mapsto> [])) |` ids ?next)"
    unfolding table_step.simps by (rule exI [of _ "ids ?next"]) (use i calculation in simp)
  ultimately show ?thesis by (simp only: table_cases)
qed

lemma delete_step:
  assumes "desk_ok d" and "pd_loaded d \<and> pd_mounted d"
  shows "desk_ok (deleteConversation h i j now d)
    \<and> table_step (Delete i j now) (table_of d) (table_of (deleteConversation h i j now d))"
proof -
  define rest where "rest = filter (\<lambda>c. cv_id c \<noteq> i) (pd_list d)"
  have cur: "pd_current d \<in> ids (pd_list d)" using assms by (simp add: desk_ok_def)
  have dom: "dom (snd (table_of d)) = ids (pd_list d)" using cur by (auto simp: table_of_def)
  have dist: "distinct (map cv_id rest)" using assms by (simp add: desk_ok_def rest_def distinct_map_filter)
  have empty: "rest = [] \<longleftrightarrow> dom (snd (table_of d)) \<subseteq> {i}" unfolding dom rest_def by (auto simp: filter_empty_conv)
  have rest: "contents rest = (contents (pd_list d))(i := None)" "ids rest = ids (pd_list d) - {i}"
    by (simp only: rest_def contents_filter) (auto simp: rest_def)
  show ?thesis
  proof (cases "rest = []")
    case True
    then have "i = pd_current d" using cur empty dom by auto
    let ?c = "createConversation j now []"
    let ?d = "activate h ?c ((persistConversations h [?c] d)\<lparr>pd_conversations := [?c]\<rparr>)"
    have e: "deleteConversation h i j now d = ?d" using True \<open>i = pd_current d\<close> unfolding deleteConversation_def Let_def rest_def [symmetric] by simp
    have "desk_ok ?d" "table_of ?d = (j, [j \<mapsto> []])" using assms(2) by (simp_all add: desk_ok_def table_of_def createConversation_def)
    with e True empty show ?thesis by (simp add: table_cases)
  next
    case False
    then have hd: "contents rest (cv_id (hd rest)) = Some (cv_messages (hd rest))" "cv_id (hd rest) \<in> ids rest" by (cases rest; simp)+
    show ?thesis
    proof (cases "i = pd_current d")
      case True
      let ?d = "activate h (hd rest) ((persistConversations h rest d)\<lparr>pd_conversations := rest\<rparr>)"
      have e: "deleteConversation h i j now d = ?d" using True False unfolding deleteConversation_def Let_def rest_def [symmetric] by simp
      have "desk_ok ?d" using assms(2) dist hd by (simp add: desk_ok_def)
      moreover have "table_of ?d = (cv_id (hd rest), (snd (table_of d))(i := None))"
        using hd rest(1) True by (simp add: table_of_def fun_upd_idem)
      moreover have "cv_id (hd rest) \<in> dom (snd (table_of d)) - {i}" using hd(2) rest(2) dom by simp
      ultimately show ?thesis using True False empty e by (simp add: table_cases)
    next
      case other: False
      let ?d = "(persistConversations h rest d)\<lparr>pd_conversations := rest\<rparr>"
      have e: "deleteConversation h i j now d = ?d" using other False unfolding deleteConversation_def Let_def rest_def [symmetric] by simp
      have "desk_ok ?d" using assms dist rest cur other by (simp add: desk_ok_def)
      moreover have "table_of ?d = (pd_current d, (snd (table_of d))(i := None))" using rest(1) other by (auto simp: table_of_def fun_eq_iff)
      ultimately show ?thesis using other False empty e by (simp add: table_cases)
    qed
  qed
qed

lemma load_nonempty: "fst (loadConversations h i now items) \<noteq> []"
proof -
  have "fst (migrateLegacyMessages h i now items) \<noteq> Some []"
    by (auto simp: migrateLegacyMessages_def Let_def split: option.split)
  then show ?thesis by (auto simp: loadConversations_def Let_def split: prod.split option.split)
qed

lemma load_ok:
  assumes "desk_ok d" and "host_ok h (Load i now) d"
  shows "desk_ok (load_desk h i now d)"
proof -
  obtain cs items1 where l: "loadConversations h i now (pd_items d) = (cs, items1)" by (cases "loadConversations h i now (pd_items d)")
  then have cs: "cs \<noteq> []" "distinct (map cv_id cs)" using load_nonempty [of h i now "pd_items d"] assms(2) by simp_all
  define active where "active = (case find (\<lambda>c. Some (cv_id c) = loadActiveConversationId h items1) cs of Some c \<Rightarrow> c | None \<Rightarrow> hd cs)"
  have "active \<in> set cs" using cs(1) by (auto simp: active_def find_Some_iff split: option.split)
  then have "contents cs (cv_id active) = Some (cv_messages active)" "cv_id active \<in> ids cs" using contents_member [OF cs(2)] by auto
  with assms(1) l cs(2) show ?thesis
    by (auto simp: load_desk_def Let_def desk_ok_def active_def)
qed

lemma unloaded_ok:
  assumes "desk_ok d" and "\<not> pd_loaded d" and "desk_step h e d = Some d1" and "\<nexists>i now. e = Load i now"
  shows "desk_ok d1 \<and> \<not> pd_loaded d1"
  using assms
  by (cases e) (auto simp: desk_ok_def updateMessages_def persistMessages_def createNewConversation_def flush_pending_def switchConversation_def
      deleteConversation_def leave_desk_def Let_def split: if_splits option.splits)

definition desk_inv :: "desk \<Rightarrow> bool" where
  "desk_inv d \<longleftrightarrow> desk_ok d \<and> (pd_loading d \<longrightarrow> \<not> pd_loaded d)"

fun is_load :: "desk_event \<Rightarrow> bool" where
  "is_load (Load i now) = True"
| "is_load e = False"

lemma loading_kept: "desk_step h e d = Some d1 \<Longrightarrow> \<not> is_load e \<Longrightarrow> pd_loading d1 = pd_loading d \<and> pd_loaded d1 = pd_loaded d"
  by (cases e) (auto simp: updateMessages_def persistMessages_def createNewConversation_def flush_pending_def switchConversation_def persistConversations_def
      deleteConversation_def leave_desk_def save_timer_def activate_def Let_def split: if_splits option.splits)

lemma desk_step_refines:
  assumes inv: "desk_inv d" and open_page: "pd_loaded d \<and> pd_mounted d" and host: "host_ok h e d" and step: "desk_step h e d = Some d1"
    and "e \<noteq> LeavePage"
  shows "desk_ok d1 \<and> table_step e (table_of d) (table_of d1)"
proof -
  have ok: "desk_ok d" "\<not> pd_loading d" using inv open_page by (auto simp: desk_inv_def)
  show ?thesis
  proof (cases e)
    case (Edit u)
    then show ?thesis using step edit_step [OF ok(1) open_page] by (auto split: if_splits)
  next
    case (SaveNow now)
    then show ?thesis using step save_step [OF ok(1) open_page, of h now] by (auto split: if_splits)
  next
    case (NewConversation i now0 now)
    then show ?thesis using step host new_step [OF ok(1) open_page, of h i now0 now] by (auto split: if_splits)
  next
    case (Switch i now)
    then show ?thesis using step switch_step [OF ok(1) open_page, of h i now] by (auto split: if_splits)
  next
    case (Delete i j now)
    then show ?thesis using step delete_step [OF ok(1) open_page, of h i j now] by (auto split: if_splits)
  qed (use step ok(2) assms(5) in simp_all)
qed

lemma desk_step_inv:
  assumes inv: "desk_inv d" and host: "host_ok h e d" and step: "desk_step h e d = Some d1"
  shows "desk_inv d1"
proof (cases e)
  case (Load i now)
  then have "desk_ok d1" "\<not> pd_loading d1" using inv host step load_ok [of d h i now]
    by (auto simp: desk_inv_def load_desk_def Let_def activate_def split: if_splits prod.splits)
  then show ?thesis by (simp add: desk_inv_def)
next
  case LeavePage
  then have "desk_ok d1" using inv step by (auto simp: desk_inv_def desk_ok_def leave_desk_def Let_def split: if_splits)
  then show ?thesis using loading_kept [OF step] LeavePage inv by (simp add: desk_inv_def)
qed (use inv host step unloaded_ok [of d h e d1] desk_step_refines [OF inv _ host step] loading_kept [OF step] in
    \<open>auto simp: desk_inv_def desk_ok_def split: if_splits\<close>)

lemma desk_reachable_inv: "desk_reachable h d \<Longrightarrow> desk_inv d"
proof (induction rule: desk_reachable.induct)
  case (start items)
  show ?case by (simp add: initial_desk_def desk_inv_def desk_ok_def)
qed (rule desk_step_inv)

subsection \<open>Groups\<close>

lemma collected_map: "map_of (collected key xs) k = (let ys = filter (\<lambda>x. key x = k) xs in if ys = [] then None else Some ys)"
proof (induction xs rule: rev_induct)
  case (snoc x xs)
  have "map_of (push_under key x m) k = (if key x = k then Some (case map_of m k of Some ys \<Rightarrow> ys @ [x] | None \<Rightarrow> [x]) else map_of m k)" for m
    by (auto simp: push_under_def split: option.split)
  with snoc show ?case by (auto simp: collected_def Let_def)
qed (simp add: collected_def)

definition bucket_of :: "(jsnum \<Rightarrow> jsnum) \<Rightarrow> jsnum \<Rightarrow> conversation \<Rightarrow> bucket" where
  "bucket_of day now c = getConversationBucket day (cv_updatedAt c) now"

lemma groups_by_bucket:
  "groupConversationsByDate day cs now
     = map (\<lambda>b. (b, newest_first (filter (\<lambda>c. bucket_of day now c = b) cs)))
         (filter (\<lambda>b. \<exists>c \<in> set cs. bucket_of day now c = b) CONVERSATION_BUCKET_ORDER)"
proof -
  have "concat (map (\<lambda>b. case map_of (collected (bucket_of day now) cs) b of
         Some xs \<Rightarrow> if xs = [] then [] else [(b, newest_first xs)] | None \<Rightarrow> []) bs)
      = map (\<lambda>b. (b, newest_first (filter (\<lambda>c. bucket_of day now c = b) cs))) (filter (\<lambda>b. \<exists>c \<in> set cs. bucket_of day now c = b) bs)" for bs
    by (induction bs) (auto simp: collected_map Let_def filter_empty_conv)
  moreover have "(\<lambda>c. getConversationBucket day (cv_updatedAt c) now) = bucket_of day now" by (simp add: bucket_of_def fun_eq_iff)
  ultimately show ?thesis by (simp add: groupConversationsByDate_def)
qed

lemma buckets_partition:
  assumes "\<forall>x \<in> set xs. key x \<in> set bs" and "distinct bs"
  shows "mset (concat (map (\<lambda>b. filter (\<lambda>x. key x = b) xs) bs)) = mset xs"
  using assms
proof (induction bs arbitrary: xs)
  case (Cons b bs)
  let ?ys = "filter (\<lambda>x. key x \<noteq> b) xs"
  have "map (\<lambda>a. filter (\<lambda>x. key x = a) ?ys) bs = map (\<lambda>a. filter (\<lambda>x. key x = a) xs) bs"
    using Cons.prems(2) by (auto intro!: filter_cong)
  moreover have "mset (concat (map (\<lambda>a. filter (\<lambda>x. key x = a) ?ys) bs)) = mset ?ys"
    by (rule Cons.IH) (use Cons.prems in auto)
  moreover have "mset (filter (\<lambda>x. key x = b) xs) + mset ?ys = mset xs" by (simp add: multiset_partition [symmetric] mset_filter)
  ultimately show ?case by (simp only: list.map concat.simps mset_append)
qed simp

lemma filter_nonempty_concat: "(\<And>b. \<not> P b \<Longrightarrow> f b = []) \<Longrightarrow> concat (map f (filter P bs)) = concat (map f bs)"
  by (induction bs) auto

lemma mset_concat_cong: "(\<And>b. b \<in> set bs \<Longrightarrow> mset (f b) = mset (g b)) \<Longrightarrow> mset (concat (map f bs)) = mset (concat (map g bs))"
  by (induction bs) auto

subsection \<open>A run\<close>

definition demo_host :: storage_host where
  "demo_host = \<lparr>sh_reads = True, sh_accepts = (\<lambda>items key v. True), sh_conversation = (\<lambda>v. None),
     sh_messages = (\<lambda>v. case v of VArr xs \<Rightarrow> Some (map (\<lambda>x. createUserMessage (js ''k'') (js ''v'') (js ''Hi'') (Fin 0) None) xs) | _ \<Rightarrow> None),
     sh_plain = (\<lambda>cs. Some (VArr (map (\<lambda>c. VStr (cv_id c)) cs)))\<rparr>"

definition demo_desk :: desk where
  "demo_desk = load_desk demo_host (js ''a'') (Fin 1) (initial_desk [])"

lemma demo_desk_reachable: "desk_reachable demo_host demo_desk"
proof (rule desk_reachable.step [OF desk_reachable.start])
  show "host_ok demo_host (Load (js ''a'') (Fin 1)) (initial_desk [])" by code_simp
  show "desk_step demo_host (Load (js ''a'') (Fin 1)) (initial_desk []) = Some demo_desk"
    by (simp add: demo_desk_def initial_desk_def)
qed

subsection \<open>Properties\<close>

text \<open>
  C28: While the page is open, its references, the delayed save and the flushes implement a table of conversations with one active
  entry. An edit changes the messages of the active entry only; the timer changes nothing; switching moves to another entry and changes none; a new
  conversation is added, empty and active, and drops others only beyond 50; deleting removes one entry, and leaves another or a new
  one active. The page shows the messages of the active entry, and when no save is pending the list holds the whole table.
\<close>

theorem desk_refines_table:
  assumes "desk_reachable h d" and "pd_loaded d" and "pd_mounted d" and "host_ok h e d" and "e \<noteq> LeavePage" and "desk_step h e d = Some d1"
  shows "table_step e (table_of d) (table_of d1) \<and> pd_active d1 = fst (table_of d1)
    \<and> snd (table_of d1) (pd_active d1) = Some (pd_messages d1) \<and> (\<not> pd_timer d1 \<longrightarrow> contents (pd_list d1) = snd (table_of d1))"
proof -
  have inv: "desk_inv d" by (rule desk_reachable_inv [OF assms(1)])
  have "\<not> is_load e" using inv assms(2,6) by (cases e) (auto simp: desk_inv_def split: if_splits)
  moreover have "pd_mounted d1" using assms(3,5,6) \<open>\<not> is_load e\<close>
    by (cases e) (auto simp: updateMessages_def persistMessages_def createNewConversation_def flush_pending_def switchConversation_def
        deleteConversation_def save_timer_def Let_def split: if_splits option.splits)
  ultimately have "pd_loaded d1 \<and> pd_mounted d1" using loading_kept [OF assms(6)] assms(2) by simp
  moreover note desk_step_refines [OF inv _ assms(4,6,5)] assms(2,3)
  ultimately show ?thesis by (auto simp: desk_ok_def table_of_def fun_upd_idem)
qed

theorem desk_refines_table_witness:
  "\<exists>d1. desk_step demo_host (Edit (Inl [createUserMessage (js ''k'') (js ''v'') (js ''Hi'') (Fin 0) None])) demo_desk = Some d1
     \<and> snd (table_of d1) (js ''a'') = Some (pd_messages d1) \<and> map ms_key (pd_messages d1) = [js ''k'']"
proof -
  let ?e = "Edit (Inl [createUserMessage (js ''k'') (js ''v'') (js ''Hi'') (Fin 0) None])"
  have d: "pd_loaded demo_desk" "pd_mounted demo_desk" "pd_active demo_desk = js ''a''" by code_simp+
  then obtain d1 where d1: "desk_step demo_host ?e demo_desk = Some d1" "pd_active d1 = js ''a''" "map ms_key (pd_messages d1) = [js ''k'']"
    by (auto simp: updateMessages_def persistMessages_def createUserMessage_def Let_def)
  from desk_refines_table [OF demo_desk_reachable d(1,2) _ _ d1(1)] d1 show ?thesis by auto
qed

text \<open>
  C33: The groups by date are a partition of the conversations: they come in the order of the periods, a period without
  conversations has none, the group of a period holds exactly the conversations that fall into it, the most recently updated first and
  otherwise in their order, and every conversation is in one group.
\<close>

theorem date_groups_partition:
  assumes "\<forall>c \<in> set cs. usable_time (cv_updatedAt c)"
  shows "map fst (groupConversationsByDate day cs now) = filter (\<lambda>b. \<exists>c \<in> set cs. bucket_of day now c = b) CONVERSATION_BUCKET_ORDER
    \<and> (\<forall>(b, xs) \<in> set (groupConversationsByDate day cs now). stable_sorted newer (filter (\<lambda>c. bucket_of day now c = b) cs) xs)
    \<and> mset (concat (map snd (groupConversationsByDate day cs now))) = mset cs"
proof -
  let ?f = "\<lambda>b. filter (\<lambda>c. bucket_of day now c = b) cs"
  let ?P = "\<lambda>b. \<exists>c \<in> set cs. bucket_of day now c = b"
  have s: "stable_sorted newer (?f b) (newest_first (?f b))" for b by (rule newest_first_stable) (use assms in auto)
  have "mset (concat (map (\<lambda>b. newest_first (?f b)) (filter ?P CONVERSATION_BUCKET_ORDER)))
      = mset (concat (map ?f (filter ?P CONVERSATION_BUCKET_ORDER)))"
    by (rule mset_concat_cong) (use s in \<open>simp add: stable_sorted_def\<close>)
  also have "concat (map ?f (filter ?P CONVERSATION_BUCKET_ORDER)) = concat (map ?f CONVERSATION_BUCKET_ORDER)"
    by (rule filter_nonempty_concat) (auto simp: filter_empty_conv)
  also have "mset \<dots> = mset cs"
    by (rule buckets_partition) (auto simp: CONVERSATION_BUCKET_ORDER_def, metis bucket.exhaust)
  finally show ?thesis using s by (auto simp: groups_by_bucket comp_def)
qed

theorem date_groups_partition_witness:
  "mset (concat (map snd (groupConversationsByDate id [createConversation (js ''a'') (Fin 1) []] (Fin 2)))) = {#createConversation (js ''a'') (Fin 1) []#}"
proof -
  have "on_grid 1" unfolding on_grid_def by (metis floor_of_int mult_1 of_int_numeral of_int_power)
  then have "\<forall>c \<in> set [createConversation (js ''a'') (Fin 1) []]. usable_time (cv_updatedAt c)"
    by (simp add: createConversation_def usable_time_def)
  from date_groups_partition [OF this, of id "Fin 2"] show ?thesis by simp
qed

text \<open>
  C39: Two ways in which messages are lost. The messages of an older version are stored in an envelope that the reader of that item
  unwraps; the migration does not, so that with a schema that accepts only arrays it drops them and starts with an empty
  conversation. And when the page is left while a save is pending, what is stored does not depend on the messages that wait to be saved.
\<close>

theorem conversation_defects:
  assumes "\<And>kvs. sh_messages h (VObj kvs) = None" and "readRaw h items CONVERSATIONS_KEY = None" and "readRaw h items MESSAGES_KEY = Some saved"
    and "saved \<noteq> []" and "length saved \<le> 1024 * 1024" and "json_parse saved = Some (VObj kvs)"
  shows "stored_messages h items = sh_messages h (unwrapStoredValue (VObj kvs))
    \<and> loadConversations h i now items = ([createConversation i now []], items)
    \<and> pd_items (leave_desk h (d\<lparr>pd_latest := ms, pd_messages := ms\<rparr>)) = pd_items (leave_desk h d)"
  using assms
  by (simp add: stored_messages_def readStoredMessagesValue_def loadConversations_def migrateLegacyMessages_def has_text_def salvaged_def leave_desk_def
      persistConversations_def Let_def)

definition demo_envelope :: jsval where
  "demo_envelope = VObj [(js ''version'', VNum (Fin 1)), (js ''data'', VArr [VNull])]"

theorem conversation_defects_witness:
  "\<exists>m. stored_messages demo_host [(MESSAGES_KEY, json_stringify demo_envelope)] = Some [m]
     \<and> loadConversations demo_host (js ''a'') (Fin 1) [(MESSAGES_KEY, json_stringify demo_envelope)]
       = ([createConversation (js ''a'') (Fin 1) []], [(MESSAGES_KEY, json_stringify demo_envelope)])"
proof -
  let ?items = "[(MESSAGES_KEY, json_stringify demo_envelope)]"
  have p: "json_parse (json_stringify demo_envelope) = Some (VObj [(js ''version'', VNum (Fin 1)), (js ''data'', VArr [VNull])])"
    and r: "readRaw demo_host ?items CONVERSATIONS_KEY = None" "readRaw demo_host ?items MESSAGES_KEY = Some (json_stringify demo_envelope)"
    by code_simp+
  have "length (json_stringify demo_envelope) = 27" by code_simp
  then have l: "json_stringify demo_envelope \<noteq> []" "length (json_stringify demo_envelope) \<le> 1024 * 1024" by auto
  have "sh_messages demo_host (VObj kvs) = None" for kvs by (simp add: demo_host_def)
  from conversation_defects [OF this r l p] show ?thesis by (simp add: unwrapStoredValue_def demo_host_def)
qed

end
