(* ===== verification/ChatPayload.thy ===== *)
theory ChatPayload
  imports VideoTask ConversationLaws
begin

section \<open>Configuration, presets and requests of the playground\<close>

text \<open>
  Model of \<^verbatim>\<open>web/src/features/playground/lib/streaming/payload-builder.ts\<close>, \<^verbatim>\<open>lib/parameters/batch-count.ts\<close>,
  \<^verbatim>\<open>lib/presets/agent-preset-utils.ts\<close>, \<^verbatim>\<open>lib/models/model-kind.ts\<close> and \<^verbatim>\<open>lib/options/playground-option-utils.ts\<close>: how the
  configuration becomes a request, how presets are checked, applied and made, and how the models are sorted into kinds.
  \<open>lower\<close> is \<open>toLowerCase\<close>; an absent property is \<open>None\<close>.
\<close>

subsection \<open>Configuration\<close>

record playground_config =
  cf_model :: jsstring
  cf_group :: jsstring
  cf_temperature :: jsnum
  cf_top_p :: jsnum
  cf_max_tokens :: jsnum
  cf_frequency_penalty :: jsnum
  cf_presence_penalty :: jsnum
  cf_seed :: "jsnum option"
  cf_stream :: bool
  cf_size :: jsstring
  cf_batch_count :: jsnum
  cf_reasoning_effort :: jsstring
  cf_system_prompt :: jsstring

record parameter_enabled =
  en_temperature :: bool
  en_top_p :: bool
  en_max_tokens :: bool
  en_frequency_penalty :: bool
  en_presence_penalty :: bool
  en_seed :: bool
  en_size :: bool
  en_reasoning_effort :: bool
  en_batch_count :: bool

definition DEFAULT_CONFIG :: playground_config where
  "DEFAULT_CONFIG = \<lparr>cf_model = [], cf_group = js ''default'', cf_temperature = rnd64 (7 / 10), cf_top_p = Fin 1, cf_max_tokens = Fin 4096,
     cf_frequency_penalty = Fin 0, cf_presence_penalty = Fin 0, cf_seed = None, cf_stream = True, cf_size = [], cf_batch_count = Fin 1,
     cf_reasoning_effort = [], cf_system_prompt = []\<rparr>"

definition DEFAULT_PARAMETER_ENABLED :: parameter_enabled where
  "DEFAULT_PARAMETER_ENABLED = \<lparr>en_temperature = True, en_top_p = True, en_max_tokens = False, en_frequency_penalty = True,
     en_presence_penalty = True, en_seed = False, en_size = False, en_reasoning_effort = False, en_batch_count = False\<rparr>"

subsection \<open>Number of images\<close>

definition MAX_BATCH_COUNT :: jsnum where
  "MAX_BATCH_COUNT = Fin 8"

definition DEFAULT_BATCH_COUNT :: jsnum where
  "DEFAULT_BATCH_COUNT = Fin 1"

definition normalizeBatchCount :: "jsval \<Rightarrow> jsnum" where
  "normalizeBatchCount v =
    (let parsed = (case v of VNum n \<Rightarrow> n | VStr s \<Rightarrow> if js_trim s \<noteq> [] then js_Number s else NaN | _ \<Rightarrow> NaN) in
     if \<not> is_finite parsed \<or> \<not> is_integer parsed then DEFAULT_BATCH_COUNT
     else if js_lt parsed (Fin 1) \<or> js_lt MAX_BATCH_COUNT parsed then DEFAULT_BATCH_COUNT
     else parsed)"

definition toRequestBatchCount :: "jsnum \<Rightarrow> jsnum option" where
  "toRequestBatchCount v =
    (let normalized = normalizeBatchCount (VNum v) in if js_num_eq normalized DEFAULT_BATCH_COUNT then None else Some normalized)"

definition supportsBatchCount :: "(jsstring \<Rightarrow> jsstring) \<Rightarrow> jsstring \<Rightarrow> bool" where
  "supportsBatchCount lower model \<longleftrightarrow>
    (let m = lower model in
     m \<noteq> [] \<and> list_ex (\<lambda>keyword. js_includes m (js keyword))
       [''image'', ''dall-e'', ''dalle'', ''gpt-image'', ''gptimage'', ''flux'', ''imagen'', ''nanobanana'', ''seedream'', ''ideogram''])"

subsection \<open>The request\<close>

record chat_request =
  rq_model :: jsstring
  rq_group :: jsstring
  rq_messages :: "(role \<times> api_content) list"
  rq_stream :: bool
  rq_temperature :: "jsnum option"
  rq_top_p :: "jsnum option"
  rq_max_tokens :: "jsnum option"
  rq_frequency_penalty :: "jsnum option"
  rq_presence_penalty :: "jsnum option"
  rq_seed :: "jsnum option"
  rq_size :: "jsstring option"
  rq_n :: "jsnum option"
  rq_reasoning_effort :: "jsstring option"

definition buildChatCompletionPayload :: "message list \<Rightarrow> playground_config \<Rightarrow> parameter_enabled \<Rightarrow> chat_request" where
  "buildChatCompletionPayload messages config enabled =
    (let processedMessages = map formatMessageForAPI (filter isValidMessage messages);
         systemPrompt = js_trim (cf_system_prompt config);
         hasSystemMessage = list_ex (\<lambda>m. fst m = RSystem) processedMessages
     in \<lparr>rq_model = cf_model config, rq_group = cf_group config,
         rq_messages = (if systemPrompt \<noteq> [] \<and> \<not> hasSystemMessage then (RSystem, PlainText systemPrompt) # processedMessages else processedMessages),
         rq_stream = cf_stream config,
         rq_temperature = (if en_temperature enabled then Some (cf_temperature config) else None),
         rq_top_p = (if en_top_p enabled then Some (cf_top_p config) else None),
         rq_max_tokens = (if en_max_tokens enabled then Some (cf_max_tokens config) else None),
         rq_frequency_penalty = (if en_frequency_penalty enabled then Some (cf_frequency_penalty config) else None),
         rq_presence_penalty = (if en_presence_penalty enabled then Some (cf_presence_penalty config) else None),
         rq_seed = (if en_seed enabled then cf_seed config else None),
         rq_size = (if en_size enabled \<and> cf_size config \<noteq> [] then Some (cf_size config) else None),
         rq_n = (if en_batch_count enabled then toRequestBatchCount (cf_batch_count config) else None),
         rq_reasoning_effort = (if en_reasoning_effort enabled \<and> cf_reasoning_effort config \<noteq> [] then Some (cf_reasoning_effort config) else None)\<rparr>)"

subsection \<open>Presets\<close>

record agent_preset =
  ap_id :: jsstring
  ap_name :: jsstring
  ap_model :: "jsstring option"
  ap_group :: "jsstring option"
  ap_system_prompt :: "jsstring option"
  ap_temperature :: "jsnum option"
  ap_max_tokens :: "jsnum option"
  ap_reasoning_effort :: "jsstring option"

text \<open>\<open>[...value].length\<close>: the number of code points.\<close>

fun runeLength :: "jsstring \<Rightarrow> nat" where
  "runeLength [] = 0"
| "runeLength [c] = 1"
| "runeLength (c # d # s) = (if high_surrogate c \<and> low_surrogate d then 1 + runeLength s else 1 + runeLength (d # s))"

datatype preset_error =
    NameRequired | NameTooLong | SystemPromptTooLong | TemperatureOutOfRange | MaxTokensOutOfRange | TooManyPresets

definition validatePreset :: "agent_preset \<Rightarrow> preset_error option" where
  "validatePreset preset =
    (let name = js_trim (ap_name preset) in
     if name = [] then Some NameRequired
     else if runeLength name > 64 then Some NameTooLong
     else if runeLength (case ap_system_prompt preset of Some s \<Rightarrow> s | None \<Rightarrow> []) > 8000 then Some SystemPromptTooLong
     else if (case ap_temperature preset of None \<Rightarrow> False
          | Some t \<Rightarrow> \<not> is_finite t \<or> js_lt t (Fin 0) \<or> js_lt (Fin 2) t) then Some TemperatureOutOfRange
     else if (case ap_max_tokens preset of None \<Rightarrow> False
          | Some n \<Rightarrow> \<not> is_integer n \<or> js_le n (Fin 0) \<or> js_lt (Fin 32000) n) then Some MaxTokensOutOfRange
     else None)"

fun first_preset_error :: "agent_preset list \<Rightarrow> preset_error option" where
  "first_preset_error [] = None"
| "first_preset_error (p # ps) = (case validatePreset p of Some e \<Rightarrow> Some e | None \<Rightarrow> first_preset_error ps)"

definition validatePresetList :: "agent_preset list \<Rightarrow> preset_error option" where
  "validatePresetList presets = (if length presets > 20 then Some TooManyPresets else first_preset_error presets)"

text \<open>A text of a preset replaces the current one if it is given and not empty.\<close>

definition override_text :: "jsstring option \<Rightarrow> jsstring \<Rightarrow> jsstring" where
  "override_text given old = (case given of Some s \<Rightarrow> if s \<noteq> [] then s else old | None \<Rightarrow> old)"

definition applyPresetToConfig :: "playground_config \<Rightarrow> agent_preset \<Rightarrow> playground_config" where
  "applyPresetToConfig config preset =
    config\<lparr>cf_model := override_text (ap_model preset) (cf_model config),
           cf_group := override_text (ap_group preset) (cf_group config),
           cf_system_prompt := override_text (ap_system_prompt preset) (cf_system_prompt config),
           cf_temperature := (case ap_temperature preset of Some t \<Rightarrow> t | None \<Rightarrow> cf_temperature config),
           cf_max_tokens := (case ap_max_tokens preset of Some n \<Rightarrow> n | None \<Rightarrow> cf_max_tokens config),
           cf_reasoning_effort := override_text (ap_reasoning_effort preset) (cf_reasoning_effort config)\<rparr>"

text \<open>\<open>i\<close> is the new identifier.\<close>

definition presetFromConfig :: "jsstring \<Rightarrow> playground_config \<Rightarrow> jsstring \<Rightarrow> agent_preset" where
  "presetFromConfig i config name =
    (let given = (\<lambda>s. if s = [] then None else Some s) in
     \<lparr>ap_id = i, ap_name = name, ap_model = given (cf_model config), ap_group = given (cf_group config),
      ap_system_prompt = given (cf_system_prompt config), ap_temperature = Some (cf_temperature config),
      ap_max_tokens = Some (cf_max_tokens config), ap_reasoning_effort = given (cf_reasoning_effort config)\<rparr>)"

subsection \<open>Kinds of models\<close>

datatype model_kind = TextKind | ImageKind | VideoKind | AudioKind | EmbeddingKind

definition MODEL_KIND_ORDER :: "model_kind list" where
  "MODEL_KIND_ORDER = [TextKind, ImageKind, VideoKind, AudioKind, EmbeddingKind]"

definition IMAGE_KEYWORDS :: "jsstring list" where
  "IMAGE_KEYWORDS = map js [''dall-e'', ''dalle'', ''gpt-image'', ''gptimage'', ''image'', ''imagen'', ''flux'', ''midjourney'',
     ''stable-diffusion'', ''sd3'', ''sdxl'', ''nanobanana'', ''nano-banana'', ''seedream'', ''seededit'', ''kolors'', ''ideogram'', ''recraft'',
     ''playground-v'', ''qwen-image'', ''wanx'', ''agnes-image'', ''mj'']"

definition AUDIO_KEYWORDS :: "jsstring list" where
  "AUDIO_KEYWORDS = map js [''tts'', ''whisper'', ''audio'', ''speech'', ''voice'', ''suno'', ''music'', ''lyrics'', ''transcribe'',
     ''transcription'', ''realtime'']"

definition EMBEDDING_KEYWORDS :: "jsstring list" where
  "EMBEDDING_KEYWORDS = map js [''embedding'', ''embed'', ''bge-'', ''text-embedding'', ''rerank'']"

definition matchesAny :: "jsstring \<Rightarrow> jsstring list \<Rightarrow> bool" where
  "matchesAny haystack needles \<longleftrightarrow> list_ex (\<lambda>needle. js_includes haystack needle) needles"

definition getModelKind :: "(jsstring \<Rightarrow> jsstring) \<Rightarrow> jsstring \<Rightarrow> model_kind" where
  "getModelKind lower model =
    (let name = js_trim (lower model) in
     if name = [] then TextKind
     else if isVideoModel lower name then VideoKind
     else if matchesAny name EMBEDDING_KEYWORDS then EmbeddingKind
     else if matchesAny name AUDIO_KEYWORDS then AudioKind
     else if matchesAny name IMAGE_KEYWORDS then ImageKind
     else TextKind)"

fun kind_label :: "model_kind \<Rightarrow> jsstring" where
  "kind_label TextKind = js ''Text''"
| "kind_label ImageKind = js ''Image''"
| "kind_label VideoKind = js ''Video''"
| "kind_label AudioKind = js ''Audio''"
| "kind_label EmbeddingKind = js ''Embedding''"

definition getModelKindLabel :: "(jsstring \<Rightarrow> jsstring) \<Rightarrow> jsstring \<Rightarrow> jsstring" where
  "getModelKindLabel lower model = kind_label (getModelKind lower model)"

definition isMediaGenerationKind :: "model_kind \<Rightarrow> bool" where
  "isMediaGenerationKind kind \<longleftrightarrow> kind = ImageKind \<or> kind = VideoKind \<or> kind = AudioKind"

text \<open>The models are their names, with \<open>value\<close> the name.\<close>

definition groupModelsByKind :: "(jsstring \<Rightarrow> jsstring) \<Rightarrow> jsstring list \<Rightarrow> (model_kind \<times> jsstring list) list" where
  "groupModelsByKind lower models =
    (let buckets = collected (getModelKind lower) models in
     concat (map (\<lambda>kind. case map_of buckets kind of Some xs \<Rightarrow> if xs \<noteq> [] then [(kind, xs)] else [] | None \<Rightarrow> []) MODEL_KIND_ORDER))"

fun mapUserModels :: "(jsstring \<Rightarrow> jsstring) \<Rightarrow> jsval \<Rightarrow> (jsstring \<times> jsstring) list" where
  "mapUserModels lower (VArr raw) =
    List.map_filter (\<lambda>model. case model of VStr s \<Rightarrow> if s \<noteq> [] then Some (s, getModelKindLabel lower s) else None | _ \<Rightarrow> None) raw"
| "mapUserModels lower raw = []"

subsection \<open>Fallbacks\<close>

definition getModelFallback :: "jsstring list \<Rightarrow> jsstring \<Rightarrow> jsstring option" where
  "getModelFallback models currentModel = (if currentModel \<in> set models then None else case models of [] \<Rightarrow> None | m # ms \<Rightarrow> Some m)"

definition shouldClearModelForGroup :: "jsstring list \<Rightarrow> jsstring \<Rightarrow> bool" where
  "shouldClearModelForGroup models currentModel \<longleftrightarrow> currentModel \<noteq> [] \<and> currentModel \<notin> set models"

definition getGroupFallback :: "jsstring list \<Rightarrow> jsstring \<Rightarrow> jsstring option" where
  "getGroupFallback groups currentGroup =
    (if currentGroup \<in> set groups then None
     else case groups of
       [] \<Rightarrow> None
     | g # gs \<Rightarrow> Some (case find (\<lambda>x. x = js ''default'') groups of Some x \<Rightarrow> x | None \<Rightarrow> g))"

subsection \<open>Lemmas\<close>

lemma batch_count_bounds:
  "(toRequestBatchCount v = Some k \<longrightarrow> k = v \<and> (\<exists>i. 2 \<le> i \<and> i \<le> 8 \<and> num_int v i))
   \<and> (\<forall>i. 2 \<le> i \<longrightarrow> i \<le> 8 \<longrightarrow> num_int v i \<longrightarrow> toRequestBatchCount v = Some v)"
proof -
  have f: "is_integer v \<longleftrightarrow> (\<exists>i. num_int v i)"
    by (auto simp: is_integer_def num_int_def)
  have int: "toRequestBatchCount v = (if 2 \<le> i \<and> i \<le> 8 then Some v else None)" if i: "num_int v i" for i
  proof -
    have "num_int (Fin 1) 1" "num_int (Fin 8) 8" by simp_all
    from num_int_order [OF i this(1)] num_int_order [OF this(1) i] num_int_order [OF this(2) i] have
      o: "js_lt v (Fin 1) \<longleftrightarrow> i < 1" "js_num_eq v (Fin 1) \<longleftrightarrow> i = 1" "js_lt (Fin 8) v \<longleftrightarrow> 8 < i" by simp_all
    have "is_finite v" "is_integer v" using i f by (auto simp: num_int_def)
    then show ?thesis using o by (auto simp: toRequestBatchCount_def normalizeBatchCount_def Let_def MAX_BATCH_COUNT_def DEFAULT_BATCH_COUNT_def)
  qed
  have none: "toRequestBatchCount v = None" if "\<not> is_integer v"
    using that by (simp add: toRequestBatchCount_def normalizeBatchCount_def Let_def DEFAULT_BATCH_COUNT_def)
  have "k = v \<and> (\<exists>i. 2 \<le> i \<and> i \<le> 8 \<and> num_int v i)" if some: "toRequestBatchCount v = Some k"
  proof -
    have "is_integer v" using some none by fastforce
    then obtain i where i: "num_int v i" using f by blast
    with int [OF i] some show ?thesis by (auto split: if_splits)
  qed
  with int show ?thesis by simp
qed

text \<open>The groups of models are a partition, in the order of the kinds and without empty groups; a name that is taken for a video model is never in another one.\<close>

lemma model_groups_partition:
  "map fst (groupModelsByKind lower models) = filter (\<lambda>k. \<exists>m \<in> set models. getModelKind lower m = k) MODEL_KIND_ORDER
   \<and> (\<forall>(k, xs) \<in> set (groupModelsByKind lower models). xs = filter (\<lambda>m. getModelKind lower m = k) models)
   \<and> mset (concat (map snd (groupModelsByKind lower models))) = mset models"
proof -
  let ?f = "\<lambda>k. filter (\<lambda>m. getModelKind lower m = k) models"
  let ?P = "\<lambda>k. \<exists>m \<in> set models. getModelKind lower m = k"
  have "concat (map (\<lambda>k. case map_of (collected (getModelKind lower) models) k of Some xs \<Rightarrow> if xs \<noteq> [] then [(k, xs)] else [] | None \<Rightarrow> []) ks)
      = map (\<lambda>k. (k, ?f k)) (filter ?P ks)" for ks
    by (induction ks) (auto simp: collected_map Let_def filter_empty_conv)
  then have g: "groupModelsByKind lower models = map (\<lambda>k. (k, ?f k)) (filter ?P MODEL_KIND_ORDER)" by (simp add: groupModelsByKind_def)
  have "concat (map ?f (filter ?P MODEL_KIND_ORDER)) = concat (map ?f MODEL_KIND_ORDER)"
    by (rule filter_nonempty_concat) (auto simp: filter_empty_conv)
  moreover have "mset (concat (map ?f MODEL_KIND_ORDER)) = mset models"
    by (rule buckets_partition) (auto simp: MODEL_KIND_ORDER_def, metis model_kind.exhaust)
  ultimately show ?thesis by (auto simp: g comp_def)
qed

lemma video_model_with_batch_count: "supportsBatchCount id (js ''veo-image'') \<and> getModelKind id (js ''veo-image'') = VideoKind"
  by code_simp

subsection \<open>Properties\<close>

text \<open>
  C32: A request carries a number of images only if the parameter is enabled and the configured number is an integer from 2 to 8, and then
  that number. Its messages are the valid messages in their order, after at most one message with the system prompt; a system prompt that
  is not blank is never missing, and it is added only if there is no other system message.
\<close>

theorem payload_contract:
  "let q = buildChatCompletionPayload messages config enabled in
    (rq_n q = Some k \<longleftrightarrow> en_batch_count enabled \<and> k = cf_batch_count config \<and> (\<exists>i. 2 \<le> i \<and> i \<le> 8 \<and> num_int k i))
    \<and> (\<exists>sys. rq_messages q = sys @ map formatMessageForAPI (filter isValidMessage messages)
        \<and> (sys = [] \<or> sys = [(RSystem, PlainText (js_trim (cf_system_prompt config)))] \<and> filter (\<lambda>m. fst m = RSystem) (rq_messages q) = sys))
    \<and> (js_trim (cf_system_prompt config) = [] \<or> list_ex (\<lambda>m. fst m = RSystem) (rq_messages q))"
proof -
  define q where "q = buildChatCompletionPayload messages config enabled"
  let ?ms = "map formatMessageForAPI (filter isValidMessage messages)"
  have n: "rq_n q = (if en_batch_count enabled then toRequestBatchCount (cf_batch_count config) else None)"
    by (simp add: q_def buildChatCompletionPayload_def Let_def)
  have m: "rq_messages q = (if js_trim (cf_system_prompt config) \<noteq> [] \<and> \<not> list_ex (\<lambda>m. fst m = RSystem) ?ms
      then (RSystem, PlainText (js_trim (cf_system_prompt config))) # ?ms else ?ms)"
    by (simp only: q_def buildChatCompletionPayload_def Let_def chat_request.select_convs)
  have "filter (\<lambda>m. fst m = RSystem) ?ms = []" if "\<not> list_ex (\<lambda>m. fst m = RSystem) ?ms"
    using that by (simp only: list_ex_iff filter_empty_conv) blast
  then have "\<exists>sys. rq_messages q = sys @ ?ms
      \<and> (sys = [] \<or> sys = [(RSystem, PlainText (js_trim (cf_system_prompt config)))] \<and> filter (\<lambda>m. fst m = RSystem) (rq_messages q) = sys)"
    by (cases "js_trim (cf_system_prompt config) \<noteq> [] \<and> \<not> list_ex (\<lambda>m. fst m = RSystem) ?ms")
      (rule exI [of _ "[(RSystem, PlainText (js_trim (cf_system_prompt config)))]"], simp add: m, rule exI [of _ "[]"], simp add: m)
  moreover have "js_trim (cf_system_prompt config) = [] \<or> list_ex (\<lambda>m. fst m = RSystem) (rq_messages q)" unfolding m by simp
  moreover have "rq_n q = Some k \<longleftrightarrow> en_batch_count enabled \<and> k = cf_batch_count config \<and> (\<exists>i. 2 \<le> i \<and> i \<le> 8 \<and> num_int k i)"
    using batch_count_bounds [of "cf_batch_count config" k] unfolding n by auto
  ultimately show ?thesis unfolding q_def [symmetric] Let_def by blast
qed

text \<open>
  A preset made from a configuration gives the configuration back when it is applied to it; applying a preset twice is
  the same as once, and leaves every setting that presets do not have; and a preset that passed the check sets a temperature from 0 to 2 and a
  limit of tokens that is an integer from 1 to 32000, if it sets them.
\<close>

theorem preset_roundtrip:
  "applyPresetToConfig config (presetFromConfig i config name) = config
   \<and> applyPresetToConfig (applyPresetToConfig c p) p = applyPresetToConfig c p
   \<and> (applyPresetToConfig c p)\<lparr>cf_model := cf_model c, cf_group := cf_group c, cf_system_prompt := cf_system_prompt c,
        cf_temperature := cf_temperature c, cf_max_tokens := cf_max_tokens c, cf_reasoning_effort := cf_reasoning_effort c\<rparr> = c
   \<and> (validatePreset p = None \<longrightarrow> ap_max_tokens p = Some n \<longrightarrow> (\<exists>j. 1 \<le> j \<and> j \<le> 32000 \<and> num_int n j))
   \<and> (validatePreset p = None \<longrightarrow> ap_temperature p = Some t \<longrightarrow> 0 \<le> num_val t \<and> num_val t \<le> 2)"
proof -
  have "applyPresetToConfig config (presetFromConfig i config name) = config"
    by (simp add: applyPresetToConfig_def presetFromConfig_def override_text_def Let_def)
  moreover have o: "override_text g (override_text g s) = override_text g s" for g s by (simp add: override_text_def split: option.split)
  then have "applyPresetToConfig (applyPresetToConfig c p) p = applyPresetToConfig c p"
    by (simp add: applyPresetToConfig_def split: option.split)
  moreover have "\<exists>j. 1 \<le> j \<and> j \<le> 32000 \<and> num_int n j" if "validatePreset p = None" "ap_max_tokens p = Some n"
  proof -
    have "is_integer n" "\<not> js_le n (Fin 0)" "\<not> js_lt (Fin 32000) n"
      using that by (auto simp: validatePreset_def Let_def split: if_splits option.splits)
    moreover from this(1) obtain j where j: "num_int n j" by (auto simp: is_integer_def num_int_def)
    moreover have "num_int (Fin 0) 0" "num_int (Fin 32000) 32000" by simp_all
    ultimately show ?thesis using num_int_order(3) [OF j, of "Fin 0" 0] num_int_order(1) [of "Fin 32000" 32000 n j] by (intro exI [of _ j]) simp
  qed
  moreover have "0 \<le> num_val t \<and> num_val t \<le> 2" if "validatePreset p = None" "ap_temperature p = Some t"
  proof -
    have "is_finite t" "\<not> js_lt t (Fin 0)" "\<not> js_lt (Fin 2) t"
      using that by (auto simp: validatePreset_def Let_def split: if_splits option.splits)
    then show ?thesis by (cases t) auto
  qed
  ultimately show ?thesis by (auto simp: applyPresetToConfig_def)
qed

theorem preset_roundtrip_witness:
  "applyPresetToConfig DEFAULT_CONFIG (presetFromConfig (js ''i'') DEFAULT_CONFIG (js ''n'')) = DEFAULT_CONFIG
   \<and> (\<exists>j. 1 \<le> j \<and> j \<le> 32000 \<and> num_int (Fin 4096) j)"
proof -
  let ?p = "presetFromConfig (js ''i'') DEFAULT_CONFIG (js ''n'')"
  have "validatePreset ?p = None" "ap_max_tokens ?p = Some (Fin 4096)" by code_simp+
  with preset_roundtrip [of DEFAULT_CONFIG "js ''i''" "js ''n''" DEFAULT_CONFIG ?p "Fin 4096" "Fin 0"] show ?thesis by blast
qed

end
